(* ===== verification/Prelude.thy ===== *)
theory Prelude
  imports Main "HOL-Library.Sublist"
begin

text \<open>
  Shared vocabulary of the development: Go's byte strings and the few functions of the
  packages strings and strconv the server uses, and generic lemmas on lists.  A Go string and
  a Go byte slice are both a list of 8-bit characters.
\<close>

named_theorems go_str \<open>definitions of the Go string functions\<close>

section \<open>Byte strings\<close>

type_synonym bytes = string

abbreviation slash :: char where "slash \<equiv> CHR ''/''"

abbreviation dquote :: char where "dquote \<equiv> CHR 0x22"

abbreviation crlf :: bytes where "crlf \<equiv> [CHR 0x0D, CHR 0x0A]"

text \<open>The characters strings.TrimSpace drops, those of ASCII.\<close>

definition is_space :: "char \<Rightarrow> bool" where
  "is_space c \<longleftrightarrow> c \<in> {CHR '' '', CHR 0x09, CHR 0x0A, CHR 0x0B, CHR 0x0C, CHR 0x0D}"

definition is_digit :: "char \<Rightarrow> bool" where
  "is_digit c \<longleftrightarrow> 48 \<le> (of_char c :: nat) \<and> (of_char c :: nat) \<le> 57"

definition is_lower :: "char \<Rightarrow> bool" where
  "is_lower c \<longleftrightarrow> 97 \<le> (of_char c :: nat) \<and> (of_char c :: nat) \<le> 122"

definition has_prefix :: "bytes \<Rightarrow> bytes \<Rightarrow> bool" where
  [go_str]: "has_prefix s p \<longleftrightarrow> prefix p s"

definition has_suffix :: "bytes \<Rightarrow> bytes \<Rightarrow> bool" where
  [go_str]: "has_suffix s p \<longleftrightarrow> suffix p s"

definition trim_prefix :: "bytes \<Rightarrow> bytes \<Rightarrow> bytes" where
  [go_str]: "trim_prefix s p = (if has_prefix s p then drop (length p) s else s)"

definition trim_suffix :: "bytes \<Rightarrow> bytes \<Rightarrow> bytes" where
  [go_str]: "trim_suffix s p = (if has_suffix s p then take (length s - length p) s else s)"

definition trim_left_by :: "(char \<Rightarrow> bool) \<Rightarrow> bytes \<Rightarrow> bytes" where
  [go_str]: "trim_left_by q s = dropWhile q s"

definition trim_right_by :: "(char \<Rightarrow> bool) \<Rightarrow> bytes \<Rightarrow> bytes" where
  [go_str]: "trim_right_by q s = rev (dropWhile q (rev s))"

text \<open>
  strings.TrimSpace drops the characters of unicode.IsSpace at both ends: those of ASCII, and
  the others in their UTF-8 encoding.
\<close>

definition space_runes :: "bytes list" where
  "space_runes =
     [[CHR '' ''], [CHR 0x09], [CHR 0x0A], [CHR 0x0B], [CHR 0x0C], [CHR 0x0D],
      [CHR 0xC2, CHR 0x85], [CHR 0xC2, CHR 0xA0], [CHR 0xE1, CHR 0x9A, CHR 0x80],
      [CHR 0xE2, CHR 0x80, CHR 0x80], [CHR 0xE2, CHR 0x80, CHR 0x81], [CHR 0xE2, CHR 0x80, CHR 0x82],
      [CHR 0xE2, CHR 0x80, CHR 0x83], [CHR 0xE2, CHR 0x80, CHR 0x84], [CHR 0xE2, CHR 0x80, CHR 0x85],
      [CHR 0xE2, CHR 0x80, CHR 0x86], [CHR 0xE2, CHR 0x80, CHR 0x87], [CHR 0xE2, CHR 0x80, CHR 0x88],
      [CHR 0xE2, CHR 0x80, CHR 0x89], [CHR 0xE2, CHR 0x80, CHR 0x8A], [CHR 0xE2, CHR 0x80, CHR 0xA8],
      [CHR 0xE2, CHR 0x80, CHR 0xA9], [CHR 0xE2, CHR 0x80, CHR 0xAF], [CHR 0xE2, CHR 0x81, CHR 0x9F],
      [CHR 0xE3, CHR 0x80, CHR 0x80]]"

function trim_runes :: "bytes list \<Rightarrow> bytes \<Rightarrow> bytes" where
  "trim_runes ps s =
     (case find (\<lambda>p. p \<noteq> [] \<and> prefix p s) ps of
        None \<Rightarrow> s
      | Some p \<Rightarrow> trim_runes ps (drop (length p) s))"
  by pat_completeness auto

termination
  by (relation "measure (\<lambda>(_, s). length s)") (auto simp: find_Some_iff prefix_def)

declare trim_runes.simps [simp del]

definition trim_space :: "bytes \<Rightarrow> bytes" where
  "trim_space s = rev (trim_runes (map rev space_runes) (rev (trim_runes space_runes s)))"

lemma trim_runes_keep:
  assumes "\<And>p. p \<in> set ps \<Longrightarrow> p \<noteq> [] \<Longrightarrow> s \<noteq> [] \<Longrightarrow> hd p \<noteq> hd s"
  shows "trim_runes ps s = s"
proof -
  have "find (\<lambda>p. p \<noteq> [] \<and> prefix p s) ps = None"
    using assms by (fastforce simp: find_None_iff prefix_def hd_append)
  then show ?thesis by (simp add: trim_runes.simps [of ps s])
qed

text \<open>A graphic ASCII character is never trimmed.\<close>

definition graphic :: "char \<Rightarrow> bool" where
  "graphic c \<longleftrightarrow> 33 \<le> (of_char c :: nat) \<and> (of_char c :: nat) \<le> 126"

lemma space_runes_hd: "p \<in> set space_runes \<Longrightarrow> \<not> graphic (hd p) \<and> \<not> graphic (last p)"
  by (auto simp: space_runes_def graphic_def)

lemma space_runes_nonempty: "p \<in> set space_runes \<Longrightarrow> p \<noteq> []"
  by (auto simp: space_runes_def)

lemma trim_space_keep:
  assumes "s \<noteq> [] \<Longrightarrow> graphic (hd s) \<and> graphic (last s)"
  shows "trim_space s = s"
proof -
  have a: "trim_runes space_runes s = s"
    using assms space_runes_hd by (intro trim_runes_keep) metis
  have b: "trim_runes (map rev space_runes) (rev s) = rev s"
  proof (rule trim_runes_keep)
    fix p assume "p \<in> set (map rev space_runes)" "p \<noteq> []" "rev s \<noteq> []"
    then obtain q where "q \<in> set space_runes" "p = rev q" "s \<noteq> []" by auto
    then show "hd p \<noteq> hd (rev s)"
      using assms space_runes_hd [of q] space_runes_nonempty [of q] by (metis hd_rev)
  qed
  show ?thesis by (simp add: trim_space_def a b)
qed

lemma graphic_digit: "is_digit c \<Longrightarrow> graphic c"
  by (auto simp: is_digit_def graphic_def)

text \<open>strings.Split by a single character: always at least one part.\<close>

fun split_on :: "char \<Rightarrow> bytes \<Rightarrow> bytes list" where
  "split_on c [] = [[]]"
| "split_on c (x # xs) =
     (if x = c then [] # split_on c xs
      else (x # hd (split_on c xs)) # tl (split_on c xs))"

text \<open>strings.Join with a single character.\<close>

fun join_with :: "char \<Rightarrow> bytes list \<Rightarrow> bytes" where
  "join_with c [] = []"
| "join_with c [s] = s"
| "join_with c (s # t # ss) = s @ c # join_with c (t # ss)"

lemma split_on_nonempty [simp]: "split_on c s \<noteq> []"
  by (cases s) auto

lemma join_split [simp]: "join_with c (split_on c s) = s"
proof (induction s)
  case Nil
  then show ?case by simp
next
  case (Cons x xs)
  obtain h t where ht: "split_on c xs = h # t"
    by (cases "split_on c xs") (auto simp: split_on_nonempty)
  show ?case
  proof (cases t)
    case Nil
    then show ?thesis using Cons ht by auto
  next
    case (Cons u us)
    then show ?thesis using Cons.IH ht by auto
  qed
qed

lemma split_on_no_sep: "c \<notin> set s \<Longrightarrow> split_on c s = [s]"
  by (induction s) auto

lemma split_on_parts: "p \<in> set (split_on c s) \<Longrightarrow> c \<notin> set p"
proof (induction s arbitrary: p)
  case Nil
  then show ?case by simp
next
  case (Cons x xs)
  obtain h t where ht: "split_on c xs = h # t"
    by (cases "split_on c xs") auto
  show ?case using Cons ht by (auto split: if_splits)
qed

lemma split_on_append_sep:
  "c \<notin> set a \<Longrightarrow> split_on c (a @ c # s) = a # split_on c s"
  by (induction a) auto

lemma split_join:
  "ps \<noteq> [] \<Longrightarrow> \<forall>p \<in> set ps. c \<notin> set p \<Longrightarrow> split_on c (join_with c ps) = ps"
proof (induction ps rule: join_with.induct)
  case (1 c)
  then show ?case by simp
next
  case (2 c s)
  then show ?case by (simp add: split_on_no_sep)
next
  case (3 c s t ss)
  then show ?case by (simp add: split_on_append_sep)
qed

lemma join_with_inj:
  assumes "join_with c ps = join_with c qs" "ps \<noteq> []" "qs \<noteq> []"
    "\<forall>p \<in> set ps. c \<notin> set p" "\<forall>p \<in> set qs. c \<notin> set p"
  shows "ps = qs"
  using assms by (metis split_join)

lemma set_split_on: "p \<in> set (split_on c s) \<Longrightarrow> set p \<subseteq> set s"
proof (induction s arbitrary: p)
  case Nil
  then show ?case by simp
next
  case (Cons x xs)
  obtain h t where ht: "split_on c xs = h # t"
    by (cases "split_on c xs") auto
  have IH: "set h \<subseteq> set xs" "\<And>q. q \<in> set t \<Longrightarrow> set q \<subseteq> set xs"
    using Cons.IH ht by auto
  show ?case using Cons.prems IH ht by (auto split: if_splits)
qed

lemma split_on_append: "split_on c (a @ c # b) = split_on c a @ split_on c b"
proof (induction a)
  case Nil
  then show ?case by simp
next
  case (Cons x xs)
  obtain h t where "split_on c xs = h # t"
    by (cases "split_on c xs") auto
  then show ?case using Cons by auto
qed

lemma set_join_with: "set (join_with c ps) \<subseteq> insert c (\<Union>p \<in> set ps. set p)"
  by (induction c ps rule: join_with.induct) auto

lemma join_with_append:
  "ps \<noteq> [] \<Longrightarrow> qs \<noteq> [] \<Longrightarrow> join_with c (ps @ qs) = join_with c ps @ c # join_with c qs"
proof (induction c ps rule: join_with.induct)
  case (1 c)
  then show ?case by simp
next
  case (2 c s)
  then show ?case by (cases qs) auto
next
  case (3 c s t ss)
  then show ?case by simp
qed

text \<open>The text before and after the first occurrence of a character: strings.Cut.\<close>

fun cut_at :: "char \<Rightarrow> bytes \<Rightarrow> (bytes \<times> bytes) option" where
  "cut_at c [] = None"
| "cut_at c (x # xs) =
     (if x = c then Some ([], xs)
      else case cut_at c xs of None \<Rightarrow> None | Some (a, b) \<Rightarrow> Some (x # a, b))"

lemma cut_at_Some: "cut_at c s = Some (a, b) \<Longrightarrow> s = a @ c # b \<and> c \<notin> set a"
  by (induction s arbitrary: a b) (auto split: if_splits option.splits)

lemma cut_at_append: "c \<notin> set a \<Longrightarrow> cut_at c (a @ c # b) = Some (a, b)"
  by (induction a) auto

text \<open>bytes.IndexAny with one character.\<close>

fun index_of :: "char \<Rightarrow> bytes \<Rightarrow> nat option" where
  "index_of c [] = None"
| "index_of c (x # xs) = (if x = c then Some 0 else map_option Suc (index_of c xs))"

lemma index_of_Some:
  "index_of c s = Some i \<Longrightarrow> i < length s \<and> s ! i = c \<and> c \<notin> set (take i s)"
  by (induction s arbitrary: i) (auto split: if_splits)

lemma index_of_append: "c \<notin> set a \<Longrightarrow> index_of c (a @ c # b) = Some (length a)"
  by (induction a) auto

lemma index_of_None: "index_of c s = None \<longleftrightarrow> c \<notin> set s"
  by (induction s) auto

text \<open>strings.ToLower on ASCII letters.\<close>

definition to_lower :: "bytes \<Rightarrow> bytes" where
  [go_str]: "to_lower s =
     map (\<lambda>c. if 65 \<le> (of_char c :: nat) \<and> (of_char c :: nat) \<le> 90
              then char_of (of_char c + 32 :: nat) else c) s"

definition equal_fold :: "bytes \<Rightarrow> bytes \<Rightarrow> bool" where
  [go_str]: "equal_fold s t \<longleftrightarrow> to_lower s = to_lower t"

section \<open>Decimal and hexadecimal numbers\<close>

definition digit_char :: "nat \<Rightarrow> char" where
  "digit_char d = (if d < 10 then char_of (48 + d) else char_of (87 + d))"

definition digit_val :: "char \<Rightarrow> nat option" where
  "digit_val c =
     (let n = (of_char c :: nat) in
      if 48 \<le> n \<and> n \<le> 57 then Some (n - 48)
      else if 97 \<le> n \<and> n \<le> 122 then Some (n - 87)
      else if 65 \<le> n \<and> n \<le> 90 then Some (n - 55)
      else None)"

fun print_nat :: "nat \<Rightarrow> nat \<Rightarrow> bytes" where
  "print_nat b n =
     (if b < 2 \<or> n < b then [digit_char n] else print_nat b (n div b) @ [digit_char (n mod b)])"

declare print_nat.simps [simp del]

fun digits_val :: "nat \<Rightarrow> nat \<Rightarrow> bytes \<Rightarrow> nat option" where
  "digits_val b acc [] = Some acc"
| "digits_val b acc (c # cs) =
     (case digit_val c of
        None \<Rightarrow> None
      | Some d \<Rightarrow> if d < b then digits_val b (acc * b + d) cs else None)"

text \<open>
  strconv.ParseInt with an explicit base and a bit size: an optional sign, at least one
  digit, and an error when the value does not fit.
\<close>

definition parse_int :: "nat \<Rightarrow> nat \<Rightarrow> bytes \<Rightarrow> int option" where
  "parse_int base bits s =
     (let (neg, body) =
        (case s of
           [] \<Rightarrow> (False, [])
         | c # cs \<Rightarrow> if c = CHR ''-'' then (True, cs)
                    else if c = CHR ''+'' then (False, cs) else (False, s))
      in if body = [] then None
         else case digits_val base 0 body of
                None \<Rightarrow> None
              | Some n \<Rightarrow>
                  if neg then (if n \<le> 2 ^ (bits - 1) then Some (- int n) else None)
                  else if n < 2 ^ (bits - 1) then Some (int n) else None)"

definition print_int :: "int \<Rightarrow> bytes" where
  "print_int i = (if i < 0 then CHR ''-'' # print_nat 10 (nat (- i)) else print_nat 10 (nat i))"

definition pad_zero :: "nat \<Rightarrow> bytes \<Rightarrow> bytes" where
  "pad_zero k s = replicate (k - length s) (CHR ''0'') @ s"

lemma of_char_digit_char: "d < 36 \<Longrightarrow>
    (of_char (digit_char d) :: nat) = (if d < 10 then 48 + d else 87 + d)"
  by (simp add: digit_char_def)

lemma digit_val_char: "d < 36 \<Longrightarrow> digit_val (digit_char d) = Some d"
  by (auto simp: digit_val_def of_char_digit_char Let_def)

lemma digits_val_append:
  "digits_val b acc (xs @ ys) =
     (case digits_val b acc xs of None \<Rightarrow> None | Some n \<Rightarrow> digits_val b n ys)"
  by (induction xs arbitrary: acc) (auto split: option.splits)

lemma digits_val_print:
  assumes "2 \<le> b" "b \<le> 36"
  shows "digits_val b 0 (print_nat b n) = Some n"
proof (induction n rule: less_induct)
  case (less n)
  show ?case
  proof (cases "n < b")
    case True
    then show ?thesis using assms by (simp add: print_nat.simps digit_val_char)
  next
    case False
    have lt: "n div b < n" using False assms by (simp add: div_less_dividend)
    have "n mod b < b" using assms by (intro mod_less_divisor) simp
    then have m: "n mod b < b" "n mod b < 36" using assms by linarith+
    have "print_nat b n = print_nat b (n div b) @ [digit_char (n mod b)]"
      using False assms by (subst print_nat.simps) simp
    then show ?thesis
      using less.IH [OF lt] m by (simp add: digits_val_append digit_val_char)
  qed
qed

lemma print_nat_nonempty [simp]: "print_nat b n \<noteq> []"
  by (subst print_nat.simps) simp

lemma print_nat_digits:
  assumes "2 \<le> b" "b \<le> 10" "c \<in> set (print_nat b n)"
  shows "is_digit c"
  using assms(3)
proof (induction n rule: less_induct)
  case (less n)
  show ?case
  proof (cases "n < b")
    case True
    then show ?thesis using less.prems assms
      by (simp add: print_nat.simps is_digit_def of_char_digit_char)
  next
    case False
    have lt: "n div b < n" using False assms by (simp add: div_less_dividend)
    have "n mod b < b" using assms(1) by (intro mod_less_divisor) simp
    then have m: "n mod b < 10" using assms(2) by linarith
    have "print_nat b n = print_nat b (n div b) @ [digit_char (n mod b)]"
      using False assms by (subst print_nat.simps) simp
    then consider "c \<in> set (print_nat b (n div b))" | "c = digit_char (n mod b)"
      using less.prems by auto
    then show ?thesis
      by cases (use less.IH [OF lt] m in \<open>auto simp: is_digit_def of_char_digit_char\<close>)
  qed
qed

lemma digit_val_digit: "is_digit c \<Longrightarrow> digit_val c = Some (of_char c - 48)"
  by (auto simp: is_digit_def digit_val_def Let_def)

lemma digits_val_total:
  "list_all is_digit s \<Longrightarrow> \<exists>n. digits_val 10 acc s = Some n"
  by (induction s arbitrary: acc) (auto simp: digit_val_digit is_digit_def)

lemma is_digit_not_sign: "is_digit c \<Longrightarrow> c \<noteq> CHR ''-'' \<and> c \<noteq> CHR ''+''"
  by (auto simp: is_digit_def)

lemma parse_int_digits:
  assumes "list_all is_digit s" "s \<noteq> []"
  shows "parse_int 10 bits s =
    (case digits_val 10 0 s of None \<Rightarrow> None
     | Some n \<Rightarrow> if n < 2 ^ (bits - 1) then Some (int n) else None)"
proof (cases s)
  case Nil
  then show ?thesis using assms by simp
next
  case (Cons c cs)
  then have "c \<noteq> CHR ''-''" "c \<noteq> CHR ''+''" using assms is_digit_not_sign by auto
  then show ?thesis using Cons by (simp add: parse_int_def Let_def del: digits_val.simps split: option.split)
qed

lemma parse_print_nat:
  assumes "n < 2 ^ (bits - 1)"
  shows "parse_int 10 bits (print_nat 10 n) = Some (int n)"
proof -
  have "list_all is_digit (print_nat 10 n)"
    using print_nat_digits [of 10] by (auto simp: list_all_iff)
  then show ?thesis
    using assms by (simp add: parse_int_digits digits_val_print)
qed

lemma parse_int_bounds:
  assumes "parse_int b bits s = Some n"
  shows "- (2 ^ (bits - 1)) \<le> n \<and> n < 2 ^ (bits - 1)"
proof -
  have nz: "(0::int) \<le> 2 ^ (bits - 1)" by simp
  obtain m :: nat where "n = - int m \<and> m \<le> 2 ^ (bits - 1) \<and> n \<le> 0 \<or> n = int m \<and> m < 2 ^ (bits - 1)"
    using assms by (auto simp: parse_int_def Let_def split: list.splits if_splits option.splits)
  then show ?thesis
  proof
    assume a: "n = - int m \<and> m \<le> 2 ^ (bits - 1) \<and> n \<le> 0"
    then have "int m \<le> 2 ^ (bits - 1)" by (metis of_nat_le_iff of_nat_numeral of_nat_power)
    moreover have "(0::int) < 2 ^ (bits - 1)" by simp
    ultimately show ?thesis using a by linarith
  next
    assume a: "n = int m \<and> m < 2 ^ (bits - 1)"
    then have "int m < 2 ^ (bits - 1)" by (metis of_nat_less_iff of_nat_numeral of_nat_power)
    then show ?thesis using a nz by linarith
  qed
qed

lemma parse_int_nonneg:
  "parse_int b bits (c # s) = Some n \<Longrightarrow> c \<noteq> CHR ''-'' \<Longrightarrow> 0 \<le> n"
  by (auto simp: parse_int_def Let_def split: if_splits option.splits)

lemma print_nat_chars:
  assumes "2 \<le> b" "c \<in> set (print_nat b n)"
  shows "\<exists>d < b. c = digit_char d"
  using assms(2)
proof (induction n rule: less_induct)
  case (less n)
  show ?case
  proof (cases "n < b")
    case True
    then show ?thesis using less.prems assms by (simp add: print_nat.simps) blast
  next
    case False
    have lt: "n div b < n" using False assms by (simp add: div_less_dividend)
    have m: "n mod b < b" using assms(1) by (intro mod_less_divisor) simp
    have "print_nat b n = print_nat b (n div b) @ [digit_char (n mod b)]"
      using False assms by (subst print_nat.simps) simp
    then consider "c \<in> set (print_nat b (n div b))" | "c = digit_char (n mod b)"
      using less.prems by auto
    then show ?thesis by cases (use less.IH [OF lt] m in auto)
  qed
qed

lemma digit_char_not:
  "d < 16 \<Longrightarrow> digit_char d \<notin> {CHR ''-'', CHR ''+'', CHR '';'', CHR 0x0A, CHR 0x0D}"
  using of_char_digit_char [of d] by (auto split: if_splits)

lemma parse_print_hex:
  assumes "n < 2 ^ (bits - 1)"
  shows "parse_int 16 bits (print_nat 16 n) = Some (int n)"
proof -
  obtain c cs where p: "print_nat 16 n = c # cs" by (cases "print_nat 16 n") auto
  then obtain d where "d < 16" "c = digit_char d" using print_nat_chars [of 16 c n] by auto
  then have "c \<noteq> CHR ''-''" "c \<noteq> CHR ''+''" using digit_char_not by auto
  moreover have "digits_val 16 0 (c # cs) = Some n" using digits_val_print [of 16 n] p by simp
  ultimately show ?thesis using assms by (simp add: parse_int_def p del: digits_val.simps)
qed

end
