(* ===== verification/Naming.thy ===== *)
theory Naming
  imports Prelude
begin

text \<open>
  Names and paths: Go's path.Clean, path.Join and path.Split (the standard library), the
  naming rules of v1/server/aws-s3-rule.go, and the functions of v1/server/fs-operation.go
  and listing.go that build or recognise the names of objects, metainfo files, scratch files
  and multipart directories.
\<close>

section \<open>Go's slash paths\<close>

definition clean_step :: "bool \<Rightarrow> string list \<Rightarrow> string \<Rightarrow> string list" where
  "clean_step rooted out c =
     (if c = [] \<or> c = ''.'' then out
      else if c = ''..'' then
        (if out \<noteq> [] \<and> last out \<noteq> ''..'' then butlast out
         else if rooted then out else out @ [c])
      else out @ [c])"

definition clean_comps :: "bool \<Rightarrow> string list \<Rightarrow> string list" where
  "clean_comps rooted cs = foldl (clean_step rooted) [] cs"

definition path_clean :: "string \<Rightarrow> string" where
  "path_clean s =
     (if s = [] then ''.''
      else if hd s = slash then slash # join_with slash (clean_comps True (split_on slash s))
      else (let out = clean_comps False (split_on slash s)
            in if out = [] then ''.'' else join_with slash out))"

definition path_join :: "string list \<Rightarrow> string" where
  "path_join elems =
     (let es = filter (\<lambda>e. e \<noteq> []) elems
      in if es = [] then [] else path_clean (join_with slash es))"

definition path_split :: "string \<Rightarrow> string \<times> string" where
  "path_split s =
     (rev (dropWhile (\<lambda>c. c \<noteq> slash) (rev s)), rev (takeWhile (\<lambda>c. c \<noteq> slash) (rev s)))"

text \<open>The components of a relative path as the operating system walks it.\<close>

definition comps :: "string \<Rightarrow> string list" where
  "comps p = clean_comps False (split_on slash p)"

text \<open>A component that stays where it is: a plain file name.\<close>

definition plain :: "string \<Rightarrow> bool" where
  "plain c \<longleftrightarrow> c \<noteq> [] \<and> c \<noteq> ''.'' \<and> c \<noteq> ''..'' \<and> slash \<notin> set c"

lemma plainD: "plain c \<Longrightarrow> c \<noteq> []" "plain c \<Longrightarrow> slash \<notin> set c"
  by (auto simp: plain_def)

lemma foldl_clean_plain:
  "\<forall>c \<in> set cs. plain c \<Longrightarrow> foldl (clean_step r) out cs = out @ cs"
  by (induction cs arbitrary: out) (auto simp: clean_step_def plain_def)

lemma clean_comps_plain [simp]: "\<forall>c \<in> set cs. plain c \<Longrightarrow> clean_comps r cs = cs"
  by (simp add: clean_comps_def foldl_clean_plain)

lemma foldl_clean_filter:
  "foldl (clean_step r) out cs = foldl (clean_step r) out (filter (\<lambda>c. c \<noteq> [] \<and> c \<noteq> ''.'') cs)"
  by (induction cs arbitrary: out) (auto simp: clean_step_def)

lemma clean_comps_filter:
  "clean_comps r cs = clean_comps r (filter (\<lambda>c. c \<noteq> [] \<and> c \<noteq> ''.'') cs)"
  unfolding clean_comps_def by (rule foldl_clean_filter)

lemma plain_join_ne: "ps \<noteq> [] \<Longrightarrow> \<forall>p \<in> set ps. plain p \<Longrightarrow>
    join_with slash ps \<noteq> [] \<and> hd (join_with slash ps) \<noteq> slash"
proof -
  assume "ps \<noteq> []" and pl: "\<forall>p \<in> set ps. plain p"
  then obtain p qs where ps: "ps = p # qs" by (cases ps) auto
  have "p \<noteq> []" and s: "slash \<notin> set p" using pl ps plainD by auto
  then obtain a p' where p: "p = a # p'" by (cases p) auto
  have "join_with slash ps = a # tl (join_with slash ps)" by (cases qs) (simp_all add: ps p)
  then show ?thesis using s p by (metis list.distinct(1) list.sel(1) list.set_intros(1))
qed

lemma split_join_plain: "ps \<noteq> [] \<Longrightarrow> \<forall>p \<in> set ps. plain p \<Longrightarrow> split_on slash (join_with slash ps) = ps"
  by (rule split_join) (auto simp: plain_def)

lemma comps_join: "\<forall>p \<in> set ps. plain p \<Longrightarrow> ps \<noteq> [] \<Longrightarrow> comps (join_with slash ps) = ps"
  by (simp add: comps_def split_join_plain)

lemma path_clean_plain:
  "ps \<noteq> [] \<Longrightarrow> \<forall>p \<in> set ps. plain p \<Longrightarrow> path_clean (join_with slash ps) = join_with slash ps"
  using plain_join_ne [of ps] by (simp add: path_clean_def split_join_plain)

lemma path_split_join:
  assumes "\<forall>p \<in> set ps. plain p" "plain f"
  shows "path_split (join_with slash (ps @ [f])) =
    (if ps = [] then [] else join_with slash ps @ [slash], f)"
proof -
  have f: "\<forall>x \<in> set (rev f). x \<noteq> slash" using plainD(2) [OF assms(2)] by auto
  have dw: "dropWhile (\<lambda>c. c \<noteq> slash) (rev f @ r) = dropWhile (\<lambda>c. c \<noteq> slash) r"
    and tw: "takeWhile (\<lambda>c. c \<noteq> slash) (rev f @ r) = rev f @ takeWhile (\<lambda>c. c \<noteq> slash) r" for r
    using f by (simp_all add: dropWhile_append takeWhile_append)
  have all: "takeWhile (\<lambda>c. c \<noteq> slash) (rev f) = rev f"
    using f by (simp add: takeWhile_eq_all_conv)
  show ?thesis
  proof (cases "ps = []")
    case True
    then show ?thesis using dw [of "[]"] by (simp add: path_split_def all)
  next
    case False
    then have "join_with slash (ps @ [f]) = join_with slash ps @ slash # f"
      by (simp add: join_with_append)
    then show ?thesis using False dw tw by (simp add: path_split_def)
  qed
qed

section \<open>Names of scratch and metainfo files\<close>

text \<open>
  The markers the server uses: none, "@meta", "@mpul", and "@" followed by the random digits of
  a scratch suffix.  Each but the first starts with "@", which prefix_suffix_by_marker asserts.
\<close>

datatype marker = No_marker | Meta_marker | Mpul_marker | Scratch_marker string

fun marker_text :: "marker \<Rightarrow> string" where
  "marker_text No_marker = []"
| "marker_text Meta_marker = ''@meta''"
| "marker_text Mpul_marker = ''@mpul''"
| "marker_text (Scratch_marker h) = CHR ''@'' # h"

lemma marker_text_at: "marker_text m = [] \<or> hd (marker_text m) = CHR ''@''"
  by (cases m) auto

definition prefix_suffix_by_marker :: "string \<Rightarrow> marker \<Rightarrow> string" where
  "prefix_suffix_by_marker file m =
     (let marker = marker_text m;
          (prfx, sfx) = (if marker = [] then ([], []) else (''.'', marker))
      in prfx @ file @ sfx)"

definition make_path_of_bucket :: "string \<Rightarrow> string" where
  "make_path_of_bucket bucket = path_join [''.'', bucket]"

definition make_scratch_object_name :: "string \<Rightarrow> marker \<Rightarrow> string" where
  "make_scratch_object_name obj m =
     (let (dir, file) = path_split obj; name = prefix_suffix_by_marker file m
      in path_join [dir, name])"

definition make_path_of_object :: "string \<Rightarrow> marker \<Rightarrow> string" where
  "make_path_of_object obj m =
     (let (dir, file) = path_split obj; name = prefix_suffix_by_marker file m
      in path_join [''.'', dir, name])"

text \<open>The part number is printed by "part%05d"; the callers pass a positive number.\<close>

definition make_part_name :: "nat \<Rightarrow> string" where
  "make_part_name part = ''part'' @ pad_zero 5 (print_nat 10 part)"

definition make_mpul_part_name :: "string \<Rightarrow> nat \<Rightarrow> string" where
  "make_mpul_part_name obj part =
     (let (dir, file) = path_split obj
      in path_join [dir, ''.'' @ file @ ''@mpul'', make_part_name part])"

definition make_mpul_scratch_name :: "string \<Rightarrow> string" where
  "make_mpul_scratch_name name = ''.'' @ name @ ''@mpul''"

definition adjust_mpul_scratch_to_object_name :: "string \<Rightarrow> string" where
  "adjust_mpul_scratch_to_object_name obj =
     (let (dir, name1) = path_split obj;
          name2 = trim_suffix (trim_prefix name1 ''.'') ''@mpul''
      in path_join [dir, name2])"

definition check_metainfo_name :: "string \<Rightarrow> bool" where
  "check_metainfo_name name = has_prefix name ''.''"

text \<open>path.Match with the pattern ".*@mpul": the star matches any text without a slash.\<close>

definition check_mpul_scratch_name :: "string \<Rightarrow> bool" where
  "check_mpul_scratch_name name \<longleftrightarrow>
     has_prefix name ''.'' \<and> has_suffix (drop 1 name) ''@mpul'' \<and> slash \<notin> set name"

section \<open>Where the names lie\<close>

text \<open>An object name whose components are plain: a bucket, directories and a file.\<close>

definition object_name :: "string list \<Rightarrow> string \<Rightarrow> string" where
  "object_name ds f = join_with slash (ds @ [f])"

lemma comps_join_dot:
  assumes "\<forall>p \<in> set ps. plain p" "plain n"
  shows "path_join [''.'', (if ps = [] then [] else join_with slash ps @ [slash]), n]
    = join_with slash (ps @ [n])"
proof -
  have n: "n \<noteq> []" "split_on slash n = [n]" "n \<noteq> ''.''" using assms(2) by (auto simp: plain_def split_on_no_sep)
  have dot: "split_on slash ''.'' = [''.'']" by simp
  show ?thesis
  proof (cases "ps = []")
    case True
    have "split_on slash (''.'' @ slash # n) = [''.'', n]"
      using n by (subst split_on_append) simp
    then show ?thesis using n assms(2) True
      by (simp add: path_join_def path_clean_def clean_comps_def clean_step_def plain_def)
  next
    case False
    let ?j = "join_with slash ps"
    have jne: "?j \<noteq> []" using plain_join_ne [OF False assms(1)] by simp
    have "split_on slash ((''.'' @ slash # ?j) @ slash # ([] @ slash # n))
        = split_on slash (''.'' @ slash # ?j) @ split_on slash ([] @ slash # n)"
      by (rule split_on_append)
    moreover have "split_on slash (''.'' @ slash # ?j) = [''.''] @ ps"
      using split_on_append [of slash "''.''" ?j] dot False assms(1) by (simp add: split_join_plain)
    moreover have "split_on slash ([] @ slash # n) = [[]] @ [n]"
      using split_on_append [of slash "[]" n] n by simp
    ultimately have sp: "split_on slash (join_with slash [''.'', ?j @ [slash], n]) = [''.''] @ ps @ [[]] @ [n]"
      by simp
    have "filter (\<lambda>c. c \<noteq> [] \<and> c \<noteq> ''.'') ps = ps"
      using assms(1) by (intro filter_True) (simp add: plain_def)
    then have flt: "filter (\<lambda>c. c \<noteq> [] \<and> c \<noteq> ''.'') ([''.''] @ ps @ [[]] @ [n]) = ps @ [n]"
      using n by simp
    have cl: "clean_comps False ([''.''] @ ps @ [[]] @ [n]) = ps @ [n]"
      unfolding clean_comps_filter [of False "[''.''] @ ps @ [[]] @ [n]"] flt
      using assms by (intro clean_comps_plain) auto
    show ?thesis using False n jne sp cl by (simp add: path_join_def path_clean_def Let_def)
  qed
qed

lemma marked_none [simp]: "prefix_suffix_by_marker f No_marker = f"
  by (simp add: prefix_suffix_by_marker_def)

text \<open>The scratch suffixes make_scratch_suffix makes: six hexadecimal digits.\<close>

definition is_hex :: "char \<Rightarrow> bool" where
  "is_hex c \<longleftrightarrow> is_digit c \<or> (97 \<le> (of_char c :: nat) \<and> (of_char c :: nat) \<le> 102)"

fun marker_ok :: "marker \<Rightarrow> bool" where
  "marker_ok (Scratch_marker h) \<longleftrightarrow> length h = 6 \<and> list_all is_hex h"
| "marker_ok m \<longleftrightarrow> True"

lemma is_hex_not: "is_hex c \<Longrightarrow> c \<noteq> slash \<and> c \<noteq> CHR ''@''"
  by (auto simp: is_hex_def is_digit_def)

lemma hex_no_slash: "list_all is_hex h \<Longrightarrow> slash \<notin> set h \<and> CHR ''@'' \<notin> set h"
  using is_hex_not by (auto simp: list_all_iff)

lemma plain_marked_ok: "plain f \<Longrightarrow> marker_ok m \<Longrightarrow> plain (prefix_suffix_by_marker f m)"
proof -
  assume f: "plain f" and m: "marker_ok m"
  then obtain a s where "f = a # s" by (cases f) (auto simp: plain_def)
  then show ?thesis using f m by (cases m) (auto simp: prefix_suffix_by_marker_def plain_def dest: hex_no_slash)
qed

lemma make_path_of_object_join:
  assumes "\<forall>p \<in> set ds. plain p" "plain f" "marker_ok m"
  shows "make_path_of_object (object_name ds f) m = object_name ds (prefix_suffix_by_marker f m)"
  using comps_join_dot [OF assms(1) plain_marked_ok [OF assms(2,3)]] path_split_join [OF assms(1,2)]
  by (auto simp: make_path_of_object_def object_name_def Let_def)

lemma comps_of_object:
  assumes "\<forall>p \<in> set ds. plain p" "plain f" "marker_ok m"
  shows "comps (make_path_of_object (object_name ds f) m) = ds @ [prefix_suffix_by_marker f m]"
proof -
  have "\<forall>p \<in> set (ds @ [prefix_suffix_by_marker f m]). plain p"
    using assms plain_marked_ok by auto
  then show ?thesis
    using comps_join [of "ds @ [prefix_suffix_by_marker f m]"]
    unfolding make_path_of_object_join [OF assms] by (simp add: object_name_def)
qed

text \<open>
  A name is cut from its marker without ambiguity: scratch digits hold no "@", the other
  markers are as long as each other.
\<close>

lemma marker_text_inj:
  assumes "f @ marker_text m = g @ marker_text n" "m \<noteq> No_marker" "n \<noteq> No_marker"
    "marker_ok m" "marker_ok n"
  shows "f = g \<and> m = n"
proof -
  define last_at where "last_at s = rev (takeWhile (\<lambda>c. c \<noteq> CHR ''@'') (rev s))" for s :: string
  have body: "last_at (f @ CHR ''@'' # h) = h" if "CHR ''@'' \<notin> set h" for f h :: string
    using that by (simp add: last_at_def takeWhile_append takeWhile_eq_all_conv)
  have ex: "\<exists>h. marker_text k = CHR ''@'' # h \<and> CHR ''@'' \<notin> set h" if "k \<noteq> No_marker" "marker_ok k" for k
    using that by (cases k) (auto dest: hex_no_slash)
  obtain h k where hk: "marker_text m = CHR ''@'' # h" "marker_text n = CHR ''@'' # k"
    "CHR ''@'' \<notin> set h" "CHR ''@'' \<notin> set k"
    using ex assms by metis
  then have "h = k" using body assms(1) by metis
  moreover have "m = n"
    using hk \<open>h = k\<close> assms(2-5) by (cases m; cases n) auto
  ultimately show ?thesis using assms(1) by simp
qed

lemma prefix_suffix_by_marker_inj:
  assumes "prefix_suffix_by_marker f m = prefix_suffix_by_marker g n" "marker_ok m" "marker_ok n"
    "\<not> has_prefix f ''.''" "\<not> has_prefix g ''.''"
  shows "f = g \<and> m = n"
proof (cases "m = No_marker \<or> n = No_marker")
  case True
  then show ?thesis using assms
    by (cases m; cases n) (auto simp: prefix_suffix_by_marker_def has_prefix_def)
next
  case False
  then have "f @ marker_text m = g @ marker_text n"
    using assms(1) by (cases m; cases n) (simp_all add: prefix_suffix_by_marker_def)
  then show ?thesis using marker_text_inj False assms(2,3) by blast
qed

section \<open>Naming rules\<close>

definition object_name_limit :: nat where "object_name_limit = 1000"
definition list_buckets_limit :: int where "list_buckets_limit = 10000"
definition list_objects_limit :: int where "list_objects_limit = 1000"
definition max_part_number :: int where "max_part_number = 10000"

text \<open>The character class of bucket_naming_good_re.\<close>

definition bucket_char :: "char \<Rightarrow> bool" where
  "bucket_char c \<longleftrightarrow> is_lower c \<or> is_digit c \<or> c = CHR ''-''"

definition bucket_naming_good :: "string \<Rightarrow> bool" where
  "bucket_naming_good s \<longleftrightarrow> 3 \<le> length s \<and> length s \<le> 63 \<and> list_all bucket_char s"

text \<open>In Go's regexp a dot matches any character but a newline.\<close>

definition no_newline :: "string \<Rightarrow> bool" where
  "no_newline s \<longleftrightarrow> CHR 0x0A \<notin> set s"

definition re_starts :: "string \<Rightarrow> string \<Rightarrow> bool" where
  "re_starts p s \<longleftrightarrow> has_prefix s p \<and> no_newline (drop (length p) s)"

definition re_ends :: "string \<Rightarrow> string \<Rightarrow> bool" where
  "re_ends p s \<longleftrightarrow> has_suffix s p \<and> no_newline (take (length s - length p) s)"

text \<open>
  The alternative \<open>\\.\\.\<close> of the raw string literal matches a backslash and any character,
  twice.
\<close>

fun re_two_backslashes :: "string \<Rightarrow> bool" where
  "re_two_backslashes (a # b # c # d # s) =
     ((a = CHR 0x5C \<and> b \<noteq> CHR 0x0A \<and> c = CHR 0x5C \<and> d \<noteq> CHR 0x0A)
      \<or> re_two_backslashes (b # c # d # s))"
| "re_two_backslashes s = False"

definition re_mrap :: "string \<Rightarrow> bool" where
  "re_mrap s \<longleftrightarrow> has_suffix s ''mrap'' \<and> no_newline s \<and> 6 \<le> length s
     \<and> s ! (length s - 6) = CHR 0x5C"

definition bucket_naming_forbidden :: "string \<Rightarrow> bool" where
  "bucket_naming_forbidden s \<longleftrightarrow>
     list_all (\<lambda>c. is_digit c \<or> c = CHR ''.'') s
     \<or> re_starts ''-'' s \<or> re_starts ''.'' s
     \<or> re_ends ''-'' s \<or> re_ends ''.'' s
     \<or> re_two_backslashes s
     \<or> re_starts ''xn--'' s \<or> re_starts ''sthree-'' s \<or> re_starts ''amzn-s3-demo-'' s
     \<or> re_ends ''-s3alias'' s \<or> re_ends ''--ol-s3'' s \<or> re_mrap s
     \<or> re_ends ''--x-s3'' s \<or> re_ends ''--table-s3'' s
     \<or> re_ends ''-'' s \<or> s = ''aws'' \<or> s = ''amazon''
     \<or> re_starts ''goog'' s \<or> re_starts ''g00g'' s \<or> s = ''minio''"

definition check_bucket_naming :: "string \<Rightarrow> bool" where
  "check_bucket_naming name \<longleftrightarrow>
     3 \<le> length name \<and> length name \<le> 63 \<and> bucket_naming_good name
     \<and> \<not> bucket_naming_forbidden name"

definition object_naming_avoided :: "char \<Rightarrow> bool" where
  "object_naming_avoided c \<longleftrightarrow>
     c \<in> set [CHR 0x22, CHR ''#'', CHR ''%'', CHR ''<'', CHR ''>'', CHR ''['', CHR 0x5C, CHR '']'',
              CHR ''^'', CHR ''{'', CHR ''|'', CHR ''}'', CHR ''~'', CHR 0x60]
     \<or> (of_char c :: nat) < 32
     \<or> c \<in> set [CHR ''*'', CHR '':'', CHR ''?'']"

definition check_object_naming :: "string \<Rightarrow> bool" where
  "check_object_naming name \<longleftrightarrow>
     length name \<le> object_name_limit
     \<and> \<not> list_ex object_naming_avoided name
     \<and> (let s1 = split_on slash name in 1 \<le> length s1 \<and> last s1 \<noteq> [])"

section \<open>What the rules give\<close>

definition bucket_prefixes :: "string list" where
  "bucket_prefixes = [''xn--'', ''sthree-'', ''amzn-s3-demo-'', ''goog'', ''g00g'']"

definition bucket_suffixes :: "string list" where
  "bucket_suffixes = [''-s3alias'', ''--ol-s3'', ''--x-s3'', ''--table-s3'']"

text \<open>The rule as the documentation states it, for names without a dot.\<close>

definition bucket_rule :: "string \<Rightarrow> bool" where
  "bucket_rule s \<longleftrightarrow>
     3 \<le> length s \<and> length s \<le> 63 \<and> list_all bucket_char s
     \<and> \<not> list_all is_digit s \<and> hd s \<noteq> CHR ''-'' \<and> last s \<noteq> CHR ''-''
     \<and> \<not> list_ex (has_prefix s) bucket_prefixes \<and> \<not> list_ex (has_suffix s) bucket_suffixes
     \<and> s \<notin> {''aws'', ''amazon'', ''minio''}"

lemma bucket_char_not:
  "bucket_char c \<Longrightarrow> c \<noteq> CHR ''.'' \<and> c \<noteq> CHR 0x0A \<and> c \<noteq> CHR 0x5C \<and> c \<noteq> slash"
  by (auto simp: bucket_char_def is_lower_def is_digit_def)

lemma bucket_no_newline: "list_all bucket_char s \<Longrightarrow> no_newline s"
  using bucket_char_not by (auto simp: no_newline_def list_all_iff)

lemma bucket_re_starts: "list_all bucket_char s \<Longrightarrow> re_starts p s = has_prefix s p"
  unfolding re_starts_def using bucket_no_newline
  by (auto simp: no_newline_def dest: in_set_dropD)

lemma bucket_re_ends: "list_all bucket_char s \<Longrightarrow> re_ends p s = has_suffix s p"
  unfolding re_ends_def using bucket_no_newline
  by (auto simp: no_newline_def dest: in_set_takeD)

lemma bucket_no_backslashes: "list_all bucket_char s \<Longrightarrow> \<not> re_two_backslashes s"
  by (induction s rule: re_two_backslashes.induct) (auto dest: bucket_char_not)

lemma bucket_no_mrap: "list_all bucket_char s \<Longrightarrow> \<not> re_mrap s"
  using bucket_char_not by (auto simp: re_mrap_def list_all_length)

lemma has_prefix_one: "s \<noteq> [] \<Longrightarrow> has_prefix s [c] \<longleftrightarrow> hd s = c"
  by (cases s) (auto simp: has_prefix_def)

lemma has_suffix_one: "s \<noteq> [] \<Longrightarrow> has_suffix s [c] \<longleftrightarrow> last s = c"
  by (cases s rule: rev_cases) (auto simp: has_suffix_def)

lemma bucket_digits: "list_all bucket_char s \<Longrightarrow>
    list_all (\<lambda>c. is_digit c \<or> c = CHR ''.'') s = list_all is_digit s"
  using bucket_char_not by (auto simp: list_all_iff)

lemma bucket_not_dot:
  assumes "list_all bucket_char s" "s \<noteq> []"
  shows "hd s \<noteq> CHR ''.''" "last s \<noteq> CHR ''.''"
  using assms bucket_char_not by (auto simp: list_all_iff)

lemma bucket_char_plain:
  assumes "list_all bucket_char s" "s \<noteq> []"
  shows "plain s"
proof -
  have "CHR ''.'' \<notin> set s" "slash \<notin> set s"
    using assms bucket_char_not by (auto simp: list_all_iff)
  then show ?thesis using assms(2) by (auto simp: plain_def)
qed

lemma checked_bucket_plain: "check_bucket_naming b \<Longrightarrow> plain b"
  by (rule bucket_char_plain) (auto simp: check_bucket_naming_def bucket_naming_good_def)

text \<open>
  Claim C38.  check_bucket_naming accepts exactly the names the documentation describes:
  3 to 63 lower-case letters, digits and hyphens, not all digits, no hyphen at either end,
  and no reserved word, prefix or suffix.  The two mis-escaped alternatives of the regular
  expression are harmless, since no name they should reject passes the character class.
\<close>

theorem bucket_naming_rule: "check_bucket_naming s = bucket_rule s"
proof (cases "3 \<le> length s \<and> list_all bucket_char s")
  case True
  then have s: "s \<noteq> []" "list_all bucket_char s" by auto
  have "bucket_naming_forbidden s \<longleftrightarrow>
      list_all is_digit s \<or> hd s = CHR ''-'' \<or> last s = CHR ''-''
      \<or> list_ex (has_prefix s) bucket_prefixes \<or> list_ex (has_suffix s) bucket_suffixes
      \<or> s \<in> {''aws'', ''amazon'', ''minio''}"
    using bucket_not_dot [OF s(2,1)] s
    by (auto simp: bucket_naming_forbidden_def bucket_re_starts bucket_re_ends
        bucket_no_backslashes bucket_no_mrap bucket_digits has_prefix_one has_suffix_one
        bucket_prefixes_def bucket_suffixes_def)
  then show ?thesis using True
    by (auto simp: check_bucket_naming_def bucket_naming_good_def bucket_rule_def)
next
  case False
  then show ?thesis
    by (auto simp: check_bucket_naming_def bucket_naming_good_def bucket_rule_def)
qed

text \<open>
  Claim C37.  A checked bucket name and plain path components address a file inside the pool:
  the path of an object, its metainfo file, a scratch file or a multipart directory has
  exactly the components of the object, the last one decorated by the marker, and two of
  them are the same path only when the object and the marker are the same, provided no file
  name begins with a dot.
\<close>

theorem object_paths_distinct:
  assumes "\<forall>p \<in> set ds. plain p" "\<forall>p \<in> set es. plain p" "plain f" "plain g"
    "check_bucket_naming b" "marker_ok m" "marker_ok n"
    "\<not> has_prefix f ''.''" "\<not> has_prefix g ''.''"
  shows "comps (make_path_of_object (object_name (b # ds) f) m)
      = b # ds @ [prefix_suffix_by_marker f m]
    \<and> (make_path_of_object (object_name (b # ds) f) m
         = make_path_of_object (object_name (b # es) g) n
       \<longrightarrow> ds = es \<and> f = g \<and> m = n)"
proof -
  have b: "\<forall>p \<in> set (b # ds). plain p" "\<forall>p \<in> set (b # es). plain p"
    using assms checked_bucket_plain by auto
  note c = comps_of_object [OF b(1) assms(3,6)] comps_of_object [OF b(2) assms(4,7)]
  show ?thesis using c prefix_suffix_by_marker_inj [OF _ assms(6-9)]
    by (metis append_Cons append_same_eq butlast_snoc last_snoc list.inject)
qed

theorem object_paths_distinct_witness:
  "make_path_of_object ''bkt/d/x'' Meta_marker \<noteq> make_path_of_object ''bkt/d/x'' Mpul_marker
   \<and> comps (make_path_of_object ''bkt/d/x'' Meta_marker) = [''bkt'', ''d'', ''.x@meta'']"
proof -
  have b: "check_bucket_naming ''bkt''" by code_simp
  have p: "\<forall>p \<in> set [''d'']. plain p" "plain ''x''" "\<not> has_prefix ''x'' ''.''"
    by (simp_all add: plain_def has_prefix_def)
  have m: "marker_ok Meta_marker" "marker_ok Mpul_marker" by simp_all
  have o: "object_name [''bkt'', ''d''] ''x'' = ''bkt/d/x''" by (simp add: object_name_def)
  show ?thesis
    using object_paths_distinct [OF p(1,1) p(2,2) b m p(3,3)]
    by (simp add: o prefix_suffix_by_marker_def)
qed

text \<open>
  The README excludes object names that begin with a dot, but check_object_naming
  accepts them, and the object ".x@meta" is stored in the metainfo file of the object "x".
\<close>

theorem dotted_object_is_metainfo:
  "check_object_naming ''.x@meta''
   \<and> make_path_of_object ''bkt/.x@meta'' No_marker = make_path_of_object ''bkt/x'' Meta_marker"
  by code_simp

end
