(* ===== verification/Errors.thy ===== *)
theory Errors
  imports Prelude
begin

text \<open>
  The error codes of AWS S3 (v1/server/aws-s3-error.go), the error record, the table from a
  code to an http status and a message, the mapping of os errors to S3 errors
  (fs-operation.go), and the error response (hodgepodge.go).  An error code is a string, as
  in the source, whose constants are definitions here.
\<close>

named_theorems aws_codes \<open>definitions of the error code constants\<close>

section \<open>Error codes\<close>

definition AccessDenied :: string where
  [aws_codes]: "AccessDenied = ''AccessDenied''"

definition AccountProblem :: string where
  [aws_codes]: "AccountProblem = ''AccountProblem''"

definition AllAccessDisabled :: string where
  [aws_codes]: "AllAccessDisabled = ''AllAccessDisabled''"

definition AmbiguousGrantByEmailAddress :: string where
  [aws_codes]: "AmbiguousGrantByEmailAddress = ''AmbiguousGrantByEmailAddress''"

definition AuthorizationHeaderMalformed :: string where
  [aws_codes]: "AuthorizationHeaderMalformed = ''AuthorizationHeaderMalformed''"

definition BadDigest :: string where
  [aws_codes]: "BadDigest = ''BadDigest''"

definition BucketAlreadyExists :: string where
  [aws_codes]: "BucketAlreadyExists = ''BucketAlreadyExists''"

definition BucketAlreadyOwnedByYou :: string where
  [aws_codes]: "BucketAlreadyOwnedByYou = ''BucketAlreadyOwnedByYou''"

definition BucketNotEmpty :: string where
  [aws_codes]: "BucketNotEmpty = ''BucketNotEmpty''"

definition CredentialsNotSupported :: string where
  [aws_codes]: "CredentialsNotSupported = ''CredentialsNotSupported''"

definition CrossLocationLoggingProhibited :: string where
  [aws_codes]: "CrossLocationLoggingProhibited = ''CrossLocationLoggingProhibited''"

definition EntityTooSmall :: string where
  [aws_codes]: "EntityTooSmall = ''EntityTooSmall''"

definition EntityTooLarge :: string where
  [aws_codes]: "EntityTooLarge = ''EntityTooLarge''"

definition ExpiredToken :: string where
  [aws_codes]: "ExpiredToken = ''ExpiredToken''"

definition IllegalVersioningConfigurationException :: string where
  [aws_codes]: "IllegalVersioningConfigurationException = ''IllegalVersioningConfigurationException''"

definition IncompleteBody :: string where
  [aws_codes]: "IncompleteBody = ''IncompleteBody''"

definition IncorrectNumberOfFilesInPostRequest :: string where
  [aws_codes]: "IncorrectNumberOfFilesInPostRequest = ''IncorrectNumberOfFilesInPostRequest''"

definition InlineDataTooLarge :: string where
  [aws_codes]: "InlineDataTooLarge = ''InlineDataTooLarge''"

definition InternalError :: string where
  [aws_codes]: "InternalError = ''InternalError''"

definition InvalidAccessKeyId :: string where
  [aws_codes]: "InvalidAccessKeyId = ''InvalidAccessKeyId''"

definition InvalidAddressingHeader :: string where
  [aws_codes]: "InvalidAddressingHeader = ''InvalidAddressingHeader''"

definition InvalidArgument :: string where
  [aws_codes]: "InvalidArgument = ''InvalidArgument''"

definition InvalidBucketName :: string where
  [aws_codes]: "InvalidBucketName = ''InvalidBucketName''"

definition InvalidBucketState :: string where
  [aws_codes]: "InvalidBucketState = ''InvalidBucketState''"

definition InvalidDigest :: string where
  [aws_codes]: "InvalidDigest = ''InvalidDigest''"

definition InvalidEncryptionAlgorithmError :: string where
  [aws_codes]: "InvalidEncryptionAlgorithmError = ''InvalidEncryptionAlgorithmError''"

definition InvalidLocationConstraint :: string where
  [aws_codes]: "InvalidLocationConstraint = ''InvalidLocationConstraint''"

definition InvalidObjectState :: string where
  [aws_codes]: "InvalidObjectState = ''InvalidObjectState''"

definition InvalidPart :: string where
  [aws_codes]: "InvalidPart = ''InvalidPart''"

definition InvalidPartOrder :: string where
  [aws_codes]: "InvalidPartOrder = ''InvalidPartOrder''"

definition InvalidPayer :: string where
  [aws_codes]: "InvalidPayer = ''InvalidPayer''"

definition InvalidPolicyDocument :: string where
  [aws_codes]: "InvalidPolicyDocument = ''InvalidPolicyDocument''"

definition InvalidRange :: string where
  [aws_codes]: "InvalidRange = ''InvalidRange''"

definition InvalidRequest :: string where
  [aws_codes]: "InvalidRequest = ''InvalidRequest''"

definition InvalidSecurity :: string where
  [aws_codes]: "InvalidSecurity = ''InvalidSecurity''"

definition InvalidSOAPRequest :: string where
  [aws_codes]: "InvalidSOAPRequest = ''InvalidSOAPRequest''"

definition InvalidStorageClass :: string where
  [aws_codes]: "InvalidStorageClass = ''InvalidStorageClass''"

definition InvalidTargetBucketForLogging :: string where
  [aws_codes]: "InvalidTargetBucketForLogging = ''InvalidTargetBucketForLogging''"

definition InvalidToken :: string where
  [aws_codes]: "InvalidToken = ''InvalidToken''"

definition InvalidURI :: string where
  [aws_codes]: "InvalidURI = ''InvalidURI''"

definition KeyTooLongError :: string where
  [aws_codes]: "KeyTooLongError = ''KeyTooLongError''"

definition MalformedACLError :: string where
  [aws_codes]: "MalformedACLError = ''MalformedACLError''"

definition MalformedPOSTRequest :: string where
  [aws_codes]: "MalformedPOSTRequest = ''MalformedPOSTRequest''"

definition MalformedXML :: string where
  [aws_codes]: "MalformedXML = ''MalformedXML''"

definition MaxMessageLengthExceeded :: string where
  [aws_codes]: "MaxMessageLengthExceeded = ''MaxMessageLengthExceeded''"

definition MaxPostPreDataLengthExceededError :: string where
  [aws_codes]: "MaxPostPreDataLengthExceededError = ''MaxPostPreDataLengthExceededError''"

definition MetadataTooLarge :: string where
  [aws_codes]: "MetadataTooLarge = ''MetadataTooLarge''"

definition MethodNotAllowed :: string where
  [aws_codes]: "MethodNotAllowed = ''MethodNotAllowed''"

definition MissingAttachment :: string where
  [aws_codes]: "MissingAttachment = ''MissingAttachment''"

definition MissingContentLength :: string where
  [aws_codes]: "MissingContentLength = ''MissingContentLength''"

definition MissingRequestBodyError :: string where
  [aws_codes]: "MissingRequestBodyError = ''MissingRequestBodyError''"

definition MissingSecurityElement :: string where
  [aws_codes]: "MissingSecurityElement = ''MissingSecurityElement''"

definition MissingSecurityHeader :: string where
  [aws_codes]: "MissingSecurityHeader = ''MissingSecurityHeader''"

definition NoLoggingStatusForKey :: string where
  [aws_codes]: "NoLoggingStatusForKey = ''NoLoggingStatusForKey''"

definition NoSuchBucket :: string where
  [aws_codes]: "NoSuchBucket = ''NoSuchBucket''"

definition NoSuchBucketPolicy :: string where
  [aws_codes]: "NoSuchBucketPolicy = ''NoSuchBucketPolicy''"

definition NoSuchKey :: string where
  [aws_codes]: "NoSuchKey = ''NoSuchKey''"

definition NoSuchLifecycleConfiguration :: string where
  [aws_codes]: "NoSuchLifecycleConfiguration = ''NoSuchLifecycleConfiguration''"

definition NoSuchUpload :: string where
  [aws_codes]: "NoSuchUpload = ''NoSuchUpload''"

definition NoSuchVersion :: string where
  [aws_codes]: "NoSuchVersion = ''NoSuchVersion''"

definition NotImplemented :: string where
  [aws_codes]: "NotImplemented = ''NotImplemented''"

definition NotSignedUp :: string where
  [aws_codes]: "NotSignedUp = ''NotSignedUp''"

definition OperationAborted :: string where
  [aws_codes]: "OperationAborted = ''OperationAborted''"

definition PermanentRedirect :: string where
  [aws_codes]: "PermanentRedirect = ''PermanentRedirect''"

definition PreconditionFailed :: string where
  [aws_codes]: "PreconditionFailed = ''PreconditionFailed''"

definition Redirect :: string where
  [aws_codes]: "Redirect = ''Redirect''"

definition RestoreAlreadyInProgress :: string where
  [aws_codes]: "RestoreAlreadyInProgress = ''RestoreAlreadyInProgress''"

definition RequestIsNotMultiPartContent :: string where
  [aws_codes]: "RequestIsNotMultiPartContent = ''RequestIsNotMultiPartContent''"

definition RequestTimeout :: string where
  [aws_codes]: "RequestTimeout = ''RequestTimeout''"

definition RequestTimeTooSkewed :: string where
  [aws_codes]: "RequestTimeTooSkewed = ''RequestTimeTooSkewed''"

definition RequestTorrentOfBucketError :: string where
  [aws_codes]: "RequestTorrentOfBucketError = ''RequestTorrentOfBucketError''"

definition SignatureDoesNotMatch :: string where
  [aws_codes]: "SignatureDoesNotMatch = ''SignatureDoesNotMatch''"

definition ServiceUnavailable :: string where
  [aws_codes]: "ServiceUnavailable = ''ServiceUnavailable''"

definition SlowDown :: string where
  [aws_codes]: "SlowDown = ''SlowDown''"

definition TemporaryRedirect :: string where
  [aws_codes]: "TemporaryRedirect = ''TemporaryRedirect''"

definition TokenRefreshRequired :: string where
  [aws_codes]: "TokenRefreshRequired = ''TokenRefreshRequired''"

definition TooManyBuckets :: string where
  [aws_codes]: "TooManyBuckets = ''TooManyBuckets''"

definition UnexpectedContent :: string where
  [aws_codes]: "UnexpectedContent = ''UnexpectedContent''"

definition UnresolvableGrantByEmailAddress :: string where
  [aws_codes]: "UnresolvableGrantByEmailAddress = ''UnresolvableGrantByEmailAddress''"

definition UserKeyMustBeSpecified :: string where
  [aws_codes]: "UserKeyMustBeSpecified = ''UserKeyMustBeSpecified''"

definition InvalidTag :: string where
  [aws_codes]: "InvalidTag = ''InvalidTag''"

definition NoSuchResource :: string where
  [aws_codes]: "NoSuchResource = ''NoSuchResource''"

definition TagPolicyException :: string where
  [aws_codes]: "TagPolicyException = ''TagPolicyException''"

definition TooManyTags :: string where
  [aws_codes]: "TooManyTags = ''TooManyTags''"

definition NotModified :: string where
  [aws_codes]: "NotModified = ''NotModified''"

section \<open>The table of statuses and messages\<close>

text \<open>Aws_s3_error_to_message: a missing code reads as Go's zero value.\<close>

definition Aws_s3_error_to_message :: "(string \<times> int \<times> string) list" where
  "Aws_s3_error_to_message = [
    (AccessDenied, 403, ''Access Denied''),
    (AccountProblem, 403, ''There is a problem with your Amazon Web Services account.''),
    (AllAccessDisabled, 403, ''All access to this Amazon S3 resource has been disabled.''),
    (AmbiguousGrantByEmailAddress, 400, ''The email address you provided is associated with more than one account.''),
    (AuthorizationHeaderMalformed, 400, ''The authorization header you provided is invalid.''),
    (BadDigest, 400, ''The Content-MD5 you specified did not match what we received.''),
    (BucketAlreadyExists, 409, ''The requested bucket name is not available. The bucket namespace is shared by all users of the system. Please select a different name and try again.''),
    (BucketAlreadyOwnedByYou, 409, ''The bucket you tried to create already exists, and you own it.''),
    (BucketNotEmpty, 409, ''The bucket you tried to delete is not empty.''),
    (CredentialsNotSupported, 400, ''This request does not support credentials.''),
    (CrossLocationLoggingProhibited, 403, ''Cross-location logging not allowed. Buckets in one geographic location cannot log information to a bucket in another location.''),
    (EntityTooSmall, 400, ''Your proposed upload is smaller than the minimum allowed object size.''),
    (EntityTooLarge, 400, ''Your proposed upload exceeds the maximum allowed object size.''),
    (ExpiredToken, 400, ''The provided token has expired.''),
    (IllegalVersioningConfigurationException, 400, ''Indicates that the versioning configuration specified in the request is invalid.''),
    (IncompleteBody, 400, ''You did not provide the number of bytes specified by the Content-Length HTTP header''),
    (IncorrectNumberOfFilesInPostRequest, 400, ''POST requires exactly one file upload per request.''),
    (InlineDataTooLarge, 400, ''Inline data exceeds the maximum allowed size.''),
    (InternalError, 500, ''We encountered an internal error. Please try again.''),
    (InvalidAccessKeyId, 403, ''The Amazon Web Services access key ID you provided does not exist in our records.''),
    (InvalidAddressingHeader, - 1, ''You must specify the Anonymous role.''),
    (InvalidArgument, 400, ''Invalid Argument''),
    (InvalidBucketName, 400, ''The specified bucket is not valid.''),
    (InvalidBucketState, 409, ''The request is not valid with the current state of the bucket.''),
    (InvalidDigest, 400, ''The Content-MD5 you specified is not valid.''),
    (InvalidEncryptionAlgorithmError, 400, ''The encryption request you specified is not valid. The valid value is AES256.''),
    (InvalidLocationConstraint, 400, ''The specified location constraint is not valid.''),
    (InvalidObjectState, 403, ''The action is not valid for the current state of the object.''),
    (InvalidPart, 400, (''One or more of the specified parts could not be found. The part might not have been uploaded, or the specified entity tag might not have matched the part'' @ [CHR 0x27] @ ''s entity tag.'')),
    (InvalidPartOrder, 400, ''The list of parts was not in ascending order. Parts list must be specified in order by part number.''),
    (InvalidPayer, 403, ''All access to this object has been disabled.''),
    (InvalidPolicyDocument, 400, ''The content of the form does not meet the conditions specified in the policy document.''),
    (InvalidRange, 416, ''The requested range cannot be satisfied.''),
    (InvalidRequest, 400, ''Bad Request.''),
    (InvalidSecurity, 403, ''The provided security credentials are not valid.''),
    (InvalidSOAPRequest, 400, ''The SOAP request body is invalid.''),
    (InvalidStorageClass, 400, ''The storage class you specified is not valid.''),
    (InvalidTargetBucketForLogging, 400, ''The target bucket for logging does not exist, is not owned by you, or does not have the appropriate grants for the log-delivery group.''),
    (InvalidToken, 400, ''The provided token is malformed or otherwise invalid.''),
    (InvalidURI, 400, (''Couldn'' @ [CHR 0x27] @ ''t parse the specified URI.'')),
    (KeyTooLongError, 400, ''Your key is too long.''),
    (MalformedACLError, 400, ''The XML you provided was not well-formed or did not validate against our published schema.''),
    (MalformedPOSTRequest, 400, ''The body of your POST request is not well-formed multipart/form-data.''),
    (MalformedXML, 400, ''The XML you provided was not well-formed or did not validate against our published schema.''),
    (MaxMessageLengthExceeded, 400, ''Your request was too big.''),
    (MaxPostPreDataLengthExceededError, 400, ''Your POST request fields preceding the upload file were too large.''),
    (MetadataTooLarge, 400, ''Your metadata headers exceed the maximum allowed metadata size.''),
    (MethodNotAllowed, 405, ''The specified method is not allowed against this resource.''),
    (MissingAttachment, - 1, ''A SOAP attachment was expected, but none were found.''),
    (MissingContentLength, 411, ''You must provide the Content-Length HTTP header.''),
    (MissingRequestBodyError, 400, ''Request body is empty.''),
    (MissingSecurityElement, 400, ''The SOAP 1.1 request is missing a security element.''),
    (MissingSecurityHeader, 400, ''Your request is missing a required header.''),
    (NoLoggingStatusForKey, 400, ''There is no such thing as a logging status subresource for a key.''),
    (NoSuchBucket, 404, ''The specified bucket does not exist.''),
    (NoSuchBucketPolicy, 404, ''The specified bucket does not have a bucket policy.''),
    (NoSuchKey, 404, ''The specified key does not exist.''),
    (NoSuchLifecycleConfiguration, 404, ''The lifecycle configuration does not exist.''),
    (NoSuchUpload, 404, ''The specified multipart upload does not exist. The upload ID might be invalid, or the multipart upload might have been aborted or completed.''),
    (NoSuchVersion, 404, ''Indicates that the version ID specified in the request does not match an existing version.''),
    (NotImplemented, 501, ''A header you provided implies functionality that is not implemented.''),
    (NotSignedUp, 403, ''Your account is not signed up for the Amazon S3 service. You must sign up before you can use Amazon S3. You can sign up at the following URL:''),
    (OperationAborted, 409, ''A conflicting conditional action is currently in progress against this resource. Try again.''),
    (PermanentRedirect, 301, ''The bucket you are attempting to access must be addressed using the specified endpoint. Send all future requests to this endpoint.''),
    (PreconditionFailed, 412, ''At least one of the preconditions you specified did not hold.''),
    (Redirect, 307, ''Temporary redirect.''),
    (RestoreAlreadyInProgress, 409, ''Object restore is already in progress.''),
    (RequestIsNotMultiPartContent, 400, ''Bucket POST must be of the enclosure-type multipart/form-data.''),
    (RequestTimeout, 400, ''Your socket connection to the server was not read from or written to within the timeout period.''),
    (RequestTimeTooSkewed, 403, (''The difference between the request time and the server'' @ [CHR 0x27] @ ''s time is too large.'')),
    (RequestTorrentOfBucketError, 400, ''Requesting the torrent file of a bucket is not permitted.''),
    (SignatureDoesNotMatch, 403, ''The request signature we calculated does not match the signature you provided..''),
    (ServiceUnavailable, 503, ''Service is unable to handle request.''),
    (SlowDown, 503, ''Reduce your request rate.''),
    (TemporaryRedirect, 307, ''You are being redirected to the bucket while DNS updates.''),
    (TokenRefreshRequired, 400, ''The provided token must be refreshed.''),
    (TooManyBuckets, 400, ''You have attempted to create more buckets than allowed.''),
    (UnexpectedContent, 400, ''This request does not support content.''),
    (UnresolvableGrantByEmailAddress, 400, ''The email address you provided does not match any account on record.''),
    (UserKeyMustBeSpecified, 400, ''The bucket POST must contain the specified field name. If it is specified, check the order of the fields.''),
    (InvalidTag, 400, (''Tag key or value isn'' @ [CHR 0x27] @ ''t valid.'')),
    (NoSuchResource, 404, (''The specified resource doesn'' @ [CHR 0x27] @ ''t exist.'')),
    (TagPolicyException, 400, ''The tag policy does not allow the specified value for the following tag key.''),
    (TooManyTags, 400, ''The number of tags exceeds the limit of 50 tags.''),
    (NotModified, 304, ''Not Modified.'')]"

definition error_entry :: "string \<Rightarrow> int \<times> string" where
  "error_entry c = (case map_of Aws_s3_error_to_message c of None \<Rightarrow> (0, []) | Some e \<Rightarrow> e)"

section \<open>The error record\<close>

record aws_error =
  Code :: string
  Message :: string
  Resource :: string
  RequestId :: string
  headers :: "(string \<times> string list) list"

definition s3_error :: "string \<Rightarrow> string \<Rightarrow> string \<Rightarrow> aws_error" where
  "s3_error c m r = \<lparr>Code = c, Message = m, Resource = r, RequestId = [], headers = []\<rparr>"

lemma s3_error_simps [simp]:
  "Code (s3_error c m r) = c" "Message (s3_error c m r) = m"
  "Resource (s3_error c m r) = r" "headers (s3_error c m r) = []"
  by (simp_all add: s3_error_def)

text \<open>The method Error.\<close>

definition error_string :: "aws_error \<Rightarrow> string" where
  "error_string e =
     (if length (Message e) = 0 then Code e else Code e @ '': '' @ Message e)"

section \<open>Errors of the operating system\<close>

text \<open>
  What errors.Is can tell of an os error, with the operation and the path of Go's PathError.
  A failure that is none of the five kinds is Err_other.
\<close>

datatype os_kind = Err_invalid | Err_permission | Err_exist | Err_not_exist | Err_closed
  | Err_other string

datatype os_error = Os_error os_kind string string | Text_error string

text \<open>
  An Os_error is a PathError or a LinkError (whose path is the two paths); a Text_error is
  any other error value, which is of no kind the server asks for.
\<close>

fun os_kind_of :: "os_error \<Rightarrow> os_kind" where
  "os_kind_of (Os_error k op path) = k"
| "os_kind_of (Text_error s) = Err_other s"

fun kind_text :: "os_kind \<Rightarrow> string" where
  "kind_text Err_invalid = ''invalid argument''"
| "kind_text Err_permission = ''permission denied''"
| "kind_text Err_exist = ''file exists''"
| "kind_text Err_not_exist = ''no such file or directory''"
| "kind_text Err_closed = ''file already closed''"
| "kind_text (Err_other s) = s"

fun os_error_text :: "os_error \<Rightarrow> string" where
  "os_error_text (Os_error k op path) = op @ '' '' @ path @ '': '' @ kind_text k"
| "os_error_text (Text_error s) = s"

fun os_error_name :: "os_kind \<Rightarrow> string" where
  "os_error_name Err_invalid = ''ErrInvalid''"
| "os_error_name Err_permission = ''ErrPermission''"
| "os_error_name Err_exist = ''ErrExist''"
| "os_error_name Err_not_exist = ''ErrNotExist''"
| "os_error_name Err_closed = ''ErrClosed''"
| "os_error_name (Err_other s) = ''os-error-unknown''"

text \<open>The first half of map_os_error: the kind looked up in the map, and the default code.\<close>

fun os_code :: "os_kind \<Rightarrow> os_kind option \<times> string" where
  "os_code Err_invalid = (Some Err_invalid, InvalidArgument)"
| "os_code Err_permission = (Some Err_permission, AccessDenied)"
| "os_code Err_exist = (Some Err_exist, InternalError)"
| "os_code Err_not_exist = (Some Err_not_exist, InternalError)"
| "os_code Err_closed = (Some Err_closed, InternalError)"
| "os_code (Err_other s) = (None, InternalError)"

text \<open>The map m is an association list; Go's nil map is the empty list, the key nil is None.\<close>

definition map_os_error :: "string \<Rightarrow> os_error \<Rightarrow> (os_kind option \<times> string) list \<Rightarrow> aws_error" where
  "map_os_error location err1 m =
     (let (kind, code1) = os_code (os_kind_of err1) in
      case map_of m kind of
        Some code2 \<Rightarrow> s3_error code2 [] location
      | None \<Rightarrow> s3_error code1 (os_error_text err1) location)"

section \<open>The error response\<close>

text \<open>
  What the handler has written when respond_on_action_error returns.  WriteHeader panics on
  a status that is not of three digits.
\<close>

record response =
  status :: int
  resp_headers :: "(string \<times> string) list"
  resp_body :: "aws_error option"

definition header_set :: "string \<Rightarrow> string \<Rightarrow> (string \<times> string) list \<Rightarrow> (string \<times> string) list" where
  "header_set k v h = (k, v) # filter (\<lambda>(k', _). k' \<noteq> k) h"

fun set_values :: "string \<Rightarrow> string list \<Rightarrow> (string \<times> string) list \<Rightarrow> (string \<times> string) list" where
  "set_values k [] h = h"
| "set_values k (v # vs) h = set_values k vs (header_set k v h)"

fun set_headers :: "(string \<times> string list) list \<Rightarrow> (string \<times> string) list \<Rightarrow> (string \<times> string) list" where
  "set_headers [] h = h"
| "set_headers ((k, vs) # hs) h = set_headers hs (set_values k vs h)"

definition valid_status :: "int \<Rightarrow> bool" where
  "valid_status s \<longleftrightarrow> 100 \<le> s \<and> s \<le> 999"

definition respond_on_action_error ::
  "string \<Rightarrow> (string \<times> string) list \<Rightarrow> aws_error \<Rightarrow> response option" where
  "respond_on_action_error rid h0 e =
     (let (st, msg) = error_entry (Code e);
          e1 = e\<lparr>RequestId := rid,
                 Message := (if length (Message e) = 0 then msg else Message e)\<rparr>;
          h1 = set_headers (headers e1) h0
      in if \<not> valid_status st then None
         else if st = 304 then Some \<lparr>status = st, resp_headers = h1, resp_body = None\<rparr>
         else Some \<lparr>status = st,
                    resp_headers = header_set ''Content-Type'' ''application/xml'' h1,
                    resp_body = Some e1\<rparr>)"

text \<open>The codes the actions of this server can answer with.\<close>

definition served_codes :: "string list" where
  "served_codes =
     [AccessDenied, BadDigest, BucketAlreadyOwnedByYou, BucketNotEmpty, IncompleteBody,
      InternalError, InvalidArgument, InvalidBucketName, InvalidObjectState, InvalidPart,
      InvalidPartOrder, InvalidRange, InvalidRequest, InvalidStorageClass, NoSuchBucket,
      NoSuchKey, NoSuchUpload, NotImplemented, NotModified, PreconditionFailed, RequestTimeout]"

lemma map_of_served:
  "list_all (\<lambda>c. case map_of Aws_s3_error_to_message c of None \<Rightarrow> False
     | Some (s, m) \<Rightarrow> 300 \<le> s \<and> s < 600 \<and> m \<noteq> []) served_codes"
  by code_simp

lemma served_entry:
  assumes "c \<in> set served_codes"
  shows "\<exists>s m. error_entry c = (s, m) \<and> 300 \<le> s \<and> s < 600 \<and> m \<noteq> []"
  using map_of_served assms
  by (fastforce simp: list_all_iff error_entry_def split: option.splits)

lemma map_os_error_code:
  "Code (map_os_error loc e []) \<in> {InvalidArgument, AccessDenied, InternalError}"
  by (cases "os_kind_of e") (auto simp: map_os_error_def)

lemma map_os_error_served [simp]: "Code (map_os_error loc e []) \<in> set served_codes"
  using map_os_error_code [of loc e] by (auto simp: served_codes_def)

end
