(* ===== verification/Scanner.thy ===== *)
theory Scanner
  imports Prelude
begin

text \<open>
  The scanners of the headers Range, If-Match and If-None-Match: pkg/httpaide/scanner.go.  A
  scanner fails with None, since its callers drop the text of the error.
\<close>

section \<open>Ranges\<close>

text \<open>The expression \<open>^bytes *=\<close> at the head of a text; the rest of it.\<close>

definition rfc9110_range_unit :: "string \<Rightarrow> string option" where
  "rfc9110_range_unit s =
     (if \<not> has_prefix s ''bytes'' then None
      else case dropWhile (\<lambda>c. c = CHR '' '') (drop 5 s) of
             [] \<Rightarrow> None
           | c # r \<Rightarrow> if c = CHR ''='' then Some r else None)"

text \<open>
  The expression \<open>^([0-9]+)? *- *([0-9]+)?$\<close>: the two groups, empty when they do not take
  part in the match.
\<close>

definition rfc9110_range_spec :: "string \<Rightarrow> (string \<times> string) option" where
  "rfc9110_range_spec s =
     (let b = takeWhile is_digit s;
          r = dropWhile (\<lambda>c. c = CHR '' '') (dropWhile is_digit s)
      in case r of
           [] \<Rightarrow> None
         | c # r1 \<Rightarrow>
             if c \<noteq> CHR ''-'' then None
             else (let e = dropWhile (\<lambda>c. c = CHR '' '') r1
                   in if list_all is_digit e then Some (b, e) else None))"

text \<open>One entry of the list: a missing lower bound is 0, a missing upper bound -1.\<close>

definition scan_bound :: "int \<Rightarrow> string \<Rightarrow> int option" where
  "scan_bound d t = (if t = [] then Some d else parse_int 10 64 t)"

definition scan_range_entry :: "string \<Rightarrow> (int \<times> int) option" where
  "scan_range_entry r1 =
     (case rfc9110_range_spec (trim_space r1) of
        None \<Rightarrow> None
      | Some (t1, t2) \<Rightarrow>
          (case scan_bound 0 t1 of
             None \<Rightarrow> None
           | Some b \<Rightarrow>
               (case scan_bound (- 1) t2 of
                  None \<Rightarrow> None
                | Some e \<Rightarrow> Some (b, e))))"

fun scan_range_entries :: "string list \<Rightarrow> (int \<times> int) list option" where
  "scan_range_entries [] = Some []"
| "scan_range_entries (r # rs) =
     (case scan_range_entry r of
        None \<Rightarrow> None
      | Some v \<Rightarrow> map_option ((#) v) (scan_range_entries rs))"

definition Scan_rfc9110_ranges :: "string \<Rightarrow> (int \<times> int) list option" where
  "Scan_rfc9110_ranges s =
     (case rfc9110_range_unit (trim_space s) of
        None \<Rightarrow> None
      | Some s2 \<Rightarrow> scan_range_entries (split_on (CHR '','') s2))"

text \<open>The bounds of whatever the scanner returns.\<close>

definition range_ok :: "int \<times> int \<Rightarrow> bool" where
  "range_ok r \<longleftrightarrow> 0 \<le> fst r \<and> fst r < 2 ^ 63 \<and> - 1 \<le> snd r \<and> snd r < 2 ^ 63"

lemma scan_bound_ok:
  assumes "scan_bound d t = Some n" "list_all is_digit t"
  shows "n = d \<or> 0 \<le> n \<and> n < 2 ^ 63"
proof (cases t)
  case Nil
  then show ?thesis using assms by (simp add: scan_bound_def)
next
  case (Cons c cs)
  then have "parse_int 10 64 (c # cs) = Some n" "c \<noteq> CHR ''-''"
    using assms is_digit_not_sign by (auto simp: scan_bound_def)
  then show ?thesis using parse_int_nonneg parse_int_bounds [of 10 64 "c # cs" n] by auto
qed

lemma range_spec_digits:
  "rfc9110_range_spec s = Some (b, e) \<Longrightarrow> list_all is_digit b \<and> list_all is_digit e"
  by (auto simp: rfc9110_range_spec_def Let_def list_all_iff dest: set_takeWhileD
      split: list.splits if_splits)

lemma scan_range_entry_ok: "scan_range_entry r = Some v \<Longrightarrow> range_ok v"
  by (auto simp: scan_range_entry_def range_ok_def dest!: range_spec_digits scan_bound_ok
      split: option.splits prod.splits)

lemma scan_range_entries_ok:
  "scan_range_entries rs = Some vs \<Longrightarrow> list_all range_ok vs \<and> length vs = length rs"
  by (induction rs arbitrary: vs) (auto dest: scan_range_entry_ok split: option.splits)

lemma Scan_ranges_ok: "Scan_rfc9110_ranges s = Some vs \<Longrightarrow> list_all range_ok vs \<and> vs \<noteq> []"
  using scan_range_entries_ok [of "split_on (CHR '','') _" vs]
  by (auto simp: Scan_rfc9110_ranges_def split: option.splits)

text \<open>The text of a range, with any number of spaces around the hyphen.\<close>

definition print_range :: "int \<times> int \<Rightarrow> string" where
  "print_range r =
     print_nat 10 (nat (fst r)) @ CHR ''-'' # (if snd r = - 1 then [] else print_nat 10 (nat (snd r)))"

definition print_ranges :: "(int \<times> int) list \<Rightarrow> string" where
  "print_ranges rs = ''bytes='' @ join_with (CHR '','') (map print_range rs)"

lemma print_nat_all_digits: "list_all is_digit (print_nat 10 n)"
  using print_nat_digits [of 10] by (auto simp: list_all_iff)

lemma scan_bound_print: "0 \<le> n \<Longrightarrow> n < 2 ^ 63 \<Longrightarrow> scan_bound d (print_nat 10 (nat n)) = Some n"
  by (simp add: scan_bound_def parse_print_nat)

lemma print_range_chars: "c \<in> set (print_range r) \<Longrightarrow> is_digit c \<or> c = CHR ''-''"
  using print_nat_all_digits by (auto simp: print_range_def list_all_iff split: if_splits)

lemma graphic_range_char: "is_digit c \<or> c = CHR ''-'' \<or> c = CHR '','' \<Longrightarrow> graphic c"
  using graphic_digit by (auto simp: graphic_def)

lemma range_spec_print:
  assumes "range_ok r"
  shows "rfc9110_range_spec (print_range r) =
    Some (print_nat 10 (nat (fst r)), if snd r = - 1 then [] else print_nat 10 (nat (snd r)))"
proof -
  have d: "\<forall>c \<in> set (print_nat 10 n). is_digit c" for n
    using print_nat_all_digits by (simp add: list_all_iff)
  have hy: "\<not> is_digit (CHR ''-'')" by (simp add: is_digit_def)
  have sp: "dropWhile (\<lambda>c. c = CHR '' '') e = e" if "\<forall>c \<in> set e. is_digit c" for e
    using that by (cases e) (auto simp: is_digit_def)
  show ?thesis
    using d hy sp by (auto simp: rfc9110_range_spec_def print_range_def Let_def
        takeWhile_append dropWhile_append list_all_iff)
qed

lemma scan_range_entry_print: "range_ok r \<Longrightarrow> scan_range_entry (print_range r) = Some r"
proof -
  assume r: "range_ok r"
  have ne: "print_range r \<noteq> []" by (simp add: print_range_def)
  have "\<forall>c \<in> set (print_range r). graphic c"
    using print_range_chars [of _ r] by (auto intro: graphic_range_char)
  then have "graphic (hd (print_range r))" "graphic (last (print_range r))" using ne by simp_all
  then have "trim_space (print_range r) = print_range r" by (simp add: trim_space_keep)
  moreover have "scan_bound 0 (print_nat 10 (nat (fst r))) = Some (fst r)"
    using r by (intro scan_bound_print) (simp_all add: range_ok_def)
  moreover have "scan_bound (- 1) (if snd r = - 1 then [] else print_nat 10 (nat (snd r))) = Some (snd r)"
  proof (cases "snd r = - 1")
    case True
    then show ?thesis by (simp add: scan_bound_def)
  next
    case False
    then have "0 \<le> snd r" using r by (simp add: range_ok_def)
    then show ?thesis using False r scan_bound_print by (simp add: range_ok_def)
  qed
  ultimately show ?thesis by (simp add: scan_range_entry_def range_spec_print [OF r])
qed

lemma scan_range_entries_print:
  "list_all range_ok rs \<Longrightarrow> scan_range_entries (map print_range rs) = Some rs"
  by (induction rs) (auto simp: scan_range_entry_print)

lemma scan_print_ranges:
  assumes "rs \<noteq> []" "list_all range_ok rs"
  shows "Scan_rfc9110_ranges (print_ranges rs) = Some rs"
proof -
  let ?t = "join_with (CHR '','') (map print_range rs)"
  have ch: "graphic c" if "c \<in> set ?t" for c
    using that print_range_chars graphic_range_char set_join_with [of "CHR '',''" "map print_range rs"]
    by fastforce
  have "?t \<noteq> []"
    using assms(1) by (cases rs rule: remdups_adj.cases) (simp_all add: print_range_def)
  then have "graphic (hd (print_ranges rs)) \<and> graphic (last (print_ranges rs))"
    using ch last_in_set by (auto simp: print_ranges_def graphic_def)
  then have t: "trim_space (print_ranges rs) = print_ranges rs" by (simp add: trim_space_keep)
  have "CHR '','' \<notin> set (print_range r)" for r
    using print_range_chars [of "CHR '',''" r] by (auto simp: is_digit_def)
  then have "split_on (CHR '','') ?t = map print_range rs"
    using assms(1) by (intro split_join) auto
  moreover have "rfc9110_range_unit (print_ranges rs) = Some ?t"
    by (simp add: rfc9110_range_unit_def print_ranges_def has_prefix_def)
  ultimately show ?thesis
    using t assms(2) by (simp add: Scan_rfc9110_ranges_def scan_range_entries_print)
qed

text \<open>
  Scanning is the inverse of printing: any non-empty list of ranges whose bounds
  are 64-bit numbers, an open range having the upper bound -1, is read back from its text.
\<close>

theorem scan_ranges_roundtrip:
  assumes "rs \<noteq> []" "list_all range_ok rs"
  shows "Scan_rfc9110_ranges (print_ranges rs) = Some rs"
  using assms by (rule scan_print_ranges)

theorem scan_ranges_roundtrip_witness:
  "Scan_rfc9110_ranges (print_ranges [(0, - 1), (4500, 5499)]) = Some [(0, - 1), (4500, 5499)]"
  by (rule scan_ranges_roundtrip) (simp_all add: range_ok_def)

section \<open>Entity tags\<close>

text \<open>
  The expression \<open>^(W/)?"[!#-~\x80-\xff]*"$\<close>.  Go matches characters, so the class from 80 to
  FF stands for U+0080 to U+00FF, two bytes in UTF-8.
\<close>

fun etag_chars :: "string \<Rightarrow> bool" where
  "etag_chars [] = True"
| "etag_chars (c # s) =
     (if c = CHR ''!'' \<or> (35 \<le> (of_char c :: nat) \<and> (of_char c :: nat) \<le> 126) then etag_chars s
      else if c = CHR 0xC2 \<or> c = CHR 0xC3 then
        (case s of
           [] \<Rightarrow> False
         | d # s' \<Rightarrow> 128 \<le> (of_char d :: nat) \<and> (of_char d :: nat) \<le> 191 \<and> etag_chars s')
      else False)"

definition rfc7273_etag :: "string \<Rightarrow> bool" where
  "rfc7273_etag t =
     (let q = trim_prefix t ''W/'' in
      2 \<le> length q \<and> hd q = dquote \<and> last q = dquote \<and> etag_chars (butlast (tl q)))"

text \<open>The loop; an empty entry is skipped.  Go's nil slice is the empty list.\<close>

fun scan_etag_entries :: "string list \<Rightarrow> string list option" where
  "scan_etag_entries [] = Some []"
| "scan_etag_entries (e # es) =
     (let t1 = trim_space e in
      if t1 = [] then scan_etag_entries es
      else if \<not> rfc7273_etag t1 then None
      else map_option ((#) t1) (scan_etag_entries es))"

definition Scan_rfc7232_etags :: "string \<Rightarrow> string list option" where
  "Scan_rfc7232_etags s =
     (let s1 = trim_space s in
      if s1 = ''*'' then Some [''*''] else scan_etag_entries (split_on (CHR '','') s1))"

lemma scan_etag_entries_ok: "scan_etag_entries es = Some ts \<Longrightarrow> list_all rfc7273_etag ts"
  by (induction es arbitrary: ts) (auto simp: Let_def split: if_splits)

text \<open>The list is the star alone or entity tags only, so the two cannot be confused.\<close>

lemma Scan_etags_ok:
  assumes "Scan_rfc7232_etags s = Some ts"
  shows "ts = [''*''] \<or> (list_all rfc7273_etag ts \<and> ''*'' \<notin> set ts)"
proof -
  have "\<not> rfc7273_etag ''*''" by code_simp
  then show ?thesis using assms scan_etag_entries_ok [of _ ts]
    by (auto simp: Scan_rfc7232_etags_def Let_def list_all_iff split: if_splits)
qed

text \<open>The scanner reads back a list of entity tags it could have been given.\<close>

lemma etag_graphic:
  assumes "rfc7273_etag t"
  shows "t \<noteq> [] \<and> graphic (hd t) \<and> last t = dquote"
proof (cases "has_prefix t ''W/''")
  case True
  then obtain q where q: "t = ''W/'' @ q" by (auto simp: has_prefix_def prefix_def)
  have g: "graphic (CHR ''W'')" by (simp add: graphic_def)
  show ?thesis using assms True g by (auto simp: rfc7273_etag_def q trim_prefix_def Let_def)
next
  case False
  have g: "graphic dquote" by (simp add: graphic_def)
  show ?thesis using assms False g by (cases t) (auto simp: rfc7273_etag_def trim_prefix_def Let_def)
qed

lemma etag_trim: "rfc7273_etag t \<Longrightarrow> trim_space t = t"
  using etag_graphic [of t] by (intro trim_space_keep) (auto simp: graphic_def)

lemma scan_etag_entries_id:
  "list_all rfc7273_etag ts \<Longrightarrow> scan_etag_entries ts = Some ts"
  by (induction ts) (auto simp: etag_trim Let_def dest: etag_graphic)

lemma scan_etags_roundtrip:
  assumes "ts \<noteq> []" "list_all rfc7273_etag ts" "\<forall>t \<in> set ts. CHR '','' \<notin> set t"
  shows "Scan_rfc7232_etags (join_with (CHR '','') ts) = Some ts"
proof -
  let ?s = "join_with (CHR '','') ts"
  have sp: "split_on (CHR '','') ?s = ts" using assms by (intro split_join) auto
  have hd: "?s \<noteq> [] \<and> hd ?s = hd (hd ts)"
    using assms etag_graphic by (cases ts rule: remdups_adj.cases) auto
  have la: "last ?s = last (last ts)"
  proof (cases "butlast ts = []")
    case True
    then show ?thesis using assms(1) by (cases ts rule: rev_cases) auto
  next
    case False
    then have "?s = join_with (CHR '','') (butlast ts) @ CHR '','' # join_with (CHR '','') [last ts]"
      using join_with_append [of "butlast ts" "[last ts]"] assms(1) by simp
    moreover have "last ts \<noteq> []" using assms etag_graphic by (auto simp: list_all_iff)
    ultimately show ?thesis by simp
  qed
  have "graphic (hd ?s) \<and> last ?s = dquote"
    using hd la assms(1,2) etag_graphic hd_in_set last_in_set by (metis list_all_iff)
  moreover from this have "?s \<noteq> ''*''" by auto
  ultimately have "trim_space ?s = ?s" "?s \<noteq> ''*''"
    by (auto intro!: trim_space_keep simp: graphic_def)
  then show ?thesis using assms(2) sp by (simp add: Scan_rfc7232_etags_def scan_etag_entries_id)
qed

end
