(* ===== verification/Types.thy ===== *)
theory Types
  imports Naming Errors
begin

text \<open>
  The data of the server: the configuration (v1/server/server.go), the metainfo, multipart
  and catalog records (v1/server/metainfo.go), the records of checks and conditions
  (v1/server/copying.go), and how a function of the server ends.
\<close>

section \<open>How a call ends\<close>

text \<open>
  A call returns a value, or an error record, or the request is given up by a Go panic, or
  log.Fatal stops the whole server.
\<close>

datatype stop = Fail aws_error | Panic | Fatal

type_synonym 'a result = "stop + 'a"

abbreviation ok :: "'a \<Rightarrow> 'a result" where "ok x \<equiv> Inr x"

abbreviation failed :: "aws_error \<Rightarrow> 'a result" where "failed e \<equiv> Inl (Fail e)"

definition fail_code :: "'a result \<Rightarrow> string option" where
  "fail_code r = (case r of Inl (Fail e) \<Rightarrow> Some (Code e) | _ \<Rightarrow> None)"

lemma fail_code_simps [simp]:
  "fail_code (Inr x) = None" "fail_code (Inl Panic) = None" "fail_code (Inl Fatal) = None"
  "fail_code (Inl (Fail e)) = Some (Code e)"
  by (simp_all add: fail_code_def)

section \<open>Machine integers\<close>

text \<open>The value an int64 or an int32 holds after an operation on integers.\<close>

definition int64 :: "int \<Rightarrow> int" where
  "int64 i = (i + 2 ^ 63) mod 2 ^ 64 - 2 ^ 63"

definition int32 :: "int \<Rightarrow> int" where
  "int32 i = (i + 2 ^ 31) mod 2 ^ 32 - 2 ^ 31"

lemma int64_id: "- (2 ^ 63) \<le> i \<Longrightarrow> i < 2 ^ 63 \<Longrightarrow> int64 i = i"
  by (simp add: int64_def)

lemma int64_bounds: "- (2 ^ 63) \<le> int64 i \<and> int64 i < 2 ^ 63"
  by (simp add: int64_def)

lemma int32_id: "- (2 ^ 31) \<le> i \<Longrightarrow> i < 2 ^ 31 \<Longrightarrow> int32 i = i"
  by (simp add: int32_def)

section \<open>Configuration\<close>

text \<open>
  The slots of Bbs_configuration the requests read.  Sizes and durations are in the units of
  the source: Etag_save_threshold in megabytes, Sign_valid_window in seconds.
\<close>

record bbs_configuration =
  Server_control_name :: string
  Exclusion_wait :: int
  Sign_valid_window :: int
  Etag_save_threshold :: int
  Xml_parameter_size_limit :: int
  Verify_fs_write :: bool
  Keep_trailing_slash :: bool
  Check_fetch_owner_query :: bool
  Check_get_range_bound :: bool
  Strict_etag_quoting :: bool
  Forbid_last_chunk_crlf :: bool
  Nesting_chunked_stream :: bool

definition byte_size :: "int \<Rightarrow> int" where
  "byte_size v = int64 (v * 1024 * 1024)"

text \<open>The configuration Start_server begins with.\<close>

definition default_config :: bbs_configuration where
  "default_config =
     \<lparr>Server_control_name = ''bbs.ctl'', Exclusion_wait = 5000, Sign_valid_window = 15, Etag_save_threshold = 1,
      Xml_parameter_size_limit = 2, Verify_fs_write = False, Keep_trailing_slash = False,
      Check_fetch_owner_query = False, Check_get_range_bound = False,
      Strict_etag_quoting = False, Forbid_last_chunk_crlf = False,
      Nesting_chunked_stream = False\<rparr>"

section \<open>Metainfo\<close>

text \<open>
  A Go pointer is an option; a nil map is None.  Times are nanoseconds since 1970, UTC.
\<close>

type_synonym time = int

text \<open>types.Tag: its key and its value.\<close>

type_synonym tag = "string option \<times> string option"

record meta_info =
  Entity_key :: string
  ETag :: string
  Checksum :: string
  Csum :: string
  Headers :: "(string \<times> string) list option"
  Tags :: "tag list option"
  CacheControl :: "string option"
  ContentDisposition :: "string option"
  ContentEncoding :: "string option"
  ContentLanguage :: "string option"
  ContentType :: "string option"
  Expires :: "time option"
  Metafile_format :: string

definition empty_meta :: meta_info where
  "empty_meta =
     \<lparr>Entity_key = [], ETag = [], Checksum = [], Csum = [], Headers = None, Tags = None,
      CacheControl = None, ContentDisposition = None, ContentEncoding = None,
      ContentLanguage = None, ContentType = None, Expires = None, Metafile_format = []\<rparr>"

definition Bbs_metafile_format :: string where "Bbs_metafile_format = ''v1.3''"

record mpul_info =
  Upload_id :: string
  Initiate_time :: time
  Checksum_type :: string
  Mpul_checksum :: string
  Metainfo :: "meta_info option"
  Mpul_format :: string

record mpul_part =
  Part_entity_key :: string
  Part_ETag :: string
  Part_size :: int
  Part_mtime :: time
  Part_checksum :: string
  Part_csum :: string

text \<open>The zero value that fills the catalog up to a part.  Go's zero time is the year 1.\<close>

definition zero_time :: time where "zero_time = - 62135596800000000000"

definition empty_part :: mpul_part where
  "empty_part =
     \<lparr>Part_entity_key = [], Part_ETag = [], Part_size = 0, Part_mtime = zero_time,
      Part_checksum = [], Part_csum = []\<rparr>"

type_synonym mpul_catalog = "mpul_part list"

section \<open>Checks and conditions\<close>

record copy_checks =
  check_algorithm :: string
  check_in_trailer :: bool
  check_size :: int
  check_md5 :: "bytes option"
  check_csum :: "bytes option"

record copy_conditions =
  some_match :: "string option"
  none_match :: "string option"
  modified_after :: "time option"
  modified_before :: "time option"
  modified_time :: "time option"
  cond_size :: "int option"

definition no_conditions :: copy_conditions where
  "no_conditions =
     \<lparr>some_match = None, none_match = None, modified_after = None, modified_before = None,
      modified_time = None, cond_size = None\<rparr>"

datatype build_op = BUILD_UPLOAD | BUILD_COPY | BUILD_LINK | BUILD_CONCAT

section \<open>The server\<close>

text \<open>
  What the server is given: its configuration, the digests of Go's standard library (an
  algorithm by its name), the text of a metafile in JSON and what a text decodes to, the
  authorities net/url accepts, and the order in which a map is visited.  The theorems hold
  for all values of these parameters.
\<close>

datatype metafile = Meta meta_info | Info mpul_info | Catalog mpul_catalog

record bbs =
  config :: bbs_configuration
  md5_sum :: "bytes \<Rightarrow> bytes"
  digest_sum :: "string \<Rightarrow> bytes \<Rightarrow> bytes"
  json_text :: "metafile \<Rightarrow> bytes"
  json_meta :: "bytes \<Rightarrow> meta_info option"
  json_info :: "bytes \<Rightarrow> mpul_info option"
  json_catalog :: "bytes \<Rightarrow> mpul_catalog option"
  url_authority :: "string \<Rightarrow> bool"
  map_order :: "string list \<Rightarrow> string list"

text \<open>
  A concrete server for the witnesses: digests that keep the first bytes, and no metafile text
  that decodes.
\<close>

definition example_digest :: "nat \<Rightarrow> bytes \<Rightarrow> bytes" where
  "example_digest n s = take n (s @ replicate n (CHR 0x00))"

definition example_bbs :: bbs where
  "example_bbs =
     \<lparr>config = default_config, md5_sum = example_digest 16, digest_sum = (\<lambda>_. example_digest 4),
      json_text = (\<lambda>_. ''{}''), json_meta = (\<lambda>_. None), json_info = (\<lambda>_. None),
      json_catalog = (\<lambda>_. None), url_authority = (\<lambda>_. True), map_order = (\<lambda>ks. ks)\<rparr>"

end
