(* ===== verification/Gotime.thy ===== *)
theory Gotime
  imports Types "HOL-Library.Monad_Syntax"
begin

text \<open>
  The part of Go's package time the server uses: the civil date of an instant, the format of
  http dates, and the format of the dates in a signature.
\<close>

definition civil :: "int \<Rightarrow> int \<times> int \<times> int" where
  "civil days =
     (let z = days + 719468;
          era = z div 146097;
          doe = z mod 146097;
          yoe = (doe - doe div 1460 + doe div 36524 - doe div 146096) div 365;
          doy = doe - (365 * yoe + yoe div 4 - yoe div 100);
          mp = (5 * doy + 2) div 153;
          d = doy - (153 * mp + 2) div 5 + 1;
          m = (if mp < 10 then mp + 3 else mp - 9);
          y = yoe + era * 400
      in (if m \<le> 2 then y + 1 else y, m, d))"

definition days_of_civil :: "int \<Rightarrow> int \<Rightarrow> int \<Rightarrow> int" where
  "days_of_civil y0 m d =
     (let y = (if m \<le> 2 then y0 - 1 else y0);
          era = y div 400;
          yoe = y mod 400;
          doy = (153 * (if m > 2 then m - 3 else m + 9) + 2) div 5 + d - 1;
          doe = yoe * 365 + yoe div 4 - yoe div 100 + doy
      in era * 146097 + doe - 719468)"

definition seconds :: "time \<Rightarrow> int" where "seconds t = t div 1000000000"

definition month_names :: "string list" where
  "month_names = [''Jan'', ''Feb'', ''Mar'', ''Apr'', ''May'', ''Jun'', ''Jul'', ''Aug'',
     ''Sep'', ''Oct'', ''Nov'', ''Dec'']"

definition day_names :: "string list" where
  "day_names = [''Sun'', ''Mon'', ''Tue'', ''Wed'', ''Thu'', ''Fri'', ''Sat'']"

definition two :: "int \<Rightarrow> string" where "two n = pad_zero 2 (print_nat 10 (nat n))"

definition four :: "int \<Rightarrow> string" where "four n = pad_zero 4 (print_nat 10 (nat n))"

definition clock_text :: "int \<Rightarrow> string" where
  "clock_text s = two (s div 3600) @ '':'' @ two (s div 60 mod 60) @ '':'' @ two (s mod 60)"

text \<open>t.Format(time.RFC1123), the last word being the abbreviation of the time zone.\<close>

definition format_rfc1123 :: "string \<Rightarrow> time \<Rightarrow> string" where
  "format_rfc1123 zone t =
     (let days = seconds t div 86400; (y, m, d) = civil days
      in day_names ! nat ((days + 4) mod 7) @ '', '' @ two d @ '' ''
         @ month_names ! nat (m - 1) @ '' '' @ four y @ '' ''
         @ clock_text (seconds t mod 86400) @ '' '' @ zone)"

lemma format_rfc1123_example:
  "format_rfc1123 ''GMT'' 784111777000000000 = ''Sun, 06 Nov 1994 08:49:37 GMT''"
  by code_simp

lemma format_rfc1123_utc_example:
  "format_rfc1123 ''UTC'' 784111777000000000 = ''Sun, 06 Nov 1994 08:49:37 UTC''"
  by code_simp

section \<open>Parsing\<close>

text \<open>
  time.Parse goes through the layout and consumes the value.  Each step returns what is left, or
  None for an error.  A literal character of the layout must be there; a space of the layout
  takes all spaces of the value, and none at its end.
\<close>

definition skip_char :: "char \<Rightarrow> string \<Rightarrow> string option" where
  "skip_char c s = (case s of [] \<Rightarrow> None | x # xs \<Rightarrow> if x = c then Some xs else None)"

definition skip_space :: "string \<Rightarrow> string option" where
  "skip_space s =
     (if s \<noteq> [] \<and> hd s \<noteq> CHR '' '' then None else Some (dropWhile (\<lambda>c. c = CHR '' '') s))"

text \<open>getnum: two digits, or one when the layout does not ask for the leading zero.\<close>

definition digit_at :: "string \<Rightarrow> nat \<Rightarrow> int" where
  "digit_at s i = of_char (s ! i) - 48"

definition getnum :: "bool \<Rightarrow> string \<Rightarrow> (int \<times> string) option" where
  "getnum fixed s =
     (if s = [] \<or> \<not> is_digit (s ! 0) then None
      else if 2 \<le> length s \<and> is_digit (s ! 1)
      then Some (digit_at s 0 * 10 + digit_at s 1, drop 2 s)
      else if fixed then None
      else Some (digit_at s 0, drop 1 s))"

definition get_year :: "string \<Rightarrow> (int \<times> string) option" where
  "get_year s =
     (if length s < 4 \<or> \<not> list_all is_digit (take 4 s) then None
      else Some (digit_at s 0 * 1000 + digit_at s 1 * 100 + digit_at s 2 * 10 + digit_at s 3, drop 4 s))"

text \<open>A name of a table, in any case; its index.\<close>

fun get_name :: "nat \<Rightarrow> string list \<Rightarrow> string \<Rightarrow> (nat \<times> string) option" where
  "get_name i [] s = None"
| "get_name i (n # ns) s =
     (if length n \<le> length s \<and> equal_fold (take (length n) s) n then Some (i, drop (length n) s)
      else get_name (i + 1) ns s)"

text \<open>A fraction of a second that the layout does not have; digits after the ninth are dropped.\<close>

definition get_fraction :: "string \<Rightarrow> int \<times> string" where
  "get_fraction s =
     (if 2 \<le> length s \<and> (s ! 0 = CHR ''.'' \<or> s ! 0 = CHR '','') \<and> is_digit (s ! 1)
      then (let ds = takeWhile is_digit (tl s); d9 = take 9 ds;
                n = (case digits_val 10 0 d9 of Some n \<Rightarrow> int n | None \<Rightarrow> 0)
            in (n * 10 ^ (9 - length d9), dropWhile is_digit (tl s)))
      else (0, s))"

definition days_in_month :: "int \<Rightarrow> int \<Rightarrow> int" where
  "days_in_month y m =
     (if m = 2 then (if (y mod 4 = 0 \<and> y mod 100 \<noteq> 0) \<or> y mod 400 = 0 then 29 else 28)
      else if m \<in> {4, 6, 9, 11} then 30 else 31)"

text \<open>The hour, the minute and the second, with the separators sep between them.\<close>

definition get_clock :: "(string \<Rightarrow> string option) \<Rightarrow> string \<Rightarrow> (int \<times> int \<times> string) option" where
  "get_clock sep s = do {
     (h, s) \<leftarrow> getnum False s;
     s \<leftarrow> sep s;
     (mi, s) \<leftarrow> getnum True s;
     s \<leftarrow> sep s;
     (se, s) \<leftarrow> getnum True s;
     if 24 \<le> h \<or> 60 \<le> mi \<or> 60 \<le> se then None
     else (let (ns, s) = get_fraction s in Some (h * 3600 + mi * 60 + se, ns, s))
   }"

definition date_of :: "int \<Rightarrow> int \<Rightarrow> int \<Rightarrow> int \<Rightarrow> int \<Rightarrow> time option" where
  "date_of y m d clock ns =
     (if 1 \<le> m \<and> m \<le> 12 \<and> 1 \<le> d \<and> d \<le> days_in_month y m
      then Some ((days_of_civil y m d * 86400 + clock) * 1000000000 + ns)
      else None)"

text \<open>time.Parse with the layout of X-Amz-Date: 20060102T150405Z.\<close>

definition parse_x_amz_date :: "string \<Rightarrow> time option" where
  "parse_x_amz_date s = do {
     (y, s) \<leftarrow> get_year s;
     (m, s) \<leftarrow> getnum True s;
     (d, s) \<leftarrow> getnum True s;
     s \<leftarrow> skip_char (CHR ''T'') s;
     (c, ns, s) \<leftarrow> get_clock Some s;
     if s = ''Z'' then date_of y m d c ns else None
   }"

text \<open>
  The zone of an RFC 1123 date, parseTimeZone of the package time: the length of the abbreviation
  at the head of the text.
\<close>

definition is_upper :: "char \<Rightarrow> bool" where
  "is_upper c \<longleftrightarrow> 65 \<le> (of_char c :: nat) \<and> (of_char c :: nat) \<le> 90"

text \<open>The length of a sign and an hour from 0 to 23; 0 when there is none.\<close>

definition signed_offset :: "string \<Rightarrow> nat" where
  "signed_offset s =
     (case s of
        [] \<Rightarrow> 0
      | c # r \<Rightarrow>
          if c \<noteq> CHR ''-'' \<and> c \<noteq> CHR ''+'' then 0
          else (let ds = takeWhile is_digit r in
                case digits_val 10 0 ds of
                  Some n \<Rightarrow> if ds = [] \<or> 23 < n then 0 else Suc (length ds)
                | None \<Rightarrow> 0))"

definition zone_length :: "string \<Rightarrow> nat" where
  "zone_length s =
     (if length s < 3 then 0
      else if prefix ''UTC'' s then 3
      else if prefix ''ChST'' s \<or> prefix ''MeST'' s then 4
      else if prefix ''GMT'' s then 3 + signed_offset (drop 3 s)
      else if s ! 0 = CHR ''+'' \<or> s ! 0 = CHR ''-'' then signed_offset s
      else (let n = length (takeWhile is_upper (take 6 s)) in
            if n = 3 then 3
            else if n = 4 then (if s ! 3 = CHR ''T'' \<or> take 4 s = ''WITA'' then 4 else 0)
            else if n = 5 then (if s ! 4 = CHR ''T'' then 5 else 0)
            else 0))"

text \<open>
  time.Parse with the layout RFC1123: Mon, 02 Jan 2006 15:04:05 MST.  The day of the week is not
  compared with the date.  The server runs with the time zone GMT, so that no abbreviation of a
  zone moves the instant.
\<close>

definition parse_rfc1123 :: "string \<Rightarrow> time option" where
  "parse_rfc1123 s = do {
     (_, s) \<leftarrow> get_name 0 day_names s;
     s \<leftarrow> skip_char (CHR '','') s;
     s \<leftarrow> skip_space s;
     (d, s) \<leftarrow> getnum True s;
     s \<leftarrow> skip_space s;
     (m, s) \<leftarrow> get_name 0 month_names s;
     s \<leftarrow> skip_space s;
     (y, s) \<leftarrow> get_year s;
     s \<leftarrow> skip_space s;
     (c, ns, s) \<leftarrow> get_clock (skip_char (CHR '':'')) s;
     s \<leftarrow> skip_space s;
     if zone_length s = 0 \<or> drop (zone_length s) s \<noteq> [] then None
     else date_of y (int m + 1) d c ns
   }"

definition format_x_amz_date :: "time \<Rightarrow> string" where
  "format_x_amz_date t =
     (let (y, m, d) = civil (seconds t div 86400); s = seconds t mod 86400
      in four y @ two m @ two d @ ''T'' @ two (s div 3600) @ two (s div 60 mod 60)
         @ two (s mod 60) @ ''Z'')"

lemma parse_x_amz_date_example:
  "parse_x_amz_date ''20130524T000000Z'' = Some 1369353600000000000"
  by code_simp

lemma parse_rfc1123_example:
  "parse_rfc1123 ''Sun, 06 Nov 1994 08:49:37 GMT'' = Some 784111777000000000"
  by code_simp

end
