(* ===== verification/Url.thy ===== *)
theory Url
  imports Types
begin

text \<open>
  The part of Go's package net/url the server uses: unescaping, ParseQuery and the path of a
  parsed URL, and QueryEscape.
\<close>

definition hex_val :: "char \<Rightarrow> nat option" where
  "hex_val c = (case digit_val c of None \<Rightarrow> None | Some d \<Rightarrow> if d < 16 then Some d else None)"

text \<open>unescape in the modes encodePath (query is False) and encodeQueryComponent.\<close>

fun unescape :: "bool \<Rightarrow> string \<Rightarrow> string option" where
  "unescape query [] = Some []"
| "unescape query (c # s) =
     (if c = CHR ''%'' then
        (case s of
           a # b # s' \<Rightarrow>
             (case (hex_val a, hex_val b) of
                (Some x, Some y) \<Rightarrow> map_option ((#) (char_of (16 * x + y))) (unescape query s')
              | _ \<Rightarrow> None)
         | _ \<Rightarrow> None)
      else map_option ((#) (if query \<and> c = CHR ''+'' then CHR '' '' else c)) (unescape query s))"

definition unreserved :: "char \<Rightarrow> bool" where
  "unreserved c \<longleftrightarrow> is_lower c \<or> is_digit c \<or> (65 \<le> (of_char c :: nat) \<and> (of_char c :: nat) \<le> 90)
     \<or> c \<in> {CHR ''-'', CHR ''_'', CHR ''.'', CHR ''~''}"

definition upper_hex :: "nat \<Rightarrow> char" where
  "upper_hex d = (if d < 10 then char_of (48 + d) else char_of (55 + d))"

definition QueryEscape :: "string \<Rightarrow> string" where
  "QueryEscape s =
     concat (map (\<lambda>c. if unreserved c then [c]
                      else if c = CHR '' '' then ''+''
                      else [CHR ''%'', upper_hex (of_char c div 16), upper_hex (of_char c mod 16)]) s)"

lemma hex_val_upper: "d < 16 \<Longrightarrow> hex_val (upper_hex d) = Some d"
  by (auto simp: hex_val_def upper_hex_def digit_val_def Let_def)

lemma unescape_QueryEscape: "unescape True (QueryEscape s) = Some s"
proof (induction s)
  case Nil
  then show ?case by (simp add: QueryEscape_def)
next
  case (Cons c s)
  have q: "QueryEscape (c # s) = QueryEscape [c] @ QueryEscape s" by (simp add: QueryEscape_def)
  have u: "unreserved c \<Longrightarrow> c \<noteq> CHR ''%'' \<and> c \<noteq> CHR ''+''"
    by (auto simp: unreserved_def is_lower_def is_digit_def)
  have lt: "(of_char c :: nat) div 16 < 16" "(of_char c :: nat) mod 16 < 16"
    using nat_of_char_less_256 [of c] by (simp_all add: less_mult_imp_div_less)
  have "char_of (16 * (of_char c div 16 :: nat) + of_char c mod 16) = c" by simp
  then show ?case using Cons u hex_val_upper [OF lt(1)] hex_val_upper [OF lt(2)]
    unfolding q by (auto simp: QueryEscape_def)
qed

text \<open>
  url.ParseQuery: the keys in the order they first appear, each with its values.  An error in
  any entry makes the whole call an error.
\<close>

definition add_value :: "string \<Rightarrow> string \<Rightarrow> (string \<times> string list) list \<Rightarrow> (string \<times> string list) list" where
  "add_value k v m =
     (case map_of m k of
        None \<Rightarrow> m @ [(k, [v])]
      | Some _ \<Rightarrow> map (\<lambda>(k', vs). if k' = k then (k', vs @ [v]) else (k', vs)) m)"

definition query_entry ::
  "string \<Rightarrow> (string \<times> string list) list \<Rightarrow> (string \<times> string list) list option" where
  "query_entry e m =
     (if CHR '';'' \<in> set e then None
      else if e = [] then Some m
      else (let (k, v) = (case cut_at (CHR ''='') e of None \<Rightarrow> (e, []) | Some p \<Rightarrow> p) in
            case (unescape True k, unescape True v) of
              (Some k', Some v') \<Rightarrow> Some (add_value k' v' m)
            | _ \<Rightarrow> None))"

fun query_entries ::
  "string list \<Rightarrow> (string \<times> string list) list \<Rightarrow> (string \<times> string list) list option" where
  "query_entries [] m = Some m"
| "query_entries (e # es) m =
     (case query_entry e m of None \<Rightarrow> None | Some m' \<Rightarrow> query_entries es m')"

definition ParseQuery :: "string \<Rightarrow> (string \<times> string list) list option" where
  "ParseQuery q = query_entries (split_on (CHR ''&'') q) []"

section \<open>url.Parse\<close>

definition is_letter :: "char \<Rightarrow> bool" where
  "is_letter c \<longleftrightarrow> is_lower c \<or> (65 \<le> (of_char c :: nat) \<and> (of_char c :: nat) \<le> 90)"

text \<open>getScheme: None is an error, else whether there is a scheme and the rest.\<close>

fun get_scheme :: "string \<Rightarrow> nat \<Rightarrow> string \<Rightarrow> (bool \<times> string) option" where
  "get_scheme raw i [] = Some (False, raw)"
| "get_scheme raw i (c # s) =
     (if is_letter c then get_scheme raw (i + 1) s
      else if is_digit c \<or> c \<in> {CHR ''+'', CHR ''-'', CHR ''.''} then
        (if i = 0 then Some (False, raw) else get_scheme raw (i + 1) s)
      else if c = CHR '':'' then (if i = 0 then None else Some (True, s))
      else Some (False, raw))"

definition before :: "char \<Rightarrow> string \<Rightarrow> string" where
  "before c s = takeWhile (\<lambda>x. x \<noteq> c) s"

text \<open>parse of net/url, viaRequest being false; only the path is kept.\<close>

definition url_parse_path :: "bbs \<Rightarrow> string \<Rightarrow> string option" where
  "url_parse_path b raw =
     (if list_ex (\<lambda>c. (of_char c :: nat) < 32 \<or> (of_char c :: nat) = 127) raw then None
      else if raw = ''*'' then Some ''*''
      else case get_scheme raw 0 raw of
             None \<Rightarrow> None
           | Some (scheme, rest0) \<Rightarrow>
               (let rest = before (CHR ''?'') rest0 in
                if \<not> has_prefix rest ''/'' \<and> scheme then Some []
                else if \<not> has_prefix rest ''/'' \<and> CHR '':'' \<in> set (before slash rest) then None
                else if (scheme \<or> \<not> has_prefix rest ''///'') \<and> has_prefix rest ''//'' then
                  (let a = before slash (drop 2 rest) in
                   if url_authority b a then unescape False (drop (2 + length a) rest) else None)
                else unescape False rest))"

text \<open>url.Parse: the fragment is cut off first and must unescape.\<close>

definition url_Parse :: "bbs \<Rightarrow> string \<Rightarrow> string option" where
  "url_Parse b raw =
     (case cut_at (CHR ''#'') raw of
        None \<Rightarrow> url_parse_path b raw
      | Some (u, frag) \<Rightarrow>
          (case url_parse_path b u of
             None \<Rightarrow> None
           | Some p \<Rightarrow> if frag \<noteq> [] \<and> unescape False frag = None then None else Some p))"

lemma unescape_plain: "CHR ''%'' \<notin> set s \<Longrightarrow> unescape False s = Some s"
  by (induction s) auto

end
