(* ===== verification/Conditions.thy ===== *)
theory Conditions
  imports Types Gotime Url Scanner
begin

text \<open>
  The checks of v1/server/hodgepodge.go on the parameters of a request: ranges, conditional
  headers, tags, part numbers, copy sources, content headers and the quoting of ETags.
\<close>

section \<open>Byte ranges\<close>

definition scan_range ::
  "bbs \<Rightarrow> string \<Rightarrow> string option \<Rightarrow> int \<Rightarrow> (int \<times> int) option result" where
  "scan_range b object rangestring sz =
     (let location = ''/'' @ object in
      case rangestring of
        None \<Rightarrow> ok None
      | Some s \<Rightarrow>
          (case Scan_rfc9110_ranges s of
             None \<Rightarrow> failed (s3_error InvalidArgument ''Range format is illegal.'' location)
           | Some r \<Rightarrow>
               if length r \<noteq> 1
               then failed (s3_error InvalidRange ''Range is not more than one.'' location)
               else (let (lo, hi) = r ! 0 in
                 if Check_get_range_bound (config b) \<and> \<not> (hi = - 1 \<or> hi < sz)
                 then failed (s3_error InvalidRange ''Range upper limit is beyond file.'' location)
                 else if \<not> 0 \<le> lo
                 then failed (s3_error InvalidRange ''Range lower limit is negagive.'' location)
                 else if \<not> (hi = - 1 \<or> lo \<le> hi)
                 then failed (s3_error InvalidRange ''Range is empty.'' location)
                 else if hi = - 1 then ok (Some (lo, sz))
                 else ok (Some (lo, min sz (int64 (hi + 1)))))))"

text \<open>
  Claim C33.  What a served range is: the bounds are those of the header, the upper one made
  exclusive and cut at the size of the file, as long as the upper bound is below the largest
  64-bit number, with which it wraps around.  The extent lies inside the file when the range starts
  inside it and does not have that bound; a range that starts behind the file is served with an end
  before its start.
\<close>

theorem scan_range_extent:
  assumes "scan_range b object (Some s) sz = ok (Some (lo, hi))" "0 \<le> sz"
  shows "\<exists>e. Scan_rfc9110_ranges s = Some [(lo, e)] \<and> 0 \<le> lo
    \<and> (e = - 1 \<and> hi = sz \<or> lo \<le> e \<and> e < 2 ^ 63 - 1 \<and> hi = min sz (e + 1)
       \<or> e = 2 ^ 63 - 1 \<and> hi = - (2 ^ 63))
    \<and> (e \<noteq> 2 ^ 63 - 1 \<and> lo \<le> sz \<longrightarrow> lo \<le> hi \<and> hi \<le> sz) \<and> (sz < lo \<longrightarrow> hi < lo)"
proof -
  obtain r where r: "Scan_rfc9110_ranges s = Some r" "length r = 1"
    using assms(1) by (auto simp: scan_range_def Let_def split: option.splits if_splits)
  then obtain l e where le: "r = [(l, e)]" by (cases r) auto
  have ok: "range_ok (l, e)" using Scan_ranges_ok [OF r(1)] le by simp
  have top: "int64 (e + 1) = (if e = 2 ^ 63 - 1 then - (2 ^ 63) else e + 1)"
    using ok by (auto simp: range_ok_def int64_def)
  show ?thesis using assms r le ok top
    by (auto simp: scan_range_def Let_def range_ok_def split: if_splits)
qed

text \<open>A range header evaluated through the scanner's round trip.\<close>

lemma scan_range_print:
  assumes "range_ok (l, e)" "e = - 1 \<or> l \<le> e"
  shows "scan_range example_bbs object (Some (print_ranges [(l, e)])) sz
    = ok (Some (l, if e = - 1 then sz else min sz (int64 (e + 1))))"
  using assms scan_print_ranges [of "[(l, e)]"]
  by (auto simp: scan_range_def Let_def example_bbs_def default_config_def range_ok_def)

theorem scan_range_extent_witness:
  "Scan_rfc9110_ranges (print_ranges [(2, 5)]) = Some [(2, 5)]"
proof -
  have r: "scan_range example_bbs ''bkt/x'' (Some (print_ranges [(2, 5)])) 9 = ok (Some (2, 6))"
    by (simp add: scan_range_print range_ok_def int64_def)
  show ?thesis using scan_range_extent [OF r] by (auto simp: min_def split: if_splits)
qed

text \<open>
  A range that starts behind the end of the file is not refused, although the
  comment says ranges exceeding the size are: the extent has a negative length.  And the
  largest 64-bit upper bound wraps around to an extent that ends before it starts.
\<close>

theorem scan_range_beyond_file:
  "scan_range example_bbs ''bkt/x'' (Some (print_ranges [(100, 200)])) 6 = ok (Some (100, 6))
   \<and> scan_range example_bbs ''bkt/x'' (Some (print_ranges [(0, 9223372036854775807)])) 6
       = ok (Some (0, - 9223372036854775808))"
  by (simp add: scan_range_print range_ok_def int64_def)

section \<open>Conditional headers\<close>

datatype cond_mode = Cond_read | Cond_write | Cond_delete

definition match_etags_is_star :: "string list \<Rightarrow> bool" where
  "match_etags_is_star etags \<longleftrightarrow> length etags = 1 \<and> etags ! 0 = ''*''"

text \<open>Scanning one of the two headers; Go's nil slice is the empty list.\<close>

definition scan_etags_of :: "string \<Rightarrow> string option \<Rightarrow> string list result" where
  "scan_etags_of msg h =
     (case h of
        None \<Rightarrow> ok []
      | Some s \<Rightarrow> (case Scan_rfc7232_etags s of
                    None \<Rightarrow> failed (s3_error InvalidArgument msg [])
                  | Some ts \<Rightarrow> ok ts))"

definition condition_error :: "string \<Rightarrow> string \<Rightarrow> string \<Rightarrow> time \<Rightarrow> unit result" where
  "condition_error code msg etag mtime =
     failed ((s3_error code msg [])\<lparr>headers :=
       [(''ETag'', [etag]), (''Last-Modified'', [format_rfc1123 ''UTC'' mtime])]\<rparr>)"

definition check_some_match :: "string list \<Rightarrow> string \<Rightarrow> time \<Rightarrow> copy_conditions \<Rightarrow> unit result" where
  "check_some_match etags_include etag mtime conditions =
     (let nonexist = (etag = []) in
      if etags_include \<noteq> [] then
        if \<not> nonexist \<and> match_etags_is_star etags_include then ok ()
        else if nonexist \<or> etag \<notin> set etags_include
        then condition_error PreconditionFailed ''Condition if-match fails.'' etag mtime
        else ok ()
      else case modified_before conditions of
             None \<Rightarrow> ok ()
           | Some t \<Rightarrow>
               if nonexist \<or> \<not> mtime \<le> t
               then condition_error PreconditionFailed ''Condition if-unmodified-since fails.'' etag mtime
               else ok ())"

definition check_none_match ::
  "cond_mode \<Rightarrow> string list \<Rightarrow> string \<Rightarrow> time \<Rightarrow> copy_conditions \<Rightarrow> unit result" where
  "check_none_match mode etags_exclude etag mtime conditions =
     (let nonexist = (etag = []) in
      if etags_exclude \<noteq> [] then
        (let errorcode = (if mode = Cond_read then NotModified else PreconditionFailed) in
         if nonexist then ok ()
         else if match_etags_is_star etags_exclude
         then condition_error errorcode ''Condition if-none-match fails.'' etag mtime
         else if etag \<in> set etags_exclude
         then condition_error errorcode ''Condition if-none-match fails.'' etag mtime
         else ok ())
      else case modified_after conditions of
             None \<Rightarrow> ok ()
           | Some t \<Rightarrow>
               if nonexist \<or> \<not> t \<le> mtime
               then condition_error NotModified ''Condition if-modified-since fails.'' etag mtime
               else ok ())"

definition check_time_and_size :: "string \<Rightarrow> time \<Rightarrow> int \<Rightarrow> copy_conditions \<Rightarrow> unit result" where
  "check_time_and_size etag mtime sz conditions =
     (let nonexist = (etag = []) in
      case (case modified_time conditions of
              None \<Rightarrow> ok ()
            | Some t \<Rightarrow>
                if nonexist then ok ()
                else if t \<noteq> mtime
                then condition_error PreconditionFailed
                       ''Condition x-amz-if-match-last-modified-time fails.'' etag mtime
                else ok ()) of
        Inl e \<Rightarrow> Inl e
      | Inr _ \<Rightarrow>
          (case cond_size conditions of
             None \<Rightarrow> ok ()
           | Some n \<Rightarrow>
               if nonexist then ok ()
               else if n \<noteq> sz
               then failed (s3_error PreconditionFailed ''Condition x-amz-if-match-size fails.'' [])
               else ok ()))"

definition check_conditions ::
  "string \<Rightarrow> time \<Rightarrow> int \<Rightarrow> cond_mode \<Rightarrow> copy_conditions \<Rightarrow> unit result" where
  "check_conditions etag mtime sz mode conditions =
     (if conditions = no_conditions then ok ()
      else case scan_etags_of ''Bad if-match.'' (some_match conditions) of
        Inl e \<Rightarrow> Inl e
      | Inr etags_include \<Rightarrow>
          (case scan_etags_of ''Bad if-none-match.'' (none_match conditions) of
             Inl e \<Rightarrow> Inl e
           | Inr etags_exclude \<Rightarrow>
               if etag = [] \<and> mode = Cond_delete then ok ()
               else case check_some_match etags_include etag mtime conditions of
                 Inl e \<Rightarrow> Inl e
               | Inr _ \<Rightarrow>
                   (case check_none_match mode etags_exclude etag mtime conditions of
                      Inl e \<Rightarrow> Inl e
                    | Inr _ \<Rightarrow> check_time_and_size etag mtime sz conditions)))"

text \<open>
  RFC 7232, independently of the code, on an object that exists: the comparisons of entity tags
  (section 2.3.2), the five headers (section 3) and their precedence (section 6).  An http date is
  a second, and so is the Last-Modified it is compared with.  A list of entity tags that is empty
  stands for a header that is absent.
\<close>

definition weak_tag :: "string \<Rightarrow> bool" where "weak_tag t \<longleftrightarrow> has_prefix t ''W/''"

definition strong_match :: "string \<Rightarrow> string \<Rightarrow> bool" where
  "strong_match t u \<longleftrightarrow> \<not> weak_tag t \<and> \<not> weak_tag u \<and> t = u"

definition weak_match :: "string \<Rightarrow> string \<Rightarrow> bool" where
  "weak_match t u \<longleftrightarrow> trim_prefix t ''W/'' = trim_prefix u ''W/''"

definition if_match_holds :: "string list \<Rightarrow> string \<Rightarrow> bool" where
  "if_match_holds ts etag \<longleftrightarrow> ts = [''*''] \<or> list_ex (\<lambda>t. strong_match t etag) ts"

definition if_none_match_holds :: "string list \<Rightarrow> string \<Rightarrow> bool" where
  "if_none_match_holds ts etag \<longleftrightarrow> ts \<noteq> [''*''] \<and> \<not> list_ex (\<lambda>t. weak_match t etag) ts"

definition if_unmodified_since_holds :: "time \<Rightarrow> time \<Rightarrow> bool" where
  "if_unmodified_since_holds t mtime \<longleftrightarrow> seconds mtime \<le> seconds t"

definition if_modified_since_holds :: "time \<Rightarrow> time \<Rightarrow> bool" where
  "if_modified_since_holds t mtime \<longleftrightarrow> seconds t < seconds mtime"

definition rfc7232_decision ::
  "cond_mode \<Rightarrow> string list \<Rightarrow> string list \<Rightarrow> copy_conditions \<Rightarrow> string \<Rightarrow> time \<Rightarrow> string option" where
  "rfc7232_decision mode inc exc c etag mtime =
     (if inc \<noteq> [] \<and> \<not> if_match_holds inc etag then Some PreconditionFailed
      else if inc = [] \<and> (case modified_before c of None \<Rightarrow> False | Some t \<Rightarrow> \<not> if_unmodified_since_holds t mtime)
      then Some PreconditionFailed
      else if exc \<noteq> []
      then (if if_none_match_holds exc etag then None
            else Some (if mode = Cond_read then NotModified else PreconditionFailed))
      else if mode = Cond_read \<and> (case modified_after c of None \<Rightarrow> False | Some t \<Rightarrow> \<not> if_modified_since_holds t mtime)
      then Some NotModified
      else None)"

text \<open>The two conditions S3 adds, on the exact time and on the size.\<close>

definition amz_decision :: "copy_conditions \<Rightarrow> time \<Rightarrow> int \<Rightarrow> string option" where
  "amz_decision c mtime sz =
     (if modified_time c \<notin> {None, Some mtime} \<or> cond_size c \<notin> {None, Some sz} then Some PreconditionFailed else None)"

definition decision ::
  "cond_mode \<Rightarrow> string list \<Rightarrow> string list \<Rightarrow> copy_conditions \<Rightarrow> string \<Rightarrow> time \<Rightarrow> int \<Rightarrow> string option" where
  "decision mode inc exc c etag mtime sz =
     (case rfc7232_decision mode inc exc c etag mtime of Some x \<Rightarrow> Some x | None \<Rightarrow> amz_decision c mtime sz)"

text \<open>
  Where the code follows the RFC: the dates are whole seconds, as in a header, the one of
  If-Modified-Since comes with a read and is not the second of the last modification, and the one of
  If-Unmodified-Since is that second only when the file has no fraction of it.
\<close>

definition whole_second :: "time \<Rightarrow> bool" where
  "whole_second t \<longleftrightarrow> t = seconds t * 1000000000"

definition plain_dates :: "cond_mode \<Rightarrow> copy_conditions \<Rightarrow> time \<Rightarrow> bool" where
  "plain_dates mode c mtime \<longleftrightarrow>
     (case modified_before c of
        None \<Rightarrow> True | Some t \<Rightarrow> whole_second t \<and> (seconds t = seconds mtime \<longrightarrow> whole_second mtime))
     \<and> (case modified_after c of
          None \<Rightarrow> True | Some t \<Rightarrow> whole_second t \<and> mode = Cond_read \<and> seconds t \<noteq> seconds mtime)"

text \<open>How a check ends: with a given code, or well.\<close>

definition ends_with :: "unit result \<Rightarrow> string option \<Rightarrow> bool" where
  "ends_with r c = (case c of None \<Rightarrow> r = ok () | Some x \<Rightarrow> \<exists>e. r = failed e \<and> Code e = x)"

lemma ends_with_condition_error [simp]:
  "ends_with (condition_error code msg etag mtime) (Some c) \<longleftrightarrow> c = code"
  "\<not> ends_with (condition_error code msg etag mtime) None"
  by (auto simp: ends_with_def condition_error_def)

lemma ends_with_simps [simp]:
  "ends_with (ok u) None" "\<not> ends_with (ok u) (Some c)"
  "ends_with (failed e) (Some c) \<longleftrightarrow> Code e = c"
  by (simp_all add: ends_with_def)

lemma ends_with_seq:
  assumes "ends_with r x" "ends_with s y"
  shows "ends_with (case r of Inl e \<Rightarrow> Inl e | Inr _ \<Rightarrow> s) (case x of Some c \<Rightarrow> Some c | None \<Rightarrow> y)"
  using assms by (cases x) (auto simp: ends_with_def)

lemma ends_with_weaken: "ends_with r x \<Longrightarrow> x = y \<Longrightarrow> ends_with r y"
  by simp

lemma star_list: "match_etags_is_star ts \<longleftrightarrow> ts = [''*'']"
  by (cases ts) (auto simp: match_etags_is_star_def)

lemma star_not_weak: "\<not> weak_tag ''*''" by (simp add: weak_tag_def has_prefix_def)

lemma strong_match_equal: "\<not> weak_tag etag \<Longrightarrow> list_ex (\<lambda>t. strong_match t etag) ts \<longleftrightarrow> etag \<in> set ts"
  by (auto simp: strong_match_def list_ex_iff)

lemma weak_match_equal:
  "\<not> weak_tag etag \<Longrightarrow> list_all (\<lambda>t. \<not> weak_tag t) ts \<Longrightarrow> list_ex (\<lambda>t. weak_match t etag) ts \<longleftrightarrow> etag \<in> set ts"
  by (auto simp: weak_match_def weak_tag_def trim_prefix_def list_ex_iff list_all_iff)

lemma whole_second_le:
  assumes "whole_second t"
  shows "t \<le> m \<longleftrightarrow> seconds t \<le> seconds m"
    and "seconds t = seconds m \<longrightarrow> whole_second m \<Longrightarrow> m \<le> t \<longleftrightarrow> seconds m \<le> seconds t"
  using assms by (auto simp: whole_second_def seconds_def)

lemma some_match_ends:
  assumes "etag \<noteq> []" "\<not> weak_tag etag" "plain_dates mode c mtime"
  shows "ends_with (check_some_match inc etag mtime c)
    (if inc \<noteq> [] \<and> \<not> if_match_holds inc etag then Some PreconditionFailed
     else if inc = [] \<and> (case modified_before c of None \<Rightarrow> False | Some t \<Rightarrow> \<not> if_unmodified_since_holds t mtime)
     then Some PreconditionFailed else None)"
  using assms whole_second_le(2)
  by (cases "modified_before c")
    (auto simp: check_some_match_def star_list if_match_holds_def strong_match_equal plain_dates_def
      if_unmodified_since_holds_def)

lemma none_match_ends:
  assumes "etag \<noteq> []" "\<not> weak_tag etag" "list_all (\<lambda>t. \<not> weak_tag t) exc" "plain_dates mode c mtime"
  shows "ends_with (check_none_match mode exc etag mtime c)
    (if exc \<noteq> []
     then (if if_none_match_holds exc etag then None
           else Some (if mode = Cond_read then NotModified else PreconditionFailed))
     else if mode = Cond_read \<and> (case modified_after c of None \<Rightarrow> False | Some t \<Rightarrow> \<not> if_modified_since_holds t mtime)
     then Some NotModified else None)"
  using assms whole_second_le(1)
  by (cases "modified_after c")
    (auto simp: check_none_match_def star_list if_none_match_holds_def weak_match_equal plain_dates_def
      if_modified_since_holds_def Let_def)

lemma time_and_size_ends:
  "etag \<noteq> [] \<Longrightarrow> ends_with (check_time_and_size etag mtime sz c) (amz_decision c mtime sz)"
  by (cases "modified_time c"; cases "cond_size c")
     (auto simp: check_time_and_size_def condition_error_def amz_decision_def)

lemma decision_steps:
  "decision mode inc exc c etag mtime sz =
     (case (if inc \<noteq> [] \<and> \<not> if_match_holds inc etag then Some PreconditionFailed
            else if inc = [] \<and> (case modified_before c of None \<Rightarrow> False | Some t \<Rightarrow> \<not> if_unmodified_since_holds t mtime)
            then Some PreconditionFailed else None) of
        Some x \<Rightarrow> Some x
      | None \<Rightarrow>
          (case (if exc \<noteq> []
                 then (if if_none_match_holds exc etag then None
                       else Some (if mode = Cond_read then NotModified else PreconditionFailed))
                 else if mode = Cond_read
                   \<and> (case modified_after c of None \<Rightarrow> False | Some t \<Rightarrow> \<not> if_modified_since_holds t mtime)
                 then Some NotModified else None) of
             Some x \<Rightarrow> Some x | None \<Rightarrow> amz_decision c mtime sz))"
  by (simp add: decision_def rfc7232_decision_def)

lemma conditions_empty_decision: "decision mode [] [] no_conditions etag mtime sz = None"
  by (simp add: decision_def rfc7232_decision_def amz_decision_def no_conditions_def)

lemma scan_etags_no_conditions:
  "scan_etags_of m (some_match no_conditions) = ok []"
  "scan_etags_of m (none_match no_conditions) = ok []"
  by (simp_all add: scan_etags_of_def no_conditions_def)

lemma scan_etags_msg: "scan_etags_of m h = ok ts \<Longrightarrow> scan_etags_of n h = ok ts"
  by (auto simp: scan_etags_of_def split: option.splits)

text \<open>
  Claim C32.  For an object that exists and headers that parse, check_conditions ends with the
  decision of RFC 7232, and behind it that of the two AWS conditions on time and size: it passes when
  no precondition fails, and otherwise answers with the status of the first that does.  This holds
  where the code follows the RFC: no weak tags in If-None-Match, and dates as in plain_dates.
\<close>

theorem check_conditions_decides:
  assumes "etag \<noteq> []" "scan_etags_of m1 (some_match c) = ok inc" "scan_etags_of m2 (none_match c) = ok exc"
    "\<not> weak_tag etag" "list_all (\<lambda>t. \<not> weak_tag t) exc" "plain_dates mode c mtime"
  shows "ends_with (check_conditions etag mtime sz mode c) (decision mode inc exc c etag mtime sz)"
proof (cases "c = no_conditions")
  case True
  then show ?thesis
    using assms(2,3) by (simp add: scan_etags_no_conditions conditions_empty_decision check_conditions_def)
next
  case False
  note s = scan_etags_msg [OF assms(2)] scan_etags_msg [OF assms(3)]
  note e = some_match_ends [OF assms(1,4,6), of inc] none_match_ends [OF assms(1,4,5,6)]
    time_and_size_ends [OF assms(1), of mtime sz c]
  have "check_conditions etag mtime sz mode c =
      (case check_some_match inc etag mtime c of
         Inl x \<Rightarrow> Inl x
       | Inr _ \<Rightarrow> (case check_none_match mode exc etag mtime c of
           Inl x \<Rightarrow> Inl x | Inr _ \<Rightarrow> check_time_and_size etag mtime sz c))"
    using False assms(1) by (simp add: check_conditions_def s)
  also have "ends_with ... (decision mode inc exc c etag mtime sz)"
    unfolding decision_steps by (rule ends_with_seq [OF e(1) ends_with_seq [OF e(2,3)]])
  finally show ?thesis .
qed

theorem check_conditions_decides_witness:
  "ends_with (check_conditions ''x1'' 7000000000 3 Cond_read
      (no_conditions\<lparr>none_match := Some ''*'', modified_before := Some 9000000000\<rparr>)) (Some NotModified)"
proof -
  let ?c = "no_conditions\<lparr>none_match := Some ''*'', modified_before := Some 9000000000\<rparr>"
  have s: "scan_etags_of [] (some_match ?c) = ok []" "scan_etags_of [] (none_match ?c) = ok [''*'']"
    by code_simp+
  have "plain_dates Cond_read ?c 7000000000"
    by (simp add: plain_dates_def no_conditions_def whole_second_def seconds_def)
  moreover have "\<not> weak_tag ''x1''" by (simp add: weak_tag_def has_prefix_def)
  ultimately show ?thesis
    using check_conditions_decides [OF _ s, of "''x1''" Cond_read 7000000000 3] star_not_weak
    by (simp add: decision_def rfc7232_decision_def if_none_match_holds_def if_unmodified_since_holds_def
        seconds_def no_conditions_def)
qed

text \<open>
  Where it departs from the RFC: the time of the file is compared with its fraction of a second, so
  the Last-Modified a client has been given does not serve it for If-Modified-Since nor for
  If-Unmodified-Since; even a whole second that is equal counts as modified; If-Modified-Since is
  evaluated for a PUT; and a weak tag in If-None-Match matches nothing.
\<close>

lemma conditions_depart:
  "check_conditions ''x1'' 7000000001 3 Cond_read (no_conditions\<lparr>modified_after := Some 7000000000\<rparr>) = ok ()"
  "check_conditions ''x1'' 7000000000 3 Cond_read (no_conditions\<lparr>modified_after := Some 7000000000\<rparr>) = ok ()"
  "ends_with (check_conditions ''x1'' 7000000001 3 Cond_read (no_conditions\<lparr>modified_before := Some 7000000000\<rparr>))
     (Some PreconditionFailed)"
  "ends_with (check_conditions ''x1'' 7000000000 3 Cond_write (no_conditions\<lparr>modified_after := Some 8000000000\<rparr>))
     (Some NotModified)"
  by (simp_all add: check_conditions_def no_conditions_def scan_etags_of_def check_some_match_def
      check_none_match_def check_time_and_size_def condition_error_def)

lemma rfc7232_on_these:
  "decision Cond_read [] [] (no_conditions\<lparr>modified_after := Some 7000000000\<rparr>) ''x1'' 7000000001 3 = Some NotModified"
  "decision Cond_read [] [] (no_conditions\<lparr>modified_after := Some 7000000000\<rparr>) ''x1'' 7000000000 3 = Some NotModified"
  "decision Cond_read [] [] (no_conditions\<lparr>modified_before := Some 7000000000\<rparr>) ''x1'' 7000000001 3 = None"
  "decision Cond_write [] [] (no_conditions\<lparr>modified_after := Some 8000000000\<rparr>) ''x1'' 7000000000 3 = None"
  by (simp_all add: decision_def rfc7232_decision_def amz_decision_def no_conditions_def
      if_modified_since_holds_def if_unmodified_since_holds_def seconds_def)

text \<open>
  The object that does not exist: a delete passes, If-Match and the two dates fail, and
  If-None-Match passes, so "If-None-Match: *" asks for a new object.
\<close>

lemma check_conditions_missing:
  assumes "scan_etags_of m1 (some_match c) = ok inc" "scan_etags_of m2 (none_match c) = ok exc"
  shows "check_conditions [] mtime sz mode c = ok () \<longleftrightarrow>
    mode = Cond_delete
    \<or> (inc = [] \<and> modified_before c = None \<and> (exc \<noteq> [] \<or> modified_after c = None))"
proof (cases "c = no_conditions")
  case True
  then have "inc = [] \<and> exc = []" using assms by (simp add: scan_etags_no_conditions)
  then show ?thesis using True by (simp add: no_conditions_def check_conditions_def)
next
  case False
  note s = scan_etags_msg [OF assms(1)] scan_etags_msg [OF assms(2)]
  have a: "check_some_match inc [] mtime c = ok () \<longleftrightarrow> inc = [] \<and> modified_before c = None"
    by (cases "modified_before c") (auto simp: check_some_match_def condition_error_def)
  have b: "check_none_match mode exc [] mtime c = ok () \<longleftrightarrow> exc \<noteq> [] \<or> modified_after c = None"
    by (cases "modified_after c") (auto simp: check_none_match_def condition_error_def Let_def)
  have d: "check_time_and_size [] mtime sz c = ok ()"
    by (cases "modified_time c"; cases "cond_size c") (auto simp: check_time_and_size_def)
  show ?thesis using False s a b d
    by (auto simp: check_conditions_def split: sum.split)
qed

text \<open>
  The header Last-Modified of a failed condition is not an http date: its zone is
  "UTC" where the format requires "GMT".
\<close>

theorem condition_header_zone:
  "condition_error NotModified [] ''x1'' 784111777000000000
     = failed ((s3_error NotModified [] [])\<lparr>headers :=
         [(''ETag'', [''x1'']), (''Last-Modified'', [''Sun, 06 Nov 1994 08:49:37 UTC''])]\<rparr>)"
  by (simp add: condition_error_def format_rfc1123_utc_example)

end
