(* ===== verification/Parameters.thy ===== *)
theory Parameters
  imports Conditions
begin

text \<open>
  The small functions of v1/server/hodgepodge.go that look at the parameters of a request:
  unsupported options, tags, part numbers, the copy source, content headers, ETag quoting.
\<close>

section \<open>Options\<close>

text \<open>The slots of option_check_list a check reads; the other slots are only carried.\<close>

record option_check_list =
  ExpectedBucketOwner :: "string option"
  MFA :: "string option"
  opt_PartNumber :: "int option"
  VersionId :: "string option"
  FetchOwner :: "bool option"
  StorageClass :: string
  opt_CacheControl :: "string option"

definition no_options :: option_check_list where
  "no_options =
     \<lparr>ExpectedBucketOwner = None, MFA = None, opt_PartNumber = None, VersionId = None,
      FetchOwner = None, StorageClass = [], opt_CacheControl = None\<rparr>"

definition check_options_unsupported :: "bbs \<Rightarrow> option_check_list \<Rightarrow> unit result" where
  "check_options_unsupported b i =
     (if ExpectedBucketOwner i \<noteq> None
      then failed (s3_error NotImplemented ''x-amz-expected-bucket-owner is not supported.'' [])
      else if MFA i \<noteq> None
      then failed (s3_error NotImplemented ''x-amz-mfa is not supported.'' [])
      else if opt_PartNumber i \<noteq> None
      then failed (s3_error NotImplemented ''partNumber is not supported.'' [])
      else if VersionId i \<noteq> None
      then failed (s3_error NotImplemented ''versionId is not supported.'' [])
      else if ExpectedBucketOwner i \<noteq> None
      then failed (s3_error AccessDenied ''x-amz-expected-bucket-owner is not supported.'' [])
      else if Check_fetch_owner_query (config b) \<and> FetchOwner i = Some True
      then failed (s3_error AccessDenied ''fetch-owner is not allowed.'' [])
      else if StorageClass i \<noteq> [] \<and> StorageClass i \<noteq> ''STANDARD''
      then failed (s3_error InvalidStorageClass ''Bad x-amz-storage-class.'' [])
      else ok ())"

text \<open>check_options_ignored only logs.\<close>

definition check_options_ignored :: "option_check_list \<Rightarrow> unit result" where
  "check_options_ignored i = ok ()"

lemma check_options_unsupported_iff:
  "check_options_unsupported b i = ok () \<longleftrightarrow>
     ExpectedBucketOwner i = None \<and> MFA i = None \<and> opt_PartNumber i = None \<and> VersionId i = None
     \<and> \<not> (Check_fetch_owner_query (config b) \<and> FetchOwner i = Some True)
     \<and> StorageClass i \<in> {[], ''STANDARD''}"
  by (auto simp: check_options_unsupported_def)

lemma check_options_no_options [simp]: "check_options_unsupported b no_options = ok ()"
  by (simp add: check_options_unsupported_iff no_options_def)

section \<open>Tags\<close>

definition tag_value :: "string list \<Rightarrow> string" where
  "tag_value v = (if length v = 0 then [] else v ! 0)"

text \<open>The tags are in the order in which the map is visited.\<close>

definition parse_tags :: "bbs \<Rightarrow> string \<Rightarrow> string option \<Rightarrow> tag list option result" where
  "parse_tags b object s =
     (let location = ''/'' @ object in
      case s of
        None \<Rightarrow> ok None
      | Some q \<Rightarrow>
          (case ParseQuery q of
             None \<Rightarrow> failed (s3_error InvalidArgument ''Tag format error.'' location)
           | Some m \<Rightarrow>
               (let tags = map (\<lambda>k. (Some k, Some (tag_value (case map_of m k of None \<Rightarrow> [] | Some v \<Rightarrow> v))))
                             (map_order b (map fst m))
                in if length tags = 0 then ok None else ok (Some tags))))"

section \<open>Part numbers\<close>

definition lookat_part_number :: "string \<Rightarrow> int option \<Rightarrow> bool \<Rightarrow> int result" where
  "lookat_part_number object partnumber required =
     (let location = ''/'' @ object in
      case partnumber of
        None \<Rightarrow>
          if required then failed (s3_error InvalidArgument ''PartNumber missing.'' location)
          else ok 0
      | Some part \<Rightarrow>
          if part < 1 \<or> max_part_number < part then failed (s3_error InvalidPart [] location)
          else if \<not> required \<and> part \<ge> 2
          then failed (s3_error NoSuchUpload ''Object part unsupported.'' location)
          else ok part)"

lemma lookat_part_number_bounds:
  "lookat_part_number object p required = ok n \<Longrightarrow>
     if required then 1 \<le> n \<and> n \<le> 10000 \<and> p = Some n else n = 0 \<or> n = 1"
  by (auto simp: lookat_part_number_def Let_def max_part_number_def split: option.splits if_splits)

section \<open>Copy sources\<close>

definition lookat_copy_source :: "bbs \<Rightarrow> string \<Rightarrow> string option \<Rightarrow> string result" where
  "lookat_copy_source b object copysource =
     (case copysource of
        None \<Rightarrow> failed (s3_error InvalidArgument ''No x-amz-copy-source supplied.'' [])
      | Some c \<Rightarrow>
          (case url_Parse b c of
             None \<Rightarrow> failed (s3_error InvalidArgument ''Bad x-amz-copy-source.'' [])
           | Some source \<Rightarrow>
               if \<not> check_object_naming source
               then failed (s3_error InvalidArgument ''Bad x-amz-copy-source, bad naming.'' [])
               else (let d1 = split_on slash object; s1 = split_on slash source in
                 if length d1 \<ge> 2 \<and> length s1 \<ge> 2 \<and> d1 ! 0 = s1 ! 0 then ok source
                 else failed (s3_error InvalidArgument
                   ''x-amz-copy-source must be in the same bucket.'' []))))"

lemma lookat_copy_source_same_bucket:
  "lookat_copy_source b object c = ok source \<Longrightarrow>
     check_object_naming source \<and> hd (split_on slash source) = hd (split_on slash object)"
  by (cases "split_on slash object"; cases "split_on slash source")
     (auto simp: lookat_copy_source_def Let_def split: option.splits if_splits)

text \<open>
  The copy source is not cleaned: the check that it lies in the bucket of the
  target looks at the first component only, so a source with dots escapes from the bucket
  and, with enough of them, from the pool.
\<close>

theorem copy_source_escapes:
  "lookat_copy_source example_bbs ''bkt/x'' (Some ''bkt/../other/y'') = ok ''bkt/../other/y''
   \<and> comps (make_path_of_object ''bkt/../other/y'' No_marker) = [''other'', ''y'']
   \<and> lookat_copy_source example_bbs ''bkt/x'' (Some ''bkt/../../etc/y'') = ok ''bkt/../../etc/y''
   \<and> comps (make_path_of_object ''bkt/../../etc/y'' No_marker) = [''..'', ''etc'', ''y'']"
  by code_simp

section \<open>Content headers\<close>

definition metainfo_null_for_zero :: "meta_info option \<Rightarrow> meta_info option" where
  "metainfo_null_for_zero metainfo =
     (case metainfo of
        None \<Rightarrow> None
      | Some m \<Rightarrow>
          if Checksum m = [] \<and> Csum m = [] \<and> Headers m = None \<and> Tags m = None
             \<and> CacheControl m = None \<and> ContentDisposition m = None \<and> ContentEncoding m = None
             \<and> ContentLanguage m = None \<and> ContentType m = None \<and> Expires m = None
          then None else Some m)"

definition over :: "'a option \<Rightarrow> 'a option \<Rightarrow> 'a option" where
  "over h old = (if h \<noteq> None then h else old)"

definition with_content_headers :: "meta_info \<Rightarrow> meta_info \<Rightarrow> meta_info" where
  "with_content_headers h m =
     m\<lparr>CacheControl := over (CacheControl h) (CacheControl m),
       ContentDisposition := over (ContentDisposition h) (ContentDisposition m),
       ContentEncoding := over (ContentEncoding h) (ContentEncoding m),
       ContentLanguage := over (ContentLanguage h) (ContentLanguage m),
       ContentType := over (ContentType h) (ContentType m),
       Expires := over (Expires h) (Expires m)\<rparr>"

definition merge_metainfo_with_content_headers ::
  "meta_info option \<Rightarrow> meta_info \<Rightarrow> meta_info option" where
  "merge_metainfo_with_content_headers source h =
     (let m = (case source of Some s \<Rightarrow> s | None \<Rightarrow> empty_meta) in
      metainfo_null_for_zero (Some (with_content_headers h m)))"

lemma with_content_headers_idem [simp]:
  "with_content_headers h (with_content_headers h m) = with_content_headers h m"
  by (simp add: with_content_headers_def over_def)

lemma null_for_zero_Some:
  "metainfo_null_for_zero x = Some m \<Longrightarrow> x = Some m"
  by (auto simp: metainfo_null_for_zero_def split: option.splits if_splits)

lemma merge_keeps_user_part:
  assumes "merge_metainfo_with_content_headers (Some s) h = Some m"
  shows "Headers m = Headers s \<and> Tags m = Tags s \<and> Checksum m = Checksum s \<and> Csum m = Csum s"
  using null_for_zero_Some assms
  by (fastforce simp: merge_metainfo_with_content_headers_def with_content_headers_def)

lemma merge_idempotent:
  assumes "merge_metainfo_with_content_headers s h = Some m"
  shows "merge_metainfo_with_content_headers (Some m) h = Some m"
proof -
  define m0 where "m0 = (case s of Some s' \<Rightarrow> s' | None \<Rightarrow> empty_meta)"
  have n: "metainfo_null_for_zero (Some (with_content_headers h m0)) = Some m"
    using assms by (simp add: merge_metainfo_with_content_headers_def m0_def)
  then have "m = with_content_headers h m0" using null_for_zero_Some by fastforce
  then show ?thesis using n by (simp add: merge_metainfo_with_content_headers_def)
qed

section \<open>Quoting of ETags\<close>

definition fix_etag_quoting :: "bbs \<Rightarrow> string option \<Rightarrow> string option" where
  "fix_etag_quoting b etag =
     (case etag of
        None \<Rightarrow> None
      | Some etag1 \<Rightarrow>
          if Strict_etag_quoting (config b) then etag
          else (let prefixed = has_prefix etag1 [dquote];
                    suffixed = has_suffix etag1 [dquote] in
            if \<not> prefixed \<or> \<not> suffixed then
              (let etag2 = (if \<not> prefixed then [dquote] @ etag1 else etag1)
               in Some (if \<not> suffixed then etag2 @ [dquote] else etag2))
            else etag))"

lemma fix_etag_quoting_idempotent:
  "fix_etag_quoting b (fix_etag_quoting b e) = fix_etag_quoting b e"
  by (cases e) (auto simp: fix_etag_quoting_def has_prefix_def has_suffix_def suffix_def Let_def)

end
