(* ===== verification/Chunked.thy ===== *)
theory Chunked
  imports Types
begin

text \<open>
  The reader of chunked bodies: v1/server/chunked-reader.go, over a model of Go's
  bufio.Reader.  The body arrives in segments, one for each read of the connection.
\<close>

section \<open>bufio.Reader\<close>

text \<open>
  The buffered bytes, the segments still to come, and the error after them (None is EOF).
  The buffer holds 4096 bytes.
\<close>

record bufio =
  buffered :: bytes
  segs :: "bytes list"
  ending :: "os_error option"

definition bufio_total :: "bufio \<Rightarrow> nat" where
  "bufio_total r = length (buffered r) + sum_list (map length (segs r))"

definition bufio_all :: "bufio \<Rightarrow> bytes" where
  "bufio_all r = buffered r @ concat (segs r)"

text \<open>Filling until n bytes are buffered.\<close>

fun fill_to :: "nat \<Rightarrow> bytes \<Rightarrow> bytes list \<Rightarrow> bytes \<times> bytes list" where
  "fill_to n bf [] = (bf, [])"
| "fill_to n bf (s # ss) =
     (if n \<le> length bf then (bf, s # ss)
      else (let k = 4096 - length bf in
            if length s \<le> k then fill_to n (bf @ s) ss
            else (bf @ take k s, drop k s # ss)))"

text \<open>Peek: the bytes seen, at most n, and the error when they are fewer.\<close>

definition bufio_Peek :: "nat \<Rightarrow> bufio \<Rightarrow> bytes \<times> os_error option option \<times> bufio" where
  "bufio_Peek n r =
     (let (bf, ss) = fill_to n (buffered r) (segs r) in
      (take n bf, if length bf < n then Some (ending r) else None, r\<lparr>buffered := bf, segs := ss\<rparr>))"

text \<open>One read of k bytes: what is buffered, or the next segment; Inl is the end.\<close>

definition bufio_Read :: "nat \<Rightarrow> bufio \<Rightarrow> (os_error option + bytes) \<times> bufio" where
  "bufio_Read k r =
     (if k = 0 then (Inr [], r)
      else if buffered r \<noteq> [] then (Inr (take k (buffered r)), r\<lparr>buffered := drop k (buffered r)\<rparr>)
      else case dropWhile (\<lambda>s. s = []) (segs r) of
             [] \<Rightarrow> (Inl (ending r), r\<lparr>segs := []\<rparr>)
           | s # ss \<Rightarrow>
               if 4096 \<le> k then (Inr (take k s), r\<lparr>segs := drop k s # ss\<rparr>)
               else (let bf = take 4096 s in
                     (Inr (take k bf), r\<lparr>buffered := drop k bf, segs := drop 4096 s # ss\<rparr>)))"

section \<open>The reader\<close>

datatype chunked_type = Chunked_NO | Chunked_HTTP1 | Chunked_AWSS3

record chunked_reader =
  cr_r :: bufio
  cr_signing :: bool
  cr_trailer :: bool
  m_hunting_header :: bool
  cr_content_length :: int
  content_n :: int
  payload_length :: int
  payload_n :: int
  chunk_length :: int
  chunk_n :: int
  forbid_last_chunk_crlf :: bool
  http_headers :: "(string \<times> string list) list"
  chunks :: "(int \<times> int \<times> string) list"

definition chunk_header_peek :: nat where "chunk_header_peek = 160"

text \<open>A Chunked_reader_error, by its text; a nested error may be nil.\<close>

definition chunk_error :: "string \<Rightarrow> os_error option \<Rightarrow> os_error" where
  "chunk_error msg nested =
     Text_error (msg @ ''; error='' @ (case nested of None \<Rightarrow> ''<nil>'' | Some e \<Rightarrow> os_error_text e))"

definition bad_chunk_header :: string where "bad_chunk_header = ''Bad chunk header''"
definition missing_cr_lf :: string where "missing_cr_lf = ''Missing cr+lf in chunk''"
definition no_sign_in_chunk_header :: string where
  "no_sign_in_chunk_header = ''No signature in chunk header''"

definition chunk_signature_key :: string where "chunk_signature_key = ''chunk-signature=''"

text \<open>The header in the bytes peeked: the bytes to skip, the size and the signature.\<close>

definition scan_chunk_header :: "bytes \<Rightarrow> bool \<Rightarrow> os_error + (nat \<times> int \<times> string)" where
  "scan_chunk_header b1 signing =
     (let bad = chunk_error bad_chunk_header (Some (Text_error (''Bad header; header='' @ b1))) in
      case index_of (CHR 0x0A) b1 of
        None \<Rightarrow> Inl bad
      | Some x1 \<Rightarrow>
          if x1 \<le> 1 then Inl bad
          else if b1 ! (x1 - 1) \<noteq> CHR 0x0D then Inl bad
          else (let b2 = take (x1 - 1) b1 in
            case index_of (CHR '';'') b2 of
              None \<Rightarrow>
                (case parse_int 16 64 b2 of
                   None \<Rightarrow> Inl (chunk_error bad_chunk_header (Some (Text_error b2)))
                 | Some sz \<Rightarrow>
                     if signing then Inl (chunk_error no_sign_in_chunk_header None)
                     else Inr (x1 + 1, sz, []))
            | Some x2 \<Rightarrow>
                (case parse_int 16 64 (take x2 b2) of
                   None \<Rightarrow> Inl (chunk_error bad_chunk_header (Some (Text_error b2)))
                 | Some sz \<Rightarrow>
                     if \<not> has_prefix (drop (x2 + 1) b2) chunk_signature_key
                     then Inl (chunk_error bad_chunk_header (Some (Text_error (''No chunk-signature; header='' @ b2))))
                     else (let sig = drop (length chunk_signature_key) (drop (x2 + 1) b2) in
                       if length sig = 0
                       then Inl (chunk_error bad_chunk_header (Some (Text_error (''Empty chunk-signature; header='' @ b2))))
                       else Inr (x1 + 1, sz, sig)))))"

text \<open>lookat_chunk_header: the end of the stream is no error of the peek.\<close>

definition lookat_chunk_header :: "bufio \<Rightarrow> bool \<Rightarrow> (os_error + (nat \<times> int \<times> string)) \<times> bufio" where
  "lookat_chunk_header r signing =
     (case bufio_Peek chunk_header_peek r of
        (b1, Some (Some e), r1) \<Rightarrow> (Inl (chunk_error ''Peek error in chunk header'' (Some e)), r1)
      | (b1, _, r1) \<Rightarrow> (scan_chunk_header b1 signing, r1))"

definition eof_error :: "os_error option \<Rightarrow> os_error" where
  "eof_error e = (case e of None \<Rightarrow> Text_error ''EOF'' | Some x \<Rightarrow> x)"

definition consume_cr_lf :: "bufio \<Rightarrow> os_error option \<times> bufio" where
  "consume_cr_lf r =
     (case bufio_Read 2 r of
        (Inl e, r1) \<Rightarrow> (Some (chunk_error missing_cr_lf (Some (eof_error e))), r1)
      | (Inr d, r1) \<Rightarrow>
          if length d \<noteq> 2 \<or> d \<noteq> crlf then (Some (chunk_error missing_cr_lf None), r1) else (None, r1))"

section \<open>The trailer\<close>

text \<open>
  textproto.Reader.ReadMIMEHeader: lines up to an empty one, each a key and a value; a line
  that begins with white space continues the one before, and must not be the first.
\<close>

definition chomp :: "bytes \<Rightarrow> bytes" where
  "chomp l = (if has_suffix l [CHR 0x0D] then butlast l else l)"

fun canonical_chars :: "bool \<Rightarrow> string \<Rightarrow> string" where
  "canonical_chars up [] = []"
| "canonical_chars up (c # s) =
     (let d = (if up then (if is_lower c then char_of (of_char c - 32 :: nat) else c)
               else hd (to_lower [c]))
      in d # canonical_chars (c = CHR ''-'') s)"

definition canonical_key :: "string \<Rightarrow> string" where
  "canonical_key k = canonical_chars True k"

definition blank :: "char \<Rightarrow> bool" where "blank c \<longleftrightarrow> c = CHR '' '' \<or> c = CHR 0x09"

definition trim_blank :: "bytes \<Rightarrow> bytes" where
  "trim_blank s = trim_right_by blank (trim_left_by blank s)"

definition token_char :: "char \<Rightarrow> bool" where
  "token_char c \<longleftrightarrow> graphic c
     \<and> c \<notin> set [CHR ''('', CHR '')'', CHR ''<'', CHR ''>'', CHR ''@'', CHR '','', CHR '';'', CHR '':'',
                 CHR 0x5C, dquote, CHR ''/'', CHR ''['', CHR '']'', CHR ''?'', CHR ''='', CHR ''{'', CHR ''}'']"

definition set_header :: "string \<Rightarrow> string list \<Rightarrow> (string \<times> string list) list \<Rightarrow> (string \<times> string list) list" where
  "set_header k v h = (k, v) # filter (\<lambda>(k', _). k' \<noteq> k) h"

definition value_byte :: "char \<Rightarrow> bool" where
  "value_byte c \<longleftrightarrow> c = CHR 0x09 \<or> (32 \<le> (of_char c :: nat) \<and> c \<noteq> CHR 0x7F)"

text \<open>A key with a space is accepted and stays as it is.\<close>

definition mime_key :: "string \<Rightarrow> string option" where
  "mime_key k =
     (if k = [] \<or> \<not> list_all (\<lambda>c. token_char c \<or> c = CHR '' '') k then None
      else Some (if CHR '' '' \<in> set k then k else canonical_key k))"

text \<open>The lines are cut at the line feeds; the last one has none, and ends the input.\<close>

definition continues :: "bytes \<Rightarrow> bool" where
  "continues l \<longleftrightarrow> l \<noteq> [] \<and> blank (hd l)"

fun join_lines :: "bytes \<Rightarrow> bytes list \<Rightarrow> bytes \<times> bytes list" where
  "join_lines kv (l # m # ls) =
     (if continues l then join_lines (kv @ CHR '' '' # trim_blank (chomp l)) (m # ls) else (kv, l # m # ls))"
| "join_lines kv ls = (kv, ls)"

lemma join_lines_shorter: "join_lines kv ls = (kv', ls') \<Longrightarrow> length ls' \<le> length ls"
  by (induction kv ls rule: join_lines.induct) (auto split: if_splits)

function mime_lines ::
  "bytes list \<Rightarrow> (string \<times> string list) list \<Rightarrow> (string \<times> string list) list option" where
  "mime_lines [] h = None"
| "mime_lines [l] h = None"
| "mime_lines (l # m # ls) h =
     (if chomp l = [] then Some h
      else let (kv, rest) = join_lines (trim_blank (chomp l)) (m # ls) in
        case cut_at (CHR '':'') kv of
          None \<Rightarrow> None
        | Some (k, v) \<Rightarrow>
            (case mime_key k of
               None \<Rightarrow> None
             | Some key \<Rightarrow>
                 if \<not> list_all value_byte v then None
                 else (let old = (case map_of h key of None \<Rightarrow> [] | Some vs \<Rightarrow> vs)
                       in mime_lines rest (set_header key (old @ [trim_left_by blank v]) h))))"
  by pat_completeness auto
termination by (relation "measure (\<lambda>(ls, h). length ls)") (auto dest!: join_lines_shorter [OF sym])

definition read_mime_header :: "bytes \<Rightarrow> (string \<times> string list) list option" where
  "read_mime_header d =
     (if continues d then None else mime_lines (split_on (CHR 0x0A) d) [])"

text \<open>The entries of the trailer replace those of the request.\<close>

fun replace_headers ::
  "(string \<times> string list) list \<Rightarrow> (string \<times> string list) list \<Rightarrow> (string \<times> string list) list" where
  "replace_headers [] h = h"
| "replace_headers ((k, v) # t) h = replace_headers t (set_header k v h)"

definition read_chunk_trailer :: "chunked_reader \<Rightarrow> os_error option \<times> chunked_reader" where
  "read_chunk_trailer r =
     (case read_mime_header (bufio_all (cr_r r)) of
        None \<Rightarrow> (Some (chunk_error ''Read error in chunk trailer'' (Some (Text_error ''EOF''))), r)
      | Some h \<Rightarrow>
          (None, r\<lparr>http_headers := replace_headers h (http_headers r),
                   cr_r := (cr_r r)\<lparr>buffered := [], segs := []\<rparr>\<rparr>))"

section \<open>Reading\<close>

text \<open>The extra cr+lf at the end; errors are only logged.\<close>

definition end_of_chunks :: "chunked_reader \<Rightarrow> chunked_reader" where
  "end_of_chunks r =
     (if cr_content_length r \<noteq> - 1 \<and> cr_content_length r = content_n r + 2
         \<and> \<not> forbid_last_chunk_crlf r
      then r\<lparr>cr_r := snd (consume_cr_lf (cr_r r)), content_n := content_n r + 2\<rparr> else r)"

definition read_chunk_header :: "chunked_reader \<Rightarrow> os_error option \<times> chunked_reader" where
  "read_chunk_header r =
     (case lookat_chunk_header (cr_r r) (cr_signing r) of
        (Inl e, b1) \<Rightarrow> (Some e, r\<lparr>cr_r := b1\<rparr>)
      | (Inr (skip, sz, sig), b1) \<Rightarrow>
          (case bufio_Read skip b1 of
             (Inl e, b2) \<Rightarrow>
               (Some (chunk_error ''Read error in chunk header'' (Some (eof_error e))), r\<lparr>cr_r := b2\<rparr>)
           | (Inr drain, b2) \<Rightarrow>
               if length drain \<noteq> skip
               then (Some (chunk_error ''Read truncated in chunk header'' None), r\<lparr>cr_r := b2\<rparr>)
               else if drop (length drain - 2) drain \<noteq> crlf
               then (Some (chunk_error missing_cr_lf None), r\<lparr>cr_r := b2\<rparr>)
               else (let r1 = r\<lparr>cr_r := b2, chunks := chunks r @ [(payload_n r, sz, sig)],
                            content_n := content_n r + int skip, chunk_length := sz, chunk_n := 0,
                            m_hunting_header := False\<rparr>
                 in if sz \<noteq> 0 then (None, r1)
                    else if cr_trailer r1 then read_chunk_trailer r1
                    else (None, end_of_chunks r1))))"

datatype read_result = Rd_data bytes | Rd_eof | Rd_error os_error | Rd_panic

text \<open>A negative size is a slice of negative length: the request panics.\<close>

definition read_chunk_body :: "nat \<Rightarrow> chunked_reader \<Rightarrow> read_result \<times> chunked_reader" where
  "read_chunk_body len r =
     (let n1 = min (int len) (chunk_length r - chunk_n r) in
      if n1 < 0 then (Rd_panic, r)
      else case bufio_Read (nat n1) (cr_r r) of
        (Inl e, b1) \<Rightarrow>
          (Rd_error (chunk_error ''Read error in chunk body'' (Some (eof_error e))), r\<lparr>cr_r := b1\<rparr>)
      | (Inr d, b1) \<Rightarrow>
          (let r1 = r\<lparr>cr_r := b1, chunk_n := chunk_n r + int (length d)\<rparr> in
           if chunk_length r1 = chunk_n r1 then
             (case consume_cr_lf b1 of
                (Some e, b2) \<Rightarrow> (Rd_error e, r1\<lparr>cr_r := b2\<rparr>)
              | (None, b2) \<Rightarrow>
                  (Rd_data d, r1\<lparr>cr_r := b2, m_hunting_header := True,
                     content_n := content_n r1 + chunk_length r1 + 2,
                     payload_n := payload_n r1 + chunk_length r1\<rparr>))
           else (Rd_data d, r1)))"

definition chunked_Read :: "nat \<Rightarrow> chunked_reader \<Rightarrow> read_result \<times> chunked_reader" where
  "chunked_Read len r =
     (case (if m_hunting_header r then read_chunk_header r else (None, r)) of
        (Some e, r1) \<Rightarrow> (Rd_error e, r1)
      | (None, r1) \<Rightarrow> if chunk_length r1 = 0 then (Rd_eof, r1) else read_chunk_body len r1)"

text \<open>
  Reading to the end, as io.Copy does with a buffer of 32 KB.  Every read that returns data
  consumes some, so the number of bytes and one more is enough fuel.
\<close>

fun chunked_read_all ::
  "nat \<Rightarrow> chunked_reader \<Rightarrow> (bytes \<times> read_result \<times> chunked_reader) option" where
  "chunked_read_all 0 r = None"
| "chunked_read_all (Suc n) r =
     (case chunked_Read 32768 r of
        (Rd_data d, r1) \<Rightarrow> map_option (\<lambda>(ds, x). (d @ ds, x)) (chunked_read_all n r1)
      | (x, r1) \<Rightarrow> Some ([], x, r1))"

section \<open>Which requests are chunked\<close>

record http_request =
  rq_ContentLength :: int
  rq_TransferEncoding :: "string list"
  rq_Trailer :: bool
  rq_Header :: "(string \<times> string list) list"
  rq_body :: bufio

text \<open>http.Header.Get with a key in canonical form.\<close>

definition header_get :: "(string \<times> string list) list \<Rightarrow> string \<Rightarrow> string" where
  "header_get h k = (case map_of h k of Some (v # vs) \<Rightarrow> v | _ \<Rightarrow> [])"

definition check_chunked_http1 :: "http_request \<Rightarrow> bool \<times> bool \<times> bool" where
  "check_chunked_http1 q =
     (length (rq_TransferEncoding q) = 1 \<and> equal_fold (hd (rq_TransferEncoding q)) ''chunked'',
      False, rq_Trailer q)"

text \<open>hex.DecodeString succeeds: an even number of hexadecimal digits.\<close>

definition hex_decodes :: "string \<Rightarrow> bool" where
  "hex_decodes s \<longleftrightarrow> even (length s)
     \<and> list_all (\<lambda>c. case digit_val c of None \<Rightarrow> False | Some d \<Rightarrow> d < 16) s"

definition check_chunked_awss3 :: "http_request \<Rightarrow> (bool \<times> bool \<times> bool) option" where
  "check_chunked_awss3 q =
     (let aws_chunked = (header_get (rq_Header q) ''Content-Encoding'' = ''aws-chunked'');
          sha = header_get (rq_Header q) ''X-Amz-Content-Sha256''
      in if hex_decodes sha then (if aws_chunked then None else Some (False, False, False))
         else if sha = ''UNSIGNED-PAYLOAD'' then (if aws_chunked then None else Some (False, False, False))
         else if sha = ''STREAMING-UNSIGNED-PAYLOAD-TRAILER''
         then (if aws_chunked then Some (True, False, True) else None)
         else if sha = ''STREAMING-AWS4-HMAC-SHA256-PAYLOAD''
         then (if aws_chunked then Some (True, True, False) else None)
         else if sha = ''STREAMING-AWS4-HMAC-SHA256-PAYLOAD-TRAILER''
         then (if aws_chunked then Some (True, True, True) else None)
         else None)"

text \<open>New_chunked_reader: None is an error, else the reader and the payload length.\<close>

definition New_chunked_reader ::
  "http_request \<Rightarrow> bufio \<Rightarrow> chunked_type \<Rightarrow> bool \<Rightarrow> bool \<Rightarrow> bool \<Rightarrow> (chunked_reader \<times> int) option" where
  "New_chunked_reader q body kind signing trailer forbid =
     (let h = rq_Header q;
          payload = (if kind = Chunked_HTTP1 then Some (- 1)
                     else (let d = header_get h ''X-Amz-Decoded-Content-Length''
                           in if d = [] then None else parse_int 10 64 d))
      in case payload of
           None \<Rightarrow> None
         | Some p \<Rightarrow>
             (case lookat_chunk_header body signing of
                (Inl e, b1) \<Rightarrow> None
              | (Inr _, b1) \<Rightarrow>
                  Some (\<lparr>cr_r = b1, cr_signing = signing, cr_trailer = trailer,
                    m_hunting_header = True, cr_content_length = rq_ContentLength q, content_n = 0,
                    payload_length = p, payload_n = 0, chunk_length = 0, chunk_n = 0,
                    forbid_last_chunk_crlf = forbid, http_headers = h, chunks = []\<rparr>, p)))"

section \<open>Reading makes progress\<close>

lemma fill_to_all: "fill_to n bf ss = (bf', ss') \<Longrightarrow> bf' @ concat ss' = bf @ concat ss"
  by (induction n bf ss rule: fill_to.induct) (auto simp: Let_def split: if_splits)

lemma bufio_total_all: "bufio_total r = length (bufio_all r)"
  by (simp add: bufio_total_def bufio_all_def length_concat)

lemma bufio_Peek_all: "bufio_Peek n r = (b, e, r') \<Longrightarrow> bufio_all r' = bufio_all r"
  by (auto simp: bufio_Peek_def bufio_all_def fill_to_all split: prod.splits)

lemma concat_dropWhile_empty: "concat (dropWhile (\<lambda>s. s = []) ss) = concat ss"
  by (induction ss) auto

lemma bufio_Read_all:
  assumes "bufio_Read k r = (Inr d, r')"
  shows "bufio_all r = d @ bufio_all r' \<and> length d \<le> k \<and> (0 < k \<longrightarrow> d \<noteq> [])"
proof (cases "k = 0 \<or> buffered r \<noteq> []")
  case True
  then show ?thesis using assms by (auto simp: bufio_Read_def bufio_all_def split: if_splits)
next
  case False
  then obtain s ss where ss: "dropWhile (\<lambda>s. s = []) (segs r) = s # ss"
    using assms by (auto simp: bufio_Read_def split: list.splits)
  then have "s \<noteq> []" using hd_dropWhile [of "\<lambda>s. s = []" "segs r"] by auto
  moreover have "concat (segs r) = s @ concat ss"
    using concat_dropWhile_empty [of "segs r"] ss by simp
  moreover have "take k (take 4096 s) @ drop k (take 4096 s) @ drop 4096 s = s"
    by (metis append_assoc append_take_drop_id)
  ultimately show ?thesis
    using assms False ss
    by (auto simp: bufio_Read_def bufio_all_def Let_def split: if_splits)
qed

lemma bufio_Read_end: "bufio_Read k r = (Inl e, r') \<Longrightarrow> bufio_all r = [] \<and> bufio_all r' = []"
  using concat_dropWhile_empty [of "segs r"]
  by (auto simp: bufio_Read_def bufio_all_def Let_def split: if_splits list.splits)

lemma consume_cr_lf_all:
  "consume_cr_lf r = (e, r') \<Longrightarrow> bufio_total r' \<le> bufio_total r"
  by (auto simp: consume_cr_lf_def bufio_total_all dest!: bufio_Read_all bufio_Read_end
      split: prod.splits sum.splits if_splits)

text \<open>A reader that is not looking for a header has some of a chunk to read.\<close>

definition reader_ok :: "chunked_reader \<Rightarrow> bool" where
  "reader_ok r \<longleftrightarrow> m_hunting_header r
     \<or> 0 \<le> chunk_n r \<and> (chunk_length r \<le> 0 \<and> chunk_n r = 0 \<or> chunk_n r < chunk_length r)"

lemma read_chunk_header_ok:
  assumes "read_chunk_header r = (None, r')"
  shows "chunk_n r' = 0 \<and> bufio_total (cr_r r') \<le> bufio_total (cr_r r)"
proof -
  obtain skip sz sig b1 where l: "lookat_chunk_header (cr_r r) (cr_signing r) = (Inr (skip, sz, sig), b1)"
    using assms by (auto simp: read_chunk_header_def split: prod.splits sum.splits)
  then have a1: "bufio_all b1 = bufio_all (cr_r r)"
    by (auto simp: lookat_chunk_header_def dest: bufio_Peek_all split: prod.splits option.splits)
  obtain drain b2 where d: "bufio_Read skip b1 = (Inr drain, b2)"
    using assms l by (auto simp: read_chunk_header_def split: prod.splits sum.splits)
  have "bufio_total b2 \<le> bufio_total (cr_r r)"
    using bufio_Read_all [OF d] a1 by (simp add: bufio_total_all)
  moreover have "bufio_total (snd (consume_cr_lf b2)) \<le> bufio_total b2"
    using consume_cr_lf_all by (metis prod.collapse)
  ultimately show ?thesis
    using assms l d
    by (auto simp: read_chunk_header_def read_chunk_trailer_def end_of_chunks_def Let_def bufio_total_def
        split: if_splits option.splits)
qed

lemma read_chunk_body_progress:
  assumes "read_chunk_body len r = (Rd_data d, r')" "0 < len" "0 \<le> chunk_n r"
    "chunk_n r < chunk_length r"
  shows "reader_ok r' \<and> bufio_total (cr_r r') < bufio_total (cr_r r) \<and> d \<noteq> []"
proof -
  let ?n = "min (int len) (chunk_length r - chunk_n r)"
  have n: "0 < nat ?n" using assms by simp
  then obtain x b1 where x: "bufio_Read (nat ?n) (cr_r r) = (Inr x, b1)"
    using assms by (auto simp: read_chunk_body_def Let_def split: prod.splits sum.splits if_splits)
  have a: "bufio_total b1 < bufio_total (cr_r r)" "int (length x) \<le> chunk_length r - chunk_n r" "x \<noteq> []"
    using bufio_Read_all [OF x] n by (auto simp: bufio_total_all)
  have pos: "\<not> ?n < 0" using assms(4) by (simp add: min_def)
  note e = assms(1) [unfolded read_chunk_body_def Let_def if_not_P [OF pos] x prod.case sum.case]
  show ?thesis
  proof (cases "chunk_length r = chunk_n r + int (length x)")
    case True
    then obtain b2 where "consume_cr_lf b1 = (None, b2)" "cr_r r' = b2" "m_hunting_header r'" "d = x"
      using e by (auto split: prod.splits option.splits)
    then show ?thesis using a consume_cr_lf_all [of b1 None b2] by (auto simp: reader_ok_def)
  next
    case False
    then have "cr_r r' = b1" "chunk_length r' = chunk_length r" "chunk_n r' = chunk_n r + int (length x)" "d = x"
      using e by auto
    then show ?thesis using a False assms(3) by (auto simp: reader_ok_def)
  qed
qed

lemma chunked_Read_progress:
  assumes "chunked_Read len r = (Rd_data d, r')" "0 < len" "reader_ok r"
  shows "reader_ok r' \<and> bufio_total (cr_r r') < bufio_total (cr_r r)"
proof -
  obtain r1 where h: "(if m_hunting_header r then read_chunk_header r else (None, r)) = (None, r1)"
    and nz: "chunk_length r1 \<noteq> 0" and b: "read_chunk_body len r1 = (Rd_data d, r')"
    using assms(1) by (auto simp: chunked_Read_def split: prod.splits option.splits if_splits)
  have t: "bufio_total (cr_r r1) \<le> bufio_total (cr_r r)"
    using h read_chunk_header_ok [of r r1] by (auto split: if_splits)
  have "chunk_n r1 = 0 \<or> 0 \<le> chunk_n r1 \<and> chunk_n r1 < chunk_length r1"
    using h read_chunk_header_ok [of r r1] assms(3) by (auto simp: reader_ok_def split: if_splits)
  moreover have "0 \<le> chunk_length r1 - chunk_n r1"
    using b by (auto simp: read_chunk_body_def Let_def split: if_splits)
  ultimately have "0 \<le> chunk_n r1 \<and> chunk_n r1 < chunk_length r1" using nz by auto
  then show ?thesis using read_chunk_body_progress [OF b assms(2)] t by auto
qed

text \<open>What a body hands out it has consumed, and it panics at a chunk of negative size only.\<close>

lemma read_chunk_body_panics:
  "min (int len) (chunk_length r - chunk_n r) < 0 \<Longrightarrow> read_chunk_body len r = (Rd_panic, r)"
  by (simp only: read_chunk_body_def Let_def if_True)

lemma read_chunk_body_data:
  assumes "read_chunk_body len r = (Rd_data d, r')"
  shows "length d + bufio_total (cr_r r') \<le> bufio_total (cr_r r)"
proof -
  have n: "\<not> min (int len) (chunk_length r - chunk_n r) < 0"
    using assms read_chunk_body_panics [of len r] by auto
  then obtain b1 where x: "bufio_Read (nat (min (int len) (chunk_length r - chunk_n r))) (cr_r r) = (Inr d, b1)"
    using assms by (auto simp: read_chunk_body_def Let_def split: prod.splits sum.splits if_splits option.splits)
  have "length d + bufio_total b1 = bufio_total (cr_r r)"
    using bufio_Read_all [OF x] by (simp add: bufio_total_all)
  moreover have "bufio_total (snd (consume_cr_lf b1)) \<le> bufio_total b1"
    using consume_cr_lf_all by (metis prod.collapse)
  ultimately show ?thesis
    using assms n x by (auto simp: read_chunk_body_def Let_def split: prod.splits option.splits if_splits)
qed

lemma chunked_Read_data:
  assumes "chunked_Read len r = (Rd_data d, r')"
  shows "length d + bufio_total (cr_r r') \<le> bufio_total (cr_r r)"
proof -
  obtain r1 where h: "(if m_hunting_header r then read_chunk_header r else (None, r)) = (None, r1)"
    and b: "read_chunk_body len r1 = (Rd_data d, r')"
    using assms by (auto simp: chunked_Read_def split: prod.splits option.splits if_splits)
  have "bufio_total (cr_r r1) \<le> bufio_total (cr_r r)"
    using h read_chunk_header_ok [of r r1] by (auto split: if_splits)
  then show ?thesis using read_chunk_body_data [OF b] by simp
qed

lemma chunked_Read_panic:
  assumes "chunked_Read len r = (Rd_panic, r')" "reader_ok r"
  shows "chunk_length r' < 0"
proof -
  obtain r1 where h: "(if m_hunting_header r then read_chunk_header r else (None, r)) = (None, r1)"
    and b: "read_chunk_body len r1 = (Rd_panic, r')"
    using assms by (auto simp: chunked_Read_def split: prod.splits option.splits if_splits)
  have n: "min (int len) (chunk_length r1 - chunk_n r1) < 0" "r' = r1"
    using b by (auto simp: read_chunk_body_def Let_def split: prod.splits sum.splits option.splits if_splits)
  have "chunk_n r1 = 0 \<or> 0 \<le> chunk_n r1 \<and> (chunk_length r1 \<le> 0 \<and> chunk_n r1 = 0 \<or> chunk_n r1 < chunk_length r1)"
    using h read_chunk_header_ok [of r r1] assms(2) by (auto simp: reader_ok_def split: if_splits)
  then show ?thesis using n by auto
qed

text \<open>
  Claim C39.  Reading a chunked body to its end terminates, whatever the bytes and however
  they are cut into segments: the number of bytes and one more reads are enough.  What has been
  read is not longer than the body, and the end is the end of the stream, an error, or a panic,
  and a panic only when the last chunk has announced a negative size.
\<close>

theorem chunked_read_terminates:
  assumes "reader_ok r" "bufio_total (cr_r r) < n"
  shows "\<exists>d x r1. chunked_read_all n r = Some (d, x, r1) \<and> length d \<le> bufio_total (cr_r r)
    \<and> (x = Rd_eof \<or> (\<exists>e. x = Rd_error e) \<or> x = Rd_panic \<and> chunk_length r1 < 0)"
  using assms
proof (induction n arbitrary: r)
  case 0
  then show ?case by simp
next
  case (Suc n)
  obtain x r1 where x: "chunked_Read 32768 r = (x, r1)" by (cases "chunked_Read 32768 r")
  show ?case
  proof (cases x)
    case (Rd_data d)
    then have "reader_ok r1 \<and> bufio_total (cr_r r1) < bufio_total (cr_r r)"
      using chunked_Read_progress x Suc.prems(1) by (metis zero_less_numeral)
    then have "\<exists>d x r2. chunked_read_all n r1 = Some (d, x, r2) \<and> length d \<le> bufio_total (cr_r r1)
        \<and> (x = Rd_eof \<or> (\<exists>e. x = Rd_error e) \<or> x = Rd_panic \<and> chunk_length r2 < 0)"
      using Suc.IH Suc.prems(2) by simp
    then show ?thesis using x Rd_data chunked_Read_data [of 32768 r d r1] by fastforce
  qed (use x chunked_Read_panic Suc.prems(1) in auto)
qed

section \<open>Decoding what was encoded\<close>

definition print_chunk_header :: "string \<Rightarrow> nat \<Rightarrow> bytes" where
  "print_chunk_header sig n =
     print_nat 16 n @ (if sig = [] then [] else CHR '';'' # chunk_signature_key @ sig) @ crlf"

text \<open>A stream of chunks, each its data and its signature, ended by a chunk of size 0.\<close>

fun print_chunks :: "(bytes \<times> string) list \<Rightarrow> string \<Rightarrow> bytes" where
  "print_chunks [] fin = print_chunk_header fin 0 @ crlf"
| "print_chunks ((d, sig) # cs) fin =
     print_chunk_header sig (length d) @ d @ crlf @ print_chunks cs fin"

definition sig_ok :: "bool \<Rightarrow> string \<Rightarrow> bool" where
  "sig_ok signing sig \<longleftrightarrow> (signing \<longrightarrow> sig \<noteq> []) \<and> CHR 0x0A \<notin> set sig \<and> length sig \<le> 120"

definition chunk_ok :: "bool \<Rightarrow> bytes \<times> string \<Rightarrow> bool" where
  "chunk_ok signing c \<longleftrightarrow> fst c \<noteq> [] \<and> length (fst c) < 2 ^ 15 \<and> sig_ok signing (snd c)"

lemma print_nat_length: "n < 16 ^ k \<Longrightarrow> 0 < k \<Longrightarrow> length (print_nat 16 n) \<le> k"
proof (induction k arbitrary: n)
  case (Suc k)
  show ?case
  proof (cases "n < 16")
    case True
    then show ?thesis by (simp add: print_nat.simps)
  next
    case False
    then have "k \<noteq> 0" using Suc.prems by (cases k) auto
    moreover have "n div 16 < 16 ^ k" using Suc.prems by (simp add: less_mult_imp_div_less mult.commute)
    ultimately have "length (print_nat 16 (n div 16)) \<le> k" using Suc.IH by simp
    then show ?thesis using False by (subst print_nat.simps) simp
  qed
qed simp

lemma hex_text_chars: "c \<in> set (print_nat 16 n) \<Longrightarrow> c \<noteq> CHR '';'' \<and> c \<noteq> CHR 0x0A \<and> c \<noteq> CHR 0x0D"
  using print_nat_chars [of 16 c n] digit_char_not by auto

lemma take_two_more:
  "length b \<le> 158 \<Longrightarrow> take 160 (b @ x # y # r) = b @ x # y # take (158 - length b) r"
proof -
  assume "length b \<le> 158"
  then have "160 - length b = Suc (Suc (158 - length b))" by simp
  then show ?thesis by simp
qed

lemma scan_chunk_line:
  assumes "CHR 0x0A \<notin> set line" "line \<noteq> []"
  shows "index_of (CHR '';'') line = None \<Longrightarrow> parse_int 16 64 line = Some n \<Longrightarrow> \<not> signing \<Longrightarrow>
      scan_chunk_header (line @ CHR 0x0D # CHR 0x0A # r) signing = Inr (length line + 2, n, [])"
    and "index_of (CHR '';'') line = Some k \<Longrightarrow> parse_int 16 64 (take k line) = Some n \<Longrightarrow>
      drop (k + 1) line = chunk_signature_key @ sig \<Longrightarrow> sig \<noteq> [] \<Longrightarrow>
      scan_chunk_header (line @ CHR 0x0D # CHR 0x0A # r) signing = Inr (length line + 2, n, sig)"
proof -
  have i: "index_of (CHR 0x0A) (line @ CHR 0x0D # CHR 0x0A # r) = Some (Suc (length line))"
    using index_of_append [of "CHR 0x0A" "line @ [CHR 0x0D]" r] assms(1) by simp
  have gt: "\<not> Suc (length line) \<le> 1" using assms(2) by simp
  show "index_of (CHR '';'') line = None \<Longrightarrow> parse_int 16 64 line = Some n \<Longrightarrow> \<not> signing \<Longrightarrow>
      scan_chunk_header (line @ CHR 0x0D # CHR 0x0A # r) signing = Inr (length line + 2, n, [])"
    using gt by (simp add: scan_chunk_header_def i Let_def)
  show "index_of (CHR '';'') line = Some k \<Longrightarrow> parse_int 16 64 (take k line) = Some n \<Longrightarrow>
      drop (k + 1) line = chunk_signature_key @ sig \<Longrightarrow> sig \<noteq> [] \<Longrightarrow>
      scan_chunk_header (line @ CHR 0x0D # CHR 0x0A # r) signing = Inr (length line + 2, n, sig)"
    using gt by (simp add: scan_chunk_header_def i Let_def has_prefix_def)
qed

lemma scan_printed_header:
  assumes "n < 2 ^ 15" "sig_ok signing sig"
  shows "scan_chunk_header (take 160 (print_chunk_header sig n @ rest)) signing
    = Inr (length (print_chunk_header sig n), int n, sig)"
proof -
  let ?h = "print_nat 16 n"
  let ?s = "if sig = [] then [] else CHR '';'' # chunk_signature_key @ sig"
  let ?b = "?h @ ?s"
  have hl: "length ?h \<le> 4" using assms(1) by (intro print_nat_length) auto
  have kl: "length chunk_signature_key = 16" by (simp add: chunk_signature_key_def)
  have bl: "length ?b \<le> 150" using hl kl assms(2) by (auto simp: sig_ok_def)
  have t: "take 160 (print_chunk_header sig n @ rest) = ?b @ CHR 0x0D # CHR 0x0A # take (158 - length ?b) rest"
    using take_two_more [of ?b "CHR 0x0D" "CHR 0x0A" rest] bl
    unfolding print_chunk_header_def append_assoc append.simps by simp
  have nl: "CHR 0x0A \<notin> set ?b" "?b \<noteq> []"
    using hex_text_chars [of "CHR 0x0A" n] assms(2) by (auto simp: sig_ok_def chunk_signature_key_def)
  have p: "parse_int 16 64 ?h = Some (int n)" using assms(1) by (intro parse_print_hex) auto
  have len: "length (print_chunk_header sig n) = length ?b + 2" by (simp add: print_chunk_header_def)
  have semi: "CHR '';'' \<notin> set ?h" using hex_text_chars [of "CHR '';''" n] by auto
  show ?thesis
  proof (cases "sig = []")
    case True
    then have "scan_chunk_header (?b @ CHR 0x0D # CHR 0x0A # r) signing = Inr (length ?b + 2, int n, [])" for r
      using semi p assms(2) by (intro scan_chunk_line(1) [OF nl]) (auto simp: index_of_None sig_ok_def)
    then show ?thesis unfolding t len using True by simp
  next
    case False
    then have "index_of (CHR '';'') ?b = Some (length ?h)"
      using index_of_append [OF semi, of "chunk_signature_key @ sig"] by simp
    then have "scan_chunk_header (?b @ CHR 0x0D # CHR 0x0A # r) signing = Inr (length ?b + 2, int n, sig)" for r
      using p False by (intro scan_chunk_line(2) [OF nl, of "length ?h"]) auto
    then show ?thesis unfolding t len .
  qed
qed

lemma lookat_ok:
  "bufio_Peek chunk_header_peek r = (bs, e, r1) \<Longrightarrow> e = None \<or> e = Some None \<Longrightarrow>
     lookat_chunk_header r signing = (scan_chunk_header bs signing, r1)"
  by (auto simp: lookat_chunk_header_def)

text \<open>A reader whose bytes are all buffered.\<close>

lemma Peek_buffered:
  "bufio_Peek n \<lparr>buffered = bs, segs = [], ending = e\<rparr>
     = (take n bs, if length bs < n then Some e else None, \<lparr>buffered = bs, segs = [], ending = e\<rparr>)"
  by (simp add: bufio_Peek_def)

lemma Read_buffered:
  "0 < k \<Longrightarrow> bs \<noteq> [] \<Longrightarrow> bufio_Read k \<lparr>buffered = bs, segs = [], ending = e\<rparr>
     = (Inr (take k bs), \<lparr>buffered = drop k bs, segs = [], ending = e\<rparr>)"
  by (simp add: bufio_Read_def)

lemma print_chunk_header_end:
  "length (print_chunk_header sig n) \<ge> 3
   \<and> drop (length (print_chunk_header sig n) - 2) (print_chunk_header sig n) = crlf"
  by (cases "print_nat 16 n") (auto simp: print_chunk_header_def)

lemma read_printed_header:
  assumes "n < 2 ^ 15" "sig_ok (cr_signing r) sig"
    "cr_r r = \<lparr>buffered = print_chunk_header sig n @ rest, segs = [], ending = None\<rparr>"
  shows "read_chunk_header r =
    (let r1 = r\<lparr>cr_r := \<lparr>buffered = rest, segs = [], ending = None\<rparr>,
           chunks := chunks r @ [(payload_n r, int n, sig)],
           content_n := content_n r + int (length (print_chunk_header sig n)),
           chunk_length := int n, chunk_n := 0, m_hunting_header := False\<rparr>
     in if n \<noteq> 0 then (None, r1) else if cr_trailer r1 then read_chunk_trailer r1
        else (None, end_of_chunks r1))"
proof -
  let ?h = "print_chunk_header sig n"
  note e = print_chunk_header_end [of sig n]
  have l: "lookat_chunk_header (cr_r r) (cr_signing r) = (Inr (length ?h, int n, sig), cr_r r)"
    using scan_printed_header [OF assms(1,2), of rest] lookat_ok [OF Peek_buffered]
    by (simp add: assms(3) chunk_header_peek_def del: take_append)
  have "?h \<noteq> []" using e by auto
  then have d: "bufio_Read (length ?h) (cr_r r) = (Inr ?h, \<lparr>buffered = rest, segs = [], ending = None\<rparr>)"
    using e by (subst assms(3), subst Read_buffered) auto
  show ?thesis using e by (simp add: read_chunk_header_def l d Let_def)
qed

lemma read_printed_chunk:
  assumes "chunk_ok (cr_signing r) (d, sig)" "m_hunting_header r"
    "cr_r r = \<lparr>buffered = print_chunk_header sig (length d) @ d @ crlf @ rest, segs = [], ending = None\<rparr>"
  shows "\<exists>r1. chunked_Read 32768 r = (Rd_data d, r1) \<and> m_hunting_header r1
    \<and> cr_r r1 = \<lparr>buffered = rest, segs = [], ending = None\<rparr>
    \<and> cr_signing r1 = cr_signing r \<and> cr_trailer r1 = cr_trailer r
    \<and> http_headers r1 = http_headers r"
proof -
  have d: "d \<noteq> []" "length d < 2 ^ 15" "sig_ok (cr_signing r) sig"
    using assms(1) by (auto simp: chunk_ok_def)
  note h = read_printed_header [OF d(2,3) assms(3)]
  have n: "min 32768 (int (length d)) = int (length d)" using d(2) by simp
  have c: "consume_cr_lf \<lparr>buffered = crlf @ rest, segs = [], ending = None\<rparr>
      = (None, \<lparr>buffered = rest, segs = [], ending = None\<rparr>)"
    by (simp add: consume_cr_lf_def Read_buffered)
  show ?thesis using d assms(2) c
    by (simp add: chunked_Read_def h Let_def read_chunk_body_def n Read_buffered)
qed

lemma read_printed_end:
  assumes "sig_ok (cr_signing r) sig" "m_hunting_header r" "\<not> cr_trailer r"
    "cr_r r = \<lparr>buffered = print_chunk_header sig 0 @ rest, segs = [], ending = None\<rparr>"
  shows "\<exists>r1. chunked_Read 32768 r = (Rd_eof, r1)"
  using read_printed_header [OF _ assms(1,4)] assms(2,3)
  by (simp add: chunked_Read_def Let_def end_of_chunks_def)

lemma read_all_printed:
  assumes "list_all (chunk_ok (cr_signing r)) cs" "sig_ok (cr_signing r) last_sig"
    "m_hunting_header r" "\<not> cr_trailer r"
    "cr_r r = \<lparr>buffered = print_chunks cs last_sig, segs = [], ending = None\<rparr>"
    "length cs < n"
  shows "\<exists>r1. chunked_read_all n r = Some (concat (map fst cs), Rd_eof, r1)"
  using assms
proof (induction cs arbitrary: r n)
  case Nil
  then show ?case using read_printed_end [of r last_sig crlf] by (cases n) auto
next
  case (Cons c cs)
  obtain d sig where c: "c = (d, sig)" by (cases c)
  obtain m where n: "n = Suc m" using Cons.prems(6) by (cases n) auto
  obtain r1 where r1: "chunked_Read 32768 r = (Rd_data d, r1)" "m_hunting_header r1"
    "cr_r r1 = \<lparr>buffered = print_chunks cs last_sig, segs = [], ending = None\<rparr>"
    "cr_signing r1 = cr_signing r" "cr_trailer r1 = cr_trailer r"
    using read_printed_chunk [of r d sig "print_chunks cs last_sig"] Cons.prems c by auto
  then have "\<exists>r2. chunked_read_all m r1 = Some (concat (map fst cs), Rd_eof, r2)"
    using Cons.IH [of r1 m] Cons.prems n by auto
  then show ?case using r1 n c by auto
qed

lemma print_chunks_longer: "length (concat (map fst cs)) \<le> length (print_chunks cs sig)"
  by (induction cs sig rule: print_chunks.induct) auto

text \<open>
  Claim C31.  A chunked body, of HTTP or of AWS with the length of its payload in the header, that
  arrives in one piece and fits in the buffer, is decoded to the data of its chunks, signed or not:
  New_chunked_reader accepts it, with the announced length, and reading to the end returns the
  concatenation of the chunks and the end of the stream.
\<close>

theorem chunked_roundtrip:
  assumes "list_all (chunk_ok signing) cs" "sig_ok signing last_sig"
    "length (print_chunks cs last_sig) \<le> 4096" "length cs < n"
    "kind = Chunked_HTTP1 \<or> header_get (rq_Header q) ''X-Amz-Decoded-Content-Length''
        = print_nat 10 (length (concat (map fst cs)))"
  shows "\<exists>r r1. New_chunked_reader q
      \<lparr>buffered = [], segs = [print_chunks cs last_sig], ending = None\<rparr> kind signing False forbid
      = Some (r, if kind = Chunked_HTTP1 then - 1 else int (length (concat (map fst cs))))
    \<and> chunked_read_all n r = Some (concat (map fst cs), Rd_eof, r1)"
proof -
  let ?s = "print_chunks cs last_sig"
  let ?b = "\<lparr>buffered = ?s, segs = [], ending = None :: os_error option\<rparr>"
  define p where "p = (if kind = Chunked_HTTP1 then - 1 else int (length (concat (map fst cs))))"
  have pk: "bufio_Peek 160 \<lparr>buffered = [], segs = [?s], ending = None\<rparr>
      = (take 160 ?s, if length ?s < 160 then Some None else None, ?b)"
    using assms(3) by (simp add: bufio_Peek_def)
  obtain sig m rest where f: "?s = print_chunk_header sig m @ rest" "m < 2 ^ 15" "sig_ok signing sig"
    using assms(1,2) by (cases cs) (auto simp: chunk_ok_def)
  have l: "lookat_chunk_header \<lparr>buffered = [], segs = [?s], ending = None\<rparr> signing
      = (Inr (length (print_chunk_header sig m), int m, sig), ?b)"
    using scan_printed_header [OF f(2,3), of rest] lookat_ok [OF pk [folded chunk_header_peek_def]]
    unfolding chunk_header_peek_def f(1) by (simp del: take_append)
  have "length (concat (map fst cs)) \<le> 4096" using print_chunks_longer [of cs last_sig] assms(3) by simp
  then have "parse_int 10 64 (print_nat 10 (length (concat (map fst cs)))) = Some (int (length (concat (map fst cs))))"
    by (intro parse_print_nat) simp
  then have pl: "kind = Chunked_HTTP1 \<or> header_get (rq_Header q) ''X-Amz-Decoded-Content-Length'' \<noteq> []
      \<and> parse_int 10 64 (header_get (rq_Header q) ''X-Amz-Decoded-Content-Length'') = Some p"
    using assms(5) print_nat.simps [of 10 "length (concat (map fst cs))"] by (auto simp: p_def split: if_splits)
  define r where "r = \<lparr>cr_r = ?b, cr_signing = signing, cr_trailer = False,
    m_hunting_header = True, cr_content_length = rq_ContentLength q, content_n = 0,
    payload_length = p, payload_n = 0, chunk_length = 0, chunk_n = 0,
    forbid_last_chunk_crlf = forbid, http_headers = rq_Header q, chunks = []\<rparr>"
  have "New_chunked_reader q \<lparr>buffered = [], segs = [?s], ending = None\<rparr> kind signing False forbid
      = Some (r, p)"
    using pl by (auto simp: New_chunked_reader_def l Let_def r_def p_def)
  moreover have "\<exists>r1. chunked_read_all n r = Some (concat (map fst cs), Rd_eof, r1)"
    using assms by (intro read_all_printed) (simp_all add: r_def)
  ultimately show ?thesis unfolding p_def by blast
qed

text \<open>A request and a reader for the examples.\<close>

definition example_request :: http_request where
  "example_request =
     \<lparr>rq_ContentLength = - 1, rq_TransferEncoding = [], rq_Trailer = False, rq_Header = [],
      rq_body = \<lparr>buffered = [], segs = [], ending = None\<rparr>\<rparr>"

definition reader_of :: "bytes list \<Rightarrow> chunked_reader" where
  "reader_of ss =
     \<lparr>cr_r = \<lparr>buffered = [], segs = ss, ending = None\<rparr>, cr_signing = False, cr_trailer = False,
      m_hunting_header = True, cr_content_length = - 1, content_n = 0, payload_length = - 1,
      payload_n = 0, chunk_length = 0, chunk_n = 0, forbid_last_chunk_crlf = False,
      http_headers = [], chunks = []\<rparr>"

theorem chunked_read_terminates_witness:
  "\<exists>d x r1. chunked_read_all 20 (reader_of [''5'' @ crlf @ ''hel'', ''lo'' @ crlf]) = Some (d, x, r1) \<and> length d \<le> 10"
  using chunked_read_terminates [of "reader_of [''5'' @ crlf @ ''hel'', ''lo'' @ crlf]" 20]
  by (fastforce simp: reader_ok_def reader_of_def bufio_total_def)

definition aws_chunked_request :: http_request where
  "aws_chunked_request = example_request\<lparr>rq_Header := [(''X-Amz-Decoded-Content-Length'', [''5''])]\<rparr>"

theorem chunked_roundtrip_witness:
  "\<exists>r r1. New_chunked_reader aws_chunked_request
      \<lparr>buffered = [], segs = [print_chunks [(''hello'', ''ab'')] ''cd''], ending = None\<rparr>
      Chunked_AWSS3 True False False = Some (r, 5)
    \<and> chunked_read_all 2 r = Some (''hello'', Rd_eof, r1)"
proof -
  let ?cs = "[(''hello'', ''ab'')]"
  have c: "list_all (chunk_ok True) ?cs" "sig_ok True ''cd''" "length ?cs < 2"
    by (simp_all add: chunk_ok_def sig_ok_def)
  have l: "length (print_chunks ?cs ''cd'') \<le> 4096"
    by (simp add: print_chunk_header_def print_nat.simps chunk_signature_key_def)
  have h: "header_get (rq_Header aws_chunked_request) ''X-Amz-Decoded-Content-Length''
      = print_nat 10 (length (concat (map fst ?cs)))"
    by code_simp
  show ?thesis
    using chunked_roundtrip [OF c(1,2) l c(3), of Chunked_AWSS3 aws_chunked_request False] h
    by (simp del: print_chunks.simps)
qed

lemma split_cr_lf:
  assumes "160 \<le> length d" "length d < 2 ^ 11"
  shows "fst (chunked_Read 32768
      (reader_of [print_chunk_header [] (length d) @ d @ [CHR 0x0D], CHR 0x0A # rest]))
    = Rd_error (chunk_error missing_cr_lf None)"
proof -
  let ?h = "print_chunk_header [] (length d)"
  let ?r = "reader_of [?h @ d @ [CHR 0x0D], CHR 0x0A # rest]"
  let ?b = "\<lparr>buffered = ?h @ d @ [CHR 0x0D], segs = [CHR 0x0A # rest], ending = None :: os_error option\<rparr>"
  have hl: "length ?h \<le> 10"
    using print_nat_length [of "length d" 4] assms(2) by (simp add: print_chunk_header_def)
  have "bufio_Peek chunk_header_peek (cr_r ?r) = (take 160 (?h @ d @ [CHR 0x0D]), None, ?b)"
    using assms hl by (simp add: bufio_Peek_def reader_of_def chunk_header_peek_def)
  then have l: "lookat_chunk_header (cr_r ?r) (cr_signing ?r) = (Inr (length ?h, int (length d), []), ?b)"
    using scan_printed_header [of "length d" False "[]" "d @ [CHR 0x0D]"] assms(2)
    by (subst lookat_ok) (auto simp: reader_of_def sig_ok_def simp del: take_append)
  have d: "d \<noteq> []" "length d \<le> 32768" using assms by auto
  note e = print_chunk_header_end [of "[]" "length d"]
  have hd: "bufio_Read (length ?h) ?b
      = (Inr ?h, \<lparr>buffered = d @ [CHR 0x0D], segs = [CHR 0x0A # rest], ending = None\<rparr>)"
    using e by (auto simp: bufio_Read_def)
  have n: "min 32768 (int (length d)) = int (length d)" using d(2) by simp
  have body: "bufio_Read (length d) \<lparr>buffered = d @ [CHR 0x0D], segs = [CHR 0x0A # rest], ending = None\<rparr>
      = (Inr d, \<lparr>buffered = [CHR 0x0D], segs = [CHR 0x0A # rest], ending = None\<rparr>)"
    using d(1) by (simp add: bufio_Read_def)
  have c: "consume_cr_lf \<lparr>buffered = [CHR 0x0D], segs = [CHR 0x0A # rest], ending = None\<rparr>
      = (Some (chunk_error missing_cr_lf None), \<lparr>buffered = [], segs = [CHR 0x0A # rest], ending = None\<rparr>)"
    by (simp add: consume_cr_lf_def bufio_Read_def)
  have hunting: "m_hunting_header ?r" by (simp add: reader_of_def)
  show ?thesis using d(1) e c
    by (simp add: chunked_Read_def hunting read_chunk_header_def l hd Let_def read_chunk_body_def n body)
qed

text \<open>
  A well-formed body is refused when the cr+lf after a chunk straddles two reads of
  the connection: the reader asks for two bytes, is given the one that is buffered, and takes
  the short read for a missing cr+lf.
\<close>

theorem chunked_split_crlf_refused:
  "fst (chunked_Read 32768 (reader_of
      [print_chunk_header [] 200 @ replicate 200 (CHR ''a'') @ [CHR 0x0D], CHR 0x0A # ''0'' @ crlf @ crlf]))
    = Rd_error (chunk_error missing_cr_lf None)"
  using split_cr_lf [of "replicate 200 (CHR ''a'')"] by simp

text \<open>
  A chunk size may carry a sign: a negative one is accepted by the header scanner
  and makes the reader slice a buffer to a negative length, which is a panic.
\<close>

theorem chunked_negative_size_panics:
  "fst (chunked_Read 32768 (reader_of [''-5'' @ crlf @ ''hello'' @ crlf])) = Rd_panic"
  by (simp add: chunked_Read_def reader_of_def read_chunk_header_def lookat_chunk_header_def
      bufio_Peek_def chunk_header_peek_def scan_chunk_header_def Let_def parse_int_def digit_val_def
      bufio_Read_def read_chunk_body_def)

end
