(* ===== verification/Os.thy ===== *)
theory Os
  imports Parameters "HOL-Library.AList" "HOL-Library.List_Lexorder" "HOL-Library.Char_ord"
begin

text \<open>
  The world a request runs in: the file system below the working directory (the pool), as
  Go's packages os and io/fs show it to the server, the failures the system calls may meet,
  what other requests do while this one waits for the monitor, and the sequencing of calls.
\<close>

section \<open>The file system\<close>

text \<open>
  A path is the list of its components from the pool; a path outside the pool begins with
  "..".  A file is a name of an inode, so a hard link is a second name.  A symbolic link
  carries the path it stands for.
\<close>

type_synonym path = "string list"

datatype node = Dir | File nat | Symlink path | Special

datatype content = Data bytes | Json metafile

record inode =
  ino_content :: content
  ino_mtime :: time

record fsys =
  tree :: "(path \<times> node) list"
  inodes :: "(nat \<times> inode) list"
  next_ino :: nat
  now :: time

definition node_at :: "fsys \<Rightarrow> path \<Rightarrow> node option" where
  "node_at s p = (if p = [] then Some Dir else map_of (tree s) p)"

definition inode_at :: "fsys \<Rightarrow> nat \<Rightarrow> inode" where
  "inode_at s i =
     (case map_of (inodes s) i of
        None \<Rightarrow> \<lparr>ino_content = Data [], ino_mtime = 0\<rparr>
      | Some x \<Rightarrow> x)"

definition put_node :: "path \<Rightarrow> node \<Rightarrow> fsys \<Rightarrow> fsys" where
  "put_node p n s = s\<lparr>tree := AList.update p n (tree s)\<rparr>"

definition drop_node :: "path \<Rightarrow> fsys \<Rightarrow> fsys" where
  "drop_node p s = s\<lparr>tree := AList.delete p (tree s)\<rparr>"

definition put_inode :: "nat \<Rightarrow> inode \<Rightarrow> fsys \<Rightarrow> fsys" where
  "put_inode i x s = s\<lparr>inodes := AList.update i x (inodes s)\<rparr>"

definition content_bytes :: "bbs \<Rightarrow> content \<Rightarrow> bytes" where
  "content_bytes b c = (case c of Data d \<Rightarrow> d | Json m \<Rightarrow> json_text b m)"

text \<open>
  Name lookup: every component but the last must be a directory, symbolic links are followed
  (the last one only when asked), and after 40 links the lookup is an error, as in Linux.
\<close>

fun walk :: "nat \<Rightarrow> fsys \<Rightarrow> bool \<Rightarrow> path \<Rightarrow> path \<Rightarrow> os_kind + path" where
  "walk n s follow cur [] = Inr cur"
| "walk n s follow cur (c # cs) =
     (case node_at s cur of
        None \<Rightarrow> Inl Err_not_exist
      | Some Dir \<Rightarrow>
          (case node_at s (cur @ [c]) of
             Some (Symlink t) \<Rightarrow>
               if cs = [] \<and> \<not> follow then Inr (cur @ [c])
               else (case n of
                       0 \<Rightarrow> Inl (Err_other ''too many levels of symbolic links'')
                     | Suc k \<Rightarrow> walk k s follow [] (t @ cs))
           | _ \<Rightarrow> walk n s follow (cur @ [c]) cs)
      | Some _ \<Rightarrow> Inl (Err_other ''not a directory''))"

text \<open>A slash at the end of a path asks for a directory, and follows a link to it.\<close>

definition resolve :: "fsys \<Rightarrow> bool \<Rightarrow> string \<Rightarrow> os_kind + path" where
  "resolve s follow path =
     (let slashed = has_suffix path ''/'' in
      case walk 40 s (follow \<or> slashed) [] (comps path) of
        Inl k \<Rightarrow> Inl k
      | Inr p \<Rightarrow>
          if slashed \<and> node_at s p \<notin> {None, Some Dir} then Inl (Err_other ''not a directory'')
          else Inr p)"

section \<open>The world of a request\<close>

text \<open>
  faults: the failures the next system calls meet, with the number of bytes or entries done
  before a write or a removal fails.  waits: what happens at the next waits for the monitor,
  a timeout, or the entry after the other requests have changed the files.  held: the
  monitors entered.  open_inodes: the inodes this request has open for writing.
  cleanup_needed: the flag the actions share with build_object.  req_header: the header of
  the request, whose entries a trailer replaces.
\<close>

datatype wait = Timeout | Enter "fsys \<Rightarrow> fsys"

record world =
  disk :: fsys
  faults :: "(os_kind \<times> nat) option list"
  waits :: "wait list"
  held :: "string list"
  open_inodes :: "nat list"
  cleanup_needed :: bool
  req_header :: "(string \<times> string list) list"

type_synonym 'a act = "world \<Rightarrow> 'a result \<times> world"

type_synonym 'a sys = "world \<Rightarrow> (os_error + 'a) \<times> world"

section \<open>Sequencing\<close>

definition retE :: "'a \<Rightarrow> 'a act" where "retE x w = (Inr x, w)"

definition failE :: "aws_error \<Rightarrow> 'a act" where "failE e w = (failed e, w)"

definition panicE :: "'a act" where "panicE w = (Inl Panic, w)"

definition fatalE :: "'a act" where "fatalE w = (Inl Fatal, w)"

text \<open>A call whose error the caller returns at once: if err != nil then return err.\<close>

definition seqE :: "'a act \<Rightarrow> ('a \<Rightarrow> 'b act) \<Rightarrow> 'b act" where
  "seqE m f w = (case m w of (Inl e, w1) \<Rightarrow> (Inl e, w1) | (Inr x, w1) \<Rightarrow> f x w1)"

text \<open>A call whose error the caller looks at.\<close>

definition tryE :: "'a act \<Rightarrow> (aws_error + 'a) act" where
  "tryE m w =
     (case m w of
        (Inl (Fail e), w1) \<Rightarrow> (Inr (Inl e), w1)
      | (Inl Panic, w1) \<Rightarrow> (Inl Panic, w1)
      | (Inl Fatal, w1) \<Rightarrow> (Inl Fatal, w1)
      | (Inr x, w1) \<Rightarrow> (Inr (Inr x), w1))"

text \<open>A value of the pure part of the server, or its error.\<close>

definition liftE :: "'a result \<Rightarrow> 'a act" where "liftE r w = (r, w)"

text \<open>A system call: the error is a value the caller looks at.\<close>

definition sysE :: "'a sys \<Rightarrow> (os_error + 'a) act" where
  "sysE m w = (case m w of (r, w1) \<Rightarrow> (Inr r, w1))"

text \<open>
  Deferred code runs when the function returns, fails or panics, not when log.Fatal stops
  the process.  The result of the deferred call is ignored unless it stops the process or
  panics itself.
\<close>

definition deferE :: "unit act \<Rightarrow> 'a act \<Rightarrow> 'a act" where
  "deferE d m w =
     (case m w of
        (Inl Fatal, w1) \<Rightarrow> (Inl Fatal, w1)
      | (r, w1) \<Rightarrow>
          (case d w1 of
             (Inl Fatal, w2) \<Rightarrow> (Inl Fatal, w2)
           | (Inl Panic, w2) \<Rightarrow> (Inl Panic, w2)
           | (_, w2) \<Rightarrow> (r, w2)))"

text \<open>Deferred code guarded by a flag that is cleared on success.\<close>

definition on_failE :: "unit act \<Rightarrow> 'a act \<Rightarrow> 'a act" where
  "on_failE d m w =
     (case m w of
        (Inl Fatal, w1) \<Rightarrow> (Inl Fatal, w1)
      | (Inr x, w1) \<Rightarrow> (Inr x, w1)
      | (Inl e, w1) \<Rightarrow>
          (case d w1 of
             (Inl Fatal, w2) \<Rightarrow> (Inl Fatal, w2)
           | (Inl Panic, w2) \<Rightarrow> (Inl Panic, w2)
           | (_, w2) \<Rightarrow> (Inl e, w2)))"

definition assertE :: "bool \<Rightarrow> unit act" where
  "assertE c = (if c then retE () else panicE)"

fun forE :: "'a list \<Rightarrow> ('a \<Rightarrow> unit act) \<Rightarrow> unit act" where
  "forE [] f = retE ()"
| "forE (x # xs) f = seqE (f x) (\<lambda>_. forE xs f)"

definition getE :: "(world \<Rightarrow> 'a) \<Rightarrow> 'a act" where "getE f w = (Inr (f w), w)"

definition modE :: "(world \<Rightarrow> world) \<Rightarrow> unit act" where "modE f w = (Inr (), f w)"

section \<open>System calls\<close>

definition syscall :: "string \<Rightarrow> string \<Rightarrow> (fsys \<Rightarrow> os_kind + ('a \<times> fsys)) \<Rightarrow> 'a sys" where
  "syscall opn path f w =
     (let w1 = w\<lparr>faults := tl (faults w)\<rparr> in
      case faults w of
        Some (k, n) # fl \<Rightarrow> (Inl (Os_error k opn path), w1)
      | _ \<Rightarrow>
          (case f (disk w) of
             Inl k \<Rightarrow> (Inl (Os_error k opn path), w1)
           | Inr (x, s) \<Rightarrow> (Inr x, w1\<lparr>disk := s\<rparr>)))"

datatype file_type = T_regular | T_dir | T_symlink | T_special

record file_info =
  fi_type :: file_type
  fi_size :: int
  fi_mtime :: time
  fi_ino :: nat

definition inode_info :: "bbs \<Rightarrow> fsys \<Rightarrow> nat \<Rightarrow> file_info" where
  "inode_info b s i =
     (let x = inode_at s i in
      \<lparr>fi_type = T_regular, fi_size = int (length (content_bytes b (ino_content x))),
       fi_mtime = ino_mtime x, fi_ino = i\<rparr>)"

definition plain_info :: "file_type \<Rightarrow> file_info" where
  "plain_info t = \<lparr>fi_type = t, fi_size = 0, fi_mtime = 0, fi_ino = 0\<rparr>"

definition node_info :: "bbs \<Rightarrow> fsys \<Rightarrow> node \<Rightarrow> file_info" where
  "node_info b s n =
     (case n of
        Dir \<Rightarrow> plain_info T_dir
      | File i \<Rightarrow> inode_info b s i
      | Symlink t \<Rightarrow> plain_info T_symlink
      | Special \<Rightarrow> plain_info T_special)"

definition fs_stat :: "bbs \<Rightarrow> bool \<Rightarrow> string \<Rightarrow> fsys \<Rightarrow> os_kind + (file_info \<times> fsys)" where
  "fs_stat b follow path s =
     (case resolve s follow path of
        Inl k \<Rightarrow> Inl k
      | Inr p \<Rightarrow>
          (case node_at s p of
             None \<Rightarrow> Inl Err_not_exist
           | Some n \<Rightarrow> Inr (node_info b s n, s)))"

definition os_Lstat :: "bbs \<Rightarrow> string \<Rightarrow> file_info sys" where
  "os_Lstat b path = syscall ''lstat'' path (fs_stat b False path)"

definition os_Stat :: "bbs \<Rightarrow> string \<Rightarrow> file_info sys" where
  "os_Stat b path = syscall ''stat'' path (fs_stat b True path)"

text \<open>An open file: an inode, or something that cannot be read as bytes.\<close>

datatype handle = H_file nat string | H_other string

definition fs_open :: "string \<Rightarrow> fsys \<Rightarrow> os_kind + (handle \<times> fsys)" where
  "fs_open path s =
     (case resolve s True path of
        Inl k \<Rightarrow> Inl k
      | Inr p \<Rightarrow>
          (case node_at s p of
             None \<Rightarrow> Inl Err_not_exist
           | Some (File i) \<Rightarrow> Inr (H_file i path, s)
           | Some _ \<Rightarrow> Inr (H_other path, s)))"

definition os_Open :: "string \<Rightarrow> handle sys" where
  "os_Open path = syscall ''open'' path (fs_open path)"

definition file_Stat :: "bbs \<Rightarrow> handle \<Rightarrow> file_info sys" where
  "file_Stat b h =
     syscall ''stat'' (case h of H_file i p \<Rightarrow> p | H_other p \<Rightarrow> p)
       (\<lambda>s. case h of H_file i p \<Rightarrow> Inr (inode_info b s i, s) | H_other p \<Rightarrow> Inr (plain_info T_dir, s))"

text \<open>
  A stream: the bytes it delivers, and the error that ends it, if not the end of the data.
\<close>

type_synonym stream = "bytes \<times> os_error option"

text \<open>Reading a whole file: a fault delivers only some bytes.\<close>

definition file_read :: "bbs \<Rightarrow> handle \<Rightarrow> stream act" where
  "file_read b h w =
     (let w1 = w\<lparr>faults := tl (faults w)\<rparr> in
      case h of
        H_other p \<Rightarrow> (Inr ([], Some (Os_error (Err_other ''is a directory'') ''read'' p)), w1)
      | H_file i p \<Rightarrow>
          (let d = content_bytes b (ino_content (inode_at (disk w) i)) in
           case faults w of
             Some (k, n) # fl \<Rightarrow> (Inr (take n d, Some (Os_error k ''read'' p)), w1)
           | _ \<Rightarrow> (Inr (d, None), w1)))"

text \<open>Creating or truncating a file, which is then open for writing.\<close>

definition fresh_file :: "path \<Rightarrow> fsys \<Rightarrow> fsys" where
  "fresh_file p s =
     (put_node p (File (next_ino s))
       (put_inode (next_ino s) \<lparr>ino_content = Data [], ino_mtime = now s\<rparr> s))
       \<lparr>next_ino := next_ino s + 1\<rparr>"

definition fs_create :: "string \<Rightarrow> fsys \<Rightarrow> os_kind + (nat \<times> fsys)" where
  "fs_create path s =
     (case resolve s True path of
        Inl k \<Rightarrow> Inl k
      | Inr p \<Rightarrow>
          (case node_at s p of
             None \<Rightarrow> Inr (next_ino s, fresh_file p s)
           | Some (File i) \<Rightarrow> Inr (i, put_inode i \<lparr>ino_content = Data [], ino_mtime = now s\<rparr> s)
           | Some _ \<Rightarrow> Inl (Err_other ''is a directory'')))"

definition os_Create :: "string \<Rightarrow> nat sys" where
  "os_Create path w =
     (case syscall ''open'' path (fs_create path) w of
        (Inl e, w1) \<Rightarrow> (Inl e, w1)
      | (Inr i, w1) \<Rightarrow> (Inr i, w1\<lparr>open_inodes := i # open_inodes w1\<rparr>))"

definition file_Close :: "nat \<Rightarrow> unit act" where
  "file_Close i = modE (\<lambda>w. w\<lparr>open_inodes := remove1 i (open_inodes w)\<rparr>)"

definition append_data :: "bbs \<Rightarrow> nat \<Rightarrow> bytes \<Rightarrow> fsys \<Rightarrow> fsys" where
  "append_data b i d s =
     put_inode i \<lparr>ino_content = Data (content_bytes b (ino_content (inode_at s i)) @ d),
                  ino_mtime = now s\<rparr> s"

text \<open>Writing to an open file; a fault leaves a first part of the data.\<close>

definition file_write :: "bbs \<Rightarrow> nat \<Rightarrow> string \<Rightarrow> bytes \<Rightarrow> unit sys" where
  "file_write b i path d w =
     (let w1 = w\<lparr>faults := tl (faults w)\<rparr> in
      if i \<notin> set (open_inodes w) then (Inl (Os_error Err_closed ''write'' path), w1)
      else case faults w of
        Some (k, n) # fl \<Rightarrow>
          (Inl (Os_error k ''write'' path), w1\<lparr>disk := append_data b i (take n d) (disk w)\<rparr>)
      | _ \<Rightarrow> (Inr (), w1\<lparr>disk := append_data b i d (disk w)\<rparr>))"

definition file_write_json :: "bbs \<Rightarrow> nat \<Rightarrow> string \<Rightarrow> metafile \<Rightarrow> unit sys" where
  "file_write_json b i path m w =
     (let w1 = w\<lparr>faults := tl (faults w)\<rparr> in
      if i \<notin> set (open_inodes w) then (Inl (Os_error Err_closed ''write'' path), w1)
      else case faults w of
        Some (k, n) # fl \<Rightarrow>
          (Inl (Os_error k ''write'' path), w1\<lparr>disk := append_data b i (take n (json_text b m)) (disk w)\<rparr>)
      | _ \<Rightarrow> (Inr (), w1\<lparr>disk :=
               put_inode i \<lparr>ino_content = Json m, ino_mtime = now (disk w)\<rparr> (disk w)\<rparr>))"

text \<open>io.Copy of a stream to a file: the count, or the error of the reader or of the writer.\<close>

definition io_Copy :: "bbs \<Rightarrow> nat \<Rightarrow> string \<Rightarrow> stream \<Rightarrow> (os_error + int) act" where
  "io_Copy b i path src =
     seqE (sysE (file_write b i path (fst src))) (\<lambda>r.
     retE (case r of
             Inl e \<Rightarrow> Inl e
           | Inr _ \<Rightarrow> (case snd src of Some e \<Rightarrow> Inl e | None \<Rightarrow> Inr (int (length (fst src))))))"

definition children :: "fsys \<Rightarrow> path \<Rightarrow> path list" where
  "children s p = filter (\<lambda>q. q \<noteq> [] \<and> butlast q = p) (remdups (map fst (tree s)))"

definition fs_remove :: "string \<Rightarrow> fsys \<Rightarrow> os_kind + (unit \<times> fsys)" where
  "fs_remove path s =
     (case resolve s False path of
        Inl k \<Rightarrow> Inl k
      | Inr p \<Rightarrow>
          (case node_at s p of
             None \<Rightarrow> Inl Err_not_exist
           | Some Dir \<Rightarrow>
               if p = [] then Inl Err_invalid
               else if children s p \<noteq> [] then Inl Err_exist
               else Inr ((), drop_node p s)
           | Some _ \<Rightarrow> Inr ((), drop_node p s)))"

definition os_Remove :: "string \<Rightarrow> unit sys" where
  "os_Remove path = syscall ''remove'' path (fs_remove path)"

text \<open>
  Renaming.  The server renames files only; a directory as the source is an error here.  Two
  names of the same file stay as they are, with success.
\<close>

definition same_file :: "node \<Rightarrow> node option \<Rightarrow> bool" where
  "same_file n m = (case n of File i \<Rightarrow> m = Some (File i) | _ \<Rightarrow> False)"

definition fs_rename :: "string \<Rightarrow> string \<Rightarrow> fsys \<Rightarrow> os_kind + (unit \<times> fsys)" where
  "fs_rename old new s =
     (case resolve s False new of
        Inl k \<Rightarrow> Inl k
      | Inr q \<Rightarrow>
          (case resolve s False old of
             Inl k \<Rightarrow> Inl k
           | Inr p \<Rightarrow>
               (case node_at s p of
                  None \<Rightarrow> Inl Err_not_exist
                | Some n \<Rightarrow>
                    if node_at s q = Some Dir then Inl Err_exist
                    else if n = Dir then Inl (Err_other ''is a directory'')
                    else if p = q \<or> same_file n (node_at s q) then Inr ((), s)
                    else Inr ((), put_node q n (drop_node p s)))))"

definition os_Rename :: "string \<Rightarrow> string \<Rightarrow> unit sys" where
  "os_Rename old new = syscall ''rename'' (old @ '' '' @ new) (fs_rename old new)"

definition fs_link :: "string \<Rightarrow> string \<Rightarrow> fsys \<Rightarrow> os_kind + (unit \<times> fsys)" where
  "fs_link old new s =
     (case resolve s False old of
        Inl k \<Rightarrow> Inl k
      | Inr p \<Rightarrow>
          (case node_at s p of
             None \<Rightarrow> Inl Err_not_exist
           | Some Dir \<Rightarrow> Inl Err_permission
           | Some n \<Rightarrow>
               (case resolve s False new of
                  Inl k \<Rightarrow> Inl k
                | Inr q \<Rightarrow>
                    if node_at s q \<noteq> None then Inl Err_exist else Inr ((), put_node q n s))))"

definition os_Link :: "string \<Rightarrow> string \<Rightarrow> unit sys" where
  "os_Link old new = syscall ''link'' (old @ '' '' @ new) (fs_link old new)"

definition fs_mkdir :: "string \<Rightarrow> fsys \<Rightarrow> os_kind + (unit \<times> fsys)" where
  "fs_mkdir path s =
     (case resolve s False path of
        Inl k \<Rightarrow> Inl k
      | Inr p \<Rightarrow> if node_at s p \<noteq> None then Inl Err_exist else Inr ((), put_node p Dir s))"

definition os_Mkdir :: "string \<Rightarrow> unit sys" where
  "os_Mkdir path = syscall ''mkdir'' path (fs_mkdir path)"

text \<open>os.MkdirAll makes the missing directories from the outermost; one call each.\<close>

definition fs_mkdir_if_missing :: "path \<Rightarrow> fsys \<Rightarrow> os_kind + (unit \<times> fsys)" where
  "fs_mkdir_if_missing p0 s =
     (case walk 40 s True [] p0 of
        Inl k \<Rightarrow> Inl k
      | Inr p \<Rightarrow>
          (case node_at s p of
             None \<Rightarrow> Inr ((), put_node p Dir s)
           | Some Dir \<Rightarrow> Inr ((), s)
           | Some _ \<Rightarrow> Inl (Err_other ''not a directory'')))"

fun mkdir_each :: "string \<Rightarrow> path list \<Rightarrow> unit sys" where
  "mkdir_each path [] w = (Inr (), w)"
| "mkdir_each path (p # ps) w =
     (case syscall ''mkdir'' path (fs_mkdir_if_missing p) w of
        (Inl e, w1) \<Rightarrow> (Inl e, w1)
      | (Inr _, w1) \<Rightarrow> mkdir_each path ps w1)"

definition heads :: "path \<Rightarrow> path list" where
  "heads p = map (\<lambda>n. take n p) [1..<length p + 1]"

definition os_MkdirAll :: "string \<Rightarrow> unit sys" where
  "os_MkdirAll path = mkdir_each path (heads (comps path))"

definition below :: "path \<Rightarrow> path \<Rightarrow> bool" where
  "below p q \<longleftrightarrow> prefix p q"

text \<open>
  os.RemoveAll: the names below a path, the longest first; a fault has removed some of them.
  A path that does not exist is no error.
\<close>

definition names_below :: "fsys \<Rightarrow> path \<Rightarrow> path list" where
  "names_below s p = rev (sort_key length (filter (below p) (remdups (map fst (tree s)))))"

definition drop_nodes :: "path list \<Rightarrow> fsys \<Rightarrow> fsys" where
  "drop_nodes ps s = fold drop_node ps s"

definition os_RemoveAll :: "string \<Rightarrow> unit sys" where
  "os_RemoveAll path w =
     (let w1 = w\<lparr>faults := tl (faults w)\<rparr> in
      case resolve (disk w) False path of
        Inl Err_not_exist \<Rightarrow> (Inr (), w1)
      | Inl k \<Rightarrow> (Inl (Os_error k ''unlinkat'' path), w1)
      | Inr p \<Rightarrow>
          (case faults w of
             Some (k, n) # fl \<Rightarrow>
               (Inl (Os_error k ''unlinkat'' path),
                w1\<lparr>disk := drop_nodes (take n (names_below (disk w) p)) (disk w)\<rparr>)
           | _ \<Rightarrow> (Inr (), w1\<lparr>disk := drop_nodes (names_below (disk w) p) (disk w)\<rparr>)))"

text \<open>os.ReadDir: the names in a directory, sorted, with the type of each.\<close>

definition fs_readdir :: "string \<Rightarrow> fsys \<Rightarrow> os_kind + ((string \<times> node) list \<times> fsys)" where
  "fs_readdir path s =
     (case resolve s True path of
        Inl k \<Rightarrow> Inl k
      | Inr p \<Rightarrow>
          (case node_at s p of
             None \<Rightarrow> Inl Err_not_exist
           | Some Dir \<Rightarrow>
               Inr (map (\<lambda>n. (n, case node_at s (p @ [n]) of Some x \<Rightarrow> x | None \<Rightarrow> Special))
                      (sort (map last (children s p))), s)
           | Some _ \<Rightarrow> Inl (Err_other ''not a directory'')))"

definition os_ReadDir :: "string \<Rightarrow> (string \<times> node) list sys" where
  "os_ReadDir path = syscall ''open'' path (fs_readdir path)"

definition fs_chtimes :: "string \<Rightarrow> time \<Rightarrow> fsys \<Rightarrow> os_kind + (unit \<times> fsys)" where
  "fs_chtimes path t s =
     (case resolve s True path of
        Inl k \<Rightarrow> Inl k
      | Inr p \<Rightarrow>
          (case node_at s p of
             None \<Rightarrow> Inl Err_not_exist
           | Some (File i) \<Rightarrow> Inr ((), put_inode i ((inode_at s i)\<lparr>ino_mtime := t\<rparr>) s)
           | Some _ \<Rightarrow> Inr ((), s)))"

definition os_Chtimes :: "string \<Rightarrow> time \<Rightarrow> unit sys" where
  "os_Chtimes path t = syscall ''chtimes'' path (fs_chtimes path t)"

section \<open>Calls whose error is looked at\<close>

definition sys_elseE :: "'a sys \<Rightarrow> (os_error \<Rightarrow> 'b act) \<Rightarrow> ('a \<Rightarrow> 'b act) \<Rightarrow> 'b act" where
  "sys_elseE m g h = seqE (sysE m) (\<lambda>r. case r of Inl e \<Rightarrow> g e | Inr x \<Rightarrow> h x)"

definition try_elseE :: "'a act \<Rightarrow> (aws_error \<Rightarrow> 'b act) \<Rightarrow> ('a \<Rightarrow> 'b act) \<Rightarrow> 'b act" where
  "try_elseE m g h = seqE (tryE m) (\<lambda>r. case r of Inl e \<Rightarrow> g e | Inr x \<Rightarrow> h x)"

definition ignore_sysE :: "'a sys \<Rightarrow> unit act" where
  "ignore_sysE m = sys_elseE m (\<lambda>_. retE ()) (\<lambda>_. retE ())"

definition ignoreE :: "'a act \<Rightarrow> unit act" where
  "ignoreE m = try_elseE m (\<lambda>_. retE ()) (\<lambda>_. retE ())"

definition os_failE :: "string \<Rightarrow> os_error \<Rightarrow> 'a act" where
  "os_failE location e = failE (map_os_error location e [])"

section \<open>The monitor, as a request sees it\<close>

definition serialize_access :: "string \<Rightarrow> unit act" where
  "serialize_access object w =
     (let w1 = w\<lparr>waits := tl (waits w)\<rparr> in
      case waits w of
        Timeout # ws \<Rightarrow> (failed (s3_error RequestTimeout [] []), w1)
      | Enter g # ws \<Rightarrow> (Inr (), w1\<lparr>disk := g (disk w), held := object # held w\<rparr>)
      | [] \<Rightarrow> (Inr (), w1\<lparr>held := object # held w\<rparr>))"

text \<open>Leaving a region the request is not in is log.Fatal in the monitor.\<close>

definition release_access :: "string \<Rightarrow> unit act" where
  "release_access object w =
     (if object \<in> set (held w) then (Inr (), w\<lparr>held := remove1 object (held w)\<rparr>)
      else (Inl Fatal, w))"

text \<open>A region entered, left by the deferred call when the function ends.\<close>

definition serializedE :: "string \<Rightarrow> 'a act \<Rightarrow> 'a act" where
  "serializedE object m =
     seqE (serialize_access object) (\<lambda>_. deferE (release_access object) m)"

end
