(* ===== verification/Frame.thy ===== *)
theory Frame
  imports Os
begin

text \<open>
  Reasoning about calls: relations between the world before and after a call that hold of
  every run (keeps), or of every run that ends in an error (on_fail), and the relation
  frame, which says that given paths keep what they name.
\<close>

named_theorems keeps_rules \<open>rules that establish keeps and on_fail\<close>

section \<open>Relations along a call\<close>

definition keeps :: "(world \<Rightarrow> world \<Rightarrow> bool) \<Rightarrow> 'a act \<Rightarrow> bool" where
  "keeps R m \<longleftrightarrow> (\<forall>w. R w (snd (m w)))"

definition on_fail :: "(world \<Rightarrow> world \<Rightarrow> bool) \<Rightarrow> 'a act \<Rightarrow> bool" where
  "on_fail R m \<longleftrightarrow> (\<forall>w e w'. m w = (failed e, w') \<longrightarrow> R w w')"

lemma keepsD: "keeps R m \<Longrightarrow> m w = (r, w') \<Longrightarrow> R w w'"
  by (metis keeps_def snd_conv)

lemma on_failD: "on_fail R m \<Longrightarrow> m w = (failed e, w') \<Longrightarrow> R w w'"
  by (auto simp: on_fail_def)

lemma keeps_on_fail: "keeps R m \<Longrightarrow> on_fail R m"
  by (auto simp: on_fail_def dest: keepsD)

lemma keeps_splits [keeps_rules]:
  "(c \<Longrightarrow> keeps R m) \<Longrightarrow> (\<not> c \<Longrightarrow> keeps R n) \<Longrightarrow> keeps R (if c then m else n)"
  "(x = None \<Longrightarrow> keeps R m) \<Longrightarrow> (\<And>y. x = Some y \<Longrightarrow> keeps R (f y)) \<Longrightarrow>
     keeps R (case x of None \<Rightarrow> m | Some y \<Rightarrow> f y)"
  "(\<And>y. s = Inl y \<Longrightarrow> keeps R (g y)) \<Longrightarrow> (\<And>y. s = Inr y \<Longrightarrow> keeps R (h y)) \<Longrightarrow>
     keeps R (case s of Inl y \<Rightarrow> g y | Inr y \<Rightarrow> h y)"
  "(\<And>a b. pr = (a, b) \<Longrightarrow> keeps R (k a b)) \<Longrightarrow> keeps R (case pr of (a, b) \<Rightarrow> k a b)"
  by (auto split: option.splits sum.splits prod.splits)

lemma on_fail_splits [keeps_rules]:
  "(c \<Longrightarrow> on_fail R m) \<Longrightarrow> (\<not> c \<Longrightarrow> on_fail R n) \<Longrightarrow> on_fail R (if c then m else n)"
  "(x = None \<Longrightarrow> on_fail R m) \<Longrightarrow> (\<And>y. x = Some y \<Longrightarrow> on_fail R (f y)) \<Longrightarrow>
     on_fail R (case x of None \<Rightarrow> m | Some y \<Rightarrow> f y)"
  "(\<And>y. s = Inl y \<Longrightarrow> on_fail R (g y)) \<Longrightarrow> (\<And>y. s = Inr y \<Longrightarrow> on_fail R (h y)) \<Longrightarrow>
     on_fail R (case s of Inl y \<Rightarrow> g y | Inr y \<Rightarrow> h y)"
  "(\<And>a b. pr = (a, b) \<Longrightarrow> on_fail R (k a b)) \<Longrightarrow> on_fail R (case pr of (a, b) \<Rightarrow> k a b)"
  by (auto split: option.splits sum.splits prod.splits)

text \<open>The interface: a reflexive and transitive relation carries along every sequencing.\<close>

locale call_relation =
  fixes R :: "world \<Rightarrow> world \<Rightarrow> bool"
  assumes refl: "R w w"
    and trans: "R u v \<Longrightarrow> R v w \<Longrightarrow> R u w"
begin

lemma ret [keeps_rules]: "keeps R (retE x)" "keeps R (failE e)" "keeps R panicE" "keeps R fatalE"
  "keeps R (liftE r)" "keeps R (getE g)" "keeps R (assertE c)"
  by (auto simp: keeps_def retE_def failE_def panicE_def fatalE_def liftE_def getE_def assertE_def refl)

lemma seq [keeps_rules]:
  assumes "keeps R m" "\<And>x. keeps R (f x)"
  shows "keeps R (seqE m f)"
proof (unfold keeps_def, rule allI)
  fix w
  obtain r w1 where m: "m w = (r, w1)" by (cases "m w")
  have 1: "R w w1" using keepsD [OF assms(1) m] .
  show "R w (snd (seqE m f w))"
  proof (cases r)
    case (Inl e)
    then show ?thesis using 1 m by (simp add: seqE_def)
  next
    case (Inr x)
    have "R w1 (snd (f x w1))" using assms(2) by (simp add: keeps_def)
    then show ?thesis using 1 m Inr trans by (simp add: seqE_def)
  qed
qed

lemma try_ [keeps_rules]: "keeps R m \<Longrightarrow> keeps R (tryE m)"
proof -
  assume k: "keeps R m"
  have "snd (tryE m w) = snd (m w)" for w
    by (simp add: tryE_def split: prod.splits sum.splits stop.splits)
  then show ?thesis using k by (simp add: keeps_def)
qed

lemma deferred [keeps_rules]:
  assumes "keeps R d" "keeps R m"
  shows "keeps R (deferE d m)"
proof (unfold keeps_def, rule allI)
  fix w
  obtain r w1 where m: "m w = (r, w1)" by (cases "m w")
  obtain q w2 where d: "d w1 = (q, w2)" by (cases "d w1")
  have "R w w1" "R w1 w2" using keepsD [OF assms(2) m] keepsD [OF assms(1) d] .
  then show "R w (snd (deferE d m w))"
    using m d trans by (auto simp: deferE_def split: sum.splits stop.splits)
qed

lemma on_fail_do [keeps_rules]:
  assumes "keeps R d" "keeps R m"
  shows "keeps R (on_failE d m)"
proof (unfold keeps_def, rule allI)
  fix w
  obtain r w1 where m: "m w = (r, w1)" by (cases "m w")
  obtain q w2 where d: "d w1 = (q, w2)" by (cases "d w1")
  have "R w w1" "R w1 w2" using keepsD [OF assms(2) m] keepsD [OF assms(1) d] .
  then show "R w (snd (on_failE d m w))"
    using m d trans by (auto simp: on_failE_def split: sum.splits stop.splits)
qed

lemma sys_else [keeps_rules]:
  "keeps R (sysE m) \<Longrightarrow> (\<And>e. keeps R (g e)) \<Longrightarrow> (\<And>x. keeps R (h x)) \<Longrightarrow> keeps R (sys_elseE m g h)"
  unfolding sys_elseE_def by (intro seq) (auto split: sum.split)

lemma try_else [keeps_rules]:
  "keeps R m \<Longrightarrow> (\<And>e. keeps R (g e)) \<Longrightarrow> (\<And>x. keeps R (h x)) \<Longrightarrow> keeps R (try_elseE m g h)"
  unfolding try_elseE_def by (intro seq try_) (auto split: sum.split)

lemma ignored [keeps_rules]:
  "keeps R (sysE m') \<Longrightarrow> keeps R (ignore_sysE m')" "keeps R m \<Longrightarrow> keeps R (ignoreE m)"
  unfolding ignore_sysE_def ignoreE_def by (intro sys_else try_else ret; assumption)+

lemma os_fail [keeps_rules]: "keeps R (os_failE location e)"
  unfolding os_failE_def by (rule ret)

lemma for_each [keeps_rules]: "(\<And>x. x \<in> set xs \<Longrightarrow> keeps R (f x)) \<Longrightarrow> keeps R (forE xs f)"
  by (induction xs) (auto intro: seq ret)

lemma fail_ret [keeps_rules]: "on_fail R (retE x)" "on_fail R (failE e)" "on_fail R (getE g)"
  "on_fail R (liftE r)" "on_fail R panicE"
  by (rule keeps_on_fail, rule ret)+

lemma fail_seq [keeps_rules]:
  assumes "keeps R m" "\<And>x. on_fail R (f x)"
  shows "on_fail R (seqE m f)"
proof (unfold on_fail_def, intro allI impI)
  fix w e w'
  assume s: "seqE m f w = (failed e, w')"
  obtain r w1 where m: "m w = (r, w1)" by (cases "m w")
  have 1: "R w w1" using keepsD [OF assms(1) m] .
  show "R w w'"
  proof (cases r)
    case (Inl e)
    then show ?thesis using 1 m s by (simp add: seqE_def)
  next
    case (Inr x)
    then have "f x w1 = (failed e, w')" using m s by (simp add: seqE_def)
    then show ?thesis using 1 on_failD [OF assms(2)] trans by blast
  qed
qed

text \<open>After a call that is only known to keep the relation when it fails, nothing may fail.\<close>

lemma fail_seq_last:
  assumes "on_fail R m" "\<And>x w e w'. f x w \<noteq> (failed e, w')"
  shows "on_fail R (seqE m f)"
  using assms by (auto simp: on_fail_def seqE_def split: prod.splits sum.splits)

lemma fail_sys_else [keeps_rules]:
  "keeps R (sysE m) \<Longrightarrow> (\<And>e. on_fail R (g e)) \<Longrightarrow> (\<And>x. on_fail R (h x)) \<Longrightarrow> on_fail R (sys_elseE m g h)"
  unfolding sys_elseE_def by (intro fail_seq) (auto split: sum.split)

lemma fail_try_else [keeps_rules]:
  "keeps R m \<Longrightarrow> (\<And>e. on_fail R (g e)) \<Longrightarrow> (\<And>x. on_fail R (h x)) \<Longrightarrow> on_fail R (try_elseE m g h)"
  unfolding try_elseE_def by (intro fail_seq try_) (auto split: sum.split)

lemma fail_os_fail [keeps_rules]: "on_fail R (os_failE location e)"
  by (rule keeps_on_fail, rule os_fail)

lemma fail_defer [keeps_rules]:
  assumes "keeps R d" "on_fail R m"
  shows "on_fail R (deferE d m)"
proof (unfold on_fail_def, intro allI impI)
  fix w e w'
  assume s: "deferE d m w = (failed e, w')"
  obtain r w1 where m: "m w = (r, w1)" by (cases "m w")
  obtain q w2 where d: "d w1 = (q, w2)" by (cases "d w1")
  have "r = failed e" "w' = w2"
    using s m d by (auto simp: deferE_def split: sum.splits stop.splits)
  then show "R w w'"
    using on_failD [OF assms(2)] m keepsD [OF assms(1) d] trans by blast
qed

lemma fail_on_fail_do [keeps_rules]:
  assumes "keeps R d" "on_fail R m"
  shows "on_fail R (on_failE d m)"
proof (unfold on_fail_def, intro allI impI)
  fix w e w'
  assume s: "on_failE d m w = (failed e, w')"
  obtain r w1 where m: "m w = (r, w1)" by (cases "m w")
  obtain q w2 where d: "d w1 = (q, w2)" by (cases "d w1")
  have "r = failed e" "w' = w2"
    using s m d by (auto simp: on_failE_def split: sum.splits stop.splits)
  then show "R w w'"
    using on_failD [OF assms(2)] m keepsD [OF assms(1) d] trans by blast
qed

end

section \<open>The files a call leaves alone\<close>

definition look :: "fsys \<Rightarrow> path \<Rightarrow> node option \<times> inode option" where
  "look s p =
     (node_at s p, case node_at s p of Some (File i) \<Rightarrow> Some (inode_at s i) | _ \<Rightarrow> None)"

text \<open>A sound file system has no symbolic link, and its inodes are below the next one.\<close>

definition sound_node :: "nat \<Rightarrow> node \<Rightarrow> bool" where
  "sound_node k n = (case n of File i \<Rightarrow> i < k | Symlink t \<Rightarrow> False | _ \<Rightarrow> True)"

definition sound :: "fsys \<Rightarrow> bool" where
  "sound s \<longleftrightarrow> list_all (\<lambda>(p, n). sound_node (next_ino s) n) (tree s)"

text \<open>Two paths do not name the same file.\<close>

definition apart :: "fsys \<Rightarrow> path \<Rightarrow> path \<Rightarrow> bool" where
  "apart s q p \<longleftrightarrow> (\<forall>i. node_at s q = Some (File i) \<longrightarrow> node_at s p \<noteq> Some (File i))"

text \<open>What other requests do leaves the paths X alone.\<close>

definition calm :: "path set \<Rightarrow> wait list \<Rightarrow> bool" where
  "calm X ws \<longleftrightarrow> (\<forall>g. Enter g \<in> set ws \<longrightarrow>
     (\<forall>s. sound s \<longrightarrow> sound (g s) \<and> (\<forall>p \<in> X. look (g s) p = look s p)))"

text \<open>
  C: the paths the call may create or write, P: the paths it must leave alone.  The guard
  says that none of P shares its file with C or with a file open for writing.
\<close>

definition guard :: "path set \<Rightarrow> path set \<Rightarrow> world \<Rightarrow> bool" where
  "guard C P w \<longleftrightarrow> sound (disk w)
     \<and> (\<forall>q \<in> C. \<forall>p \<in> P. apart (disk w) q p)
     \<and> (\<forall>i \<in> set (open_inodes w). \<forall>p \<in> P. node_at (disk w) p \<noteq> Some (File i))
     \<and> calm (C \<union> P) (waits w)"

definition same_look :: "path set \<Rightarrow> fsys \<Rightarrow> fsys \<Rightarrow> bool" where
  "same_look P s t \<longleftrightarrow> (\<forall>p \<in> P. look t p = look s p)"

definition frame :: "path set \<Rightarrow> path set \<Rightarrow> world \<Rightarrow> world \<Rightarrow> bool" where
  "frame C P w w' \<longleftrightarrow> (guard C P w \<longrightarrow> guard C P w' \<and> same_look P (disk w) (disk w'))"

interpretation frame: call_relation "frame C P" for C P
  by unfold_locales (auto simp: frame_def same_look_def)

lemma calm_subset: "calm X ws \<Longrightarrow> set vs \<subseteq> set ws \<Longrightarrow> calm X vs"
  by (auto simp: calm_def)

lemma calm_tl: "calm X ws \<Longrightarrow> calm X (tl ws)"
  by (erule calm_subset) (cases ws; auto)

lemma calm_Nil [simp]: "calm X []"
  by (simp add: calm_def)

lemma look_node: "look s p = look t p \<Longrightarrow> node_at s p = node_at t p"
  by (simp add: look_def)

lemma sound_not_link: "sound s \<Longrightarrow> node_at s p \<noteq> Some (Symlink t)"
  by (auto simp: sound_def node_at_def sound_node_def list_all_iff dest!: map_of_SomeD split: if_splits)

lemma sound_ino: "sound s \<Longrightarrow> node_at s p = Some (File i) \<Longrightarrow> i < next_ino s"
  by (auto simp: sound_def node_at_def sound_node_def list_all_iff dest!: map_of_SomeD split: if_splits)

declare walk.simps(2) [simp del]

lemma walk_sound_step:
  "sound s \<Longrightarrow> walk n s f cur (c # cs) =
     (case node_at s cur of
        None \<Rightarrow> Inl Err_not_exist
      | Some Dir \<Rightarrow> walk n s f (cur @ [c]) cs
      | Some _ \<Rightarrow> Inl (Err_other ''not a directory''))"
  by (simp add: walk.simps sound_not_link split: option.split node.split)

lemma walk_sound: "sound s \<Longrightarrow> walk n s f cur cs = Inr p \<Longrightarrow> p = cur @ cs"
  by (induction cs arbitrary: cur) (fastforce simp: walk_sound_step split: option.splits node.splits)+

lemma resolve_sound: "sound s \<Longrightarrow> resolve s f path = Inr p \<Longrightarrow> p = comps path"
  by (auto simp: resolve_def Let_def dest: walk_sound split: sum.splits if_splits)

section \<open>What the primitive changes leave alone\<close>

definition step_ok :: "path set \<Rightarrow> path set \<Rightarrow> fsys \<Rightarrow> fsys \<Rightarrow> bool" where
  "step_ok C P s t \<longleftrightarrow>
     (sound s \<and> (\<forall>q \<in> C. \<forall>p \<in> P. apart s q p) \<longrightarrow>
        sound t \<and> (\<forall>q \<in> C. \<forall>p \<in> P. apart t q p) \<and> same_look P s t)"

lemma step_ok_refl [simp]: "step_ok C P s s"
  by (simp add: step_ok_def same_look_def)

lemma step_ok_trans: "step_ok C P s t \<Longrightarrow> step_ok C P t u \<Longrightarrow> step_ok C P s u"
  by (simp add: step_ok_def same_look_def)

lemma node_at_put [simp]: "node_at (put_node q n s) p = (if p = q \<and> q \<noteq> [] then Some n else node_at s p)"
  by (simp add: node_at_def put_node_def update_conv')

lemma node_at_drop [simp]: "node_at (drop_node q s) p = (if p = q \<and> q \<noteq> [] then None else node_at s p)"
  by (simp add: node_at_def drop_node_def delete_conv')

lemma node_at_put_inode [simp]: "node_at (put_inode i x s) p = node_at s p"
  by (simp add: node_at_def put_inode_def)

lemma inode_at_put [simp]:
  "inode_at (put_node q n s) i = inode_at s i" "inode_at (drop_node q s) i = inode_at s i"
  "inode_at (put_inode j x s) i = (if i = j then x else inode_at s i)"
  by (simp_all add: inode_at_def put_node_def drop_node_def put_inode_def update_conv')

lemma next_ino_put [simp]:
  "next_ino (put_node q n s) = next_ino s" "next_ino (drop_node q s) = next_ino s"
  "next_ino (put_inode j x s) = next_ino s"
  by (simp_all add: put_node_def drop_node_def put_inode_def)

lemma now_put [simp]:
  "now (put_node q n s) = now s" "now (drop_node q s) = now s" "now (put_inode j x s) = now s"
  by (simp_all add: put_node_def drop_node_def put_inode_def)

lemma set_AList_update: "x \<in> set (AList.update k v al) \<Longrightarrow> x = (k, v) \<or> x \<in> set al"
  by (induction al) (auto split: if_splits)

lemma sound_put: "sound s \<Longrightarrow> sound_node (next_ino s) n \<Longrightarrow> sound (put_node q n s)"
  by (auto simp: sound_def put_node_def list_all_iff dest!: set_AList_update)

lemma sound_drop: "sound s \<Longrightarrow> sound (drop_node q s)"
  by (auto simp: sound_def drop_node_def list_all_iff AList.delete_eq)

lemma sound_put_inode [simp]: "sound (put_inode i x s) = sound s"
  by (simp add: sound_def put_inode_def)

lemma sound_node_mono: "sound_node k n \<Longrightarrow> k \<le> l \<Longrightarrow> sound_node l n"
  by (auto simp: sound_node_def split: node.splits)

lemma look_put_node: "p \<noteq> q \<Longrightarrow> look (put_node q n s) p = look s p"
  by (auto simp: look_def split: option.splits node.splits)

lemma look_drop_node: "p \<noteq> q \<Longrightarrow> look (drop_node q s) p = look s p"
  by (auto simp: look_def split: option.splits node.splits)

lemma look_put_inode: "node_at s p \<noteq> Some (File i) \<Longrightarrow> look (put_inode i x s) p = look s p"
  by (auto simp: look_def split: option.splits node.splits)

lemma step_drop: "q \<notin> P \<Longrightarrow> step_ok C P s (drop_node q s)"
proof -
  assume q: "q \<notin> P"
  have "look (drop_node q s) p = look s p" if "p \<in> P" for p
    using that q by (intro look_drop_node) auto
  then show ?thesis using q by (auto simp: step_ok_def same_look_def sound_drop apart_def)
qed

lemma step_put:
  assumes "q \<notin> P" "q \<notin> C" "sound s \<Longrightarrow> sound_node (next_ino s) n"
  shows "step_ok C P s (put_node q n s)"
proof -
  have "look (put_node q n s) p = look s p" if "p \<in> P" for p
    using that assms(1) by (intro look_put_node) auto
  then show ?thesis using assms by (auto simp: step_ok_def same_look_def sound_put apart_def)
qed

lemma step_put_inode:
  assumes "\<And>p. p \<in> P \<Longrightarrow> node_at s p \<noteq> Some (File i)"
  shows "step_ok C P s (put_inode i x s)"
  using assms by (auto simp: step_ok_def same_look_def apart_def look_put_inode)

lemma node_at_next_ino [simp]: "node_at (s\<lparr>next_ino := k\<rparr>) p = node_at s p"
  by (simp add: node_at_def)

lemma look_next_ino [simp]: "look (s\<lparr>next_ino := k\<rparr>) p = look s p"
  by (auto simp: look_def node_at_def inode_at_def split: option.splits node.splits)

lemma node_at_fresh_file [simp]:
  "node_at (fresh_file q s) p = (if p = q \<and> q \<noteq> [] then Some (File (next_ino s)) else node_at s p)"
  by (simp add: fresh_file_def)

lemma sound_fresh_file: "sound s \<Longrightarrow> sound (fresh_file q s)"
  by (auto simp: sound_def fresh_file_def put_node_def put_inode_def list_all_iff
      dest!: set_AList_update intro: sound_node_mono) (simp add: sound_node_def)

lemma look_fresh_file:
  assumes "sound s" "p \<noteq> q"
  shows "look (fresh_file q s) p = look s p"
proof -
  have "node_at s p \<noteq> Some (File (next_ino s))" using sound_ino [OF assms(1)] by blast
  then show ?thesis using assms(2) by (simp add: fresh_file_def look_put_node look_put_inode)
qed

lemma step_fresh_file:
  assumes "q \<notin> P"
  shows "step_ok C P s (fresh_file q s)"
proof -
  have "apart (fresh_file q s) q' p" if "sound s" "apart s q' p" "p \<in> P" for q' p
    using that assms sound_ino [OF that(1)] by (fastforce simp: apart_def)
  moreover have "look (fresh_file q s) p = look s p" if "sound s" "p \<in> P" for p
    using that assms by (intro look_fresh_file) auto
  ultimately show ?thesis by (simp add: step_ok_def same_look_def sound_fresh_file)
qed

section \<open>What the system calls leave alone\<close>

lemma frame_world:
  assumes "step_ok C P (disk w) (disk w')" "set (open_inodes w') \<subseteq> set (open_inodes w)"
    "set (waits w') \<subseteq> set (waits w)"
  shows "frame C P w w'"
  using assms unfolding frame_def guard_def step_ok_def same_look_def
  by (auto dest: calm_subset) (metis look_node subsetD)

lemma syscall_frame:
  assumes "\<And>s x t. f s = Inr (x, t) \<Longrightarrow> sound s \<Longrightarrow> (\<forall>q \<in> C. \<forall>p \<in> P. apart s q p) \<Longrightarrow> step_ok C P s t"
  shows "keeps (frame C P) (sysE (syscall opn path f))"
proof (unfold keeps_def, rule allI)
  fix w
  show "frame C P w (snd (sysE (syscall opn path f) w))"
  proof (cases "guard C P w")
    case True
    then show ?thesis
      using assms by (intro frame_world)
        (auto simp: sysE_def syscall_def Let_def guard_def split: list.splits option.splits sum.splits)
  next
    case False
    then show ?thesis by (simp add: frame_def)
  qed
qed

lemma keeps_Lstat [keeps_rules]: "keeps (frame C P) (sysE (os_Lstat b path))"
  unfolding os_Lstat_def
  by (rule syscall_frame) (auto simp: fs_stat_def split: sum.splits option.splits)

lemma keeps_Stat [keeps_rules]: "keeps (frame C P) (sysE (os_Stat b path))"
  unfolding os_Stat_def
  by (rule syscall_frame) (auto simp: fs_stat_def split: sum.splits option.splits)

lemma keeps_Open [keeps_rules]: "keeps (frame C P) (sysE (os_Open path))"
  unfolding os_Open_def
  by (rule syscall_frame) (auto simp: fs_open_def split: sum.splits option.splits node.splits)

lemma keeps_file_Stat [keeps_rules]: "keeps (frame C P) (sysE (file_Stat b h))"
  unfolding file_Stat_def
  by (rule syscall_frame) (auto split: handle.splits)

lemma keeps_ReadDir [keeps_rules]: "keeps (frame C P) (sysE (os_ReadDir path))"
  unfolding os_ReadDir_def
  by (rule syscall_frame) (auto simp: fs_readdir_def split: sum.splits option.splits node.splits)

lemma keeps_file_read [keeps_rules]: "keeps (frame C P) (file_read b h)"
  unfolding keeps_def
  by (auto simp: file_read_def Let_def intro!: frame_world split: handle.splits list.splits option.splits)

lemma keeps_Remove [keeps_rules]:
  assumes "comps path \<notin> P"
  shows "keeps (frame C P) (sysE (os_Remove path))"
  unfolding os_Remove_def
  by (rule syscall_frame)
     (use assms in \<open>auto simp: fs_remove_def dest!: resolve_sound intro!: step_drop
        split: sum.splits option.splits node.splits if_splits\<close>)

lemma keeps_Rename [keeps_rules]:
  assumes "comps old \<notin> P" "comps new \<notin> P" "comps new \<notin> C"
  shows "keeps (frame C P) (sysE (os_Rename old new))"
  unfolding os_Rename_def
proof (rule syscall_frame)
  fix s x t
  assume "fs_rename old new s = Inr (x, t)" "sound s"
  then consider "t = s" | n where "node_at s (comps old) = Some n"
      "t = put_node (comps new) n (drop_node (comps old) s)"
    using resolve_sound [OF \<open>sound s\<close>, of False new] resolve_sound [OF \<open>sound s\<close>, of False old]
    by (cases "resolve s False new"; cases "resolve s False old")
       (auto simp: fs_rename_def split: option.splits if_splits)
  then show "step_ok C P s t"
  proof cases
    case 2
    have "sound_node (next_ino s) n"
      using 2 \<open>sound s\<close> sound_ino sound_not_link by (cases n) (auto simp: sound_node_def)
    then show ?thesis
      using 2 assms by (auto intro: step_ok_trans [OF step_drop step_put])
  qed simp
qed

lemma keeps_Link [keeps_rules]:
  assumes "comps new \<notin> P" "comps new \<notin> C"
  shows "keeps (frame C P) (sysE (os_Link old new))"
  unfolding os_Link_def
proof (rule syscall_frame)
  fix s x t
  assume "fs_link old new s = Inr (x, t)" "sound s"
  then obtain n where n: "node_at s (comps old) = Some n" "t = put_node (comps new) n s"
    using resolve_sound [OF \<open>sound s\<close>]
    by (fastforce simp: fs_link_def split: sum.splits option.splits node.splits if_splits)
  have "sound_node (next_ino s) n"
    using n \<open>sound s\<close> sound_ino sound_not_link by (cases n) (auto simp: sound_node_def)
  then show "step_ok C P s t" using n assms by (auto intro: step_put)
qed

lemma keeps_Mkdir [keeps_rules]:
  assumes "comps path \<notin> P" "comps path \<notin> C"
  shows "keeps (frame C P) (sysE (os_Mkdir path))"
  unfolding os_Mkdir_def
  by (rule syscall_frame)
     (use assms in \<open>auto simp: fs_mkdir_def sound_node_def dest!: resolve_sound intro!: step_put
        split: sum.splits if_splits\<close>)

lemma mkdir_step_frame:
  assumes "p \<notin> P" "p \<notin> C"
  shows "keeps (frame C P) (sysE (syscall opn path (fs_mkdir_if_missing p)))"
  by (rule syscall_frame)
     (use assms in \<open>auto simp: fs_mkdir_if_missing_def sound_node_def dest!: walk_sound intro!: step_put
        split: sum.splits option.splits node.splits\<close>)

lemma mkdir_each_frame:
  assumes "set ps \<inter> P = {}" "set ps \<inter> C = {}"
  shows "frame C P (w :: world) (snd (mkdir_each path ps w))"
  using assms
proof (induction path ps w rule: mkdir_each.induct)
  case (1 path w)
  then show ?case by (simp add: frame.refl)
next
  case (2 path p ps w)
  obtain r w1 where r: "syscall ''mkdir'' path (fs_mkdir_if_missing p) w = (r, w1)"
    by (cases "syscall ''mkdir'' path (fs_mkdir_if_missing p) w")
  have "frame C P w (snd (sysE (syscall ''mkdir'' path (fs_mkdir_if_missing p)) w))"
    using mkdir_step_frame [of p P C] 2(2,3) by (simp add: keeps_def)
  then have w1: "frame C P w w1" by (simp add: sysE_def r)
  show ?case
  proof (cases r)
    case (Inl e)
    then show ?thesis using w1 r by simp
  next
    case (Inr u)
    then have "frame C P w1 (snd (mkdir_each path ps w1))"
      using 2(1) 2(2,3) r by auto
    then show ?thesis using w1 r Inr frame.trans by auto
  qed
qed

lemma keeps_MkdirAll [keeps_rules]:
  assumes "set (heads (comps path)) \<inter> P = {}" "set (heads (comps path)) \<inter> C = {}"
  shows "keeps (frame C P) (sysE (os_MkdirAll path))"
  using mkdir_each_frame [OF assms] by (simp add: keeps_def sysE_def os_MkdirAll_def split: prod.splits)
    (metis snd_conv)

lemma names_below_iff: "q \<in> set (names_below s p) \<longleftrightarrow> q \<in> fst ` set (tree s) \<and> prefix p q"
  by (auto simp: names_below_def below_def)

lemma step_drop_nodes: "set qs \<inter> P = {} \<Longrightarrow> step_ok C P s (drop_nodes qs s)"
  unfolding drop_nodes_def
proof (induction qs arbitrary: s)
  case (Cons q qs)
  then show ?case using step_ok_trans [OF step_drop [of q P C s] Cons.IH] by auto
qed simp

lemma keeps_RemoveAll [keeps_rules]:
  assumes "\<And>p. p \<in> P \<Longrightarrow> \<not> prefix (comps path) p"
  shows "keeps (frame C P) (sysE (os_RemoveAll path))"
proof (unfold keeps_def, rule allI)
  fix w :: world
  have n: "step_ok C P (disk w) (drop_nodes (take n (names_below (disk w) (comps path))) (disk w))"
    "step_ok C P (disk w) (drop_nodes (names_below (disk w) (comps path)) (disk w))" for n
    using assms by (auto intro!: step_drop_nodes dest!: in_set_takeD simp: names_below_iff)
  show "frame C P w (snd (sysE (os_RemoveAll path) w))"
  proof (cases "guard C P w")
    case True
    then have "resolve (disk w) False path = Inr p \<Longrightarrow> p = comps path" for p
      using resolve_sound by (auto simp: guard_def)
    then show ?thesis using n
      by (intro frame_world) (auto simp: sysE_def os_RemoveAll_def Let_def
          split: list.splits option.splits sum.splits os_kind.splits)
  next
    case False
    then show ?thesis by (simp add: frame_def)
  qed
qed

lemma guard_apart: "guard C P w \<Longrightarrow> q \<in> C \<Longrightarrow> p \<in> P \<Longrightarrow> apart (disk w) q p"
  by (simp add: guard_def)

lemma guard_sound: "guard C P w \<Longrightarrow> sound (disk w)"
  by (simp add: guard_def)

text \<open>Creating a file that may be created: the file is then open, and none of P is it.\<close>

lemma fs_create_step:
  assumes "fs_create path s = Inr (i, t)" "sound s" "comps path \<notin> P" "comps path \<in> C"
    "\<forall>q \<in> C. \<forall>p \<in> P. apart s q p"
  shows "step_ok C P s t \<and> (\<forall>p \<in> P. node_at s p \<noteq> Some (File i))"
proof -
  note r = resolve_sound [OF assms(2), of True path]
  consider "node_at s (comps path) = None" "i = next_ino s" "t = fresh_file (comps path) s"
    | "node_at s (comps path) = Some (File i)"
      "t = put_inode i \<lparr>ino_content = Data [], ino_mtime = now s\<rparr> s"
    using assms(1) r by (cases "resolve s True path")
      (auto simp: fs_create_def split: option.splits node.splits)
  then show ?thesis
  proof cases
    case 1
    then show ?thesis using assms(2,3) step_fresh_file sound_ino by blast
  next
    case 2
    then have "\<forall>p \<in> P. node_at s p \<noteq> Some (File i)" using assms(4,5) by (auto simp: apart_def)
    then show ?thesis using 2 by (simp add: step_put_inode)
  qed
qed

lemma keeps_Create [keeps_rules]:
  assumes "comps path \<notin> P" "comps path \<in> C"
  shows "keeps (frame C P) (sysE (os_Create path))"
proof (unfold keeps_def, rule allI)
  fix w :: world
  show "frame C P w (snd (sysE (os_Create path) w))"
  proof (cases "\<exists>i w1. syscall ''open'' path (fs_create path) w = (Inr i, w1)")
    case False
    then obtain e w1 where e: "syscall ''open'' path (fs_create path) w = (Inl e, w1)"
      by (metis old.prod.exhaust old.sum.exhaust)
    then have "disk w1 = disk w \<and> open_inodes w1 = open_inodes w \<and> waits w1 = waits w"
      by (auto simp: syscall_def Let_def split: list.splits option.splits sum.splits)
    then have "frame C P w w1" by (intro frame_world) auto
    then show ?thesis using e by (simp add: sysE_def os_Create_def)
  next
    case True
    then obtain i w1 where c: "syscall ''open'' path (fs_create path) w = (Inr i, w1)" by blast
    then have w1: "fs_create path (disk w) = Inr (i, disk w1)" "open_inodes w1 = open_inodes w"
      "waits w1 = waits w"
      by (auto simp: syscall_def Let_def split: list.splits option.splits sum.splits)
    have "guard C P (w1\<lparr>open_inodes := i # open_inodes w1\<rparr>) \<and> same_look P (disk w) (disk w1)"
      if g: "guard C P w"
    proof -
      have s: "step_ok C P (disk w) (disk w1)" "\<forall>p \<in> P. node_at (disk w) p \<noteq> Some (File i)"
        using fs_create_step [OF w1(1) guard_sound [OF g] assms] g by (auto simp: guard_def)
      have "frame C P w w1" using s(1) w1 by (intro frame_world) auto
      then have "guard C P w1" and l: "same_look P (disk w) (disk w1)" using g by (auto simp: frame_def)
      moreover have "\<forall>p \<in> P. node_at (disk w1) p \<noteq> Some (File i)"
        using s(2) l look_node unfolding same_look_def by metis
      ultimately show ?thesis by (auto simp: guard_def)
    qed
    then show ?thesis using c by (simp add: sysE_def os_Create_def frame_def)
  qed
qed

lemma frame_put_inode:
  assumes "i \<in> set (open_inodes w)" "disk w' = put_inode i x (disk w)"
    "open_inodes w' = open_inodes w" "waits w' = waits w"
  shows "frame C P w w'"
proof (cases "guard C P w")
  case True
  then have "step_ok C P (disk w) (disk w')"
    using assms by (auto simp: guard_def intro!: step_put_inode)
  then show ?thesis using assms by (intro frame_world) auto
next
  case False
  then show ?thesis by (simp add: frame_def)
qed

lemma keeps_file_write [keeps_rules]:
  "keeps (frame C P) (sysE (file_write b i path d))"
  "keeps (frame C P) (sysE (file_write_json b i path m))"
proof -
  have "frame C P w (snd (sysE (file_write b i path d) w))"
    "frame C P w (snd (sysE (file_write_json b i path m) w))" for w :: world
    by (cases "i \<in> set (open_inodes w)")
       (auto simp: sysE_def file_write_def file_write_json_def append_data_def Let_def
          intro: frame_world frame_put_inode split: list.splits option.splits)
  then show "keeps (frame C P) (sysE (file_write b i path d))"
    "keeps (frame C P) (sysE (file_write_json b i path m))" by (simp_all add: keeps_def)
qed

lemma keeps_io_Copy [keeps_rules]: "keeps (frame C P) (io_Copy b i path src)"
  unfolding io_Copy_def by (intro keeps_rules)

lemma keeps_Close [keeps_rules]: "keeps (frame C P) (file_Close i)"
  by (auto simp: keeps_def file_Close_def modE_def intro!: frame_world dest: in_set_remove1)
     (metis notin_set_remove1)

lemma keeps_Chtimes [keeps_rules]:
  assumes "comps path \<in> C"
  shows "keeps (frame C P) (sysE (os_Chtimes path t))"
  unfolding os_Chtimes_def
proof (rule syscall_frame)
  fix s x t'
  assume f: "fs_chtimes path t s = Inr (x, t')" and s: "sound s" and a: "\<forall>q \<in> C. \<forall>p \<in> P. apart s q p"
  then consider "t' = s" | i y where "node_at s (comps path) = Some (File i)" "t' = put_inode i y s"
    using resolve_sound [OF s, of True path]
    by (cases "resolve s True path") (auto simp: fs_chtimes_def split: option.splits node.splits)
  then show "step_ok C P s t'"
    by cases (use a assms in \<open>auto simp: apart_def intro!: step_put_inode\<close>)
qed

lemma keeps_serialize [keeps_rules]: "keeps (frame C P) (serialize_access object)"
proof -
  have "guard C P (w\<lparr>waits := ws, disk := g (disk w), held := h\<rparr>) \<and> same_look P (disk w) (g (disk w))"
    if g: "guard C P w" and w: "waits w = Enter g # ws" for w g ws h
  proof -
    have l: "sound (g (disk w))" "\<forall>p \<in> C \<union> P. look (g (disk w)) p = look (disk w) p"
      using g w by (auto simp: guard_def calm_def)
    then have "node_at (g (disk w)) p = node_at (disk w) p" if "p \<in> C \<union> P" for p
      using that look_node by blast
    then show ?thesis using g w l calm_tl [of "C \<union> P" "waits w"]
      by (auto simp: guard_def same_look_def apart_def)
  qed
  moreover have "guard C P (w\<lparr>waits := tl (waits w), held := h\<rparr>)" "guard C P (w\<lparr>waits := tl (waits w)\<rparr>)"
    if "guard C P w" for w h
    using that calm_tl by (auto simp: guard_def)
  ultimately show ?thesis
    by (fastforce simp: keeps_def serialize_access_def frame_def same_look_def Let_def
        split: list.split wait.split)
qed

lemma keeps_release [keeps_rules]: "keeps (frame C P) (release_access object)"
  by (auto simp: keeps_def release_access_def intro!: frame_world)

lemma keeps_serialized [keeps_rules]:
  "keeps (frame C P) m \<Longrightarrow> keeps (frame C P) (serializedE object m)"
  unfolding serializedE_def by (intro keeps_rules)

lemma on_fail_serialized [keeps_rules]:
  "on_fail (frame C P) m \<Longrightarrow> on_fail (frame C P) (serializedE object m)"
  unfolding serializedE_def by (intro frame.fail_seq frame.fail_defer keeps_rules)

lemma keeps_cleanup [keeps_rules]: "keeps (frame C P) (modE (\<lambda>w. w\<lparr>cleanup_needed := c\<rparr>))"
  by (auto simp: keeps_def modE_def intro!: frame_world)

section \<open>Runs that return\<close>

text \<open>A run that ends well, taken apart into the runs of its parts.\<close>

named_theorems runs \<open>how a run of a composed call that returns is composed\<close>

lemma run_simple [runs]:
  "retE x w = (Inr y, w') \<longleftrightarrow> y = x \<and> w' = w"
  "failE e w \<noteq> (Inr y', w')" "os_failE l e' w \<noteq> (Inr y', w')"
  "panicE w \<noteq> (Inr y', w')" "fatalE w \<noteq> (Inr y', w')"
  "liftE r w = (Inr y', w') \<longleftrightarrow> r = Inr y' \<and> w' = w"
  "modE f w = (Inr u, w') \<longleftrightarrow> w' = f w"
  "getE g w = (Inr z, w') \<longleftrightarrow> z = g w \<and> w' = w"
  "assertE c w = (Inr u, w') \<longleftrightarrow> c \<and> w' = w"
  by (auto simp: retE_def failE_def os_failE_def panicE_def fatalE_def liftE_def modE_def getE_def assertE_def)

lemma run_seq [runs]:
  "seqE m f w = (Inr y, w') \<longleftrightarrow> (\<exists>x w1. m w = (Inr x, w1) \<and> f x w1 = (Inr y, w'))"
  by (auto simp: seqE_def split: prod.splits sum.splits)

lemma run_sys [runs]:
  "sysE m w = (Inr r, w') \<longleftrightarrow> m w = (r, w')"
  by (auto simp: sysE_def split: prod.splits)

lemma run_try [runs]:
  "tryE m w = (Inr r, w') \<longleftrightarrow>
     (case r of Inl e \<Rightarrow> m w = (failed e, w') | Inr x \<Rightarrow> m w = (Inr x, w'))"
  by (auto simp: tryE_def split: prod.splits sum.splits stop.splits)

lemma run_sys_else [runs]:
  "sys_elseE m g h w = (Inr y, w') \<longleftrightarrow>
     (\<exists>e w1. m w = (Inl e, w1) \<and> g e w1 = (Inr y, w'))
     \<or> (\<exists>x w1. m w = (Inr x, w1) \<and> h x w1 = (Inr y, w'))"
  by (auto simp: sys_elseE_def run_seq run_sys split: sum.splits) (metis sum.exhaust)

lemma run_try_else [runs]:
  "try_elseE m g h w = (Inr y, w') \<longleftrightarrow>
     (\<exists>e w1. m w = (failed e, w1) \<and> g e w1 = (Inr y, w'))
     \<or> (\<exists>x w1. m w = (Inr x, w1) \<and> h x w1 = (Inr y, w'))"
  by (auto simp: try_elseE_def run_seq run_try split: sum.splits) (metis sum.exhaust)

lemma run_on_fail [runs]: "on_failE d m w = (Inr y, w') \<longleftrightarrow> m w = (Inr y, w')"
  by (auto simp: on_failE_def split: prod.splits sum.splits stop.splits)

lemma run_defer [runs]:
  "deferE d m w = (Inr y, w') \<longleftrightarrow>
     (\<exists>w1. m w = (Inr y, w1) \<and> (\<exists>r. d w1 = (r, w') \<and> r \<noteq> Inl Panic \<and> r \<noteq> Inl Fatal))"
  by (auto simp: deferE_def split: prod.splits sum.splits stop.splits)

text \<open>A system call without effect on the files.\<close>

lemma syscall_error: "syscall opn path f w = (Inl e, w') \<Longrightarrow>
    disk w' = disk w \<and> open_inodes w' = open_inodes w \<and> set (waits w') \<subseteq> set (waits w)"
  by (auto simp: syscall_def Let_def split: list.splits option.splits sum.splits)

lemma syscall_done: "syscall opn path f w = (Inr x, w') \<Longrightarrow>
    f (disk w) = Inr (x, disk w') \<and> open_inodes w' = open_inodes w \<and> waits w' = waits w
    \<and> held w' = held w"
  by (auto simp: syscall_def Let_def split: list.splits option.splits sum.splits)

text \<open>A last system call that fails has changed nothing.\<close>

lemma on_fail_last_syscall:
  "on_fail (frame C P) (sys_elseE (syscall opn path f) (os_failE l) retE)"
  unfolding on_fail_def
proof (intro allI impI)
  fix w e w'
  assume r: "sys_elseE (syscall opn path f) (os_failE l) retE w = (failed e, w')"
  obtain q w1 where q: "syscall opn path f w = (q, w1)" by (cases "syscall opn path f w")
  show "frame C P w w'"
    using r q syscall_error [of opn path f w _ w1]
    by (cases q) (auto simp: sys_elseE_def seqE_def sysE_def os_failE_def failE_def retE_def
        intro!: frame_world)
qed

end
