(* ===== verification/Fs_operation.thy ===== *)
theory Fs_operation
  imports Frame
begin

text \<open>
  Operations on the file system: v1/server/fs-operation.go.  An action takes the server, the
  object or the bucket, and the marker of the scratch suffix of the request.  Log output is
  not modelled, and reading handles are not closed, which changes no file.
\<close>

section \<open>Directories\<close>

definition check_bucket_directory_exists :: "bbs \<Rightarrow> string \<Rightarrow> unit act" where
  "check_bucket_directory_exists b bucket =
     (let location = ''/'' @ bucket; path = make_path_of_bucket bucket in
      sys_elseE (os_Lstat b path)
        (\<lambda>err2. if os_kind_of err2 = Err_not_exist then failE (s3_error NoSuchBucket [] location)
                 else os_failE location err2)
        (\<lambda>stat. if fi_type stat \<noteq> T_dir then failE (s3_error NoSuchBucket [] location)
                 else retE ()))"

text \<open>The loop over the parts of a path; descend is the path so far.\<close>

fun check_parts_link_free :: "bbs \<Rightarrow> string \<Rightarrow> string \<Rightarrow> string list \<Rightarrow> unit act" where
  "check_parts_link_free b location descend [] = retE ()"
| "check_parts_link_free b location descend (e # es) =
     (let path = path_join [descend, e] in
      sys_elseE (os_Lstat b path)
        (\<lambda>err1. if os_kind_of err1 = Err_not_exist then retE () else os_failE location err1)
        (\<lambda>info. if fi_type info = T_symlink
                 then failE (s3_error AccessDenied ''Path to object contains symbolic links.'' location)
                 else check_parts_link_free b location path es))"

definition check_path_is_link_free :: "bbs \<Rightarrow> string \<Rightarrow> unit act" where
  "check_path_is_link_free b object =
     (let location = ''/'' @ object; path = make_path_of_object object No_marker in
      check_parts_link_free b location [] (split_on slash path))"

definition make_intervening_directories :: "bbs \<Rightarrow> string \<Rightarrow> unit act" where
  "make_intervening_directories b object =
     (let location = ''/'' @ object in
      seqE (check_path_is_link_free b object) (\<lambda>_.
      let path = make_path_of_object object No_marker; dirpath = fst (path_split path) in
      sys_elseE (os_Lstat b dirpath)
        (\<lambda>err2. if os_kind_of err2 = Err_not_exist
                 then sys_elseE (os_MkdirAll dirpath) (os_failE location) retE
                 else os_failE location err2)
        (\<lambda>stat. if fi_type stat \<noteq> T_dir then failE (s3_error AccessDenied [] location)
                 else retE ())))"

section \<open>Metafiles in JSON\<close>

text \<open>
  What a file decodes to.  A file the server wrote decodes to what was encoded; any other
  text is decoded by the parameters of the server.
\<close>

definition decode_meta :: "bbs \<Rightarrow> content \<Rightarrow> meta_info option" where
  "decode_meta b c =
     (case c of Json (Meta m) \<Rightarrow> Some m | _ \<Rightarrow> json_meta b (content_bytes b c))"

definition decode_info :: "bbs \<Rightarrow> content \<Rightarrow> mpul_info option" where
  "decode_info b c =
     (case c of Json (Info m) \<Rightarrow> Some m | _ \<Rightarrow> json_info b (content_bytes b c))"

definition decode_catalog :: "bbs \<Rightarrow> content \<Rightarrow> mpul_catalog option" where
  "decode_catalog b c =
     (case c of Json (Catalog m) \<Rightarrow> Some m | _ \<Rightarrow> json_catalog b (content_bytes b c))"

text \<open>Reading and decoding an open file: a fault of the read is an error of the decoder.\<close>

definition json_decode :: "(content \<Rightarrow> 'a option) \<Rightarrow> handle \<Rightarrow> 'a sys" where
  "json_decode dec h w =
     (let w1 = w\<lparr>faults := tl (faults w)\<rparr> in
      case h of
        H_other p \<Rightarrow> (Inl (Os_error (Err_other ''is a directory'') ''read'' p), w1)
      | H_file i p \<Rightarrow>
          (case faults w of
             Some (k, n) # fl \<Rightarrow> (Inl (Os_error k ''read'' p), w1)
           | _ \<Rightarrow> (case dec (ino_content (inode_at (disk w) i)) of
                    None \<Rightarrow> (Inl (Text_error ''json''), w1)
                  | Some x \<Rightarrow> (Inr x, w1))))"

text \<open>
  fetch_json_data: None stands for io.EOF, a file that does not exist.  The test for an empty
  file looks at the error of the open, which is nil there, so an empty file is an error.
\<close>

definition fetch_json_data :: "string \<Rightarrow> string \<Rightarrow> (content \<Rightarrow> 'a option) \<Rightarrow> 'a option act" where
  "fetch_json_data object path dec =
     (let location = ''/'' @ object in
      sys_elseE (os_Open path)
        (\<lambda>err1. if os_kind_of err1 = Err_not_exist then retE None else os_failE location err1)
        (\<lambda>f1. sys_elseE (json_decode dec f1) (os_failE location) (\<lambda>x. retE (Some x))))"

definition store_json_data :: "bbs \<Rightarrow> string \<Rightarrow> string \<Rightarrow> marker \<Rightarrow> metafile option \<Rightarrow> unit act" where
  "store_json_data b object path sfx data =
     (let location = ''/'' @ object in
      case data of
        None \<Rightarrow>
          sys_elseE (os_Lstat b path)
            (\<lambda>err2. if os_kind_of err2 = Err_not_exist then retE () else os_failE location err2)
            (\<lambda>_. sys_elseE (os_Remove path) (os_failE location) retE)
      | Some m \<Rightarrow>
          (let scratchpath = path @ marker_text sfx in
           sys_elseE (os_Create scratchpath) (os_failE location) (\<lambda>f1.
           on_failE (ignore_sysE (os_Remove scratchpath))
             (deferE (file_Close f1)
                (sys_elseE (file_write_json b f1 scratchpath m) (os_failE location) (\<lambda>_.
                 sys_elseE (os_Rename scratchpath path) (os_failE location) retE))))))"

section \<open>Entity keys and ETags\<close>

definition hex_encode :: "bytes \<Rightarrow> string" where
  "hex_encode s =
     concat (map (\<lambda>c. [digit_char (of_char c div 16), digit_char (of_char c mod 16)]) s)"

definition le64 :: "int \<Rightarrow> bytes" where
  "le64 i = map (\<lambda>k. char_of (nat (i div 256 ^ k mod 256))) [0..<8]"

definition hash_entity_key :: "bbs \<Rightarrow> file_info \<Rightarrow> string" where
  "hash_entity_key b stat =
     hex_encode (md5_sum b
       (le64 (fi_size stat) @ le64 (fi_mtime stat div 1000) @ le64 (int (fi_ino stat))
        @ le64 0xdeadbeefdeadbeef))"

definition make_object_etag_from_md5 :: "bytes \<Rightarrow> string" where
  "make_object_etag_from_md5 md5v = [dquote] @ hex_encode md5v @ [dquote]"

definition make_entity_key :: "bbs \<Rightarrow> string \<Rightarrow> handle \<Rightarrow> string act" where
  "make_entity_key b object f =
     (let location = ''/'' @ object in
      sys_elseE (file_Stat b f) (os_failE location) (\<lambda>stat. retE (hash_entity_key b stat)))"

text \<open>An object that does not exist has the empty entity key and no status.\<close>

definition fetch_object_status ::
  "bbs \<Rightarrow> string \<Rightarrow> bool \<Rightarrow> (string \<times> file_info option) act" where
  "fetch_object_status b object serializing =
     (let location = ''/'' @ object; path = make_path_of_object object No_marker in
      sys_elseE (os_Lstat b path)
        (\<lambda>err1. if os_kind_of err1 \<noteq> Err_not_exist then os_failE location err1
                 else if serializing
                 then failE (s3_error InternalError ''Target object changed during operation.'' location)
                 else retE ([], None))
        (\<lambda>stat. if fi_type stat = T_regular then retE (hash_entity_key b stat, Some stat)
                 else failE (s3_error InvalidObjectState ''Named object is a non-regular file.'' location)))"

definition check_object_exists :: "bbs \<Rightarrow> string \<Rightarrow> (string \<times> file_info) act" where
  "check_object_exists b object =
     (let location = ''/'' @ object in
      seqE (fetch_object_status b object False) (\<lambda>(entity, stat).
      case stat of
        None \<Rightarrow> failE (s3_error NoSuchKey [] location)
      | Some st \<Rightarrow> retE (entity, st)))"

section \<open>Metainfo of objects\<close>

definition fetch_object_metainfo :: "bbs \<Rightarrow> string \<Rightarrow> string \<Rightarrow> meta_info option act" where
  "fetch_object_metainfo b object entity =
     (let path = make_path_of_object object Meta_marker in
      seqE (fetch_json_data object path (decode_meta b)) (\<lambda>r.
      case r of
        None \<Rightarrow> retE None
      | Some metainfo \<Rightarrow>
          if Metafile_format metainfo \<noteq> Bbs_metafile_format then retE None
          else if Entity_key metainfo \<noteq> entity then retE None
          else retE (Some metainfo)))"

text \<open>The format is set in the record of the caller, too; no caller reads it afterwards.\<close>

definition store_object_metainfo :: "bbs \<Rightarrow> string \<Rightarrow> marker \<Rightarrow> meta_info option \<Rightarrow> unit act" where
  "store_object_metainfo b object sfx metainfo =
     (let data = map_option (\<lambda>m. Meta (m\<lparr>Metafile_format := Bbs_metafile_format\<rparr>)) metainfo;
          path = make_path_of_object object Meta_marker
      in store_json_data b object path sfx data)"

definition store_metainfo_serialized :: "bbs \<Rightarrow> string \<Rightarrow> marker \<Rightarrow> meta_info \<Rightarrow> unit act" where
  "store_metainfo_serialized b object sfx metainfo =
     (let location = ''/'' @ object in
      serializedE object
        (seqE (check_object_exists b object) (\<lambda>(entity, _).
         if entity \<noteq> Entity_key metainfo
         then failE (s3_error InternalError ''Source object changed during operation.'' location)
         else store_object_metainfo b object sfx (Some metainfo))))"

definition store_etag_as_metainfo :: "bbs \<Rightarrow> string \<Rightarrow> marker \<Rightarrow> string \<Rightarrow> string \<Rightarrow> unit act" where
  "store_etag_as_metainfo b object sfx entity etag =
     store_metainfo_serialized b object sfx (empty_meta\<lparr>Entity_key := entity, ETag := etag\<rparr>)"

section \<open>Multipart directories\<close>

definition discard_mpul_directory :: "bbs \<Rightarrow> string \<Rightarrow> unit act" where
  "discard_mpul_directory b object =
     (let location = ''/'' @ object @ ''@mpul'';
          path = make_path_of_object object Mpul_marker;
          remove = seqE (ignore_sysE (os_Remove (path_join [path, ''info'']))) (\<lambda>_.
            sys_elseE (os_RemoveAll path)
              (\<lambda>_. failE (s3_error InternalError ''Removing an MPUL scratch directory failed.'' location))
              retE)
      in
      sys_elseE (os_Lstat b path)
        (\<lambda>err2. if os_kind_of err2 = Err_not_exist then retE () else remove)
        (\<lambda>stat. if fi_type stat \<noteq> T_dir
                 then failE (s3_error InternalError ''An MPUL path is not a directory'' location)
                 else remove))"

definition fetch_mpul_info :: "bbs \<Rightarrow> string \<Rightarrow> bool \<Rightarrow> mpul_info act" where
  "fetch_mpul_info b object serializing =
     (let location = ''/'' @ object @ ''@mpul'';
          path = path_join [make_path_of_object object Mpul_marker, ''info''] in
      seqE (fetch_json_data object path (decode_info b)) (\<lambda>r.
      case r of
        None \<Rightarrow> failE (s3_error InternalError ''MPUL record missing.'' location)
      | Some mpulinfo \<Rightarrow>
          if Mpul_format mpulinfo \<noteq> Bbs_metafile_format then
            (let errz = failE (s3_error InternalError ''MPUL info file bad version.'' location) in
             if serializing then seqE (ignoreE (discard_mpul_directory b object)) (\<lambda>_. errz) else errz)
          else retE mpulinfo))"

definition store_mpul_info :: "bbs \<Rightarrow> string \<Rightarrow> marker \<Rightarrow> mpul_info \<Rightarrow> unit act" where
  "store_mpul_info b object sfx mpulinfo =
     (let path = path_join [make_path_of_object object Mpul_marker, ''info''] in
      store_json_data b object path sfx
        (Some (Info (mpulinfo\<lparr>Mpul_format := Bbs_metafile_format\<rparr>))))"

definition create_mpul_directory :: "bbs \<Rightarrow> string \<Rightarrow> marker \<Rightarrow> mpul_info \<Rightarrow> unit act" where
  "create_mpul_directory b object sfx mpulinfo =
     (let location = ''/'' @ object @ ''@mpul'';
          path = make_path_of_object object Mpul_marker;
          populate = on_failE (ignoreE (discard_mpul_directory b object))
            (store_mpul_info b object sfx mpulinfo)
      in
      seqE (make_intervening_directories b object) (\<lambda>_.
      sys_elseE (os_Lstat b path)
        (\<lambda>err2. if os_kind_of err2 \<noteq> Err_not_exist then os_failE location err2
                 else sys_elseE (os_Mkdir path) (os_failE location) (\<lambda>_. populate))
        (\<lambda>stat. if fi_type stat \<noteq> T_dir
                 then failE (s3_error InternalError ''An MPUL path is not a directory'' location)
                 else try_elseE (fetch_mpul_info b object False)
                   (\<lambda>_. populate)
                   (\<lambda>oldmpul. if Upload_id oldmpul = Upload_id mpulinfo
                               then failE (s3_error InternalError ''Upload-ID conflicting.'' location)
                               else populate))))"

definition fetch_mpul_catalog :: "bbs \<Rightarrow> string \<Rightarrow> mpul_catalog act" where
  "fetch_mpul_catalog b object =
     (let location = ''/'' @ object @ ''@mpul'';
          path = path_join [make_path_of_object object Mpul_marker, ''list''] in
      seqE (fetch_json_data object path (decode_catalog b)) (\<lambda>r.
      case r of
        None \<Rightarrow> failE (s3_error InternalError ''Catalog file of MPUL missing.'' location)
      | Some catalog \<Rightarrow> retE catalog))"

definition store_mpul_catalog :: "bbs \<Rightarrow> string \<Rightarrow> marker \<Rightarrow> mpul_catalog \<Rightarrow> unit act" where
  "store_mpul_catalog b object sfx catalog =
     (let path = path_join [make_path_of_object object Mpul_marker, ''list''] in
      store_json_data b object path sfx (Some (Catalog catalog)))"

text \<open>The catalog grows by empty parts up to the one that is set; parts count from 1.\<close>

definition set_part :: "nat \<Rightarrow> mpul_part \<Rightarrow> mpul_catalog \<Rightarrow> mpul_catalog" where
  "set_part part partinfo parts =
     (let parts1 = (if part > length parts
                    then parts @ replicate (part - length parts) empty_part else parts)
      in parts1[part - 1 := partinfo])"

definition update_mpul_catalog :: "bbs \<Rightarrow> string \<Rightarrow> nat \<Rightarrow> marker \<Rightarrow> mpul_part \<Rightarrow> unit act" where
  "update_mpul_catalog b object part sfx partinfo =
     seqE (fetch_mpul_catalog b object) (\<lambda>catalog.
     if part = 0 then panicE
     else store_mpul_catalog b object sfx (set_part part partinfo catalog))"

definition check_mpul_ongoing :: "bbs \<Rightarrow> string \<Rightarrow> string option \<Rightarrow> bool \<Rightarrow> mpul_info act" where
  "check_mpul_ongoing b object uploadid serializing =
     (let location = ''/'' @ object in
      case uploadid of
        None \<Rightarrow> failE (s3_error InvalidArgument ''Upload-ID missing.'' location)
      | Some u \<Rightarrow>
          try_elseE (fetch_mpul_info b object False)
            (\<lambda>_. failE (s3_error NoSuchUpload [] location))
            (\<lambda>mpul. if Upload_id mpul \<noteq> u then failE (s3_error NoSuchUpload [] location)
                     else retE mpul))"

section \<open>Streams of objects\<close>

text \<open>
  io.NewSectionReader: the bytes of a file in an extent, with the arithmetic of int64.
\<close>

definition section_limit :: "int \<Rightarrow> int \<Rightarrow> int" where
  "section_limit lo hi =
     (let n = int64 (hi - lo) in
      if lo \<le> int64 (2 ^ 63 - 1 - n) then int64 (n + lo) else 2 ^ 63 - 1)"

definition section_bytes :: "(int \<times> int) option \<Rightarrow> bytes \<Rightarrow> bytes" where
  "section_bytes extent d =
     (case extent of
        None \<Rightarrow> d
      | Some (lo, hi) \<Rightarrow> take (nat (section_limit lo hi - lo)) (drop (nat lo) d))"

lemma section_bytes_inside:
  assumes "0 \<le> lo" "lo \<le> hi" "hi < 2 ^ 63"
  shows "section_bytes (Some (lo, hi)) d = take (nat (hi - lo)) (drop (nat lo) d)"
proof -
  have "int64 (hi - lo) = hi - lo" using assms by (intro int64_id) auto
  moreover have "int64 (2 ^ 63 - 1 - (hi - lo)) = 2 ^ 63 - 1 - (hi - lo)"
    using assms by (intro int64_id) auto
  moreover have "int64 hi = hi" using assms by (intro int64_id) auto
  ultimately have "section_limit lo hi = hi"
    using assms by (simp add: section_limit_def Let_def)
  then show ?thesis by (simp add: section_bytes_def)
qed

definition make_file_stream ::
  "bbs \<Rightarrow> string \<Rightarrow> (int \<times> int) option \<Rightarrow> string \<Rightarrow> (handle \<times> (int \<times> int) option) act" where
  "make_file_stream b object extent entity =
     (let location = ''/'' @ object; path = make_path_of_object object No_marker in
      sys_elseE (os_Open path)
        (\<lambda>err2. if os_kind_of err2 = Err_not_exist then failE (s3_error NoSuchKey [] location)
                 else os_failE location err2)
        (\<lambda>f1. seqE (make_entity_key b object f1) (\<lambda>entity2.
          if entity2 \<noteq> entity
          then failE (s3_error InternalError ''Source object changed during operation.'' location)
          else retE (f1, extent))))"

text \<open>io.Copy of a range reader to digests: the bytes read, or the error.\<close>

definition copy_to_digests :: "bbs \<Rightarrow> handle \<Rightarrow> (int \<times> int) option \<Rightarrow> bytes sys" where
  "copy_to_digests b f extent w =
     (case file_read b f w of
        (Inr (d, None), w1) \<Rightarrow> (Inr (section_bytes extent d), w1)
      | (Inr (d, Some e), w1) \<Rightarrow> (Inl e, w1)
      | (Inl _, w1) \<Rightarrow> (Inl (Text_error []), w1))"

definition known_checksum :: "string \<Rightarrow> bool" where
  "known_checksum k \<longleftrightarrow> k \<in> {''CRC32'', ''CRC32C'', ''CRC64NVME'', ''SHA1'', ''SHA256''}"

text \<open>
  checksum_algorithm of checksum.go: no digest for the empty name, and log.Fatal for a name
  it does not know.
\<close>

definition checksum_algorithm :: "bbs \<Rightarrow> string \<Rightarrow> (bytes \<Rightarrow> bytes) option act" where
  "checksum_algorithm b k =
     (if k = [] then retE None
      else if known_checksum k then retE (Some (digest_sum b k)) else fatalE)"

definition run_digest :: "(bytes \<Rightarrow> bytes) option \<Rightarrow> bytes \<Rightarrow> bytes option" where
  "run_digest hash d = map_option (\<lambda>h. h d) hash"

text \<open>calculate_csum2 of copying.go: MD5, the digest asked for, and the entity key.\<close>

definition calculate_csum2 ::
  "bbs \<Rightarrow> string \<Rightarrow> string \<Rightarrow> string \<Rightarrow> (int \<times> int) option \<Rightarrow> (bytes \<times> bytes option \<times> string) act" where
  "calculate_csum2 b object checksum target extent =
     (let location = ''/'' @ object; path = make_path_of_object target No_marker in
      sys_elseE (os_Open path) (os_failE location) (\<lambda>f1.
      sys_elseE (file_Stat b f1) (os_failE location) (\<lambda>stat.
      let entity = hash_entity_key b stat;
          sz = (case extent of None \<Rightarrow> fi_size stat | Some (lo, hi) \<Rightarrow> int64 (hi - lo)) in
      seqE (checksum_algorithm b checksum) (\<lambda>hash2.
      sys_elseE (copy_to_digests b f1 extent) (os_failE location) (\<lambda>d.
      if int (length d) \<noteq> sz
      then failE (s3_error InternalError ''io.Copy() failed, incomplete copy'' location)
      else retE (md5_sum b d, run_digest hash2 d, entity))))))"

definition fetch_object_etag :: "bbs \<Rightarrow> string \<Rightarrow> string \<Rightarrow> (string \<times> meta_info option) act" where
  "fetch_object_etag b object entity =
     (let compute = seqE (calculate_csum2 b object [] object None) (\<lambda>(md5v, _, _).
        retE (make_object_etag_from_md5 md5v, None)) in
      try_elseE (fetch_object_metainfo b object entity) (\<lambda>_. compute)
        (\<lambda>r. case r of None \<Rightarrow> compute | Some metainfo \<Rightarrow> retE (ETag metainfo, Some metainfo)))"

end
