(* ===== verification/Fs_frame.thy ===== *)
theory Fs_frame
  imports Fs_operation
begin

text \<open>
  What the operations of Fs_operation leave alone.  Each lemma names the paths an operation
  touches: its scratch files must be among C, the rest outside C, and none of them in P.
\<close>

abbreviation obj_path :: "string \<Rightarrow> path" where
  "obj_path object \<equiv> comps (make_path_of_object object No_marker)"

abbreviation meta_path :: "string \<Rightarrow> path" where
  "meta_path object \<equiv> comps (make_path_of_object object Meta_marker)"

abbreviation meta_scratch :: "string \<Rightarrow> marker \<Rightarrow> path" where
  "meta_scratch object sfx \<equiv> comps (make_path_of_object object Meta_marker @ marker_text sfx)"

abbreviation mpul_path :: "string \<Rightarrow> path" where
  "mpul_path object \<equiv> comps (make_path_of_object object Mpul_marker)"

definition dirs_of :: "string \<Rightarrow> path set" where
  "dirs_of object = set (heads (comps (fst (path_split (make_path_of_object object No_marker)))))"

lemma keeps_bucket_exists [keeps_rules]:
  "keeps (frame C P) (check_bucket_directory_exists b bucket)"
  unfolding check_bucket_directory_exists_def Let_def by (intro keeps_rules)

lemma keeps_parts_link_free [keeps_rules]:
  "keeps (frame C P) (check_parts_link_free b location descend es)"
proof (induction es arbitrary: descend)
  case Nil
  then show ?case unfolding check_parts_link_free.simps by (intro keeps_rules)
next
  case (Cons e es)
  show ?case unfolding check_parts_link_free.simps Let_def by (intro keeps_rules Cons.IH)
qed

lemma keeps_link_free [keeps_rules]: "keeps (frame C P) (check_path_is_link_free b object)"
  unfolding check_path_is_link_free_def Let_def by (intro keeps_rules)

lemma keeps_intervening [keeps_rules]:
  assumes "dirs_of object \<inter> P = {}" "dirs_of object \<inter> C = {}"
  shows "keeps (frame C P) (make_intervening_directories b object)"
  unfolding make_intervening_directories_def Let_def
  by (intro keeps_rules assms [unfolded dirs_of_def])

lemma keeps_json_decode [keeps_rules]: "keeps (frame C P) (sysE (json_decode dec h))"
  by (auto simp: keeps_def sysE_def json_decode_def Let_def intro!: frame_world
      split: handle.splits list.splits option.splits)

lemma keeps_fetch_json [keeps_rules]: "keeps (frame C P) (fetch_json_data object path dec)"
  unfolding fetch_json_data_def Let_def by (intro keeps_rules)

lemma keeps_store_json [keeps_rules]:
  assumes "comps path \<notin> P" "comps path \<notin> C"
    "data \<noteq> None \<Longrightarrow> comps (path @ marker_text sfx) \<notin> P \<and> comps (path @ marker_text sfx) \<in> C"
  shows "keeps (frame C P) (store_json_data b object path sfx data)"
  unfolding store_json_data_def Let_def
  by (intro keeps_rules) (use assms in auto)

lemma keeps_entity_key [keeps_rules]: "keeps (frame C P) (make_entity_key b object f)"
  unfolding make_entity_key_def Let_def by (intro keeps_rules)

lemma keeps_status [keeps_rules]: "keeps (frame C P) (fetch_object_status b object serializing)"
  unfolding fetch_object_status_def Let_def by (intro keeps_rules)

lemma keeps_exists [keeps_rules]: "keeps (frame C P) (check_object_exists b object)"
  unfolding check_object_exists_def Let_def by (intro keeps_rules)

lemma keeps_fetch_metainfo [keeps_rules]: "keeps (frame C P) (fetch_object_metainfo b object entity)"
  unfolding fetch_object_metainfo_def Let_def by (intro keeps_rules)

lemma keeps_store_metainfo [keeps_rules]:
  assumes "meta_path object \<notin> P" "meta_path object \<notin> C"
    "metainfo \<noteq> None \<Longrightarrow> meta_scratch object sfx \<notin> P \<and> meta_scratch object sfx \<in> C"
  shows "keeps (frame C P) (store_object_metainfo b object sfx metainfo)"
  unfolding store_object_metainfo_def Let_def using assms by (intro keeps_store_json) auto

lemma keeps_store_serialized [keeps_rules]:
  assumes "meta_path object \<notin> P" "meta_path object \<notin> C"
    "meta_scratch object sfx \<notin> P" "meta_scratch object sfx \<in> C"
  shows "keeps (frame C P) (store_metainfo_serialized b object sfx metainfo)"
  unfolding store_metainfo_serialized_def Let_def using assms by (intro keeps_rules) auto

lemma keeps_store_etag [keeps_rules]:
  assumes "meta_path object \<notin> P" "meta_path object \<notin> C"
    "meta_scratch object sfx \<notin> P" "meta_scratch object sfx \<in> C"
  shows "keeps (frame C P) (store_etag_as_metainfo b object sfx entity etag)"
  unfolding store_etag_as_metainfo_def using assms by (intro keeps_rules) auto

text \<open>The path of the info file lies below the multipart directory.\<close>

definition mpul_file :: "string \<Rightarrow> string \<Rightarrow> path" where
  "mpul_file object name = comps (path_join [make_path_of_object object Mpul_marker, name])"

definition mpul_scratch :: "string \<Rightarrow> string \<Rightarrow> marker \<Rightarrow> path" where
  "mpul_scratch object name sfx =
     comps (path_join [make_path_of_object object Mpul_marker, name] @ marker_text sfx)"

lemma keeps_discard_mpul [keeps_rules]:
  assumes "\<And>p. p \<in> P \<Longrightarrow> \<not> prefix (mpul_path object) p" "mpul_file object ''info'' \<notin> P"
  shows "keeps (frame C P) (discard_mpul_directory b object)"
  unfolding discard_mpul_directory_def Let_def
  by (intro keeps_rules) (use assms in \<open>auto simp: mpul_file_def\<close>)

lemma keeps_fetch_info [keeps_rules]: "keeps (frame C P) (fetch_mpul_info b object False)"
  unfolding fetch_mpul_info_def Let_def if_False by (intro keeps_rules)

lemma keeps_store_info [keeps_rules]:
  assumes "mpul_file object ''info'' \<notin> P" "mpul_file object ''info'' \<notin> C"
    "mpul_scratch object ''info'' sfx \<notin> P" "mpul_scratch object ''info'' sfx \<in> C"
  shows "keeps (frame C P) (store_mpul_info b object sfx mpulinfo)"
  unfolding store_mpul_info_def Let_def
  using assms by (intro keeps_rules) (auto simp: mpul_file_def mpul_scratch_def)

lemma keeps_fetch_catalog [keeps_rules]: "keeps (frame C P) (fetch_mpul_catalog b object)"
  unfolding fetch_mpul_catalog_def Let_def by (intro keeps_rules)

lemma keeps_store_catalog [keeps_rules]:
  assumes "mpul_file object ''list'' \<notin> P" "mpul_file object ''list'' \<notin> C"
    "mpul_scratch object ''list'' sfx \<notin> P" "mpul_scratch object ''list'' sfx \<in> C"
  shows "keeps (frame C P) (store_mpul_catalog b object sfx catalog)"
  unfolding store_mpul_catalog_def Let_def
  using assms by (intro keeps_rules) (auto simp: mpul_file_def mpul_scratch_def)

lemma keeps_update_catalog [keeps_rules]:
  assumes "mpul_file object ''list'' \<notin> P" "mpul_file object ''list'' \<notin> C"
    "mpul_scratch object ''list'' sfx \<notin> P" "mpul_scratch object ''list'' sfx \<in> C"
  shows "keeps (frame C P) (update_mpul_catalog b object part sfx partinfo)"
  unfolding update_mpul_catalog_def using assms by (intro keeps_rules)

lemma keeps_ongoing [keeps_rules]: "keeps (frame C P) (check_mpul_ongoing b object u serializing)"
  unfolding check_mpul_ongoing_def Let_def by (intro keeps_rules)

lemma keeps_file_stream [keeps_rules]: "keeps (frame C P) (make_file_stream b object extent entity)"
  unfolding make_file_stream_def Let_def by (intro keeps_rules)

lemma keeps_digests [keeps_rules]: "keeps (frame C P) (sysE (copy_to_digests b f extent))"
  by (auto simp: keeps_def sysE_def copy_to_digests_def file_read_def Let_def intro!: frame_world
      split: handle.splits list.splits option.splits sum.splits prod.splits)

lemma keeps_algorithm [keeps_rules]: "keeps (frame C P) (checksum_algorithm b k)"
  unfolding checksum_algorithm_def by (intro keeps_rules)

lemma keeps_csum2 [keeps_rules]: "keeps (frame C P) (calculate_csum2 b object k target extent)"
  unfolding calculate_csum2_def Let_def by (intro keeps_rules)

lemma keeps_etag [keeps_rules]: "keeps (frame C P) (fetch_object_etag b object entity)"
  unfolding fetch_object_etag_def Let_def by (intro keeps_rules)

end
