(* ===== verification/Copying.thy ===== *)
theory Copying
  imports Fs_frame Chunked
begin

text \<open>
  Uploading and copying: v1/server/copying.go.  The context of a request is the marker of its
  scratch suffix and the http request.  An object is first made as a scratch file beside the
  target and then renamed in the serialized region.
\<close>

section \<open>Bodies\<close>

text \<open>A body is the raw stream up to a length (-1 for no limit), or a chunked reader.\<close>

datatype body = Body_raw bufio int | Body_chunked chunked_reader

datatype body_end = End_eof | End_error os_error | End_panic

text \<open>
  What a body delivers until its end, and the header of the request afterwards, if the
  trailer may have changed it.  A limited raw body ends without an error when all its bytes
  are there.
\<close>

definition read_body :: "body \<Rightarrow> bytes \<times> body_end \<times> (string \<times> string list) list option" where
  "read_body body =
     (case body of
        Body_raw r len \<Rightarrow>
          (let d = bufio_all r;
               e = (case ending r of None \<Rightarrow> End_eof | Some e \<Rightarrow> End_error e)
           in if len = - 1 then (d, e, None)
              else if nat len \<le> length d then (take (nat len) d, End_eof, None)
              else (d, e, None))
      | Body_chunked r \<Rightarrow>
          (case chunked_read_all (bufio_total (cr_r r) + 1) r of
             None \<Rightarrow> ([], End_panic, None)
           | Some (d, Rd_eof, r1) \<Rightarrow> (d, End_eof, Some (http_headers r1))
           | Some (d, Rd_error e, r1) \<Rightarrow> (d, End_error e, Some (http_headers r1))
           | Some (d, _, r1) \<Rightarrow> (d, End_panic, Some (http_headers r1))))"

text \<open>
  make_chunked_reader: the body, the length of its payload (-1 when unknown) and the kind.
  With nested streams the outer reader is given the payload of the inner one in one segment.
\<close>

definition make_chunked_reader ::
  "bbs \<Rightarrow> string \<Rightarrow> http_request \<Rightarrow> int \<Rightarrow> (body \<times> int \<times> chunked_type) result" where
  "make_chunked_reader b object q len =
     (let location = ''/'' @ object;
          forbid = Forbid_last_chunk_crlf (config b);
          errz = failed (s3_error InvalidRequest ''Making chunked-reader failed.'' location);
          (http1, signing_http1, trailer_http1) = check_chunked_http1 q
      in case check_chunked_awss3 q of
           None \<Rightarrow> errz
         | Some (awss3, signing_awss3, trailer_awss3) \<Rightarrow>
             if Nesting_chunked_stream (config b) \<and> http1 \<and> awss3 then
               (if trailer_http1 \<and> trailer_awss3 then errz
                else case New_chunked_reader q (rq_body q) Chunked_HTTP1 signing_http1 trailer_http1 forbid of
                  None \<Rightarrow> errz
                | Some (body2, _) \<Rightarrow>
                    (case read_body (Body_chunked body2) of
                       (_, End_panic, _) \<Rightarrow> Inl Panic
                     | (d, e, h) \<Rightarrow>
                         (let inner = \<lparr>buffered = [], segs = [d],
                                ending = (case e of End_error x \<Rightarrow> Some x | _ \<Rightarrow> None)\<rparr> in
                          case New_chunked_reader (q\<lparr>rq_Header := (case h of None \<Rightarrow> rq_Header q | Some x \<Rightarrow> x)\<rparr>)
                                 inner Chunked_AWSS3 signing_awss3 trailer_awss3 forbid of
                            None \<Rightarrow> errz
                          | Some (body3, length2) \<Rightarrow> ok (Body_chunked body3, length2, Chunked_AWSS3))))
             else if awss3 then
               (case New_chunked_reader q (rq_body q) Chunked_AWSS3 signing_awss3 trailer_awss3 forbid of
                  None \<Rightarrow> errz
                | Some (body2, length2) \<Rightarrow> ok (Body_chunked body2, length2, Chunked_AWSS3))
             else if http1 then
               (case New_chunked_reader q (rq_body q) Chunked_HTTP1 signing_http1 trailer_http1 forbid of
                  None \<Rightarrow> errz
                | Some (body2, length2) \<Rightarrow> ok (Body_chunked body2, length2, Chunked_HTTP1))
             else ok (Body_raw (rq_body q) len, len, Chunked_NO))"

section \<open>Scratch files\<close>

text \<open>Where copy_content_stream takes its data from.\<close>

datatype source = From_body body | From_file handle "(int \<times> int)"

definition open_source :: "bbs \<Rightarrow> source \<Rightarrow> (bytes \<times> body_end) act" where
  "open_source b src =
     (case src of
        From_body body \<Rightarrow>
          (let (d, e, h) = read_body body in
           seqE (modE (\<lambda>w. w\<lparr>req_header := (case h of None \<Rightarrow> req_header w | Some x \<Rightarrow> x)\<rparr>)) (\<lambda>_.
           retE (d, e)))
      | From_file f extent \<Rightarrow>
          seqE (file_read b f) (\<lambda>(d, e).
          retE (section_bytes (Some extent) d, case e of None \<Rightarrow> End_eof | Some x \<Rightarrow> End_error x)))"

text \<open>The file is open while the digests are made and the data is copied.\<close>

definition copy_content_stream ::
  "bbs \<Rightarrow> string \<Rightarrow> string \<Rightarrow> source \<Rightarrow> int \<Rightarrow> string \<Rightarrow> (bytes \<times> bytes option) act" where
  "copy_content_stream b object scratch src sz checksum =
     (let location = ''/'' @ object; path = make_path_of_object scratch No_marker in
      sys_elseE (os_Create path) (os_failE location) (\<lambda>f1.
      on_failE (ignore_sysE (os_Remove path))
        (deferE (file_Close f1)
          (seqE (checksum_algorithm b checksum) (\<lambda>hash2.
           seqE (open_source b src) (\<lambda>(d, e).
           sys_elseE (file_write b f1 path d) (os_failE location) (\<lambda>_.
           case e of
             End_error err3 \<Rightarrow> os_failE location err3
           | End_panic \<Rightarrow> panicE
           | End_eof \<Rightarrow>
               if sz \<noteq> - 1 \<and> int (length d) \<noteq> sz
               then failE (s3_error IncompleteBody [] location)
               else retE (md5_sum b d, run_digest hash2 d))))))))"

definition upload_file_as_scratch ::
  "bbs \<Rightarrow> string \<Rightarrow> string \<Rightarrow> http_request \<Rightarrow> int \<Rightarrow> string \<Rightarrow> (bytes \<times> bytes option) act" where
  "upload_file_as_scratch b object scratch q len checksum =
     seqE (liftE (make_chunked_reader b object q len)) (\<lambda>(body2, length2, chunked).
     copy_content_stream b object scratch (From_body body2) length2 checksum)"

definition copy_file_as_scratch ::
  "bbs \<Rightarrow> string \<Rightarrow> string \<Rightarrow> string \<Rightarrow> int \<times> int \<Rightarrow> string \<Rightarrow> (bytes \<times> bytes option) act" where
  "copy_file_as_scratch b object scratch source extent checksum =
     (let location = ''/'' @ object;
          path = make_path_of_object source No_marker;
          sz = int64 (snd extent - fst extent)
      in sys_elseE (os_Open path) (os_failE location) (\<lambda>body1.
         copy_content_stream b object scratch (From_file body1 extent) sz checksum))"

definition link_file_as_scratch ::
  "bbs \<Rightarrow> string \<Rightarrow> string \<Rightarrow> string \<Rightarrow> string \<Rightarrow> (bytes \<times> bytes option) act" where
  "link_file_as_scratch b object scratch source checksum =
     (let location = ''/'' @ object;
          source_path = make_path_of_object source No_marker;
          target_path = make_path_of_object scratch No_marker;
          link = sys_elseE (os_Link source_path target_path) (os_failE location) (\<lambda>_.
            seqE (calculate_csum2 b object checksum scratch None) (\<lambda>(md5v, crc1, _).
            retE (md5v, crc1)))
      in sys_elseE (os_Remove target_path)
           (\<lambda>err3. if os_kind_of err3 = Err_not_exist then link else os_failE location err3)
           (\<lambda>_. link))"

record completed_part =
  PartNumber :: "int option"
  cp_ETag :: "string option"
  cp_CRC32 :: "string option"
  cp_CRC32C :: "string option"
  cp_CRC64NVME :: "string option"
  cp_SHA1 :: "string option"
  cp_SHA256 :: "string option"

text \<open>Copying the parts; a missing part number is a nil pointer.  The result is the data.\<close>

fun concat_parts ::
  "bbs \<Rightarrow> string \<Rightarrow> string \<Rightarrow> nat \<Rightarrow> string \<Rightarrow> completed_part list \<Rightarrow> bytes \<Rightarrow> bytes act" where
  "concat_parts b location mpulpath f1 path [] acc = retE acc"
| "concat_parts b location mpulpath f1 path (p # ps) acc =
     (case PartNumber p of
        None \<Rightarrow> panicE
      | Some part \<Rightarrow>
          (let partpath = path_join [mpulpath, make_part_name (nat part)] in
           sys_elseE (os_Open partpath) (os_failE location) (\<lambda>f3.
           seqE (file_read b f3) (\<lambda>(d, e).
           sys_elseE (file_write b f1 path d) (os_failE location) (\<lambda>_.
           case e of
             Some err2 \<Rightarrow> os_failE location err2
           | None \<Rightarrow> concat_parts b location mpulpath f1 path ps (acc @ d))))))"

definition concat_parts_as_scratch ::
  "bbs \<Rightarrow> string \<Rightarrow> string \<Rightarrow> mpul_info \<Rightarrow> completed_part list \<Rightarrow> string \<Rightarrow> int \<Rightarrow> (bytes \<times> bytes option) act" where
  "concat_parts_as_scratch b object scratch mpul parts checksum size_to_check =
     (let location = ''/'' @ object;
          path = make_path_of_object scratch No_marker;
          mpulpath = make_path_of_object object Mpul_marker
      in sys_elseE (os_Create path) (os_failE location) (\<lambda>f1.
         seqE (on_failE (ignore_sysE (os_Remove path)) (deferE (file_Close f1)
           (seqE (checksum_algorithm b checksum) (\<lambda>hash_crc.
            seqE (concat_parts b location mpulpath f1 path parts []) (\<lambda>d.
            seqE (if size_to_check = - 1 then retE ()
                  else sys_elseE (file_Stat b (H_file f1 path)) (os_failE location) (\<lambda>stat.
                    if fi_size stat \<noteq> size_to_check
                    then failE (s3_error InvalidArgument ''Size of concatenated object mismatch.'' [])
                    else retE ())) (\<lambda>_.
            retE (d, run_digest hash_crc d)))))))
         (\<lambda>(d, csum).
          seqE (ignore_sysE (os_Chtimes path (Initiate_time mpul))) (\<lambda>_.
          retE (md5_sum b d, csum)))))"

text \<open>The marker is the scratch suffix of the request.\<close>

definition upload_scratch ::
  "bbs \<Rightarrow> marker \<Rightarrow> string \<Rightarrow> http_request \<Rightarrow> int \<Rightarrow> string \<Rightarrow> (bytes \<times> bytes option) act" where
  "upload_scratch b sfx object q size_to_check checksum =
     (let scratch = make_scratch_object_name object sfx in
      seqE (make_intervening_directories b object) (\<lambda>_.
      upload_file_as_scratch b object scratch q size_to_check checksum))"

definition copy_scratch ::
  "bbs \<Rightarrow> marker \<Rightarrow> string \<Rightarrow> string \<Rightarrow> (int \<times> int) option \<Rightarrow> string \<Rightarrow> (bytes \<times> bytes option) act" where
  "copy_scratch b sfx object source extent checksum =
     (let scratch = make_scratch_object_name object sfx in
      seqE (make_intervening_directories b object) (\<lambda>_.
      case extent of
        Some e \<Rightarrow> copy_file_as_scratch b object scratch source e checksum
      | None \<Rightarrow> link_file_as_scratch b object scratch source checksum))"

definition concatenate_scratch ::
  "bbs \<Rightarrow> marker \<Rightarrow> string \<Rightarrow> mpul_info \<Rightarrow> completed_part list \<Rightarrow> string \<Rightarrow> int \<Rightarrow> (bytes \<times> bytes option) act" where
  "concatenate_scratch b sfx object mpul parts checksum size_to_check =
     (let scratch = make_scratch_object_name object sfx in
      seqE (make_intervening_directories b object) (\<lambda>_.
      concat_parts_as_scratch b object scratch mpul parts checksum size_to_check))"

definition discard_scratch_file :: "string \<Rightarrow> unit act" where
  "discard_scratch_file scratch = ignore_sysE (os_Remove (make_path_of_object scratch No_marker))"

text \<open>Comparing slices with bytes.Compare, where nil is the empty slice.\<close>

definition slice :: "bytes option \<Rightarrow> bytes" where
  "slice d = (case d of None \<Rightarrow> [] | Some x \<Rightarrow> x)"

definition compare_checksums ::
  "bbs \<Rightarrow> string \<Rightarrow> string \<Rightarrow> bytes \<Rightarrow> bytes option \<Rightarrow> bytes option \<Rightarrow> bytes option \<Rightarrow> unit act" where
  "compare_checksums b object scratch md5a csum1 md5_to_check csum_to_check =
     (let location = ''/'' @ object in
      if md5_to_check \<noteq> None \<and> slice md5_to_check \<noteq> md5a
      then failE (s3_error BadDigest ''The md5 did not match what we received.'' location)
      else if csum_to_check \<noteq> None \<and> slice csum_to_check \<noteq> slice csum1
      then failE (s3_error BadDigest ''The checksum did not match what we received.'' location)
      else if Verify_fs_write (config b) then
        seqE (calculate_csum2 b object [] scratch None) (\<lambda>(md5b, _, _).
        if md5a \<noteq> md5b then failE (s3_error InternalError ''Copying file unverified'' location)
        else retE ())
      else retE ())"

section \<open>Building an object\<close>

definition place_scratch_file ::
  "bbs \<Rightarrow> marker \<Rightarrow> string \<Rightarrow> string \<Rightarrow> string \<Rightarrow> meta_info option \<Rightarrow> bool \<Rightarrow> unit act" where
  "place_scratch_file b sfx object scratch target metainfo copy_file_by_linking =
     (let location = ''/'' @ object;
          path1 = make_path_of_object scratch No_marker;
          path2 = make_path_of_object target No_marker;
          rename = sys_elseE (os_Rename path1 path2) (os_failE location) retE
      in
      seqE (if metainfo \<noteq> None then store_object_metainfo b object sfx metainfo else retE ()) (\<lambda>_.
      on_failE (if metainfo \<noteq> None then ignoreE (store_object_metainfo b object sfx None) else retE ())
        (if copy_file_by_linking then
           sys_elseE (os_Stat b path2) (\<lambda>_. rename) (\<lambda>stat2.
           sys_elseE (os_Stat b path1) (os_failE location) (\<lambda>stat1.
           if fi_type stat1 = T_regular \<and> fi_type stat2 = T_regular \<and> fi_ino stat1 = fi_ino stat2
           then sys_elseE (os_Remove path2) (os_failE location) (\<lambda>_. rename)
           else rename))
         else rename)))"

record copy_source =
  cs_source :: string
  cs_entity :: string

text \<open>The metainfo build_object stores: none for a part, and for a small object without any.\<close>

definition fill_metainfo ::
  "bbs \<Rightarrow> int \<Rightarrow> meta_info option \<Rightarrow> string \<Rightarrow> string \<Rightarrow> int \<Rightarrow> meta_info option act" where
  "fill_metainfo b part metainfo entity etag sz =
     (if part \<noteq> 0 then seqE (assertE (metainfo = None)) (\<lambda>_. retE None)
      else case metainfo of
        Some m \<Rightarrow>
          seqE (assertE (Entity_key m = [] \<and> ETag m = [])) (\<lambda>_.
          retE (Some (m\<lparr>Entity_key := entity, ETag := etag\<rparr>)))
      | None \<Rightarrow>
          retE (if byte_size (Etag_save_threshold (config b)) \<le> sz
                then Some (empty_meta\<lparr>Entity_key := entity, ETag := etag\<rparr>) else None))"

text \<open>The state of the target before the serialized region, errors being empty values.\<close>

definition fetch_target ::
  "bbs \<Rightarrow> string \<Rightarrow> copy_conditions \<Rightarrow> (string \<times> string \<times> file_info option) act" where
  "fetch_target b target conditions =
     (if conditions = no_conditions then retE ([], [], None)
      else
        seqE (tryE (fetch_object_status b target False)) (\<lambda>r.
        let (entity, stat) = (case r of Inl _ \<Rightarrow> ([], None) | Inr x \<Rightarrow> x) in
        seqE (tryE (fetch_object_etag b target entity)) (\<lambda>r2.
        retE (entity, case r2 of Inl _ \<Rightarrow> [] | Inr (etag, _) \<Rightarrow> etag, stat))))"

text \<open>
  The check of the conditions in the serialized region.  A target without a status is a nil
  interface, whose methods panic.
\<close>

definition recheck_target ::
  "bbs \<Rightarrow> string \<Rightarrow> string \<Rightarrow> copy_conditions \<Rightarrow> string \<times> string \<times> file_info option \<Rightarrow> unit act" where
  "recheck_target b location target conditions t =
     (if conditions = no_conditions then retE ()
      else
        (let (target_entity, target_etag, target_stat) = t in
         seqE (tryE (fetch_object_status b target True)) (\<lambda>r.
         let entity3 = (case r of Inl _ \<Rightarrow> [] | Inr (e, _) \<Rightarrow> e) in
         if entity3 \<noteq> target_entity
         then failE (s3_error InternalError ''Target object changed during operation.'' location)
         else case target_stat of
           None \<Rightarrow> panicE
         | Some st \<Rightarrow>
             liftE (check_conditions target_etag (fi_mtime st) (fi_size st) Cond_write conditions))))"

definition recheck_source :: "bbs \<Rightarrow> string \<Rightarrow> build_op \<Rightarrow> copy_source option \<Rightarrow> unit act" where
  "recheck_source b location op cs =
     (if op \<noteq> BUILD_COPY then retE ()
      else case cs of
        None \<Rightarrow> panicE
      | Some c \<Rightarrow>
          seqE (fetch_object_status b (cs_source c) False) (\<lambda>(entity4, _).
          if entity4 \<noteq> cs_entity c
          then failE (s3_error InternalError ''Source object changed during operation.'' location)
          else retE ()))"

definition base64_chars :: string where
  "base64_chars = ''ABCDEFGHIJKLMNOPQRSTUVWXYZabcdefghijklmnopqrstuvwxyz0123456789+/''"

fun base64_encode :: "bytes \<Rightarrow> string" where
  "base64_encode [] = []"
| "base64_encode [a] =
     (let n = (of_char a :: nat) * 16 in
      [base64_chars ! (n div 64), base64_chars ! (n mod 64), CHR ''='', CHR ''=''])"
| "base64_encode [a, c] =
     (let n = ((of_char a :: nat) * 256 + of_char c) * 4 in
      [base64_chars ! (n div 4096), base64_chars ! (n div 64 mod 64), base64_chars ! (n mod 64), CHR ''=''])"
| "base64_encode (a # c # d # s) =
     (let n = ((of_char a :: nat) * 256 + of_char c) * 256 + of_char d in
      [base64_chars ! (n div 262144), base64_chars ! (n div 4096 mod 64),
       base64_chars ! (n div 64 mod 64), base64_chars ! (n mod 64)] @ base64_encode s)"

text \<open>The steps of the serialized region; part is 0 for an object.\<close>

definition build_serialized ::
  "bbs \<Rightarrow> marker \<Rightarrow> string \<Rightarrow> string \<Rightarrow> int \<Rightarrow> build_op \<Rightarrow> copy_source option \<Rightarrow> copy_conditions
   \<Rightarrow> string \<times> string \<times> file_info option \<Rightarrow> meta_info option \<Rightarrow> mpul_part \<Rightarrow> unit act" where
  "build_serialized b sfx object upload_id part op cs conditions t metainfo partinfo =
     (let location = ''/'' @ object;
          target = (if part = 0 then object else make_mpul_part_name object (nat part));
          scratch = make_scratch_object_name object sfx
      in
      seqE (recheck_target b location target conditions t) (\<lambda>_.
      seqE (recheck_source b location op cs) (\<lambda>_.
      seqE (if part \<noteq> 0 then seqE (check_mpul_ongoing b object (Some upload_id) True) (\<lambda>_. retE ())
            else retE ()) (\<lambda>_.
      seqE (place_scratch_file b sfx object scratch target metainfo (op = BUILD_LINK)) (\<lambda>_.
      seqE (modE (\<lambda>w. w\<lparr>cleanup_needed := False\<rparr>)) (\<lambda>_.
      seqE (if part \<noteq> 0 then update_mpul_catalog b object (nat part) sfx partinfo else retE ()) (\<lambda>_.
      if op = BUILD_CONCAT then ignoreE (discard_mpul_directory b object) else retE ())))))))"

definition build_object ::
  "bbs \<Rightarrow> marker \<Rightarrow> string \<Rightarrow> string \<Rightarrow> int \<Rightarrow> build_op \<Rightarrow> copy_source option \<Rightarrow> meta_info option
   \<Rightarrow> string \<Rightarrow> bytes \<Rightarrow> bytes option \<Rightarrow> copy_conditions \<Rightarrow> file_info act" where
  "build_object b sfx object upload_id part op cs metainfo checksum md5v csum conditions =
     (let etag = make_object_etag_from_md5 md5v;
          target = (if part = 0 then object else make_mpul_part_name object (nat part));
          scratch = make_scratch_object_name object sfx
      in
      seqE (assertE ((part = 0) = (upload_id = []))) (\<lambda>_.
      seqE (assertE (part = 0 \<or> metainfo = None)) (\<lambda>_.
      seqE (assertE (conditions = no_conditions \<or> part = 0)) (\<lambda>_.
      seqE (fetch_target b target conditions) (\<lambda>t.
      seqE (fetch_object_status b scratch True) (\<lambda>(entity, stat0).
      case stat0 of
        None \<Rightarrow> panicE
      | Some stat \<Rightarrow>
          seqE (fill_metainfo b part metainfo entity etag (fi_size stat)) (\<lambda>metainfo2.
          let partinfo = \<lparr>Part_entity_key = entity, Part_ETag = etag, Part_size = fi_size stat,
                Part_mtime = fi_mtime stat, Part_checksum = checksum,
                Part_csum = base64_encode (slice csum)\<rparr> in
          seqE (serializedE object
            (build_serialized b sfx object upload_id part op cs conditions t metainfo2 partinfo)) (\<lambda>_.
          retE stat))))))))"

definition upload_object ::
  "bbs \<Rightarrow> marker \<Rightarrow> string \<Rightarrow> string \<Rightarrow> int \<Rightarrow> bytes \<Rightarrow> bytes option \<Rightarrow> meta_info option \<Rightarrow> copy_checks
   \<Rightarrow> copy_conditions \<Rightarrow> file_info act" where
  "upload_object b sfx object upload_id part md5v csum metainfo checks conditions =
     build_object b sfx object upload_id part BUILD_UPLOAD None metainfo (check_algorithm checks)
       md5v csum conditions"

definition copy_object ::
  "bbs \<Rightarrow> marker \<Rightarrow> string \<Rightarrow> string \<Rightarrow> int \<Rightarrow> string \<Rightarrow> string \<Rightarrow> (int \<times> int) option \<Rightarrow> meta_info option
   \<Rightarrow> string \<Rightarrow> bytes \<Rightarrow> bytes option \<Rightarrow> file_info act" where
  "copy_object b sfx object upload_id part source source_entity extent metainfo checksum md5v csum =
     (let (op, cs) = (if extent = None then (BUILD_LINK, None)
            else (BUILD_COPY, Some \<lparr>cs_source = source, cs_entity = source_entity\<rparr>))
      in build_object b sfx object upload_id part op cs metainfo checksum md5v csum no_conditions)"

definition concatenate_object ::
  "bbs \<Rightarrow> marker \<Rightarrow> string \<Rightarrow> mpul_info \<Rightarrow> bytes \<Rightarrow> bytes option \<Rightarrow> string \<Rightarrow> copy_conditions
   \<Rightarrow> file_info act" where
  "concatenate_object b sfx object mpulinfo md5v csum checksum conditions =
     build_object b sfx object [] 0 BUILD_CONCAT None (Metainfo mpulinfo) checksum md5v csum conditions"

end
