(* ===== verification/Checksum.thy ===== *)
theory Checksum
  imports Copying
begin

text \<open>
  Checksums of requests: v1/server/checksum.go and the decoding of the base64 text they come
  in, with the handling of a checksum that follows the payload in the trailer.
\<close>

section \<open>Base64\<close>

text \<open>
  base64.StdEncoding.DecodeString: carriage returns and line feeds are skipped, the padding
  is required, the bits behind the last byte are not looked at.
\<close>

definition base64_val :: "char \<Rightarrow> nat option" where
  "base64_val c = index_of c base64_chars"

fun base64_groups :: "string \<Rightarrow> bytes option" where
  "base64_groups [] = Some []"
| "base64_groups (a # c # d # e # s) =
     (case (base64_val a, base64_val c) of
        (Some x, Some y) \<Rightarrow>
          if d = CHR ''='' then
            (if e = CHR ''='' \<and> s = [] then Some [char_of (x * 4 + y div 16)] else None)
          else (case base64_val d of
            None \<Rightarrow> None
          | Some z \<Rightarrow>
              if e = CHR ''='' then
                (if s = [] then Some [char_of (x * 4 + y div 16), char_of (y mod 16 * 16 + z div 4)] else None)
              else (case (base64_val e, base64_groups s) of
                (Some u, Some r) \<Rightarrow>
                  Some (char_of (x * 4 + y div 16) # char_of (y mod 16 * 16 + z div 4)
                        # char_of (z mod 4 * 64 + u) # r)
              | _ \<Rightarrow> None))
      | _ \<Rightarrow> None)"
| "base64_groups _ = None"

definition base64_decode :: "string \<Rightarrow> bytes option" where
  "base64_decode s = base64_groups (filter (\<lambda>c. c \<noteq> CHR 0x0A \<and> c \<noteq> CHR 0x0D) s)"

lemma byte_less: "(of_char c :: nat) < 256"
  by simp

lemma rejoin:
  fixes a c d :: nat
  assumes "c < 256" "d < 256"
  shows "a div 4 * 4 + (a mod 4 * 16 + c div 16) div 16 = a"
    "(a mod 4 * 16 + c div 16) mod 16 * 16 + c mod 16 * 4 div 4 = c"
    "(a mod 4 * 16 + c div 16) mod 16 * 16 + (c mod 16 * 4 + d div 64) div 4 = c"
    "(c mod 16 * 4 + d div 64) mod 4 * 64 + d mod 64 = d"
proof -
  have "c div 16 < 16" "d div 64 < 4" using assms by (auto simp: div_less_iff_less_mult)
  then show "a div 4 * 4 + (a mod 4 * 16 + c div 16) div 16 = a"
    "(a mod 4 * 16 + c div 16) mod 16 * 16 + c mod 16 * 4 div 4 = c"
    "(a mod 4 * 16 + c div 16) mod 16 * 16 + (c mod 16 * 4 + d div 64) div 4 = c"
    "(c mod 16 * 4 + d div 64) mod 4 * 64 + d mod 64 = d"
    by simp_all
qed

lemmas char_rejoin = rejoin [OF byte_less byte_less]

lemma base64_val_chars: "n < 64 \<Longrightarrow> base64_val (base64_chars ! n) = Some n"
proof -
  have "list_all (\<lambda>n. base64_val (base64_chars ! n) = Some n) [0..<64]" by code_simp
  then show "n < 64 \<Longrightarrow> base64_val (base64_chars ! n) = Some n" by (simp add: list_all_iff)
qed

lemma base64_char_plain:
  assumes "n < 64"
  shows "base64_chars ! n \<noteq> CHR 0x0A" "base64_chars ! n \<noteq> CHR 0x0D" "base64_chars ! n \<noteq> CHR ''=''"
proof -
  have "list_all (\<lambda>n. base64_chars ! n \<noteq> CHR 0x0A \<and> base64_chars ! n \<noteq> CHR 0x0D
      \<and> base64_chars ! n \<noteq> CHR ''='') [0..<64]" by code_simp
  then show "base64_chars ! n \<noteq> CHR 0x0A" "base64_chars ! n \<noteq> CHR 0x0D" "base64_chars ! n \<noteq> CHR ''=''"
    using assms by (simp_all add: list_all_iff)
qed

lemma byte_parts:
  fixes a c :: nat
  assumes "a < 256" "c < 256"
  shows "a div 4 < 64" "a mod 4 * 16 < 64" "a mod 4 * 16 + c div 16 < 64" "c mod 16 * 4 + a div 64 < 64"
    "a mod 16 * 4 < 64" "a mod 64 < 64" "(a * 256 + c) * 4 div 4096 < 64"
    "((a * 256 + c) * 256 + d) div 262144 < 64 \<longleftrightarrow> (a * 256 + c) * 256 + d < 16777216"
  using assms by (auto simp: div_less_iff_less_mult)

lemma byte_bound: "a < 256 \<Longrightarrow> c < 256 \<Longrightarrow> d < 256 \<Longrightarrow> (a * 256 + c) * 256 + d < (16777216 :: nat)"
  by simp

lemmas char_parts = byte_parts [OF byte_less byte_less]

lemma base64_plain: "filter (\<lambda>c. c \<noteq> CHR 0x0A \<and> c \<noteq> CHR 0x0D) (base64_encode d) = base64_encode d"
proof (induction d rule: base64_encode.induct)
  case (2 a)
  then show ?case using base64_char_plain char_parts(1) [of a] by (simp add: Let_def)
next
  case (3 a c)
  then show ?case using base64_char_plain char_parts(7) [of a c] by (simp add: Let_def)
next
  case (4 a c d s)
  have "(of_char d :: nat) < 256" by simp
  then have "((of_char a :: nat) * 256 + of_char c) * 256 + of_char d < 16777216"
    using byte_bound [of "of_char a" "of_char c" "of_char d"] byte_less by blast
  then show ?case using 4 base64_char_plain char_parts(8) [of a c "of_char d"] by (simp add: Let_def)
qed simp

text \<open>Three bytes as four digits, with the digits written out.\<close>

lemma digits_of:
  fixes p q r u :: nat
  assumes "p < 64" "q < 64" "r < 64" "u < 64" "n = p * 262144 + q * 4096 + r * 64 + u"
  shows "n div 262144 = p" "n div 4096 mod 64 = q" "n div 64 mod 64 = r" "n mod 64 = u"
proof -
  have n: "n = u + 64 * (r + 64 * (q + 64 * p))" using assms by simp
  have dm: "(x + 64 * y) div 64 = y" "(x + 64 * y) mod 64 = x" if "x < 64" for x y :: nat
    using that by (simp_all add: div_add1_eq)
  have 1: "n div 64 = r + 64 * (q + 64 * p)" "n mod 64 = u" unfolding n using dm assms(4) by blast+
  have 2: "n div 4096 = q + 64 * p" "n div 64 mod 64 = r"
    using dm [OF assms(3), of "q + 64 * p"] div_mult2_eq [of n 64 64] unfolding 1(1) by simp_all
  then show "n div 262144 = p" "n div 4096 mod 64 = q" "n div 64 mod 64 = r" "n mod 64 = u"
    using dm [OF assms(2), of p] 1(2) 2 div_mult2_eq [of n 4096 64] by simp_all
qed

lemma regroup:
  fixes a c d :: nat
  assumes "a < 256" "c < 256" "d < 256" "n = (a * 256 + c) * 256 + d"
  shows "n div 262144 = a div 4" "n div 4096 mod 64 = a mod 4 * 16 + c div 16"
    "n div 64 mod 64 = c mod 16 * 4 + d div 64" "n mod 64 = d mod 64"
proof -
  obtain a1 a0 where a: "a div 4 = a1" "a mod 4 = a0" "a = a1 * 4 + a0" by (metis div_mult_mod_eq)
  obtain c1 c0 where c: "c div 16 = c1" "c mod 16 = c0" "c = c1 * 16 + c0" by (metis div_mult_mod_eq)
  obtain d1 d0 where d: "d div 64 = d1" "d mod 64 = d0" "d = d1 * 64 + d0" by (metis div_mult_mod_eq)
  have b: "a div 4 < 64" "a mod 4 * 16 + c div 16 < 64" "c mod 16 * 4 + d div 64 < 64" "d mod 64 < 64"
    using assms(1-3) by auto
  have "n = a div 4 * 262144 + (a mod 4 * 16 + c div 16) * 4096 + (c mod 16 * 4 + d div 64) * 64 + d mod 64"
    unfolding a(1,2) c(1,2) d(1,2) assms(4) using a(3) c(3) d(3) by simp
  then show "n div 262144 = a div 4" "n div 4096 mod 64 = a mod 4 * 16 + c div 16"
    "n div 64 mod 64 = c mod 16 * 4 + d div 64" "n mod 64 = d mod 64"
    using digits_of [OF b] by blast+
qed

lemma regroup2:
  fixes a c :: nat
  assumes "a < 256" "c < 256" "n = (a * 256 + c) * 4"
  shows "n div 4096 = a div 4" "n div 64 mod 64 = a mod 4 * 16 + c div 16" "n mod 64 = c mod 16 * 4"
proof -
  have m: "64 * n = (a * 256 + c) * 256 + 0" using assms(3) by simp
  have "64 * n div 262144 = n div 4096" "64 * n div 4096 = n div 64" "64 * n div 64 = n"
    using div_mult2_eq [of "64 * n" 64 4096] div_mult2_eq [of "64 * n" 64 64] by simp_all
  then show "n div 4096 = a div 4" "n div 64 mod 64 = a mod 4 * 16 + c div 16" "n mod 64 = c mod 16 * 4"
    using regroup [OF assms(1,2) _ m] by simp_all
qed

lemma base64_groups_chars:
  assumes "x < 64" "y < 64" "z < 64" "u < 64"
  shows "base64_groups [base64_chars ! x, base64_chars ! y, CHR ''='', CHR ''='']
      = Some [char_of (x * 4 + y div 16)]"
    "base64_groups [base64_chars ! x, base64_chars ! y, base64_chars ! z, CHR ''='']
      = Some [char_of (x * 4 + y div 16), char_of (y mod 16 * 16 + z div 4)]"
    "base64_groups (base64_chars ! x # base64_chars ! y # base64_chars ! z # base64_chars ! u # s)
      = map_option (\<lambda>r. char_of (x * 4 + y div 16) # char_of (y mod 16 * 16 + z div 4)
          # char_of (z mod 4 * 64 + u) # r) (base64_groups s)"
  using assms by (simp_all add: base64_val_chars base64_char_plain split: option.split)

lemma base64_groups_encode: "base64_groups (base64_encode d) = Some d"
proof (induction d rule: base64_encode.induct)
  case (2 a)
  have zero: "(0 :: nat) < 64" by simp
  have "(of_char a :: nat) * 16 div 64 = of_char a div 4" "(of_char a :: nat) * 16 mod 64 = of_char a mod 4 * 16"
    by (simp_all add: mod_mult_mult2 [of _ 16 4, simplified])
  then have "base64_groups (base64_encode [a])
      = Some [char_of ((of_char a :: nat) div 4 * 4 + of_char a mod 4 * 16 div 16)]"
    using base64_groups_chars(1) [OF char_parts(1) [of a] char_parts(2) [of a] zero zero] by (simp only: base64_encode.simps Let_def)
  then show ?case by simp
next
  case (3 a c)
  have zero: "(0 :: nat) < 64" by simp
  note r = regroup2 [OF byte_less byte_less refl, of a c]
  show ?case
    unfolding base64_encode.simps Let_def r
    using base64_groups_chars(2) [OF char_parts(1) [of a] char_parts(3) [of a c] char_parts(5) [of c] zero]
    by (simp only: char_rejoin char_of_char)
next
  case (4 a c d s)
  note r = regroup [OF byte_less byte_less byte_less refl, of a c d]
  show ?case
    unfolding base64_encode.simps Let_def r append_Cons append_Nil
    using base64_groups_chars(3) [OF char_parts(1) [of a] char_parts(3) [of a c] char_parts(4) [of c d] char_parts(6) [of d]] 4
    by (simp only: char_rejoin char_of_char option.map)
qed simp

lemma base64_read: "base64_decode (base64_encode d) = Some d"
  by (simp add: base64_decode_def base64_plain base64_groups_encode)

section \<open>The union of checksums\<close>

record checksum_set =
  ChecksumType :: string
  ChecksumCRC32 :: "string option"
  ChecksumCRC32C :: "string option"
  ChecksumCRC64NVME :: "string option"
  ChecksumSHA1 :: "string option"
  ChecksumSHA256 :: "string option"

definition no_checksums :: checksum_set where
  "no_checksums =
     \<lparr>ChecksumType = ''FULL_OBJECT'', ChecksumCRC32 = None, ChecksumCRC32C = None,
      ChecksumCRC64NVME = None, ChecksumSHA1 = None, ChecksumSHA256 = None\<rparr>"

definition fill_checksum_union :: "string \<Rightarrow> bytes option \<Rightarrow> checksum_set" where
  "fill_checksum_union checksum csum =
     (let cs = Some (base64_encode (slice csum)) in
      if checksum = ''CRC32'' then no_checksums\<lparr>ChecksumCRC32 := cs\<rparr>
      else if checksum = ''CRC32C'' then no_checksums\<lparr>ChecksumCRC32C := cs\<rparr>
      else if checksum = ''CRC64NVME'' then no_checksums\<lparr>ChecksumCRC64NVME := cs\<rparr>
      else if checksum = ''SHA1'' then no_checksums\<lparr>ChecksumSHA1 := cs\<rparr>
      else if checksum = ''SHA256'' then no_checksums\<lparr>ChecksumSHA256 := cs\<rparr>
      else no_checksums)"

text \<open>The values given, with their algorithms; the code keeps the last one and counts them.\<close>

definition given_checksums :: "checksum_set \<Rightarrow> (string \<times> string) list" where
  "given_checksums c =
     concat (map (\<lambda>(k, v). case v of None \<Rightarrow> [] | Some x \<Rightarrow> [(k, x)])
       [(''CRC32'', ChecksumCRC32 c), (''CRC32C'', ChecksumCRC32C c),
        (''CRC64NVME'', ChecksumCRC64NVME c), (''SHA1'', ChecksumSHA1 c), (''SHA256'', ChecksumSHA256 c)])"

definition decode_checksum_union ::
  "string \<Rightarrow> checksum_set \<Rightarrow> (string \<times> bytes option) result" where
  "decode_checksum_union object csumset =
     (let location = ''/'' @ object; given = given_checksums csumset in
      if ChecksumType csumset \<noteq> [] \<and> ChecksumType csumset \<noteq> ''FULL_OBJECT''
      then failed (s3_error NotImplemented ''Checksum by composite-object unsupported.'' location)
      else if given = [] then ok ([], None)
      else if length given \<ge> 2
      then failed (s3_error NotImplemented ''Multiple checksum values are specified.'' location)
      else (let (checksum, csum1) = last given in
        case base64_decode csum1 of
          None \<Rightarrow> failed (s3_error InvalidArgument ''Bad checksum encoding.'' location)
        | Some csum \<Rightarrow> ok (checksum, Some csum)))"

definition reject_composite_checksum :: "string \<Rightarrow> string \<Rightarrow> unit result" where
  "reject_composite_checksum object checksumtype =
     (if checksumtype \<noteq> [] \<and> checksumtype \<noteq> ''FULL_OBJECT''
      then failed (s3_error NotImplemented ''Checksum by not full-object unsupported.'' (''/'' @ object))
      else ok ())"

definition decode_base64 :: "string \<Rightarrow> string option \<Rightarrow> bytes option result" where
  "decode_base64 object csum =
     (case csum of
        None \<Rightarrow> ok None
      | Some s \<Rightarrow>
          (case base64_decode s of
             None \<Rightarrow> failed (s3_error InvalidArgument ''Bad base64 (MD5) encoding.'' (''/'' @ object))
           | Some csum2 \<Rightarrow> ok (Some csum2)))"

section \<open>Checksums in trailers\<close>

definition map_header_name_to_checksum_algorithm :: "string \<Rightarrow> string" where
  "map_header_name_to_checksum_algorithm s =
     (let k = to_lower s in
      if k = ''x-amz-checksum-crc32'' then ''CRC32''
      else if k = ''x-amz-checksum-crc32c'' then ''CRC32C''
      else if k = ''x-amz-checksum-crc64nvme'' then ''CRC64NVME''
      else if k = ''x-amz-checksum-sha1'' then ''SHA1''
      else if k = ''x-amz-checksum-sha256'' then ''SHA256''
      else [])"

definition map_checksum_algorithm_to_header_name :: "string \<Rightarrow> string" where
  "map_checksum_algorithm_to_header_name k =
     (if k = ''CRC32'' then ''x-amz-checksum-crc32''
      else if k = ''CRC32C'' then ''x-amz-checksum-crc32c''
      else if k = ''CRC64NVME'' then ''x-amz-checksum-crc64nvme''
      else if k = ''SHA1'' then ''x-amz-checksum-sha1''
      else if k = ''SHA256'' then ''x-amz-checksum-sha256''
      else [])"

definition check_trailer_checksum :: "string \<Rightarrow> (string \<times> string list) list \<Rightarrow> string result" where
  "check_trailer_checksum object h =
     (let keys = (case map_of h ''X-Amz-Trailer'' of None \<Rightarrow> [] | Some ks \<Rightarrow> ks);
          acc = filter (\<lambda>k. k \<noteq> []) (map map_header_name_to_checksum_algorithm keys)
      in if acc = [] then ok []
         else if length acc = 1 then ok (acc ! 0)
         else failed (s3_error InvalidArgument ''Multiple checksum headers in trailer.'' (''/'' @ object)))"

text \<open>The header is read after the payload; None for an algorithm without a header name.\<close>

definition extract_trailer_checksum ::
  "string \<Rightarrow> string \<Rightarrow> (string \<times> string list) list \<Rightarrow> bytes option result" where
  "extract_trailer_checksum object checksum h =
     (let location = ''/'' @ object; k = map_checksum_algorithm_to_header_name checksum in
      if k = [] then ok None
      else (let v = header_get h (canonical_key k) in
        if v = [] then failed (s3_error InvalidArgument ''Specified trailer checksum missing.'' location)
        else case base64_decode v of
          None \<Rightarrow> failed (s3_error InvalidArgument ''Bad checksum encoding.'' location)
        | Some csum \<Rightarrow> ok (Some csum)))"

text \<open>
  refill_put_object_input_by_trailer and refill_upload_part_input_by_trailer: the checksums of
  the input replaced by the one of the trailer.
\<close>

definition refill_input_by_trailer ::
  "string \<Rightarrow> string \<Rightarrow> (string \<times> string list) list \<Rightarrow> checksum_set result" where
  "refill_input_by_trailer object checksum h =
     (case extract_trailer_checksum object checksum h of
        Inl e \<Rightarrow> Inl e
      | Inr csum \<Rightarrow> ok (fill_checksum_union checksum csum))"

lemma decode_fill:
  "known_checksum k \<Longrightarrow> decode_checksum_union object (fill_checksum_union k (Some d)) = ok (k, Some d)"
  unfolding known_checksum_def
  by (elim insertE emptyE; hypsubst)
     (simp_all add: decode_checksum_union_def fill_checksum_union_def Let_def slice_def
        given_checksums_def no_checksums_def base64_read)

lemma decode_fill_unknown:
  "\<not> known_checksum k \<Longrightarrow> decode_checksum_union object (fill_checksum_union k csum) = ok ([], None)"
  by (simp add: known_checksum_def decode_checksum_union_def fill_checksum_union_def Let_def
      given_checksums_def no_checksums_def)

text \<open>
  What the server returns as a checksum it reads back: the union filled with a digest
  of an algorithm it knows decodes to that algorithm and digest, and to nothing for any other
  name; an MD5 text decodes to the digest it was made of.
\<close>

theorem checksum_union_roundtrip:
  "decode_checksum_union object (fill_checksum_union k (Some d))
     = (if known_checksum k then ok (k, Some d) else ok ([], None))
   \<and> decode_base64 object (Some (base64_encode d)) = ok (Some d)"
  by (simp add: decode_fill decode_fill_unknown decode_base64_def base64_read)

lemma header_names_inverse:
  "known_checksum k \<Longrightarrow> map_header_name_to_checksum_algorithm (map_checksum_algorithm_to_header_name k) = k"
  unfolding known_checksum_def by (elim insertE emptyE; hypsubst; code_simp)

lemma trailer_algorithm_known:
  assumes "check_trailer_checksum object h = ok k" "k \<noteq> []"
  shows "known_checksum k"
proof -
  have "map_header_name_to_checksum_algorithm s = [] \<or> known_checksum (map_header_name_to_checksum_algorithm s)"
    for s
    unfolding map_header_name_to_checksum_algorithm_def known_checksum_def Let_def by auto
  then have f: "known_checksum x" if "x \<in> set (filter (\<lambda>k. k \<noteq> []) (map map_header_name_to_checksum_algorithm ks))" for x ks
    using that by auto
  define acc where "acc = filter (\<lambda>k. k \<noteq> []) (map map_header_name_to_checksum_algorithm
      (case map_of h ''X-Amz-Trailer'' of None \<Rightarrow> [] | Some ks \<Rightarrow> ks))"
  have "length acc = 1" "k = acc ! 0"
    using assms by (simp_all add: check_trailer_checksum_def Let_def acc_def [symmetric] split: if_splits)
  then have "k \<in> set acc" by (metis nth_mem zero_less_one)
  then show ?thesis using f by (simp only: acc_def)
qed

lemma base64_encode_ne: "d \<noteq> [] \<Longrightarrow> base64_encode d \<noteq> []"
  by (cases d rule: base64_encode.cases) (simp_all add: Let_def)

lemma known_header_name: "known_checksum k \<Longrightarrow> map_checksum_algorithm_to_header_name k \<noteq> []"
  by (auto simp: known_checksum_def map_checksum_algorithm_to_header_name_def)

text \<open>
  A checksum announced in the trailer reaches the comparison unchanged: it is of the
  algorithm of the announced header, with the bytes whose base64 text the trailer holds; and a
  request whose trailer does not hold it is refused.
\<close>

theorem trailer_checksum_arrives:
  assumes "check_trailer_checksum object h0 = ok k" "k \<noteq> []"
  shows "(\<forall>d. header_get h (canonical_key (map_checksum_algorithm_to_header_name k)) = base64_encode d \<and> d \<noteq> [] \<longrightarrow>
      (\<exists>c. refill_input_by_trailer object k h = ok c \<and> decode_checksum_union object c = ok (k, Some d)))
    \<and> (header_get h (canonical_key (map_checksum_algorithm_to_header_name k)) = [] \<longrightarrow>
      fail_code (refill_input_by_trailer object k h) = Some InvalidArgument)"
proof -
  note k = trailer_algorithm_known [OF assms]
  show ?thesis
    using known_header_name [OF k] base64_encode_ne decode_fill [OF k, of object]
    by (auto simp: refill_input_by_trailer_def extract_trailer_checksum_def Let_def base64_read s3_error_def)
qed

theorem trailer_checksum_arrives_witness:
  "\<exists>c. refill_input_by_trailer ''bkt/x'' ''SHA1'' [(''X-Amz-Checksum-Sha1'', [''MTIz''])] = ok c
     \<and> decode_checksum_union ''bkt/x'' c = ok (''SHA1'', Some ''123'')"
proof -
  have t: "check_trailer_checksum ''bkt/x'' [(''X-Amz-Trailer'', [''x-amz-checksum-sha1''])] = ok ''SHA1''"
    by code_simp
  have c: "canonical_key (map_checksum_algorithm_to_header_name ''SHA1'') = ''X-Amz-Checksum-Sha1''"
    by code_simp
  have "base64_encode ''123'' = ''MTIz''" by (simp add: Let_def base64_chars_def)
  then have "header_get [(''X-Amz-Checksum-Sha1'', [''MTIz''])]
      (canonical_key (map_checksum_algorithm_to_header_name ''SHA1'')) = base64_encode ''123''"
    by (simp add: header_get_def c)
  then show ?thesis using trailer_checksum_arrives [OF t] by blast
qed

end
