(* ===== verification/Copy_frame.thy ===== *)
theory Copy_frame
  imports Copying
begin

text \<open>
  What the operations of Copying leave alone, and what the scratch file and the object hold
  when they return.
\<close>

abbreviation scratch_path :: "string \<Rightarrow> marker \<Rightarrow> path" where
  "scratch_path object sfx \<equiv> obj_path (make_scratch_object_name object sfx)"

section \<open>Frames\<close>

lemma keeps_header [keeps_rules]: "keeps (frame C P) (modE (\<lambda>w. w\<lparr>req_header := f w\<rparr>))"
  by (auto simp: keeps_def modE_def intro!: frame_world)

lemma keeps_open_source [keeps_rules]: "keeps (frame C P) (open_source b src)"
  unfolding open_source_def by (cases src) (auto split: prod.split intro!: keeps_rules)

lemma keeps_content_stream [keeps_rules]:
  assumes "obj_path scratch \<notin> P" "obj_path scratch \<in> C"
  shows "keeps (frame C P) (copy_content_stream b object scratch src sz checksum)"
proof -
  have e: "keeps (frame C P) (case e of End_error err3 \<Rightarrow> os_failE l err3 | End_panic \<Rightarrow> panicE
      | End_eof \<Rightarrow> if c then failE x else retE y)"
    for e l c x and y :: "bytes \<times> bytes option"
    by (cases e) (auto intro!: keeps_rules)
  show ?thesis
    unfolding copy_content_stream_def Let_def by (intro keeps_rules e assms)
qed

lemma keeps_upload_file [keeps_rules]:
  assumes "obj_path scratch \<notin> P" "obj_path scratch \<in> C"
  shows "keeps (frame C P) (upload_file_as_scratch b object scratch q len checksum)"
  unfolding upload_file_as_scratch_def by (intro keeps_rules assms)

lemma keeps_copy_file [keeps_rules]:
  assumes "obj_path scratch \<notin> P" "obj_path scratch \<in> C"
  shows "keeps (frame C P) (copy_file_as_scratch b object scratch source extent checksum)"
  unfolding copy_file_as_scratch_def Let_def by (intro keeps_rules assms)

lemma keeps_link_file [keeps_rules]:
  assumes "obj_path scratch \<notin> P" "obj_path scratch \<notin> C"
  shows "keeps (frame C P) (link_file_as_scratch b object scratch source checksum)"
  unfolding link_file_as_scratch_def Let_def by (intro keeps_rules assms)

lemma keeps_concat [keeps_rules]:
  "keeps (frame C P) (concat_parts b location mpulpath f1 path ps acc)"
proof (induction ps arbitrary: acc)
  case Nil
  then show ?case unfolding concat_parts.simps by (intro keeps_rules)
next
  case (Cons p ps)
  show ?case unfolding concat_parts.simps Let_def by (intro keeps_rules Cons.IH)
qed

lemma keeps_concat_scratch [keeps_rules]:
  assumes "obj_path scratch \<notin> P" "obj_path scratch \<in> C"
  shows "keeps (frame C P) (concat_parts_as_scratch b object scratch mpul parts checksum n)"
  unfolding concat_parts_as_scratch_def Let_def by (intro keeps_rules assms)

lemma keeps_upload_scratch [keeps_rules]:
  assumes "dirs_of object \<inter> P = {}" "dirs_of object \<inter> C = {}"
    "scratch_path object sfx \<notin> P" "scratch_path object sfx \<in> C"
  shows "keeps (frame C P) (upload_scratch b sfx object q n checksum)"
  unfolding upload_scratch_def Let_def by (intro keeps_rules assms)

lemma keeps_discard_scratch [keeps_rules]:
  assumes "obj_path scratch \<notin> P"
  shows "keeps (frame C P) (discard_scratch_file scratch)"
  unfolding discard_scratch_file_def by (intro keeps_rules assms)

lemma keeps_compare [keeps_rules]:
  "keeps (frame C P) (compare_checksums b object scratch md5a csum1 m c)"
  unfolding compare_checksums_def Let_def by (intro keeps_rules)

lemma keeps_place [keeps_rules]:
  assumes "obj_path scratch \<notin> P" "obj_path target \<notin> P" "obj_path target \<notin> C"
    "meta_path object \<notin> P" "meta_path object \<notin> C"
    "meta_scratch object sfx \<notin> P" "meta_scratch object sfx \<in> C"
  shows "keeps (frame C P) (place_scratch_file b sfx object scratch target metainfo linking)"
  unfolding place_scratch_file_def Let_def using assms by (intro keeps_rules) auto

lemma keeps_fill [keeps_rules]: "keeps (frame C P) (fill_metainfo b part m entity etag sz)"
  unfolding fill_metainfo_def by (intro keeps_rules)

lemma keeps_fetch_target [keeps_rules]: "keeps (frame C P) (fetch_target b target conditions)"
  unfolding fetch_target_def Let_def by (intro keeps_rules)

lemma keeps_recheck [keeps_rules]:
  "keeps (frame C P) (recheck_target b location target conditions t)"
  "keeps (frame C P) (recheck_source b location op cs)"
  unfolding recheck_target_def recheck_source_def Let_def by (intro keeps_rules)+

lemma keeps_build_serialized [keeps_rules]:
  assumes "scratch_path object sfx \<notin> P" "obj_path object \<notin> P" "obj_path object \<notin> C"
    "meta_path object \<notin> P" "meta_path object \<notin> C"
    "meta_scratch object sfx \<notin> P" "meta_scratch object sfx \<in> C"
    "op = BUILD_CONCAT \<Longrightarrow> (\<forall>p \<in> P. \<not> prefix (mpul_path object) p) \<and> mpul_file object ''info'' \<notin> P"
  shows "keeps (frame C P) (build_serialized b sfx object upload_id 0 op cs conditions t metainfo partinfo)"
  unfolding build_serialized_def Let_def using assms by (intro keeps_rules) auto

lemma keeps_build_object [keeps_rules]:
  assumes "scratch_path object sfx \<notin> P" "obj_path object \<notin> P" "obj_path object \<notin> C"
    "meta_path object \<notin> P" "meta_path object \<notin> C"
    "meta_scratch object sfx \<notin> P" "meta_scratch object sfx \<in> C"
    "op = BUILD_CONCAT \<Longrightarrow> (\<forall>p \<in> P. \<not> prefix (mpul_path object) p) \<and> mpul_file object ''info'' \<notin> P"
  shows "keeps (frame C P) (build_object b sfx object u 0 op cs metainfo checksum md5v csum conditions)"
  unfolding build_object_def Let_def by (intro keeps_rules assms) (simp_all add: assms)

section \<open>Failure\<close>

lemma on_fail_place:
  assumes "meta_path object \<notin> P" "meta_path object \<notin> C"
    "meta_scratch object sfx \<notin> P" "meta_scratch object sfx \<in> C"
  shows "on_fail (frame C P) (place_scratch_file b sfx object scratch target metainfo False)"
  unfolding place_scratch_file_def Let_def if_False os_Rename_def
  using assms by (intro keeps_rules on_fail_last_syscall) auto

lemma never_fails:
  "ignoreE m w \<noteq> (failed e, w')" "retE x w \<noteq> (failed e, w')" "modE f w \<noteq> (failed e, w')"
  by (auto simp: ignoreE_def try_elseE_def seqE_def tryE_def retE_def modE_def
      split: prod.splits sum.splits stop.splits)

text \<open>Building an object that is not a link to its source fails without touching the target.\<close>

lemma on_fail_build_serialized:
  assumes "meta_path object \<notin> P" "meta_path object \<notin> C"
    "meta_scratch object sfx \<notin> P" "meta_scratch object sfx \<in> C" "op \<noteq> BUILD_LINK"
  shows "on_fail (frame C P) (build_serialized b sfx object u 0 op cs conditions t metainfo partinfo)"
proof -
  have nf: "(seqE (modE (\<lambda>w. w\<lparr>cleanup_needed := False\<rparr>)) (\<lambda>_.
      seqE (retE ()) (\<lambda>_. if op = BUILD_CONCAT then ignoreE (discard_mpul_directory b object) else retE ()))) w
      \<noteq> (failed e, w')" for w e w'
    using never_fails
    by (auto simp: seqE_def modE_def retE_def split: if_splits)
  have place: "on_fail (frame C P) (seqE (place_scratch_file b sfx object scratch target metainfo False)
      (\<lambda>_. seqE (modE (\<lambda>w. w\<lparr>cleanup_needed := False\<rparr>)) (\<lambda>_.
      seqE (retE ()) (\<lambda>_. if op = BUILD_CONCAT then ignoreE (discard_mpul_directory b object) else retE ()))))"
    for scratch target
    by (rule frame.fail_seq_last, rule on_fail_place, (rule assms)+, rule nf)
  have l: "(op = BUILD_LINK) = False" using assms(5) by simp
  show ?thesis
    unfolding build_serialized_def Let_def l
    by (simp only: simp_thms if_True if_False) (rule frame.fail_seq, rule keeps_recheck, rule frame.fail_seq, rule keeps_recheck,
      rule frame.fail_seq, rule frame.ret, rule place)
qed

lemma on_fail_build_object:
  assumes "meta_path object \<notin> P" "meta_path object \<notin> C"
    "meta_scratch object sfx \<notin> P" "meta_scratch object sfx \<in> C" "op \<noteq> BUILD_LINK"
  shows "on_fail (frame C P) (build_object b sfx object u 0 op cs metainfo checksum md5v csum conditions)"
proof -
  have last: "on_fail (frame C P) (seqE (serializedE object m) (\<lambda>_. retE x))"
    if "on_fail (frame C P) m" for m :: "unit act" and x :: file_info
    using that by (intro frame.fail_seq_last on_fail_serialized) (auto simp: never_fails)
  have stat: "on_fail (frame C P) (case st of None \<Rightarrow> panicE | Some stat \<Rightarrow> h stat)"
    if "\<And>stat. on_fail (frame C P) (h stat)" for h :: "file_info \<Rightarrow> file_info act" and st
    using that frame.fail_ret by (cases st) auto
  show ?thesis
    unfolding build_object_def Let_def
    apply (rule frame.fail_seq, rule frame.ret)+
    apply (rule frame.fail_seq, rule keeps_fetch_target)
    apply (rule frame.fail_seq, rule keeps_status)
    apply (rule on_fail_splits(4), rule stat)
    apply (rule frame.fail_seq, rule keeps_fill)
    apply (rule last, rule on_fail_build_serialized)
    by (rule assms)+
qed

end
