(* ===== verification/Object_paths.thy ===== *)
theory Object_paths
  imports Copy_frame
begin

text \<open>
  The paths of an object whose name is well formed, and the state in which a request on it
  begins: the facts that discharge the side conditions of the frames.
\<close>

section \<open>Names\<close>

text \<open>A bucket, directories and a file, all plain, the file not beginning with a dot.\<close>

definition good_object :: "string \<Rightarrow> bool" where
  "good_object object \<longleftrightarrow>
     (let cs = split_on slash object in
      2 \<le> length cs \<and> list_all plain cs \<and> \<not> has_prefix (last cs) ''.'')"

definition dir_comps :: "string \<Rightarrow> path" where
  "dir_comps object = butlast (split_on slash object)"

definition file_name :: "string \<Rightarrow> string" where
  "file_name object = last (split_on slash object)"

lemma good_object_parts:
  assumes "good_object object"
  shows "object = object_name (dir_comps object) (file_name object)"
    "\<forall>p \<in> set (dir_comps object). plain p" "plain (file_name object)" "dir_comps object \<noteq> []"
    "\<not> has_prefix (file_name object) ''.''"
proof -
  let ?cs = "split_on slash object"
  have cs: "?cs = dir_comps object @ [file_name object]"
    by (simp add: dir_comps_def file_name_def)
  then show "object = object_name (dir_comps object) (file_name object)"
    using join_split [of slash object] by (simp add: object_name_def)
  have "list_all plain (dir_comps object @ [file_name object])" "2 \<le> length (dir_comps object @ [file_name object])"
    using assms cs by (auto simp: good_object_def Let_def)
  then show "\<forall>p \<in> set (dir_comps object). plain p" "plain (file_name object)" "dir_comps object \<noteq> []"
    by (auto simp: list_all_iff)
  show "\<not> has_prefix (file_name object) ''.''"
    using assms by (simp add: good_object_def Let_def file_name_def)
qed

lemma path_join_dir:
  assumes "\<forall>p \<in> set ps. plain p" "ps \<noteq> []" "plain n"
  shows "path_join [join_with slash ps @ [slash], n] = join_with slash (ps @ [n])"
proof -
  let ?j = "join_with slash ps"
  have n: "n \<noteq> []" "split_on slash n = [n]" using assms(3) by (auto simp: plain_def split_on_no_sep)
  have jne: "?j \<noteq> []" "hd ?j \<noteq> slash" using plain_join_ne [OF assms(2,1)] by auto
  have "split_on slash ([] @ slash # n) = [[]] @ [n]"
    using split_on_append [of slash "[]" n] n by simp
  then have sp: "split_on slash (join_with slash [?j @ [slash], n]) = ps @ [[]] @ [n]"
    using split_on_append [of slash ?j "[] @ slash # n"] assms by (simp add: split_join_plain)
  have "filter (\<lambda>c. c \<noteq> [] \<and> c \<noteq> ''.'') ps = ps"
    using assms(1) by (intro filter_True) (simp add: plain_def)
  then have "filter (\<lambda>c. c \<noteq> [] \<and> c \<noteq> ''.'') (ps @ [[]] @ [n]) = ps @ [n]"
    using assms(3) by (simp add: plain_def)
  then have cl: "clean_comps False (ps @ [[]] @ [n]) = ps @ [n]"
    using clean_comps_filter [of False "ps @ [[]] @ [n]"] assms by auto
  have "join_with slash [?j @ [slash], n] \<noteq> [] \<and> hd (join_with slash [?j @ [slash], n]) \<noteq> slash"
    using jne by simp
  then show ?thesis using sp cl n jne by (simp add: path_join_def path_clean_def Let_def)
qed

lemma make_scratch_object_name_join:
  assumes "\<forall>p \<in> set ds. plain p" "ds \<noteq> []" "plain f" "marker_ok m"
  shows "make_scratch_object_name (object_name ds f) m = object_name ds (prefix_suffix_by_marker f m)"
  using path_split_join [OF assms(1,3)] path_join_dir [OF assms(1,2) plain_marked_ok [OF assms(3,4)]] assms(2)
  by (simp add: make_scratch_object_name_def object_name_def Let_def)

lemma join_append_last: "join_with c (ps @ [n]) @ t = join_with c (ps @ [n @ t])"
  by (cases "ps = []") (simp_all add: join_with_append)

lemma plain_append_marker: "plain n \<Longrightarrow> marker_ok m \<Longrightarrow> plain (n @ marker_text m)"
  by (cases m) (auto simp: plain_def append_eq_Cons_conv dest: hex_no_slash)

lemma comps_slashed:
  assumes "\<forall>p \<in> set ps. plain p" "ps \<noteq> []"
  shows "comps (join_with slash ps @ [slash]) = ps"
proof -
  have sp: "split_on slash (join_with slash ps @ [slash]) = ps @ [[]]"
    using split_on_append [of slash "join_with slash ps" "[]"] assms by (simp add: split_join_plain)
  have "filter (\<lambda>c. c \<noteq> [] \<and> c \<noteq> ''.'') (ps @ [[]]) = ps"
    using assms(1) by (simp add: filter_id_conv plain_def)
  then show ?thesis
    using clean_comps_filter [of False "ps @ [[]]"] assms(1) by (simp add: comps_def sp)
qed

section \<open>The paths of an object\<close>

lemma good_obj_path:
  assumes "good_object object" "marker_ok m"
  shows "comps (make_path_of_object object m) = dir_comps object @ [prefix_suffix_by_marker (file_name object) m]"
    and "make_path_of_object object m = object_name (dir_comps object) (prefix_suffix_by_marker (file_name object) m)"
  using comps_of_object make_path_of_object_join good_object_parts [OF assms(1)] assms(2) by metis+

lemma good_scratch_path:
  assumes "good_object object" "marker_ok m"
  shows "scratch_path object m = dir_comps object @ [prefix_suffix_by_marker (file_name object) m]"
proof -
  note g = good_object_parts [OF assms(1)]
  have s: "make_scratch_object_name object m
      = object_name (dir_comps object) (prefix_suffix_by_marker (file_name object) m)"
    using make_scratch_object_name_join g assms(2) by metis
  then show ?thesis
    using comps_of_object [OF g(2) plain_marked_ok [OF g(3) assms(2)], of No_marker] by simp
qed

lemma good_meta_scratch:
  assumes "good_object object" "marker_ok m"
  shows "meta_scratch object m = dir_comps object @ [''.'' @ file_name object @ ''@meta'' @ marker_text m]"
proof -
  note g = good_object_parts [OF assms(1)]
  let ?n = "prefix_suffix_by_marker (file_name object) Meta_marker"
  have n: "plain ?n" using plain_marked_ok g(3) by simp
  have "make_path_of_object object Meta_marker @ marker_text m
      = join_with slash (dir_comps object @ [?n @ marker_text m])"
    using good_obj_path(2) [OF assms(1), of Meta_marker] by (simp add: object_name_def join_append_last)
  then show ?thesis
    using comps_join [of "dir_comps object @ [?n @ marker_text m]"] g(2) plain_append_marker [OF n assms(2)]
    by (auto simp: prefix_suffix_by_marker_def)
qed

lemma takes_are_prefixes: "(\<lambda>n. take n d) ` {1..<length d + 1} = {p. p \<noteq> [] \<and> prefix p d}"
proof (intro equalityI subsetI)
  fix p assume "p \<in> {p. p \<noteq> [] \<and> prefix p d}"
  then obtain t where "d = p @ t" "p \<noteq> []" by (auto simp: prefix_def)
  then have "p = take (length p) d" "length p \<in> {1..<length d + 1}"
    by (auto simp: Suc_le_eq)
  then show "p \<in> (\<lambda>n. take n d) ` {1..<length d + 1}" by blast
next
  fix p assume "p \<in> (\<lambda>n. take n d) ` {1..<length d + 1}"
  then show "p \<in> {p. p \<noteq> [] \<and> prefix p d}" by (cases d) (auto simp: take_is_prefix)
qed

lemma good_dirs_of:
  assumes "good_object object"
  shows "dirs_of object = {p. p \<noteq> [] \<and> prefix p (dir_comps object)}"
proof -
  note g = good_object_parts [OF assms]
  have "make_path_of_object object No_marker = join_with slash (dir_comps object @ [file_name object])"
    using good_obj_path(2) [OF assms, of No_marker] by (simp add: object_name_def)
  then have "comps (fst (path_split (make_path_of_object object No_marker))) = dir_comps object"
    using path_split_join [OF g(2,3)] g(2,4) by (simp add: comps_slashed)
  then show ?thesis using takes_are_prefixes by (simp add: dirs_of_def heads_def del: upt_Suc)
qed

lemma good_mpul_file:
  assumes "good_object object" "plain name"
  shows "mpul_file object name = mpul_path object @ [name]"
    and "marker_ok m \<Longrightarrow> mpul_scratch object name m = mpul_path object @ [name @ marker_text m]"
proof -
  note g = good_object_parts [OF assms(1)]
  let ?ps = "dir_comps object @ [prefix_suffix_by_marker (file_name object) Mpul_marker]"
  have pl: "\<forall>p \<in> set ?ps. plain p" using g plain_marked_ok by auto
  have p: "make_path_of_object object Mpul_marker = join_with slash ?ps"
    using good_obj_path(2) [OF assms(1), of Mpul_marker] by (simp add: object_name_def)
  have "path_join [join_with slash ?ps, name] = path_clean (join_with slash (?ps @ [name]))"
    using plain_join_ne [of ?ps] pl assms(2) join_with_append [of ?ps "[name]" slash]
    by (simp add: path_join_def plain_def)
  also have "... = join_with slash (?ps @ [name])" using pl assms(2) by (intro path_clean_plain) auto
  finally have j: "path_join [make_path_of_object object Mpul_marker, name] = join_with slash (?ps @ [name])"
    using p by simp
  have mp: "mpul_path object = ?ps" using good_obj_path(1) [OF assms(1), of Mpul_marker] by simp
  show "mpul_file object name = mpul_path object @ [name]"
    unfolding mpul_file_def j mp using pl assms(2) by (intro comps_join) auto
  show "mpul_scratch object name m = mpul_path object @ [name @ marker_text m]" if "marker_ok m"
    unfolding mpul_scratch_def j mp join_append_last
    using pl plain_append_marker [OF assms(2) that] comps_join [of "?ps @ [name @ marker_text m]"] by auto
qed

text \<open>The paths of one object are different from each other and from its directories.\<close>

lemmas good_paths = good_obj_path(1) [of _ No_marker, simplified]
  good_obj_path(1) [of _ Meta_marker, simplified] good_obj_path(1) [of _ Mpul_marker, simplified]
  good_scratch_path good_meta_scratch

definition own_names :: "string \<Rightarrow> marker \<Rightarrow> string list" where
  "own_names f m =
     [f, prefix_suffix_by_marker f Meta_marker, prefix_suffix_by_marker f m,
      ''.'' @ f @ ''@meta'' @ marker_text m, prefix_suffix_by_marker f Mpul_marker]"

lemma own_names_distinct: "plain f \<Longrightarrow> distinct (own_names f (Scratch_marker h)) \<or> \<not> marker_ok (Scratch_marker h)"
proof (cases "marker_ok (Scratch_marker h)")
  case True
  assume "plain f"
  have ln: "length h = 6" "CHR ''@'' \<notin> set h" using True hex_no_slash by auto
  have "f @ CHR ''@'' # h \<noteq> f @ ''@meta''" "f @ CHR ''@'' # h \<noteq> f @ ''@mpul''"
    "f \<noteq> CHR ''.'' # f @ t" for t
    using ln by auto
  moreover have "length (CHR ''@'' # h) = 7" using ln by simp
  ultimately show ?thesis
    by (auto simp: own_names_def prefix_suffix_by_marker_def)
qed simp

end
