(* ===== verification/Quiet.thy ===== *)
theory Quiet
  imports Copying
begin

text \<open>
  Relations that hold of every call because calls change only a part of the world: the system
  calls change the files and consume the faults, and some open files besides.  The laws are
  stated for any such relation and used for the open files, the request header, the
  monitors a request holds, and the faults that are still to come.
\<close>

section \<open>Relations that do not look at the files\<close>

locale quiet_relation = call_relation R for R +
  assumes quiet: "(faults w = [] \<Longrightarrow> f = []) \<Longrightarrow> R w (w\<lparr>faults := f, disk := s\<rparr>)"
begin

lemma quiet_faults: "(faults w = [] \<Longrightarrow> f = []) \<Longrightarrow> R w (w\<lparr>faults := f\<rparr>)"
  using quiet [where w = w and f = f and s = "disk w"] by simp

lemma syscalls [keeps_rules]:
  "keeps R (sysE (syscall opn path f))"
  unfolding keeps_def
  by (auto simp: sysE_def syscall_def Let_def quiet quiet_faults split: list.split option.split sum.split)

lemma calls [keeps_rules]:
  "keeps R (sysE (os_Lstat b path))" "keeps R (sysE (os_Stat b path))" "keeps R (sysE (os_Open path))"
  "keeps R (sysE (file_Stat b h))" "keeps R (sysE (os_ReadDir path))" "keeps R (sysE (os_Remove path))"
  "keeps R (sysE (os_Rename old new))" "keeps R (sysE (os_Link old new))" "keeps R (sysE (os_Mkdir path))"
  "keeps R (sysE (os_Chtimes path t))"
  unfolding os_Lstat_def os_Stat_def os_Open_def file_Stat_def os_ReadDir_def os_Remove_def os_Rename_def
    os_Link_def os_Mkdir_def os_Chtimes_def
  by (rule syscalls)+

lemma mkdir_each: "R w (snd (mkdir_each path ps w))"
proof (induction path ps w rule: mkdir_each.induct)
  case (1 path w)
  then show ?case by (simp add: refl)
next
  case (2 path p ps w)
  obtain q w1 where q: "syscall ''mkdir'' path (fs_mkdir_if_missing p) w = (q, w1)"
    by (cases "syscall ''mkdir'' path (fs_mkdir_if_missing p) w")
  have "R w (snd (sysE (syscall ''mkdir'' path (fs_mkdir_if_missing p)) w))"
    using syscalls [of "''mkdir''" path "fs_mkdir_if_missing p"] by (simp add: keeps_def)
  then have "R w w1" by (simp add: sysE_def q)
  then show ?case using 2 q trans by (cases q) auto
qed

lemma mkdir_all [keeps_rules]: "keeps R (sysE (os_MkdirAll path))"
  using mkdir_each by (simp add: keeps_def sysE_def os_MkdirAll_def split: prod.split) (metis snd_conv)

lemma remove_all [keeps_rules]: "keeps R (sysE (os_RemoveAll path))"
  by (auto simp: keeps_def sysE_def os_RemoveAll_def Let_def quiet quiet_faults
      split: list.splits option.splits sum.splits os_kind.splits)

lemma reading [keeps_rules]:
  "keeps R (file_read b h)" "keeps R (sysE (json_decode dec h))" "keeps R (sysE (copy_to_digests b h extent))"
  by (auto simp: keeps_def sysE_def file_read_def json_decode_def copy_to_digests_def Let_def quiet_faults
      split: handle.splits list.splits option.splits sum.splits prod.splits)

lemma writing [keeps_rules]:
  "keeps R (sysE (file_write b i path d))" "keeps R (sysE (file_write_json b i path m))"
  by (auto simp: keeps_def sysE_def file_write_def file_write_json_def Let_def quiet quiet_faults
      split: list.splits option.splits)

lemma parts_link_free [keeps_rules]: "keeps R (check_parts_link_free b location descend es)"
proof (induction es arbitrary: descend)
  case Nil
  then show ?case unfolding check_parts_link_free.simps by (intro keeps_rules)
next
  case (Cons e es)
  show ?case unfolding check_parts_link_free.simps Let_def by (intro keeps_rules Cons.IH)
qed

lemma directories [keeps_rules]:
  "keeps R (check_bucket_directory_exists b bucket)" "keeps R (check_path_is_link_free b object)"
  "keeps R (make_intervening_directories b object)"
  unfolding check_bucket_directory_exists_def check_path_is_link_free_def make_intervening_directories_def Let_def
  by (intro keeps_rules)+

lemma fetching [keeps_rules]:
  "keeps R (fetch_json_data object path dec)" "keeps R (make_entity_key b object f)"
  "keeps R (fetch_object_status b object serializing)" "keeps R (check_object_exists b object)"
  "keeps R (fetch_object_metainfo b object entity)" "keeps R (discard_mpul_directory b object)"
  "keeps R (fetch_mpul_info b object False)" "keeps R (fetch_mpul_catalog b object)"
  "keeps R (check_mpul_ongoing b object u serializing)" "keeps R (make_file_stream b object extent entity)"
  "keeps R (checksum_algorithm b k)" "keeps R (calculate_csum2 b object k target extent)"
  "keeps R (fetch_object_etag b object entity)" "keeps R (discard_scratch_file scratch)"
  "keeps R (compare_checksums b object scratch md5a csum1 m c)"
  "keeps R (fill_metainfo b part metainfo entity etag sz)"
  "keeps R (fetch_target b target conditions)" "keeps R (recheck_target b location target conditions t)"
  "keeps R (recheck_source b location op cs)"
  unfolding fetch_json_data_def make_entity_key_def fetch_object_status_def check_object_exists_def
    fetch_object_metainfo_def discard_mpul_directory_def fetch_mpul_info_def fetch_mpul_catalog_def
    check_mpul_ongoing_def make_file_stream_def checksum_algorithm_def calculate_csum2_def fetch_object_etag_def
    discard_scratch_file_def compare_checksums_def fill_metainfo_def fetch_target_def recheck_target_def
    recheck_source_def Let_def if_False
  by (intro keeps_rules)+

end

section \<open>Relations that do not look at the open files either\<close>

locale open_relation = quiet_relation R for R +
  assumes open_ok: "R w (w\<lparr>open_inodes := x\<rparr>)"
begin

lemma create [keeps_rules]: "keeps R (sysE (os_Create path))"
proof -
  have "R w (snd (sysE (syscall ''open'' path (fs_create path)) w))" for w
    using syscalls [of "''open''" path "fs_create path"] by (simp add: keeps_def)
  moreover have "R w (snd (os_Create path w))" if "R w (snd (sysE (syscall ''open'' path (fs_create path)) w))" for w
  proof -
    obtain q w1 where q: "syscall ''open'' path (fs_create path) w = (q, w1)"
      by (cases "syscall ''open'' path (fs_create path) w")
    have "R w w1" using that by (simp add: sysE_def q)
    then show ?thesis
      using trans [OF _ open_ok] q by (cases q) (simp_all add: os_Create_def)
  qed
  ultimately show ?thesis by (simp add: keeps_def sysE_def split: prod.split) (metis snd_conv)
qed

lemma close [keeps_rules]: "keeps R (file_Close i)"
  by (simp add: keeps_def file_Close_def modE_def open_ok)

lemma storing [keeps_rules]:
  "keeps R (store_json_data b object path sfx data)" "keeps R (store_object_metainfo b object sfx metainfo)"
  "keeps R (store_mpul_info b object sfx info)" "keeps R (store_mpul_catalog b object sfx catalog)"
  "keeps R (update_mpul_catalog b object part sfx partinfo)" "keeps R (create_mpul_directory b object sfx info)"
  "keeps R (place_scratch_file b sfx object scratch target metainfo linking)"
  "keeps R (link_file_as_scratch b object scratch source checksum)"
  unfolding store_json_data_def store_object_metainfo_def store_mpul_info_def store_mpul_catalog_def
    update_mpul_catalog_def create_mpul_directory_def place_scratch_file_def link_file_as_scratch_def Let_def
  by (intro keeps_rules)+

lemma parts [keeps_rules]: "keeps R (concat_parts b location mpulpath f1 path ps acc)"
proof (induction ps arbitrary: acc)
  case Nil
  then show ?case unfolding concat_parts.simps by (intro keeps_rules)
next
  case (Cons p ps)
  show ?case unfolding concat_parts.simps Let_def by (intro keeps_rules Cons.IH)
qed

lemma concatenate [keeps_rules]:
  "keeps R (concat_parts_as_scratch b object scratch mpul parts checksum n)"
  "keeps R (concatenate_scratch b sfx object mpul parts checksum n)"
  unfolding concatenate_scratch_def concat_parts_as_scratch_def Let_def by (intro keeps_rules)+

end

text \<open>Relations that do not look at the header of the request and the flag of the action.\<close>

locale flag_relation = open_relation R for R +
  assumes flags: "R w (w\<lparr>req_header := h\<rparr>)" "R w (w\<lparr>cleanup_needed := c\<rparr>)"
begin

lemma header [keeps_rules]: "keeps R (modE (\<lambda>w. w\<lparr>req_header := f w\<rparr>))"
  and cleanup [keeps_rules]: "keeps R (modE (\<lambda>w. w\<lparr>cleanup_needed := g w\<rparr>))"
  by (simp_all add: keeps_def modE_def flags)

lemma source [keeps_rules]: "keeps R (open_source b src)"
  unfolding open_source_def by (cases src) (auto split: prod.split intro!: keeps_rules)

lemma content_stream [keeps_rules]: "keeps R (copy_content_stream b object scratch src sz checksum)"
proof -
  have e: "keeps R (case e of End_error err3 \<Rightarrow> os_failE l err3 | End_panic \<Rightarrow> panicE
      | End_eof \<Rightarrow> if c then failE x else retE y)"
    for e l c x and y :: "bytes \<times> bytes option"
    by (cases e) (auto intro!: keeps_rules)
  show ?thesis unfolding copy_content_stream_def Let_def by (intro keeps_rules e)
qed

lemma scratches [keeps_rules]:
  "keeps R (upload_file_as_scratch b object scratch q len checksum)"
  "keeps R (copy_file_as_scratch b object scratch source ext checksum)"
  "keeps R (upload_scratch b sfx object q n checksum)"
  "keeps R (copy_scratch b sfx object source extent checksum)"
  unfolding upload_scratch_def copy_scratch_def upload_file_as_scratch_def copy_file_as_scratch_def Let_def
  by (intro keeps_rules)+

lemma serialized_steps [keeps_rules]:
  "keeps R (build_serialized b sfx object u part op cs conditions t metainfo partinfo)"
  unfolding build_serialized_def Let_def by (intro keeps_rules)

end

section \<open>Interpretations\<close>

text \<open>The parts of the world a call on the files passes on.\<close>

definition same_rest :: "world \<Rightarrow> world \<Rightarrow> bool" where
  "same_rest w w' \<longleftrightarrow> open_inodes w' = open_inodes w \<and> waits w' = waits w \<and> held w' = held w"

interpretation rest: quiet_relation same_rest
  by unfold_locales (auto simp: same_rest_def)

definition same_header :: "world \<Rightarrow> world \<Rightarrow> bool" where
  "same_header w w' \<longleftrightarrow> req_header w' = req_header w"

interpretation header: open_relation same_header
  by unfold_locales (auto simp: same_header_def)

definition same_cleanup :: "world \<Rightarrow> world \<Rightarrow> bool" where
  "same_cleanup w w' \<longleftrightarrow> cleanup_needed w' = cleanup_needed w"

interpretation cleanup: open_relation same_cleanup
  by unfold_locales (auto simp: same_cleanup_def)

definition same_held :: "world \<Rightarrow> world \<Rightarrow> bool" where
  "same_held w w' \<longleftrightarrow> held w' = held w"

interpretation held: flag_relation same_held
  by unfold_locales (auto simp: same_held_def)

text \<open>No fault comes of none.\<close>

definition no_new_faults :: "world \<Rightarrow> world \<Rightarrow> bool" where
  "no_new_faults w w' \<longleftrightarrow> (faults w = [] \<longrightarrow> faults w' = [])"

interpretation faultless: flag_relation no_new_faults
  by unfold_locales (auto simp: no_new_faults_def)

end
