(* ===== verification/Reach.thy ===== *)
theory Reach
  imports Frame
begin

text \<open>
  Paths all of whose directories are there: in a sound file system these are the paths the name
  lookup resolves.
\<close>

definition reach :: "fsys \<Rightarrow> path \<Rightarrow> bool" where
  "reach s p \<longleftrightarrow> (\<forall>r. strict_prefix r p \<longrightarrow> node_at s r = Some Dir)"

lemma strict_prefix_snoc: "strict_prefix r (p @ [n]) \<longleftrightarrow> strict_prefix r p \<or> r = p"
  by (auto simp: strict_prefix_def)

lemma reach_snoc: "reach s (p @ [n]) \<longleftrightarrow> reach s p \<and> node_at s p = Some Dir"
  unfolding reach_def strict_prefix_snoc by blast

lemma reach_Nil [simp]: "reach s []"
  by (simp add: reach_def)

lemma walk_reach: "sound s \<Longrightarrow> (\<exists>r. walk n s f cur cs = Inr r) \<longleftrightarrow>
    (\<forall>k < length cs. node_at s (cur @ take k cs) = Some Dir)"
proof (induction cs arbitrary: cur)
  case (Cons c cs)
  have "(\<forall>k < length (c # cs). node_at s (cur @ take k (c # cs)) = Some Dir) \<longleftrightarrow>
      node_at s cur = Some Dir \<and> (\<forall>k < length cs. node_at s ((cur @ [c]) @ take k cs) = Some Dir)"
    by (auto simp: less_Suc_eq_0_disj)
  then show ?case using Cons
    by (auto simp: walk_sound_step split: option.split node.split)
qed simp

lemma reach_takes: "reach s p \<longleftrightarrow> (\<forall>k < length p. node_at s (take k p) = Some Dir)"
proof -
  have sp: "strict_prefix r p \<longleftrightarrow> (\<exists>k < length p. r = take k p)" for r
  proof
    assume r: "strict_prefix r p"
    then have "r = take (length r) p" "length r < length p"
      by (auto simp: strict_prefix_def prefix_def)
    then show "\<exists>k < length p. r = take k p" by blast
  next
    assume "\<exists>k < length p. r = take k p"
    then show "strict_prefix r p" by (auto simp: strict_prefix_def take_is_prefix)
  qed
  show ?thesis unfolding reach_def sp by blast
qed

lemma resolve_reach: "sound s \<Longrightarrow> resolve s f path = Inr p \<Longrightarrow> reach s (comps path)"
  using walk_reach [of s 40 _ "[]" "comps path"]
  by (auto simp: resolve_def Let_def reach_takes split: sum.splits if_splits)

lemma reach_resolve:
  assumes "sound s" "reach s (comps path)" "\<not> has_suffix path ''/''"
  shows "resolve s f path = Inr (comps path)"
proof -
  obtain r where "walk 40 s f [] (comps path) = Inr r"
    using walk_reach [OF assms(1), of 40 f "[]" "comps path"] assms(2) by (auto simp: reach_takes)
  moreover have "r = comps path" using walk_sound [OF assms(1) calculation] by simp
  ultimately show ?thesis using assms(3) by (simp add: resolve_def Let_def)
qed

lemma reach_look:
  assumes "reach s p" "\<And>r. strict_prefix r p \<Longrightarrow> look t r = look s r"
  shows "reach t p"
  using assms look_node unfolding reach_def by metis

end
