(* ===== verification/Success.thy ===== *)
theory Success
  imports Copy_frame Quiet Reach
begin

text \<open>
  What calls that return have done to the files: the file a scratch name holds, where a rename
  has moved it, and the metafile that is read back.
\<close>

section \<open>System calls\<close>

lemma same_rest_refl [simp]: "same_rest w w"
  by (simp add: same_rest_def)

lemma same_rest_trans: "same_rest u v \<Longrightarrow> same_rest v w \<Longrightarrow> same_rest u w"
  by (simp add: same_rest_def)

lemma rename_done:
  assumes "os_Rename old new w = (Inr u, w')" "sound (disk w)" "comps new \<noteq> []"
  shows "look (disk w') (comps new) = look (disk w) (comps old) \<and> sound (disk w') \<and> same_rest w w'
    \<and> node_at (disk w) (comps old) \<noteq> None \<and> node_at (disk w) (comps old) \<noteq> Some Dir
    \<and> (\<forall>x. x \<noteq> comps old \<and> x \<noteq> comps new \<longrightarrow> look (disk w') x = look (disk w) x)
    \<and> reach (disk w) (comps new)"
proof -
  have d: "fs_rename old new (disk w) = Inr (u, disk w')" "same_rest w w'"
    using syscall_done [OF assms(1) [unfolded os_Rename_def]] by (simp_all add: same_rest_def)
  obtain q where q: "resolve (disk w) False new = Inr q"
    using d(1) by (auto simp: fs_rename_def split: sum.splits)
  obtain p where p: "resolve (disk w) False old = Inr p"
    using d(1) q by (auto simp: fs_rename_def split: sum.splits)
  have pq: "p = comps old" "q = comps new" using resolve_sound [OF assms(2)] p q by blast+
  obtain n where n: "node_at (disk w) p = Some n" using d(1) p q by (auto simp: fs_rename_def split: option.splits)
  have "n \<noteq> Dir" using d(1) p q n by (auto simp: fs_rename_def split: if_splits)
  consider "disk w' = disk w" "p = q" | "disk w' = disk w" "same_file n (node_at (disk w) q)"
    | "disk w' = put_node q n (drop_node p (disk w))" "p \<noteq> q"
    using d(1) p q n by (auto simp: fs_rename_def split: if_splits)
  then have "look (disk w') q = look (disk w) p \<and> sound (disk w')
    \<and> (\<forall>x. x \<noteq> p \<and> x \<noteq> q \<longrightarrow> look (disk w') x = look (disk w) x)"
  proof cases
    case 2
    then show ?thesis using n assms(2) by (auto simp: look_def same_file_def split: node.splits)
  next
    case 3
    have "sound_node (next_ino (disk w)) n"
      using n assms(2) sound_ino sound_not_link by (cases n) (auto simp: sound_node_def)
    moreover have "look (put_node q n (drop_node p (disk w))) q = look (disk w) p"
      using n pq assms(3) by (auto simp: look_def split: node.splits)
    ultimately show ?thesis using 3 assms(2) by (simp add: sound_put sound_drop look_put_node look_drop_node)
  qed (use assms(2) in auto)
  then show ?thesis using d(2) n pq \<open>n \<noteq> Dir\<close> resolve_reach [OF assms(2) q] by simp
qed

lemma remove_done:
  assumes "os_Remove path w = (Inr u, w')" "sound (disk w)"
  shows "disk w' = drop_node (comps path) (disk w) \<and> comps path \<noteq> [] \<and> same_rest w w'"
proof -
  have d: "fs_remove path (disk w) = Inr (u, disk w')"
    and r: "same_rest w w'"
    using syscall_done [OF assms(1) [unfolded os_Remove_def]] by (simp_all add: same_rest_def)
  from d obtain p where "resolve (disk w) False path = Inr p" by (auto simp: fs_remove_def split: sum.splits)
  then show ?thesis using d r resolve_sound [OF assms(2)]
    by (auto simp: fs_remove_def node_at_def split: option.splits node.splits if_splits)
qed

lemma rename_reach:
  assumes "os_Rename old new w = (Inr u, w')" "sound (disk w)" "comps new \<noteq> []"
    "length (comps old) = length (comps new)"
  shows "reach (disk w') (comps new)"
proof (rule reach_look)
  show "reach (disk w) (comps new)" using rename_done [OF assms(1-3)] by blast
  fix r assume "strict_prefix r (comps new)"
  then have "r \<noteq> comps new" "r \<noteq> comps old" using assms(4) prefix_length_less by fastforce+
  then show "look (disk w') r = look (disk w) r" using rename_done [OF assms(1-3)] by blast
qed

lemma inode_at_fresh_file [simp]:
  "inode_at (fresh_file p s) (next_ino s) = \<lparr>ino_content = Data [], ino_mtime = now s\<rparr>"
  by (simp add: fresh_file_def inode_at_def put_node_def put_inode_def update_conv')

lemma create_done:
  assumes "os_Create path w = (Inr i, w')" "sound (disk w)" "comps path \<noteq> []"
  shows "node_at (disk w') (comps path) = Some (File i) \<and> ino_content (inode_at (disk w') i) = Data []
    \<and> sound (disk w') \<and> open_inodes w' = i # open_inodes w \<and> waits w' = waits w \<and> held w' = held w"
proof -
  obtain w1 where c: "syscall ''open'' path (fs_create path) w = (Inr i, w1)"
    "w' = w1\<lparr>open_inodes := i # open_inodes w1\<rparr>"
    using assms(1) by (auto simp: os_Create_def split: prod.splits sum.splits)
  note d = syscall_done [OF c(1)]
  then obtain p where p: "resolve (disk w) True path = Inr p"
    by (auto simp: fs_create_def split: sum.splits)
  have "p = comps path" using resolve_sound [OF assms(2)] p by blast
  then consider "i = next_ino (disk w)" "disk w1 = fresh_file (comps path) (disk w)"
    | "node_at (disk w) (comps path) = Some (File i)"
      "disk w1 = put_inode i \<lparr>ino_content = Data [], ino_mtime = now (disk w)\<rparr> (disk w)"
    using d p by (auto simp: fs_create_def split: option.splits node.splits)
  then show ?thesis
    by cases (use d c(2) assms(2,3) sound_fresh_file in auto)
qed

lemma write_done:
  assumes "file_write b i path d w = (Inr u, w')"
  shows "disk w' = append_data b i d (disk w) \<and> same_rest w w'"
  using assms by (auto simp: file_write_def same_rest_def Let_def split: if_splits list.splits option.splits)

lemma write_json_done:
  assumes "file_write_json b i path m w = (Inr u, w')"
  shows "disk w' = put_inode i \<lparr>ino_content = Json m, ino_mtime = now (disk w)\<rparr> (disk w) \<and> same_rest w w'"
  using assms
  by (auto simp: file_write_json_def same_rest_def Let_def split: if_splits list.splits option.splits)

lemma remove_one_open [simp]: "remove1 i (i # xs) = xs"
  by simp

section \<open>Metafiles and scratch files\<close>

text \<open>The content of the file a path names.\<close>

definition file_content :: "fsys \<Rightarrow> path \<Rightarrow> content option" where
  "file_content s p =
     (case node_at s p of Some (File i) \<Rightarrow> Some (ino_content (inode_at s i)) | _ \<Rightarrow> None)"

lemma file_content_look: "look s p = look t q \<Longrightarrow> file_content s p = file_content t q"
  by (auto simp: look_def file_content_def split: option.splits node.splits)

lemma append_look:
  assumes "node_at s p = Some (File i)" "ino_content (inode_at s i) = Data []"
  shows "file_content (append_data b i d s) p = Some (Data d)"
  using assms by (simp add: file_content_def append_data_def content_bytes_def)

lemma sound_append [simp]: "sound (append_data b i d s) = sound s"
  by (simp add: append_data_def)

lemma node_at_append [simp]: "node_at (append_data b i d s) p = node_at s p"
  by (simp add: append_data_def)

lemma close_run: "file_Close i w = (r, w') \<longleftrightarrow> r = Inr () \<and> w' = w\<lparr>open_inodes := remove1 i (open_inodes w)\<rparr>"
  by (auto simp: file_Close_def modE_def)

lemma store_json_done:
  assumes "store_json_data b object path sfx (Some m) w = (Inr u, w')" "sound (disk w)"
    "comps path \<noteq> []" "comps (path @ marker_text sfx) \<noteq> []"
  shows "file_content (disk w') (comps path) = Some (Json m) \<and> sound (disk w') \<and> same_rest w w'"
proof -
  let ?sp = "path @ marker_text sfx"
  obtain i w1 w2 w3 where c: "os_Create ?sp w = (Inr i, w1)"
    and wr: "file_write_json b i ?sp m w1 = (Inr (), w2)"
    and rn: "os_Rename ?sp path w2 = (Inr (), w3)"
    and w': "w' = w3\<lparr>open_inodes := remove1 i (open_inodes w3)\<rparr>"
    using assms(1) by (auto simp: store_json_data_def Let_def runs close_run)
  note c1 = create_done [OF c assms(2,4)]
  note w1 = write_json_done [OF wr]
  have s2: "sound (disk w2)" using c1 w1 by simp
  note r = rename_done [OF rn s2 assms(3)]
  have "file_content (disk w2) (comps ?sp) = Some (Json m)"
    using c1 w1 by (simp add: file_content_def)
  then have "file_content (disk w3) (comps path) = Some (Json m)"
    using r file_content_look by metis
  then show ?thesis using c1 w1 r w' by (simp add: same_rest_def)
qed

text \<open>A scratch file that was made holds the whole payload, of the length announced.\<close>

lemma content_stream_done:
  assumes "copy_content_stream b object scratch (From_body body) sz checksum w = (Inr (md5v, csum), w')"
    "sound (disk w)" "obj_path scratch \<noteq> []"
  shows "\<exists>d h hash. read_body body = (d, End_eof, h) \<and> (sz = - 1 \<or> int (length d) = sz)
    \<and> md5v = md5_sum b d \<and> csum = run_digest hash d
    \<and> (checksum = [] \<longrightarrow> hash = None) \<and> (checksum \<noteq> [] \<longrightarrow> hash = Some (digest_sum b checksum))
    \<and> file_content (disk w') (obj_path scratch) = Some (Data d) \<and> sound (disk w') \<and> same_rest w w'
    \<and> req_header w' = (case h of None \<Rightarrow> req_header w | Some x \<Rightarrow> x)"
proof -
  let ?p = "make_path_of_object scratch No_marker"
  obtain d e h where rb: "read_body body = (d, e, h)" by (cases "read_body body")
  define fin where "fin = (\<lambda>hash2. case e of End_error err3 \<Rightarrow> os_failE (''/'' @ object) err3 | End_panic \<Rightarrow> panicE
      | End_eof \<Rightarrow> if sz \<noteq> - 1 \<and> int (length d) \<noteq> sz then failE (s3_error IncompleteBody [] (''/'' @ object))
         else retE (md5_sum b d, run_digest hash2 d))"
  obtain i w1 w5 where c: "os_Create ?p w = (Inr i, w1)"
    and body: "seqE (checksum_algorithm b checksum) (\<lambda>hash2. seqE (open_source b (From_body body)) (\<lambda>(d, e).
        sys_elseE (file_write b i ?p d) (os_failE (''/'' @ object)) (\<lambda>_. case e of
          End_error err3 \<Rightarrow> os_failE (''/'' @ object) err3 | End_panic \<Rightarrow> panicE
        | End_eof \<Rightarrow> if sz \<noteq> - 1 \<and> int (length d) \<noteq> sz then failE (s3_error IncompleteBody [] (''/'' @ object))
            else retE (md5_sum b d, run_digest hash2 d)))) w1 = (Inr (md5v, csum), w5)"
    and w': "w' = w5\<lparr>open_inodes := remove1 i (open_inodes w5)\<rparr>"
    using assms(1) by (auto simp: copy_content_stream_def Let_def run_sys_else run_on_fail run_defer close_run
        run_simple simp del: append.simps append_Cons)
  obtain hash wh where ck: "checksum_algorithm b checksum w1 = (Inr hash, wh)"
    and rest: "seqE (open_source b (From_body body)) (\<lambda>(d, e).
        sys_elseE (file_write b i ?p d) (os_failE (''/'' @ object)) (\<lambda>_. case e of
          End_error err3 \<Rightarrow> os_failE (''/'' @ object) err3 | End_panic \<Rightarrow> panicE
        | End_eof \<Rightarrow> if sz \<noteq> - 1 \<and> int (length d) \<noteq> sz then failE (s3_error IncompleteBody [] (''/'' @ object))
            else retE (md5_sum b d, run_digest hash d))) wh = (Inr (md5v, csum), w5)"
    using body by (auto simp: run_seq)
  have wh: "wh = w1" using ck by (auto simp: checksum_algorithm_def runs split: if_splits)
  define w2 where "w2 = w1\<lparr>req_header := (case h of None \<Rightarrow> req_header w1 | Some x \<Rightarrow> x)\<rparr>"
  have "open_source b (From_body body) w1 = (Inr (d, e), w2)"
    by (simp add: open_source_def rb seqE_def modE_def retE_def w2_def)
  then have "sys_elseE (file_write b i ?p d) (os_failE (''/'' @ object)) (\<lambda>_. fin hash) w2 = (Inr (md5v, csum), w5)"
    using rest wh by (simp add: seqE_def fin_def)
  then obtain w3 where wr: "file_write b i ?p d w2 = (Inr (), w3)" and f: "fin hash w3 = (Inr (md5v, csum), w5)"
    by (auto simp: run_sys_else run_simple)
  have e: "e = End_eof" "sz = - 1 \<or> int (length d) = sz" "md5v = md5_sum b d" "csum = run_digest hash d" "w5 = w3"
    using f by (auto simp: fin_def run_simple split: body_end.splits if_splits)
  note ck = ck [unfolded wh]
  note c1 = create_done [OF c assms(2,3)]
  have h1: "req_header w1 = req_header w"
    using c by (auto simp: os_Create_def syscall_def Let_def split: prod.splits sum.splits list.splits option.splits)
  have h3: "req_header w3 = req_header w2"
    using wr by (auto simp: file_write_def Let_def split: if_splits list.splits option.splits)
  have "checksum = [] \<longrightarrow> hash = None" "checksum \<noteq> [] \<longrightarrow> hash = Some (digest_sum b checksum)"
    using ck by (auto simp: checksum_algorithm_def runs split: if_splits)
  moreover have "file_content (disk w3) (obj_path scratch) = Some (Data d)"
    using c1 write_done [OF wr] append_look by (simp add: w2_def)
  ultimately show ?thesis
    using rb e c1 write_done [OF wr] w' h1 h3
    by (cases h) (auto simp: same_rest_def w2_def)
qed

section \<open>Objects\<close>

text \<open>
  The paths of the object a request builds are different: its file, its scratch file, and the
  metainfo file with its scratch file.
\<close>

definition own_paths :: "string \<Rightarrow> marker \<Rightarrow> path list" where
  "own_paths object sfx =
     [obj_path object, scratch_path object sfx, meta_path object, meta_scratch object sfx]"

definition own_ok :: "string \<Rightarrow> marker \<Rightarrow> bool" where
  "own_ok object sfx \<longleftrightarrow> distinct (own_paths object sfx) \<and> [] \<notin> set (own_paths object sfx)
     \<and> (\<forall>p \<in> set (own_paths object sfx). length p = length (obj_path object))"

abbreviation placing :: "string \<Rightarrow> marker \<Rightarrow> world \<Rightarrow> bool" where
  "placing object sfx \<equiv> guard {meta_scratch object sfx} {scratch_path object sfx}"

text \<open>The filled metainfo as it is stored.\<close>

definition stored_meta :: "meta_info \<Rightarrow> metafile" where
  "stored_meta m = Meta (m\<lparr>Metafile_format := Bbs_metafile_format\<rparr>)"

text \<open>A call that only looks at a file.\<close>

lemma stat_same:
  assumes "os_Stat b path w = (r, w')"
  shows "disk w' = disk w \<and> same_rest w w'"
proof -
  have "sysE (os_Stat b path) w = (Inr r, w')" using assms by (simp add: sysE_def)
  then have "same_rest w w'" by (rule keepsD [OF rest.calls(2)])
  moreover have "disk w' = disk w"
  proof (cases r)
    case (Inl e)
    then show ?thesis using syscall_error assms unfolding os_Stat_def by blast
  next
    case (Inr st)
    note syscall_done [OF assms [unfolded os_Stat_def Inr]]
    then show ?thesis by (auto simp: fs_stat_def split: sum.splits option.splits)
  qed
  ultimately show ?thesis by blast
qed

text \<open>The rename of a scratch file that may be a link to the target, which then goes first.\<close>

lemma linked_rename_run:
  assumes "sys_elseE (os_Stat b path2) (\<lambda>_. sys_elseE (os_Rename path1 path2) (os_failE l) retE) (\<lambda>stat2.
      sys_elseE (os_Stat b path1) (os_failE l) (\<lambda>stat1.
      if c stat1 stat2 then sys_elseE (os_Remove path2) (os_failE l)
        (\<lambda>_. sys_elseE (os_Rename path1 path2) (os_failE l) retE)
      else sys_elseE (os_Rename path1 path2) (os_failE l) retE)) w = (Inr u, w')"
    "sound (disk w)"
  shows "\<exists>v. os_Rename path1 path2 v = (Inr (), w') \<and> same_rest w v \<and> sound (disk v)
    \<and> (\<forall>x. x \<noteq> comps path2 \<longrightarrow> look (disk v) x = look (disk w) x)
    \<and> (disk v = disk w \<or> disk v = drop_node (comps path2) (disk w))"
proof -
  obtain r w1 where s: "os_Stat b path2 w = (r, w1)" by (cases "os_Stat b path2 w")
  note s1 = stat_same [OF s]
  show ?thesis
  proof (cases r)
    case (Inl e)
    then have "os_Rename path1 path2 w1 = (Inr (), w')" using assms(1) s by (auto simp: runs)
    then show ?thesis using s1 assms(2) by metis
  next
    case (Inr stat2)
    obtain stat1 w2 where t: "os_Stat b path1 w1 = (Inr stat1, w2)"
      and f: "(if c stat1 stat2 then sys_elseE (os_Remove path2) (os_failE l)
        (\<lambda>_. sys_elseE (os_Rename path1 path2) (os_failE l) retE)
      else sys_elseE (os_Rename path1 path2) (os_failE l) retE) w2 = (Inr u, w')"
      using assms(1) s Inr by (auto simp: runs)
    note t1 = stat_same [OF t]
    have d: "disk w2 = disk w" "same_rest w w2" using s1 t1 same_rest_trans by metis+
    show ?thesis
    proof (cases "c stat1 stat2")
      case True
      then obtain w3 where rm: "os_Remove path2 w2 = (Inr (), w3)" and "os_Rename path1 path2 w3 = (Inr (), w')"
        using f by (auto simp: runs)
      then show ?thesis using remove_done [OF rm] d assms(2) same_rest_trans
        by (intro exI [of _ w3]) (auto simp: look_drop_node sound_drop)
    next
      case False
      then have "os_Rename path1 path2 w2 = (Inr (), w')" using f by (auto simp: runs)
      then show ?thesis using d assms(2) by metis
    qed
  qed
qed

lemma place_done:
  assumes "place_scratch_file b sfx object (make_scratch_object_name object sfx) object metainfo linking w = (Inr u, w')"
    "placing object sfx w" "own_ok object sfx"
  shows "look (disk w') (obj_path object) = look (disk w) (scratch_path object sfx)
    \<and> sound (disk w') \<and> same_rest w w' \<and> reach (disk w') (obj_path object)
    \<and> (\<forall>m. metainfo = Some m \<longrightarrow> file_content (disk w') (meta_path object) = Some (Json (stored_meta m)))"
proof -
  let ?P = "{scratch_path object sfx}" and ?C = "{meta_scratch object sfx}"
  let ?p1 = "make_path_of_object (make_scratch_object_name object sfx) No_marker"
  let ?p2 = "make_path_of_object object No_marker"
  note own = assms(3) [unfolded own_ok_def own_paths_def, simplified]
  let ?rn = "sys_elseE (os_Rename ?p1 ?p2) (os_failE (''/'' @ object)) retE"
  obtain w1 where st: "(if metainfo \<noteq> None then store_object_metainfo b object sfx metainfo else retE ()) w = (Inr (), w1)"
    and rn: "(if linking then
           sys_elseE (os_Stat b ?p2) (\<lambda>_. ?rn) (\<lambda>stat2.
           sys_elseE (os_Stat b ?p1) (os_failE (''/'' @ object)) (\<lambda>stat1.
           if fi_type stat1 = T_regular \<and> fi_type stat2 = T_regular \<and> fi_ino stat1 = fi_ino stat2
           then sys_elseE (os_Remove ?p2) (os_failE (''/'' @ object)) (\<lambda>_. ?rn) else ?rn)) else ?rn) w1 = (Inr u, w')"
    using assms(1) by (auto simp: place_scratch_file_def Let_def run_seq run_on_fail simp del: append.simps append_Cons)
  have k: "keeps (frame ?C ?P) (if metainfo \<noteq> None then store_object_metainfo b object sfx metainfo else retE ())"
    by (intro keeps_rules) (use own in auto)
  have g: "placing object sfx w1" "look (disk w1) (scratch_path object sfx) = look (disk w) (scratch_path object sfx)"
    using keepsD [OF k st] assms(2) by (auto simp: frame_def same_look_def)
  obtain v where v: "os_Rename ?p1 ?p2 v = (Inr (), w')" "same_rest w1 v" "sound (disk v)"
    "\<forall>x. x \<noteq> obj_path object \<longrightarrow> look (disk v) x = look (disk w1) x"
  proof (cases linking)
    case True
    then show ?thesis using linked_rename_run [OF rn [unfolded if_P [OF True]] guard_sound [OF g(1)]] that by blast
  next
    case False
    then have "os_Rename ?p1 ?p2 w1 = (Inr (), w')" using rn by (auto simp: runs)
    then show ?thesis using that guard_sound [OF g(1)] by simp
  qed
  note r = rename_done [OF v(1,3)]
  have m: "same_rest w w1 \<and> (\<forall>m. metainfo = Some m \<longrightarrow> file_content (disk w1) (meta_path object) = Some (Json (stored_meta m)))"
    using st store_json_done [of b object _ sfx _ w _ w1] guard_sound [OF assms(2)] own
    by (cases metainfo) (auto simp: runs store_object_metainfo_def Let_def stored_meta_def)
  have "look (disk w') (meta_path object) = look (disk w1) (meta_path object)"
    using r v(4) own by auto
  then have "file_content (disk w') (meta_path object) = file_content (disk w1) (meta_path object)"
    by (rule file_content_look)
  moreover have "reach (disk w') (obj_path object)"
    using rename_reach [OF v(1,3)] own by auto
  moreover have "look (disk w') (obj_path object) = look (disk w) (scratch_path object sfx)"
    using r v(4) own g(2) by auto
  moreover have "same_rest w w'" using m v(2) r own same_rest_trans by metis
  ultimately show ?thesis using r m own by metis
qed

text \<open>The metainfo that is stored with an object of a size, if any.\<close>

definition final_meta :: "bbs \<Rightarrow> meta_info option \<Rightarrow> string \<Rightarrow> string \<Rightarrow> int \<Rightarrow> meta_info option" where
  "final_meta b metainfo entity etag sz =
     (case metainfo of
        Some m \<Rightarrow> Some (m\<lparr>Entity_key := entity, ETag := etag\<rparr>)
      | None \<Rightarrow> if byte_size (Etag_save_threshold (config b)) \<le> sz
                then Some (empty_meta\<lparr>Entity_key := entity, ETag := etag\<rparr>) else None)"

lemma fill_done:
  "fill_metainfo b 0 metainfo entity etag sz w = (Inr m2, w') \<Longrightarrow>
     w' = w \<and> m2 = final_meta b metainfo entity etag sz"
  by (auto simp: fill_metainfo_def final_meta_def runs split: option.splits)

definition look_info :: "bbs \<Rightarrow> nat \<Rightarrow> inode \<Rightarrow> file_info" where
  "look_info b i x =
     \<lparr>fi_type = T_regular, fi_size = int (length (content_bytes b (ino_content x))),
      fi_mtime = ino_mtime x, fi_ino = i\<rparr>"

lemma inode_info_look: "inode_info b s i = look_info b i (inode_at s i)"
  by (simp add: inode_info_def look_info_def Let_def)

lemma lstat_done:
  assumes "os_Lstat b path w = (Inr stat, w')" "sound (disk w)"
  shows "disk w' = disk w \<and> same_rest w w' \<and> (\<exists>n. node_at (disk w) (comps path) = Some n \<and> stat = node_info b (disk w) n)"
proof -
  have "fs_stat b False path (disk w) = Inr (stat, disk w')" "same_rest w w'"
    using syscall_done [OF assms(1) [unfolded os_Lstat_def]] by (simp_all add: same_rest_def)
  then show ?thesis using resolve_sound [OF assms(2)]
    by (auto simp: fs_stat_def split: sum.splits option.splits)
qed

lemma status_done:
  assumes "fetch_object_status b object serializing w = (Inr (entity, Some stat), w')" "sound (disk w)"
  shows "\<exists>i x. look (disk w) (obj_path object) = (Some (File i), Some x) \<and> stat = look_info b i x
    \<and> entity = hash_entity_key b stat \<and> disk w' = disk w \<and> same_rest w w'"
proof -
  have l: "os_Lstat b (make_path_of_object object No_marker) w = (Inr stat, w')"
    and t: "fi_type stat = T_regular" "entity = hash_entity_key b stat"
    using assms(1) by (auto simp: fetch_object_status_def Let_def runs split: if_splits)
  obtain n where n: "node_at (disk w) (obj_path object) = Some n" "stat = node_info b (disk w) n"
    and d: "disk w' = disk w" "same_rest w w'"
    using lstat_done [OF l assms(2)] by blast
  have "\<exists>i. n = File i" using t(1) n(2) sound_not_link [OF assms(2)]
    by (cases n) (auto simp: node_info_def plain_info_def)
  then obtain i where i: "n = File i" by blast
  then have "look (disk w) (obj_path object) = (Some (File i), Some (inode_at (disk w) i))"
    "stat = look_info b i (inode_at (disk w) i)"
    using n by (simp_all add: look_def node_info_def inode_info_look)
  then show ?thesis using t d by blast
qed

text \<open>Discarding the multipart directory, which ends a completion, is apart from the object.\<close>

definition mpul_apart :: "string \<Rightarrow> path set \<Rightarrow> bool" where
  "mpul_apart object P \<longleftrightarrow> (\<forall>p \<in> P. \<not> prefix (mpul_path object) p) \<and> mpul_file object ''info'' \<notin> P"

lemma discard_done:
  assumes "ignoreE (discard_mpul_directory b object) w = (Inr u, w')" "sound (disk w)" "mpul_apart object P" "calm P (waits w)"
    "open_inodes w = []"
  shows "sound (disk w') \<and> (\<forall>p \<in> P. look (disk w') p = look (disk w) p) \<and> cleanup_needed w' = cleanup_needed w"
proof -
  have "keeps (frame {} P) (ignoreE (discard_mpul_directory b object))"
    using assms(3) by (intro keeps_rules) (auto simp: mpul_apart_def)
  then have "frame {} P w w'" using assms(1) by (rule keepsD)
  moreover have "guard {} P w" using assms(2,4,5) by (simp add: guard_def)
  moreover have "cleanup_needed w' = cleanup_needed w"
    using keepsD [OF cleanup.ignored(2) [OF cleanup.fetching(6)] assms(1)] by (simp add: same_cleanup_def)
  ultimately show ?thesis by (auto simp: frame_def same_look_def guard_def)
qed

text \<open>What a completion assumes of the others: they leave the object alone.\<close>

definition build_calm :: "build_op \<Rightarrow> string \<Rightarrow> world \<Rightarrow> bool" where
  "build_calm op object w \<longleftrightarrow> (op = BUILD_CONCAT \<longrightarrow>
     mpul_apart object {obj_path object, meta_path object}
     \<and> calm {obj_path object, meta_path object} (waits w) \<and> open_inodes w = [])"

lemma build_serialized_done:
  assumes "build_serialized b sfx object u 0 op cs conditions t metainfo partinfo w = (Inr r, w')"
    "placing object sfx w" "own_ok object sfx" "build_calm op object w"
  shows "look (disk w') (obj_path object) = look (disk w) (scratch_path object sfx) \<and> sound (disk w')
    \<and> (op = BUILD_CONCAT \<or> reach (disk w') (obj_path object))
    \<and> (\<forall>m. metainfo = Some m \<longrightarrow> file_content (disk w') (meta_path object) = Some (Json (stored_meta m)))
    \<and> cleanup_needed w' = False"
proof -
  let ?F = "frame {meta_scratch object sfx} {scratch_path object sfx}"
  obtain w1 w2 w3 where r1: "recheck_target b (''/'' @ object) object conditions t w = (Inr (), w1)"
    and r2: "recheck_source b (''/'' @ object) op cs w1 = (Inr (), w2)"
    and p: "place_scratch_file b sfx object (make_scratch_object_name object sfx) object metainfo (op = BUILD_LINK) w2 = (Inr (), w3)"
    and w': "(if op = BUILD_CONCAT then ignoreE (discard_mpul_directory b object) else retE ()) (w3\<lparr>cleanup_needed := False\<rparr>) = (Inr r, w')"
    using assms(1) by (auto simp: build_serialized_def Let_def run_seq run_simple)
  have "?F w w1" "?F w1 w2" by (rule keepsD, rule keeps_recheck, rule r1 r2)+
  then have "?F w w2" using frame.trans by blast
  then have g: "placing object sfx w2"
    "look (disk w2) (scratch_path object sfx) = look (disk w) (scratch_path object sfx)"
    using assms(2) by (auto simp: frame_def same_look_def)
  note d = place_done [OF p g(1) assms(3)]
  have wt: "waits w3 = waits w" "open_inodes w3 = open_inodes w"
    using d keepsD [OF rest.fetching(18) r1] keepsD [OF rest.fetching(19) r2] by (simp_all add: same_rest_def)
  have e: "sound (disk w') \<and> (\<forall>p \<in> {obj_path object, meta_path object}. look (disk w') p = look (disk w3) p)
      \<and> cleanup_needed w' = False"
    using w' d discard_done [of b object "w3\<lparr>cleanup_needed := False\<rparr>" r w'] assms(4) wt
    by (cases "op = BUILD_CONCAT") (auto simp: build_calm_def retE_def)
  have "look (disk w') (obj_path object) = look (disk w3) (obj_path object)" using e by simp
  moreover have "file_content (disk w') (meta_path object) = file_content (disk w3) (meta_path object)"
    using e by (intro file_content_look) simp
  moreover have "op = BUILD_CONCAT \<or> disk w' = disk w3" using w' by (cases "op = BUILD_CONCAT") (auto simp: retE_def)
  ultimately show ?thesis using d e g by auto
qed

lemma build_object_done:
  assumes "build_object b sfx object u 0 op cs metainfo checksum md5v csum conditions w = (Inr stat, w')"
    "placing object sfx w" "own_ok object sfx" "build_calm op object w"
  shows "\<exists>i x. look (disk w) (scratch_path object sfx) = (Some (File i), Some x)
    \<and> look (disk w') (obj_path object) = (Some (File i), Some x) \<and> sound (disk w') \<and> stat = look_info b i x
    \<and> (op = BUILD_CONCAT \<or> reach (disk w') (obj_path object))
    \<and> (\<forall>m. final_meta b metainfo (hash_entity_key b stat) (make_object_etag_from_md5 md5v) (fi_size stat) = Some m \<longrightarrow>
         file_content (disk w') (meta_path object) = Some (Json (stored_meta m)))
    \<and> cleanup_needed w' = False"
proof -
  let ?F = "frame {meta_scratch object sfx} {scratch_path object sfx}"
  obtain t w1 entity w2 metainfo2 w3 partinfo where f: "fetch_target b object conditions w = (Inr t, w1)"
    and s: "fetch_object_status b (make_scratch_object_name object sfx) True w1 = (Inr (entity, Some stat), w2)"
    and m: "fill_metainfo b 0 metainfo entity (make_object_etag_from_md5 md5v) (fi_size stat) w2 = (Inr metainfo2, w3)"
    and z: "serializedE object (build_serialized b sfx object u 0 op cs conditions t metainfo2 partinfo) w3 = (Inr (), w')"
    using assms(1) unfolding build_object_def Let_def
    by (auto simp: runs split: option.splits)
  have "?F w w1" by (rule keepsD, rule keeps_fetch_target, rule f)
  then have g1: "placing object sfx w1"
    "look (disk w1) (scratch_path object sfx) = look (disk w) (scratch_path object sfx)"
    using assms(2) by (auto simp: frame_def same_look_def)
  have "?F w1 w2" by (rule keepsD, rule keeps_status, rule s)
  then have g2: "placing object sfx w2"
    "look (disk w2) (scratch_path object sfx) = look (disk w1) (scratch_path object sfx)"
    using g1 by (auto simp: frame_def same_look_def)
  obtain i x where ix: "look (disk w1) (scratch_path object sfx) = (Some (File i), Some x)"
    "stat = look_info b i x" "entity = hash_entity_key b stat"
    using status_done [OF s guard_sound [OF g1(1)]] by blast
  note fm = fill_done [OF m]
  obtain w4 r w5 where e: "serialize_access object w3 = (Inr (), w4)"
    and bs: "build_serialized b sfx object u 0 op cs conditions t metainfo2 partinfo w4 = (Inr r, w5)"
    and re: "\<exists>q. release_access object w5 = (q, w') \<and> q \<noteq> Inl Panic \<and> q \<noteq> Inl Fatal"
    using z by (auto simp: serializedE_def runs)
  have "?F w3 w4" by (rule keepsD, rule keeps_serialize, rule e)
  then have g4: "placing object sfx w4"
    "look (disk w4) (scratch_path object sfx) = look (disk w2) (scratch_path object sfx)"
    using g2 fm by (auto simp: frame_def same_look_def)
  have w3: "waits w3 = waits w" "open_inodes w3 = open_inodes w"
    using keepsD [OF rest.fetching(17) f] keepsD [OF rest.fetching(3) s] fm by (simp_all add: same_rest_def)
  have "set (waits w4) \<subseteq> set (waits w3) \<and> open_inodes w4 = open_inodes w3"
    using e by (cases "waits w3") (auto simp: serialize_access_def Let_def split: wait.splits)
  with w3 have "set (waits w4) \<subseteq> set (waits w)" "open_inodes w4 = open_inodes w" by simp_all
  then have "build_calm op object w4" using assms(4) by (auto simp: build_calm_def calm_def)
  note d = build_serialized_done [OF bs g4(1) assms(3) this]
  have "disk w' = disk w5" "cleanup_needed w' = cleanup_needed w5"
    using re by (auto simp: release_access_def split: if_splits)
  then show ?thesis using d ix g1 g2 g4 fm by auto
qed

end
