(* ===== verification/Evaluation.thy ===== *)
theory Evaluation
  imports Fs_operation
begin

text \<open>
  Code equations with which runs of the model are evaluated: a string is split in one pass, and
  the bytes of a number and the hexadecimal digits of a byte are computed on its bits.
\<close>

lemma split_on_code [code]:
  "split_on c [] = [[]]"
  "split_on c (x # xs) =
     (case split_on c xs of [] \<Rightarrow> [[]] | h # t \<Rightarrow> if x = c then [] # h # t else (x # h) # t)"
  by (auto split: list.split)

fun le_bytes :: "nat \<Rightarrow> int \<Rightarrow> bytes" where
  "le_bytes 0 i = []"
| "le_bytes (Suc n) i = char_of (i mod 256) # le_bytes n (i div 256)"

lemma le_bytes_map: "le_bytes n i = map (\<lambda>k. char_of (nat (i div 256 ^ k mod 256))) [0..<n]"
proof (induction n arbitrary: i)
  case (Suc n)
  have c: "char_of (nat (j mod 256)) = (char_of (j mod 256) :: char)" for j :: int
    using char_of_nat [of "nat (j mod 256)", where 'a = int] by simp
  have "map (\<lambda>k. char_of (nat (i div 256 ^ k mod 256))) [0..<Suc n]
      = char_of (nat (i mod 256)) # map (\<lambda>k. char_of (nat (i div 256 ^ Suc k mod 256))) [0..<n]"
    by (simp only: upt_conv_Cons map_Suc_upt [symmetric] zero_less_Suc list.map list.map_comp comp_def) simp
  also have "\<dots> = le_bytes (Suc n) i"
    by (simp add: Suc.IH c zdiv_zmult2_eq)
  finally show ?case by simp
qed simp

lemma le64_code [code]: "le64 i = le_bytes 8 i"
  unfolding le64_def le_bytes_map ..

definition nibble :: "bool \<Rightarrow> bool \<Rightarrow> bool \<Rightarrow> bool \<Rightarrow> char" where
  "nibble b3 b2 b1 b0 =
     (if b3 then
        (if b2 then
           (if b1 then (if b0 then CHR ''f'' else CHR ''e'') else (if b0 then CHR ''d'' else CHR ''c''))
         else
           (if b1 then (if b0 then CHR ''b'' else CHR ''a'') else (if b0 then CHR ''9'' else CHR ''8'')))
      else
        (if b2 then
           (if b1 then (if b0 then CHR ''7'' else CHR ''6'') else (if b0 then CHR ''5'' else CHR ''4''))
         else
           (if b1 then (if b0 then CHR ''3'' else CHR ''2'') else (if b0 then CHR ''1'' else CHR ''0''))))"

fun hex_pair :: "char \<Rightarrow> string" where
  "hex_pair (Char b0 b1 b2 b3 b4 b5 b6 b7) = [nibble b7 b6 b5 b4, nibble b3 b2 b1 b0]"

lemma char_of_code: "(of_char c :: nat) = n \<Longrightarrow> c = char_of n"
  by auto

lemma nibble_digit:
  "nibble b3 b2 b1 b0 = digit_char (of_bool b0 + 2 * of_bool b1 + 4 * of_bool b2 + 8 * of_bool b3)"
  by (cases b3; cases b2; cases b1; cases b0; simp add: nibble_def digit_char_def; rule char_of_code; simp)

lemma low_high: "l < 16 \<Longrightarrow> (l + 16 * h) div 16 = h \<and> (l + 16 * h) mod 16 = l" for l h :: nat
  by simp

lemma byte_sum:
  "a + 2 * (b + 2 * (c + 2 * (d + 2 * (e + 2 * (f + 2 * (g + 2 * (h + 2 * 0)))))))
    = (a + 2 * b + 4 * c + 8 * d) + 16 * (e + 2 * f + 4 * g + 8 * (h :: nat))"
  by simp

lemma nibble_bound: "a \<le> 1 \<Longrightarrow> b \<le> 1 \<Longrightarrow> c \<le> 1 \<Longrightarrow> d \<le> 1 \<Longrightarrow> a + 2 * b + 4 * c + 8 * d < (16 :: nat)"
  by simp

lemma hex_pair_digits:
  "hex_pair c = [digit_char (of_char c div 16), digit_char (of_char c mod 16)]"
proof (cases c)
  case (Char b0 b1 b2 b3 b4 b5 b6 b7)
  define l where "l = (of_bool b0 + 2 * of_bool b1 + 4 * of_bool b2 + 8 * of_bool b3 :: nat)"
  define h where "h = (of_bool b4 + 2 * of_bool b5 + 4 * of_bool b6 + 8 * of_bool b7 :: nat)"
  have "l < 16" unfolding l_def by (intro nibble_bound of_bool_less_eq_one)
  moreover have "(of_char c :: nat) = l + 16 * h"
    unfolding Char of_char_Char l_def h_def byte_sum [symmetric] by (simp only: horner_sum_simps list.map)
  moreover have "hex_pair c = [digit_char h, digit_char l]"
    by (simp only: Char hex_pair.simps nibble_digit l_def h_def)
  ultimately show ?thesis using low_high [of l h] by simp
qed

lemma hex_encode_code [code]: "hex_encode s = concat (map hex_pair s)"
  unfolding hex_encode_def by (rule arg_cong [of _ _ concat], rule map_cong) (simp_all add: hex_pair_digits)

end
