(* ===== verification/Setup.thy ===== *)
theory Setup
  imports Object_paths Success Checksum Parameters Evaluation
begin

text \<open>
  The beginning of the actions: the checks of the bucket and the key in
  v1/server/hodgepodge.go, and the state of the world a request begins in.
\<close>

section \<open>Checking the names in a request\<close>

text \<open>A key that begins with two dots stops the server.\<close>

definition check_usual_object_setup :: "bbs \<Rightarrow> string option \<Rightarrow> string option \<Rightarrow> string act" where
  "check_usual_object_setup b bucket1 key1 =
     (case bucket1 of
        None \<Rightarrow> failE (s3_error InvalidBucketName ''Bucket name missing in request.'' [])
      | Some bucket \<Rightarrow>
          (case key1 of
             None \<Rightarrow> failE (s3_error InvalidArgument ''Object key name missing in request.'' [])
           | Some key \<Rightarrow>
               if \<not> check_bucket_naming bucket then failE (s3_error InvalidBucketName [] [])
               else if has_prefix key ''..'' then fatalE
               else if \<not> check_object_naming key
               then failE (s3_error InvalidArgument ''Invalid object naming.'' [])
               else seqE (check_bucket_directory_exists b bucket) (\<lambda>_.
                    retE (path_join [bucket, key]))))"

definition check_usual_bucket_setup :: "bbs \<Rightarrow> string option \<Rightarrow> string act" where
  "check_usual_bucket_setup b bucket1 =
     (case bucket1 of
        None \<Rightarrow> fatalE
      | Some bucket \<Rightarrow>
          if \<not> check_bucket_naming bucket then failE (s3_error InvalidBucketName [] [])
          else seqE (check_bucket_directory_exists b bucket) (\<lambda>_. retE bucket))"

lemma keeps_object_setup [keeps_rules]: "keeps (frame C P) (check_usual_object_setup b bucket key)"
  unfolding check_usual_object_setup_def by (intro keeps_rules)

context quiet_relation
begin

lemma setups [keeps_rules]:
  "keeps R (check_usual_object_setup b bucket key)" "keeps R (check_usual_bucket_setup b bucket)"
  unfolding check_usual_object_setup_def check_usual_bucket_setup_def by (intro keeps_rules)+

end

lemma keeps_bucket_setup [keeps_rules]: "keeps (frame C P) (check_usual_bucket_setup b bucket)"
  unfolding check_usual_bucket_setup_def by (intro keeps_rules)

text \<open>
  The key of a request can stop the whole server: a key that begins with two dots ends
  in log.Fatalf, before its naming is checked and whatever the state of the files, and whether or
  not the two dots are a path component.
\<close>

theorem dotted_key_stops_server:
  "check_usual_object_setup b (Some ''bkt'') (Some (''..'' @ key)) w = (Inl Fatal, w)"
proof -
  have "check_bucket_naming ''bkt''" by code_simp
  then show ?thesis by (simp add: check_usual_object_setup_def fatalE_def has_prefix_def)
qed

section \<open>Where a request begins\<close>

text \<open>
  The object of a setup that succeeds is the bucket with the key, below the pool.  A key whose
  components are plain and whose last one has no leading dot is a good object.
\<close>

definition good_key :: "string \<Rightarrow> bool" where
  "good_key key \<longleftrightarrow> list_all plain (split_on slash key)
     \<and> \<not> has_prefix (last (split_on slash key)) ''.''"

lemma run_object_setup:
  assumes "check_usual_object_setup b bucket key w = (Inr object, w')"
  shows "\<exists>bk k. bucket = Some bk \<and> key = Some k \<and> check_bucket_naming bk \<and> check_object_naming k
    \<and> object = path_join [bk, k] \<and> disk w' = disk w \<and> waits w' = waits w \<and> open_inodes w' = open_inodes w"
  using assms
  by (auto simp: check_usual_object_setup_def check_bucket_directory_exists_def runs Let_def os_Lstat_def
      fs_stat_def split: option.splits if_splits sum.splits dest!: syscall_done)

lemma setup_object:
  assumes "check_bucket_naming bucket" "good_key key"
  shows "path_join [bucket, key] = bucket @ slash # key" "good_object (bucket @ slash # key)"
proof -
  let ?ks = "split_on slash key"
  have b: "plain bucket" by (rule checked_bucket_plain) (rule assms)
  have ks: "\<forall>p \<in> set ?ks. plain p" "?ks \<noteq> []" using assms(2) by (auto simp: good_key_def list_all_iff)
  have key: "key = join_with slash ?ks" by simp
  have j: "bucket @ slash # key = join_with slash (bucket # ?ks)"
    using ks(2) key by (cases ?ks) auto
  have pl: "\<forall>p \<in> set (bucket # ?ks). plain p" using b ks by auto
  have "key \<noteq> []" using plain_join_ne [OF ks(2,1)] key by auto
  then have "path_join [bucket, key] = path_clean (join_with slash [bucket, key])"
    using b by (simp add: path_join_def plain_def)
  also have "join_with slash [bucket, key] = bucket @ slash # key" by simp
  also have "path_clean (bucket @ slash # key) = bucket @ slash # key"
    unfolding j using pl by (intro path_clean_plain) auto
  finally show "path_join [bucket, key] = bucket @ slash # key" .
  have "split_on slash (bucket @ slash # key) = bucket # ?ks"
    unfolding j using pl by (intro split_join_plain) auto
  then show "good_object (bucket @ slash # key)"
    using pl ks(2) assms(2) by (cases ?ks) (auto simp: good_object_def good_key_def list_all_iff Let_def)
qed

lemma own_paths_good:
  assumes "good_object object" "marker_ok (Scratch_marker h)"
  shows "own_paths object (Scratch_marker h) =
    map (\<lambda>n. dir_comps object @ [n])
      [file_name object, prefix_suffix_by_marker (file_name object) (Scratch_marker h),
       prefix_suffix_by_marker (file_name object) Meta_marker,
       ''.'' @ file_name object @ ''@meta'' @ marker_text (Scratch_marker h)]"
  using good_paths [OF assms(1)] good_scratch_path [OF assms] good_meta_scratch [OF assms]
  by (simp add: own_paths_def prefix_suffix_by_marker_def)

lemma own_ok_good:
  assumes "good_object object" "marker_ok (Scratch_marker h)"
  shows "own_ok object (Scratch_marker h)"
proof -
  have "obj_path object = dir_comps object @ [file_name object]"
    using good_paths(1) [OF assms(1)] by (simp add: prefix_suffix_by_marker_def)
  then show ?thesis
    using own_names_distinct [OF good_object_parts(3) [OF assms(1)], of h] assms(2)
    by (auto simp: own_ok_def own_paths_good [OF assms] own_names_def prefix_suffix_by_marker_def)
qed

lemma own_dirs_apart:
  assumes "good_object object" "marker_ok (Scratch_marker h)"
  shows "dirs_of object \<inter> set (own_paths object (Scratch_marker h)) = {}"
  by (auto simp: good_dirs_of [OF assms(1)] own_paths_good [OF assms] dest: prefix_length_le)

text \<open>
  The world when a request on the object begins: no symbolic links in the pool, no file open,
  nothing under the scratch names of the request, whose suffix no other request has, so that
  the others leave them alone.
\<close>

definition begins :: "string \<Rightarrow> marker \<Rightarrow> world \<Rightarrow> bool" where
  "begins object sfx w \<longleftrightarrow> sound (disk w) \<and> open_inodes w = []
     \<and> node_at (disk w) (scratch_path object sfx) = None
     \<and> node_at (disk w) (meta_scratch object sfx) = None
     \<and> calm {scratch_path object sfx, meta_scratch object sfx} (waits w)"

lemma calm_Un: "calm (X \<union> Y) ws \<longleftrightarrow> calm X ws \<and> calm Y ws"
  by (auto simp: calm_def)

lemma begins_guard:
  assumes "begins object sfx w" "C \<subseteq> {scratch_path object sfx, meta_scratch object sfx}"
    "calm P (waits w)"
  shows "guard C P w"
proof -
  have "calm C (waits w)" using assms(1,2) by (auto simp: begins_def calm_def)
  moreover have "node_at (disk w) q = None" if "q \<in> C" for q
    using assms(1,2) that by (auto simp: begins_def)
  ultimately show ?thesis
    using assms(1,3) by (auto simp: guard_def calm_Un apart_def begins_def)
qed

lemma upload_scratch_done:
  assumes "upload_scratch b sfx object q n checksum w = (Inr (md5v, csum), w')" "begins object sfx w"
    "own_ok object sfx" "dirs_of object \<inter> set (own_paths object sfx) = {}"
  shows "\<exists>body len kind d h hash. make_chunked_reader b object q n = ok (body, len, kind)
    \<and> read_body body = (d, End_eof, h) \<and> (len = - 1 \<or> int (length d) = len)
    \<and> md5v = md5_sum b d \<and> csum = run_digest hash d
    \<and> (checksum = [] \<longrightarrow> hash = None) \<and> (checksum \<noteq> [] \<longrightarrow> hash = Some (digest_sum b checksum))
    \<and> file_content (disk w') (scratch_path object sfx) = Some (Data d)
    \<and> req_header w' = (case h of None \<Rightarrow> req_header w | Some x \<Rightarrow> x)
    \<and> placing object sfx w' \<and> open_inodes w' = [] \<and> waits w' = waits w"
proof -
  let ?scratch = "make_scratch_object_name object sfx"
  obtain w1 body len kind w2 where d: "make_intervening_directories b object w = (Inr (), w1)"
    and r: "make_chunked_reader b object q n = ok (body, len, kind)"
    and c: "copy_content_stream b object ?scratch (From_body body) len checksum w1 = (Inr (md5v, csum), w')"
    using assms(1)
    by (auto simp: upload_scratch_def upload_file_as_scratch_def Let_def runs split: prod.splits)
  have n: "scratch_path object sfx \<noteq> []" "scratch_path object sfx \<noteq> meta_scratch object sfx"
    using assms(3) by (auto simp: own_ok_def own_paths_def)
  have rest1: "same_rest w w1" by (rule keepsD, rule rest.directories, rule d)
  have g: "guard {scratch_path object sfx} {meta_scratch object sfx} w"
    using assms(2) by (intro begins_guard) (auto simp: begins_def calm_def)
  have "frame {scratch_path object sfx} {meta_scratch object sfx} w w1"
    by (rule keepsD, rule keeps_intervening [OF _ _], use assms(4) in \<open>auto simp: own_paths_def\<close>) (rule d)
  then have g1: "guard {scratch_path object sfx} {meta_scratch object sfx} w1"
      "look (disk w1) (meta_scratch object sfx) = look (disk w) (meta_scratch object sfx)"
    using g by (auto simp: frame_def same_look_def)
  have "frame {scratch_path object sfx} {meta_scratch object sfx} w1 w'"
    by (rule keepsD, rule keeps_content_stream, use n in auto) (rule c)
  then have "guard {scratch_path object sfx} {meta_scratch object sfx} w'"
      "look (disk w') (meta_scratch object sfx) = look (disk w) (meta_scratch object sfx)"
    using g1 by (auto simp: frame_def same_look_def)
  then have m: "node_at (disk w') (meta_scratch object sfx) = None"
    using look_node assms(2) unfolding begins_def by metis
  note cs = content_stream_done [OF c guard_sound [OF g1(1)] n(1)]
  then have w': "sound (disk w')" "open_inodes w' = []" "waits w' = waits w"
    using rest1 assms(2) by (auto simp: same_rest_def begins_def)
  have h1: "req_header w1 = req_header w"
    using keepsD [OF header.directories(3) d] by (simp add: same_header_def)
  have "calm {scratch_path object sfx, meta_scratch object sfx} (waits w')"
    using assms(2) w' by (simp add: begins_def)
  then have "placing object sfx w'"
    using w' m by (auto simp: guard_def apart_def calm_def)
  then show ?thesis using cs [unfolded h1] r w' by blast
qed

section \<open>A world for the witnesses\<close>

text \<open>A pool with an empty bucket.\<close>

definition example_fs :: fsys where
  "example_fs = \<lparr>tree = [([''bkt''], Dir)], inodes = [], next_ino = 1, now = 1000\<rparr>"

definition example_world :: world where
  "example_world = \<lparr>disk = example_fs, faults = [], waits = [], held = [], open_inodes = [],
     cleanup_needed = False, req_header = []\<rparr>"

abbreviation example_sfx :: marker where
  "example_sfx \<equiv> Scratch_marker ''0a1b2c''"

lemma example_sfx_ok: "marker_ok example_sfx"
  by code_simp

lemma example_begins: "begins ''bkt/x'' example_sfx example_world"
  unfolding begins_def
  by (intro conjI) (code_simp, simp add: example_world_def, code_simp, code_simp, simp add: example_world_def)

end
