(* ===== verification/Put_object.thy ===== *)
theory Put_object
  imports Setup Success
begin

text \<open>
  PutObject of v1/server/api-action.go.  The input is the record the handler makes of the
  request; q is the request itself, whose body and header the chunked reader takes.
\<close>

section \<open>The action\<close>

record put_input =
  pi_Bucket :: "string option"
  pi_Key :: "string option"
  pi_ExpectedBucketOwner :: "string option"
  pi_ContentLength :: "int option"
  pi_ContentMD5 :: "string option"
  pi_checksums :: checksum_set
  pi_Metadata :: "(string \<times> string) list option"
  pi_Tagging :: "string option"
  pi_content :: meta_info
  pi_IfMatch :: "string option"
  pi_IfNoneMatch :: "string option"

record put_output =
  po_ETag :: string
  po_Size :: int
  po_checksums :: checksum_set

text \<open>
  The checksum to compute and the value to compare: the one announced in the trailer, whose
  value comes later, or the one of the header.
\<close>

definition put_checksum ::
  "string \<Rightarrow> checksum_set \<Rightarrow> (string \<times> string list) list \<Rightarrow> (string \<times> string \<times> bytes option) result" where
  "put_checksum object csumset h =
     (case check_trailer_checksum object h of
        Inl e \<Rightarrow> Inl e
      | Inr trailer_checksum \<Rightarrow>
          if trailer_checksum \<noteq> [] then ok (trailer_checksum, trailer_checksum, None)
          else (case decode_checksum_union object csumset of
            Inl e \<Rightarrow> Inl e
          | Inr (checksum2, csum2) \<Rightarrow> ok ([], checksum2, csum2)))"

text \<open>After the upload: the checksum in the trailer, which updates the input, too.\<close>

definition put_trailer ::
  "string \<Rightarrow> string \<Rightarrow> checksum_set \<Rightarrow> bytes option \<Rightarrow> (checksum_set \<times> bytes option) act" where
  "put_trailer object trailer_checksum csumset csum_to_check =
     (if trailer_checksum = [] then retE (csumset, csum_to_check)
      else seqE (getE req_header) (\<lambda>h.
        seqE (liftE (refill_input_by_trailer object trailer_checksum h)) (\<lambda>csumset2.
        seqE (liftE (decode_checksum_union object csumset2)) (\<lambda>(checksum2, csum_to_check2).
        retE (csumset2, csum_to_check2)))))"

definition put_metainfo ::
  "bbs \<Rightarrow> string \<Rightarrow> put_input \<Rightarrow> string \<Rightarrow> bytes option \<Rightarrow> meta_info option result" where
  "put_metainfo b object i checksum csum_to_check =
     (case parse_tags b object (pi_Tagging i) of
        Inl e \<Rightarrow> Inl e
      | Inr tagging \<Rightarrow>
          ok (merge_metainfo_with_content_headers
            (Some (empty_meta\<lparr>Checksum := checksum, Csum := hex_encode (slice csum_to_check),
                              Headers := pi_Metadata i, Tags := tagging\<rparr>))
            (pi_content i)))"

text \<open>The deferred call that removes the scratch file, unless build_object has moved it.\<close>

definition cleanup_scratch :: "string \<Rightarrow> unit act" where
  "cleanup_scratch scratch =
     seqE (getE cleanup_needed) (\<lambda>c. if c then discard_scratch_file scratch else retE ())"

definition put_build ::
  "bbs \<Rightarrow> marker \<Rightarrow> string \<Rightarrow> put_input \<Rightarrow> int \<Rightarrow> bytes option \<Rightarrow> string \<Rightarrow> string \<Rightarrow> bytes option
   \<Rightarrow> bytes \<Rightarrow> bytes option \<Rightarrow> put_output act" where
  "put_build b sfx object i size_to_check md5_to_check trailer_checksum checksum csum0 md5v csum =
     (let scratch = make_scratch_object_name object sfx;
          csumset = (pi_checksums i)\<lparr>ChecksumType := ''FULL_OBJECT''\<rparr>
      in
      seqE (put_trailer object trailer_checksum csumset csum0) (\<lambda>(csumset2, csum_to_check).
      seqE (compare_checksums b object scratch md5v csum md5_to_check csum_to_check) (\<lambda>_.
      seqE (liftE (put_metainfo b object i checksum csum_to_check)) (\<lambda>metainfo.
      seqE (upload_object b sfx object [] 0 md5v csum metainfo
              \<lparr>check_algorithm = checksum, check_in_trailer = (trailer_checksum \<noteq> []),
               check_size = size_to_check, check_md5 = md5_to_check, check_csum = csum_to_check\<rparr>
              (no_conditions\<lparr>some_match := pi_IfMatch i, none_match := pi_IfNoneMatch i\<rparr>)) (\<lambda>stat.
      retE \<lparr>po_ETag = make_object_etag_from_md5 md5v, po_Size = fi_size stat,
            po_checksums = csumset2\<rparr>)))))"

text \<open>The action behind the checks of bucket and key.\<close>

definition put_object ::
  "bbs \<Rightarrow> marker \<Rightarrow> http_request \<Rightarrow> put_input \<Rightarrow> string \<Rightarrow> put_output act" where
  "put_object b sfx q i object =
     seqE (liftE (check_options_unsupported b
            (no_options\<lparr>ExpectedBucketOwner := pi_ExpectedBucketOwner i\<rparr>))) (\<lambda>_.
     let size_to_check = (case pi_ContentLength i of Some n \<Rightarrow> n | None \<Rightarrow> - 1) in
     seqE (liftE (decode_base64 object (pi_ContentMD5 i))) (\<lambda>md5_to_check.
     seqE (liftE (put_checksum object ((pi_checksums i)\<lparr>ChecksumType := ''FULL_OBJECT''\<rparr>) (rq_Header q)))
       (\<lambda>(trailer_checksum, checksum, csum0).
     seqE (upload_scratch b sfx object q size_to_check checksum) (\<lambda>(md5v, csum).
     seqE (modE (\<lambda>w. w\<lparr>cleanup_needed := True\<rparr>)) (\<lambda>_.
     deferE (cleanup_scratch (make_scratch_object_name object sfx))
       (put_build b sfx object i size_to_check md5_to_check trailer_checksum checksum csum0 md5v csum))))))"

definition PutObject :: "bbs \<Rightarrow> marker \<Rightarrow> http_request \<Rightarrow> put_input \<Rightarrow> put_output act" where
  "PutObject b sfx q i =
     seqE (modE (\<lambda>w. w\<lparr>req_header := rq_Header q\<rparr>)) (\<lambda>_.
     seqE (check_usual_object_setup b (pi_Bucket i) (pi_Key i)) (put_object b sfx q i))"

section \<open>What a request that is answered with success has done\<close>

text \<open>What build has to start from: the scratch file holds the payload.\<close>

lemma keeps_put_trailer [keeps_rules]:
  "keeps (frame C P) (put_trailer object tc csumset csum)"
  unfolding put_trailer_def by (intro keeps_rules)

lemma compare_done:
  assumes "compare_checksums b object scratch md5a csum1 md5c csumc w = (Inr u, w')"
  shows "(md5c \<noteq> None \<longrightarrow> md5c = Some md5a) \<and> (csumc \<noteq> None \<longrightarrow> slice csumc = slice csum1)"
  using assms by (auto simp: compare_checksums_def slice_def Let_def runs split: if_splits)

text \<open>Without metainfo to store, the metafile is left alone.\<close>

lemma keeps_place_bare:
  assumes "obj_path scratch \<notin> P" "obj_path target \<notin> P" "obj_path target \<notin> C"
  shows "keeps (frame C P) (place_scratch_file b sfx object scratch target None linking)"
  unfolding place_scratch_file_def Let_def by (simp only: simp_thms if_False) (intro keeps_rules assms)

lemma keeps_build_bare:
  assumes "scratch_path object sfx \<notin> P" "obj_path object \<notin> P" "obj_path object \<notin> C"
  shows "keeps (frame C P) (build_serialized b sfx object u 0 BUILD_UPLOAD cs conditions t None partinfo)"
  unfolding build_serialized_def Let_def using assms by (intro keeps_rules keeps_place_bare) auto

lemma final_meta_None:
  "final_meta b metainfo e t n = None \<longleftrightarrow> metainfo = None \<and> \<not> byte_size (Etag_save_threshold (config b)) \<le> n"
  by (auto simp: final_meta_def split: option.splits)

lemma build_bare:
  assumes "build_object b sfx object u 0 BUILD_UPLOAD cs metainfo checksum md5v csum conditions w = (Inr stat, w')"
    "final_meta b metainfo e t (fi_size stat) = None"
    "scratch_path object sfx \<notin> P" "obj_path object \<notin> P" "obj_path object \<notin> C"
  shows "frame C P w w'"
proof -
  obtain t w1 entity w2 metainfo2 w3 partinfo where f: "fetch_target b object conditions w = (Inr t, w1)"
    and s: "fetch_object_status b (make_scratch_object_name object sfx) True w1 = (Inr (entity, Some stat), w2)"
    and m: "fill_metainfo b 0 metainfo entity (make_object_etag_from_md5 md5v) (fi_size stat) w2 = (Inr metainfo2, w3)"
    and z: "serializedE object (build_serialized b sfx object u 0 BUILD_UPLOAD cs conditions t metainfo2 partinfo) w3 = (Inr (), w')"
    using assms(1) unfolding build_object_def Let_def
    by (auto simp: runs split: option.splits)
  have n: "metainfo2 = None" "w3 = w2" using fill_done [OF m] assms(2) unfolding final_meta_None by (simp_all add: final_meta_None)
  have "frame C P w w1" by (rule keepsD, rule keeps_fetch_target) (rule f)
  moreover have "frame C P w1 w2" by (rule keepsD, rule keeps_status) (rule s)
  moreover have k: "keeps (frame C P) (serializedE object (build_serialized b sfx object u 0 BUILD_UPLOAD cs conditions t None partinfo))"
    by (intro keeps_rules keeps_build_bare assms(3-5))
  have "frame C P w2 w'" by (rule keepsD [OF k]) (rule z [unfolded n])
  ultimately show ?thesis using frame.trans by blast
qed

lemma put_build_done:
  assumes "put_build b sfx object i sz md5c tc checksum csum0 md5v csum w = (Inr out, w')"
    "placing object sfx w" "own_ok object sfx"
    "file_content (disk w) (scratch_path object sfx) = Some (Data d)"
  shows "\<exists>f t csumc metainfo. look (disk w') (obj_path object) = (Some (File f), Some \<lparr>ino_content = Data d, ino_mtime = t\<rparr>)
    \<and> sound (disk w') \<and> reach (disk w') (obj_path object)
    \<and> po_ETag out = make_object_etag_from_md5 md5v \<and> po_Size out = int (length d)
    \<and> (md5c \<noteq> None \<longrightarrow> md5c = Some md5v) \<and> (csumc \<noteq> None \<longrightarrow> slice csumc = slice csum)
    \<and> (tc = [] \<longrightarrow> csumc = csum0)
    \<and> (tc \<noteq> [] \<longrightarrow> (\<exists>c2 k2. refill_input_by_trailer object tc (req_header w) = ok c2
          \<and> decode_checksum_union object c2 = ok (k2, csumc)))
    \<and> put_metainfo b object i checksum csumc = ok metainfo
    \<and> (\<forall>m. final_meta b metainfo (hash_entity_key b (look_info b f \<lparr>ino_content = Data d, ino_mtime = t\<rparr>))
           (po_ETag out) (int (length d)) = Some m \<longrightarrow>
         file_content (disk w') (meta_path object) = Some (Json (stored_meta m)))
    \<and> cleanup_needed w' = False
    \<and> (final_meta b metainfo (hash_entity_key b (look_info b f \<lparr>ino_content = Data d, ino_mtime = t\<rparr>))
           (po_ETag out) (int (length d)) = None \<longrightarrow>
         frame {scratch_path object sfx, meta_scratch object sfx} {meta_path object} w w')"
proof -
  let ?F = "frame {meta_scratch object sfx} {scratch_path object sfx}"
  let ?cs = "(pi_checksums i)\<lparr>ChecksumType := ''FULL_OBJECT''\<rparr>"
  obtain cs2 csumc w1 w2 metainfo stat where t: "put_trailer object tc ?cs csum0 w = (Inr (cs2, csumc), w1)"
    and c: "compare_checksums b object (make_scratch_object_name object sfx) md5v csum md5c csumc w1 = (Inr (), w2)"
    and m: "put_metainfo b object i checksum csumc = ok metainfo"
    and u: "build_object b sfx object [] 0 BUILD_UPLOAD None metainfo checksum md5v csum
        (no_conditions\<lparr>some_match := pi_IfMatch i, none_match := pi_IfNoneMatch i\<rparr>) w2 = (Inr stat, w')"
    and out: "out = \<lparr>po_ETag = make_object_etag_from_md5 md5v, po_Size = fi_size stat, po_checksums = cs2\<rparr>"
    using assms(1)
    by (auto simp: put_build_def Let_def runs upload_object_def split: prod.splits)
  have "?F w w1" by (rule keepsD, rule keeps_put_trailer, rule t)
  moreover have "?F w1 w2" by (rule keepsD, rule keeps_compare, rule c)
  ultimately have g: "placing object sfx w2"
    "look (disk w2) (scratch_path object sfx) = look (disk w) (scratch_path object sfx)"
    using assms(2) by (auto simp: frame_def same_look_def)
  obtain f x where x: "look (disk w2) (scratch_path object sfx) = (Some (File f), Some x)"
    "look (disk w') (obj_path object) = (Some (File f), Some x)" "sound (disk w') \<and> reach (disk w') (obj_path object)" "stat = look_info b f x"
    "\<forall>m. final_meta b metainfo (hash_entity_key b stat) (make_object_etag_from_md5 md5v) (fi_size stat) = Some m \<longrightarrow>
         file_content (disk w') (meta_path object) = Some (Json (stored_meta m))"
    "cleanup_needed w' = False"
    using build_object_done [OF u g(1) assms(3)] by (auto simp: build_calm_def)
  have "file_content (disk w2) (scratch_path object sfx) = Some (Data d)"
    using file_content_look [OF g(2)] assms(4) by simp
  then have d: "ino_content x = Data d"
    using x(1) by (auto simp: look_def file_content_def split: option.splits node.splits)
  then have x': "x = \<lparr>ino_content = Data d, ino_mtime = ino_mtime x\<rparr>" by (cases x) simp
  have tr: "(tc = [] \<longrightarrow> csumc = csum0) \<and> (tc \<noteq> [] \<longrightarrow> (\<exists>c2 k2. refill_input_by_trailer object tc (req_header w) = ok c2
          \<and> decode_checksum_union object c2 = ok (k2, csumc)))"
    using t by (auto simp: put_trailer_def runs split: if_splits prod.splits)
  have sz: "fi_size stat = int (length d)" using x(4) d by (simp add: look_info_def content_bytes_def)
  have o: "po_ETag out = make_object_etag_from_md5 md5v" "po_Size out = int (length d)"
    using out sz by simp_all
  have st: "hash_entity_key b stat = hash_entity_key b (look_info b f \<lparr>ino_content = Data d, ino_mtime = ino_mtime x\<rparr>)"
    using x(4) x' by simp
  have bare: "frame {scratch_path object sfx, meta_scratch object sfx} {meta_path object} w w'"
    if fm: "final_meta b metainfo e t (int (length d)) = None" for e t
  proof -
    let ?G = "frame {scratch_path object sfx, meta_scratch object sfx} {meta_path object}"
    have "?G w w1" by (rule keepsD, rule keeps_put_trailer, rule t)
    moreover have "?G w1 w2" by (rule keepsD, rule keeps_compare, rule c)
    moreover have "?G w2 w'"
      using assms(3) by (intro build_bare [OF u fm [folded sz]]) (auto simp: own_ok_def own_paths_def)
    ultimately show ?thesis using frame.trans by blast
  qed
  show ?thesis
    using x(2,3,5,6) o tr m compare_done [OF c] x' bare unfolding st sz o(1)
    by (intro exI [of _ f] exI [of _ "ino_mtime x"] exI [of _ csumc] exI [of _ metainfo]) metis
qed

text \<open>
  The payload of a request: what the body reads to, when it ends well and has the length
  announced, if one is.
\<close>

definition payload_of :: "bbs \<Rightarrow> string \<Rightarrow> http_request \<Rightarrow> int \<Rightarrow> bytes option" where
  "payload_of b object q n =
     (case make_chunked_reader b object q n of
        Inl e \<Rightarrow> None
      | Inr (body, len, kind) \<Rightarrow>
          (case read_body body of
             (d, End_eof, h) \<Rightarrow> if len = - 1 \<or> int (length d) = len then Some d else None
           | _ \<Rightarrow> None))"

text \<open>The header of the request after the body has been read, with the entries of the trailer.\<close>

definition header_after :: "bbs \<Rightarrow> string \<Rightarrow> http_request \<Rightarrow> int \<Rightarrow> (string \<times> string list) list" where
  "header_after b object q n =
     (case make_chunked_reader b object q n of
        Inl e \<Rightarrow> rq_Header q
      | Inr (body, len, kind) \<Rightarrow>
          (case read_body body of (d, e, h) \<Rightarrow> (case h of None \<Rightarrow> rq_Header q | Some x \<Rightarrow> x)))"

definition announced :: "put_input \<Rightarrow> int" where
  "announced i = (case pi_ContentLength i of Some n \<Rightarrow> n | None \<Rightarrow> - 1)"

definition put_name :: "put_input \<Rightarrow> string" where
  "put_name i = path_join [the (pi_Bucket i), the (pi_Key i)]"

lemma put_object_done:
  assumes "put_object b sfx q i object w = (Inr out, w')" "begins object sfx w"
    "own_ok object sfx" "dirs_of object \<inter> set (own_paths object sfx) = {}" "req_header w = rq_Header q"
  shows "\<exists>d f t md5c tc k csum0 csumc metainfo. payload_of b object q (announced i) = Some d
    \<and> look (disk w') (obj_path object) = (Some (File f), Some \<lparr>ino_content = Data d, ino_mtime = t\<rparr>)
    \<and> sound (disk w') \<and> reach (disk w') (obj_path object)
    \<and> po_ETag out = make_object_etag_from_md5 (md5_sum b d) \<and> po_Size out = int (length d)
    \<and> decode_base64 object (pi_ContentMD5 i) = ok md5c \<and> (md5c \<noteq> None \<longrightarrow> md5c = Some (md5_sum b d))
    \<and> put_checksum object ((pi_checksums i)\<lparr>ChecksumType := ''FULL_OBJECT''\<rparr>) (rq_Header q) = ok (tc, k, csum0)
    \<and> (tc = [] \<longrightarrow> csumc = csum0) \<and> (csumc \<noteq> None \<and> k \<noteq> [] \<longrightarrow> slice csumc = digest_sum b k d)
    \<and> (tc \<noteq> [] \<longrightarrow> (\<exists>c2 k2. refill_input_by_trailer object tc (header_after b object q (announced i)) = ok c2
          \<and> decode_checksum_union object c2 = ok (k2, csumc)))
    \<and> put_metainfo b object i k csumc = ok metainfo
    \<and> (\<forall>m. final_meta b metainfo (hash_entity_key b (look_info b f \<lparr>ino_content = Data d, ino_mtime = t\<rparr>))
           (po_ETag out) (int (length d)) = Some m \<longrightarrow>
         file_content (disk w') (meta_path object) = Some (Json (stored_meta m)))
    \<and> (final_meta b metainfo (hash_entity_key b (look_info b f \<lparr>ino_content = Data d, ino_mtime = t\<rparr>))
           (po_ETag out) (int (length d)) = None \<longrightarrow>
         frame {scratch_path object sfx, meta_scratch object sfx} {meta_path object} w w')"
proof -
  obtain md5c tc k csum0 md5v csum w1 w2 where m: "decode_base64 object (pi_ContentMD5 i) = ok md5c"
    and c: "put_checksum object ((pi_checksums i)\<lparr>ChecksumType := ''FULL_OBJECT''\<rparr>) (rq_Header q) = ok (tc, k, csum0)"
    and u: "upload_scratch b sfx object q (announced i) k w = (Inr (md5v, csum), w1)"
    and p: "put_build b sfx object i (announced i) md5c tc k csum0 md5v csum (w1\<lparr>cleanup_needed := True\<rparr>) = (Inr out, w2)"
    and cl: "\<exists>r. cleanup_scratch (make_scratch_object_name object sfx) w2 = (r, w')"
    using assms(1)
    by (auto simp: put_object_def announced_def Let_def runs split: prod.splits)
  obtain body len kind d h hash where up: "make_chunked_reader b object q (announced i) = ok (body, len, kind)"
    "read_body body = (d, End_eof, h)" "len = - 1 \<or> int (length d) = len" "md5v = md5_sum b d"
    "csum = run_digest hash d" "k \<noteq> [] \<longrightarrow> hash = Some (digest_sum b k)"
    "file_content (disk w1) (scratch_path object sfx) = Some (Data d)" "placing object sfx w1"
    "req_header w1 = (case h of None \<Rightarrow> req_header w | Some x \<Rightarrow> x)"
    using upload_scratch_done [OF u assms(2-4)] by blast
  have ha: "req_header w1 = header_after b object q (announced i)"
    using up(1,2,9) assms(5) by (cases h) (simp_all add: header_after_def)
  have pl: "payload_of b object q (announced i) = Some d" using up by (simp add: payload_of_def)
  have g: "placing object sfx (w1\<lparr>cleanup_needed := True\<rparr>)" using up(8) by (simp add: guard_def)
  note d = put_build_done [OF p g assms(3)]
  have "file_content (disk (w1\<lparr>cleanup_needed := True\<rparr>)) (scratch_path object sfx) = Some (Data d)"
    using up(7) by simp
  note d = d [OF this, unfolded up(4)]
  then have w': "w' = w2" using cl by (auto simp: cleanup_scratch_def seqE_def getE_def retE_def)
  have k: "k \<noteq> [] \<longrightarrow> slice csum = digest_sum b k d" using up(5,6) by (simp add: run_digest_def slice_def)
  obtain f t csumc metainfo where x: "look (disk w2) (obj_path object) = (Some (File f), Some \<lparr>ino_content = Data d, ino_mtime = t\<rparr>)"
    "sound (disk w2)" "reach (disk w2) (obj_path object)" "po_ETag out = make_object_etag_from_md5 (md5_sum b d)" "po_Size out = int (length d)"
    "md5c \<noteq> None \<longrightarrow> md5c = Some (md5_sum b d)" "csumc \<noteq> None \<longrightarrow> slice csumc = slice csum" "tc = [] \<longrightarrow> csumc = csum0"
    "put_metainfo b object i k csumc = ok metainfo"
    "tc \<noteq> [] \<longrightarrow> (\<exists>c2 k2. refill_input_by_trailer object tc (req_header w1) = ok c2
          \<and> decode_checksum_union object c2 = ok (k2, csumc))"
    "\<forall>m. final_meta b metainfo (hash_entity_key b (look_info b f \<lparr>ino_content = Data d, ino_mtime = t\<rparr>))
           (po_ETag out) (int (length d)) = Some m \<longrightarrow>
         file_content (disk w2) (meta_path object) = Some (Json (stored_meta m))"
    "final_meta b metainfo (hash_entity_key b (look_info b f \<lparr>ino_content = Data d, ino_mtime = t\<rparr>))
           (po_ETag out) (int (length d)) = None \<longrightarrow>
         frame {scratch_path object sfx, meta_scratch object sfx} {meta_path object} (w1\<lparr>cleanup_needed := True\<rparr>) w2"
    using d by (elim exE conjE) (rule that, assumption+, simp, assumption+)
  let ?G = "frame {scratch_path object sfx, meta_scratch object sfx} {meta_path object}"
  have "?G w w1"
    using assms(3,4) by (intro keepsD [OF keeps_upload_scratch u]) (auto simp: own_ok_def own_paths_def)
  moreover have "?G w1 (w1\<lparr>cleanup_needed := True\<rparr>)" by (simp add: frame_def guard_def same_look_def)
  ultimately have bare: "final_meta b metainfo (hash_entity_key b (look_info b f \<lparr>ino_content = Data d, ino_mtime = t\<rparr>))
           (po_ETag out) (int (length d)) = None \<longrightarrow> ?G w w2" using x(12) frame.trans by blast
  show ?thesis
    unfolding w'
    by ((rule exI)+, intro conjI, rule pl, rule x(1), rule x(2), rule x(3), rule x(4), rule x(5), rule m, rule x(6),
        rule c, rule x(8), use k x(7) in simp, rule x(10) [unfolded ha], rule x(9), rule x(11), rule bare)
qed

lemma run_put_object:
  assumes "PutObject b sfx q i w = (Inr out, w')"
  shows "\<exists>w1. put_object b sfx q i (put_name i) w1 = (Inr out, w') \<and> disk w1 = disk w \<and> waits w1 = waits w
    \<and> open_inodes w1 = open_inodes w \<and> req_header w1 = rq_Header q
    \<and> (\<exists>bk k. pi_Bucket i = Some bk \<and> pi_Key i = Some k \<and> check_bucket_naming bk)"
proof -
  obtain object w1 where s: "check_usual_object_setup b (pi_Bucket i) (pi_Key i) (w\<lparr>req_header := rq_Header q\<rparr>) = (Inr object, w1)"
    and p: "put_object b sfx q i object w1 = (Inr out, w')"
    using assms by (auto simp: PutObject_def runs)
  have "req_header w1 = rq_Header q" using keepsD [OF header.setups(1) s] by (simp add: same_header_def)
  then show ?thesis using run_object_setup [OF s] p by (auto simp: put_name_def)
qed

lemma put_name_good:
  assumes "pi_Bucket i = Some bucket" "pi_Key i = Some key" "check_bucket_naming bucket" "good_key key"
  shows "good_object (put_name i)"
  using setup_object [OF assms(3,4)] assms(1,2) by (simp add: put_name_def)

lemma begins_cong: "disk v = disk w \<Longrightarrow> open_inodes v = open_inodes w \<Longrightarrow> waits v = waits w \<Longrightarrow>
    begins object sfx v = begins object sfx w"
  by (simp add: begins_def)

lemma PutObject_done:
  assumes "PutObject b (Scratch_marker h) q i w = (Inr out, w')" "marker_ok (Scratch_marker h)"
    "pi_Key i = Some key" "good_key key" "begins (put_name i) (Scratch_marker h) w"
  shows "good_object (put_name i)"
    and "\<exists>v. put_object b (Scratch_marker h) q i (put_name i) v = (Inr out, w')
      \<and> begins (put_name i) (Scratch_marker h) v \<and> req_header v = rq_Header q"
proof -
  obtain v bk where v: "put_object b (Scratch_marker h) q i (put_name i) v = (Inr out, w')"
    "disk v = disk w" "waits v = waits w" "open_inodes v = open_inodes w" "req_header v = rq_Header q"
    "pi_Bucket i = Some bk" "check_bucket_naming bk"
    using run_put_object [OF assms(1)] by blast
  then show "\<exists>v. put_object b (Scratch_marker h) q i (put_name i) v = (Inr out, w')
      \<and> begins (put_name i) (Scratch_marker h) v \<and> req_header v = rq_Header q"
    using begins_cong [of v w] assms(5) by blast
  show "good_object (put_name i)" using put_name_good v assms(3,4) by blast
qed

lemma put_object_stored:
  assumes "PutObject b (Scratch_marker h) q i w = (Inr out, w')" "marker_ok (Scratch_marker h)"
    "pi_Key i = Some key" "good_key key" "begins (put_name i) (Scratch_marker h) w"
  shows "\<exists>d f t. payload_of b (put_name i) q (announced i) = Some d
    \<and> look (disk w') (obj_path (put_name i)) = (Some (File f), Some \<lparr>ino_content = Data d, ino_mtime = t\<rparr>)
    \<and> po_ETag out = make_object_etag_from_md5 (md5_sum b d) \<and> po_Size out = int (length d)"
proof -
  note g = PutObject_done(1) [OF assms]
  obtain v where "put_object b (Scratch_marker h) q i (put_name i) v = (Inr out, w')"
    "begins (put_name i) (Scratch_marker h) v" "req_header v = rq_Header q"
    using PutObject_done(2) [OF assms] by blast
  then show ?thesis
    using put_object_done [OF _ _ own_ok_good [OF g assms(2)] own_dirs_apart [OF g assms(2)]] by blast
qed

text \<open>
  Claim C1.  An upload that is answered with success has stored the payload: the path of the
  object names a file that holds exactly the bytes the body of the request reads to, chunked
  or not, of the length announced, and the answer is their MD5 as the ETag and their number.
\<close>

theorem put_object_stores:
  assumes "PutObject b (Scratch_marker h) q i w = (Inr out, w')" "marker_ok (Scratch_marker h)"
    "pi_Key i = Some key" "good_key key" "begins (put_name i) (Scratch_marker h) w"
  shows "\<exists>d f t. payload_of b (put_name i) q (announced i) = Some d
    \<and> look (disk w') (obj_path (put_name i)) = (Some (File f), Some \<lparr>ino_content = Data d, ino_mtime = t\<rparr>)
    \<and> po_ETag out = make_object_etag_from_md5 (md5_sum b d) \<and> po_Size out = int (length d)"
  by (rule put_object_stored [OF assms])

lemma put_checksum_given:
  "put_checksum object cs h = ok ([], k, csum) \<Longrightarrow> k \<noteq> [] \<Longrightarrow> csum \<noteq> None"
  by (auto simp: put_checksum_def decode_checksum_union_def Let_def split: sum.splits if_splits prod.splits option.splits)
     metis+

lemma put_checksum_trailer:
  "put_checksum object cs h = ok (tc, k, csum) \<Longrightarrow> tc \<noteq> [] \<Longrightarrow> k = tc \<and> check_trailer_checksum object h = ok tc"
  by (auto simp: put_checksum_def split: sum.splits if_splits prod.splits)

lemma trailer_value:
  assumes "refill_input_by_trailer object tc h = ok c2" "decode_checksum_union object c2 = ok (k2, csum)" "known_checksum tc"
  shows "csum \<noteq> None \<and> base64_decode (header_get h (canonical_key (map_checksum_algorithm_to_header_name tc))) = csum"
proof -
  let ?v = "header_get h (canonical_key (map_checksum_algorithm_to_header_name tc))"
  have "?v \<noteq> []" "base64_decode ?v \<noteq> None" "c2 = fill_checksum_union tc (base64_decode ?v)"
    using assms(1) known_header_name [OF assms(3)]
    by (auto simp: refill_input_by_trailer_def extract_trailer_checksum_def Let_def split: sum.splits if_splits option.splits) metis
  then obtain x where x: "base64_decode ?v = Some x" "c2 = fill_checksum_union tc (Some x)" by auto
  have "csum = Some x" using assms(2) decode_fill [OF assms(3), of object x] unfolding x(2) by simp
  then show ?thesis using x(1) by simp
qed

text \<open>
  Claim C5.  An upload that is answered with success has the digests the client sent: the MD5 of
  Content-MD5, and the checksum of a header, or the one in the trailer when one is announced
  there, are those of the payload.
\<close>

theorem put_object_verifies:
  assumes "PutObject b (Scratch_marker h) q i w = (Inr out, w')" "marker_ok (Scratch_marker h)"
    "pi_Key i = Some key" "good_key key" "begins (put_name i) (Scratch_marker h) w"
  shows "\<exists>d tc k csum. payload_of b (put_name i) q (announced i) = Some d
    \<and> (\<forall>m. pi_ContentMD5 i = Some m \<longrightarrow> base64_decode m = Some (md5_sum b d))
    \<and> put_checksum (put_name i) ((pi_checksums i)\<lparr>ChecksumType := ''FULL_OBJECT''\<rparr>) (rq_Header q) = ok (tc, k, csum)
    \<and> (tc = [] \<and> k \<noteq> [] \<longrightarrow> csum = Some (digest_sum b k d))
    \<and> (tc \<noteq> [] \<longrightarrow> base64_decode (header_get (header_after b (put_name i) q (announced i))
          (canonical_key (map_checksum_algorithm_to_header_name tc))) = Some (digest_sum b tc d))"
proof -
  note g = PutObject_done(1) [OF assms]
  obtain v where v: "put_object b (Scratch_marker h) q i (put_name i) v = (Inr out, w')"
    "begins (put_name i) (Scratch_marker h) v" "req_header v = rq_Header q"
    using PutObject_done(2) [OF assms] by blast
  obtain d f t md5c tc k csum0 csumc where x: "payload_of b (put_name i) q (announced i) = Some d"
    "decode_base64 (put_name i) (pi_ContentMD5 i) = ok md5c" "md5c \<noteq> None \<longrightarrow> md5c = Some (md5_sum b d)"
    "put_checksum (put_name i) ((pi_checksums i)\<lparr>ChecksumType := ''FULL_OBJECT''\<rparr>) (rq_Header q) = ok (tc, k, csum0)"
    "tc = [] \<longrightarrow> csumc = csum0" "csumc \<noteq> None \<and> k \<noteq> [] \<longrightarrow> slice csumc = digest_sum b k d"
    "tc \<noteq> [] \<longrightarrow> (\<exists>c2 k2. refill_input_by_trailer (put_name i) tc (header_after b (put_name i) q (announced i)) = ok c2
          \<and> decode_checksum_union (put_name i) c2 = ok (k2, csumc))"
    using put_object_done [OF v(1,2) own_ok_good [OF g assms(2)] own_dirs_apart [OF g assms(2)] v(3)] by blast
  have "\<forall>m. pi_ContentMD5 i = Some m \<longrightarrow> base64_decode m = Some (md5_sum b d)"
    using x(2,3) by (auto simp: decode_base64_def split: option.splits)
  moreover have "tc = [] \<and> k \<noteq> [] \<longrightarrow> csum0 = Some (digest_sum b k d)"
    using x(4,5,6) put_checksum_given [of "put_name i" _ "rq_Header q" k csum0] by (cases csum0) (auto simp: slice_def)
  moreover have "base64_decode (header_get (header_after b (put_name i) q (announced i))
          (canonical_key (map_checksum_algorithm_to_header_name tc))) = Some (digest_sum b tc d)" if "tc \<noteq> []"
  proof -
    note t = put_checksum_trailer [OF x(4) that]
    then show ?thesis
      using trailer_value trailer_algorithm_known [of "put_name i" "rq_Header q" tc] x(6,7) that
      by (fastforce simp: slice_def)
  qed
  ultimately show ?thesis using x(1,4) by blast
qed

section \<open>What a request leaves alone\<close>

lemma keeps_cleanup_scratch [keeps_rules]:
  "obj_path scratch \<notin> P \<Longrightarrow> keeps (frame C P) (cleanup_scratch scratch)"
  unfolding cleanup_scratch_def by (intro keeps_rules)

text \<open>The paths of a request against a set of paths it must leave alone.\<close>

definition own_apart :: "string \<Rightarrow> marker \<Rightarrow> path set \<Rightarrow> bool" where
  "own_apart object sfx P \<longleftrightarrow> own_ok object sfx
     \<and> dirs_of object \<inter> (P \<union> set (own_paths object sfx)) = {}
     \<and> scratch_path object sfx \<notin> P \<and> meta_path object \<notin> P \<and> meta_scratch object sfx \<notin> P"

abbreviation own_frame :: "string \<Rightarrow> marker \<Rightarrow> path set \<Rightarrow> world \<Rightarrow> world \<Rightarrow> bool" where
  "own_frame object sfx P \<equiv> frame {scratch_path object sfx, meta_scratch object sfx} P"

lemma own_apart_facts:
  assumes "own_apart object sfx P"
  shows "scratch_path object sfx \<notin> P" "meta_path object \<notin> P" "meta_scratch object sfx \<notin> P"
    "obj_path object \<notin> {scratch_path object sfx, meta_scratch object sfx}"
    "meta_path object \<notin> {scratch_path object sfx, meta_scratch object sfx}"
    "scratch_path object sfx \<in> {scratch_path object sfx, meta_scratch object sfx}"
    "meta_scratch object sfx \<in> {scratch_path object sfx, meta_scratch object sfx}"
    "dirs_of object \<inter> P = {}" "dirs_of object \<inter> {scratch_path object sfx, meta_scratch object sfx} = {}"
  using assms by (auto simp: own_apart_def own_ok_def own_paths_def)

lemma keeps_put_build:
  assumes "own_apart object sfx P" "obj_path object \<notin> P"
  shows "keeps (own_frame object sfx P) (put_build b sfx object i sz md5c tc checksum csum0 md5v csum)"
  unfolding put_build_def upload_object_def Let_def
  by (intro keeps_rules own_apart_facts [OF assms(1)] assms) simp_all

lemma on_fail_put_build:
  assumes "own_apart object sfx P"
  shows "on_fail (own_frame object sfx P) (put_build b sfx object i sz md5c tc checksum csum0 md5v csum)"
proof -
  note a = own_apart_facts [OF assms]
  have u: "on_fail (own_frame object sfx P) (seqE (upload_object b sfx object [] 0 md5v csum m ch cond) (\<lambda>stat. retE (f stat)))"
    for m ch cond and f :: "file_info \<Rightarrow> put_output"
    unfolding upload_object_def
    by (rule frame.fail_seq_last, rule on_fail_build_object)
       (use a in \<open>auto simp: retE_def\<close>)
  show ?thesis
    unfolding put_build_def Let_def
    by (rule frame.fail_seq, rule keeps_put_trailer, rule on_fail_splits(4), rule frame.fail_seq, rule keeps_compare,
        rule frame.fail_seq, rule frame.ret, rule u)
qed

lemma keeps_put_object:
  assumes "own_apart object sfx P" "obj_path object \<notin> P"
  shows "keeps (own_frame object sfx P) (put_object b sfx q i object)"
  unfolding put_object_def Let_def
  by (intro keeps_rules own_apart_facts [OF assms(1)] keeps_put_build assms)

lemma on_fail_put_object:
  assumes "own_apart object sfx P"
  shows "on_fail (own_frame object sfx P) (put_object b sfx q i object)"
proof -
  note a = own_apart_facts [OF assms]
  have d: "on_fail (own_frame object sfx P) (deferE (cleanup_scratch (make_scratch_object_name object sfx))
      (put_build b sfx object i sz md5c tc checksum csum0 md5v csum))" for sz md5c tc checksum csum0 md5v csum
    by (rule frame.fail_defer, rule keeps_cleanup_scratch, rule a, rule on_fail_put_build, rule assms)
  show ?thesis
    unfolding put_object_def Let_def
    by (rule frame.fail_seq, rule frame.ret, rule frame.fail_seq, rule frame.ret, rule frame.fail_seq,
        rule frame.ret, rule on_fail_splits(4), rule on_fail_splits(4), rule frame.fail_seq,
        rule keeps_upload_scratch, (rule a)+, rule on_fail_splits(4), rule frame.fail_seq,
        rule keeps_cleanup, rule d)
qed

text \<open>The whole action: its setup touches nothing.\<close>

lemma PutObject_cases:
  assumes "PutObject b sfx q i w = (r, w')"
  shows "(\<forall>C P. frame C P w w') \<and> (\<forall>x. r \<noteq> Inr x)
    \<or> (\<exists>v bk k. put_object b sfx q i (put_name i) v = (r, w') \<and> (\<forall>C P. frame C P w v)
         \<and> pi_Bucket i = Some bk \<and> pi_Key i = Some k \<and> check_bucket_naming bk)"
proof -
  let ?w = "w\<lparr>req_header := rq_Header q\<rparr>"
  obtain s v where s: "check_usual_object_setup b (pi_Bucket i) (pi_Key i) ?w = (s, v)"
    by (cases "check_usual_object_setup b (pi_Bucket i) (pi_Key i) ?w")
  have f: "frame C P w v" for C P
    using frame.trans [OF frame_world keepsD [OF keeps_object_setup s]] by simp
  show ?thesis
  proof (cases s)
    case (Inl e)
    then show ?thesis using assms s f by (auto simp: PutObject_def seqE_def modE_def)
  next
    case (Inr object)
    then have "put_object b sfx q i object v = (r, w')"
      using assms s by (simp add: PutObject_def seqE_def modE_def)
    moreover obtain bk k where "pi_Bucket i = Some bk" "pi_Key i = Some k" "check_bucket_naming bk"
        "object = path_join [bk, k]"
      using run_object_setup [OF s [unfolded Inr]] by blast
    ultimately show ?thesis using f by (auto simp: put_name_def)
  qed
qed

lemma own_apart_good:
  assumes "good_object object" "marker_ok (Scratch_marker h)"
    "P \<inter> (dirs_of object \<union> set (own_paths object (Scratch_marker h)) - {obj_path object}) = {}"
  shows "own_apart object (Scratch_marker h) P"
proof -
  have "obj_path object \<notin> dirs_of object" using own_dirs_apart [OF assms(1,2)] by (auto simp: own_paths_def)
  then show ?thesis
    using own_ok_good [OF assms(1,2)] own_dirs_apart [OF assms(1,2)] assms(3)
    by (auto simp: own_apart_def own_ok_def own_paths_def)
qed

text \<open>
  Claim C6.  An upload that is answered with an error leaves the object as it was: the path of the
  object names the same file with the same bytes as before, at whatever step the upload failed
  and whatever system call failed in it.
\<close>

theorem put_object_fails_cleanly:
  assumes "PutObject b (Scratch_marker h) q i w = (failed e, w')" "marker_ok (Scratch_marker h)"
    "pi_Key i = Some key" "good_key key" "begins (put_name i) (Scratch_marker h) w"
    "calm {obj_path (put_name i)} (waits w)"
  shows "look (disk w') (obj_path (put_name i)) = look (disk w) (obj_path (put_name i))"
proof -
  let ?s = "Scratch_marker h" and ?P = "{obj_path (put_name i)}"
  have g: "guard {scratch_path (put_name i) ?s, meta_scratch (put_name i) ?s} ?P w"
    using assms(5,6) by (intro begins_guard) auto
  from PutObject_cases [OF assms(1)] have "own_frame (put_name i) ?s ?P w w'"
  proof (elim disjE exE conjE)
    fix v bk k
    assume v: "put_object b ?s q i (put_name i) v = (failed e, w')" "\<forall>C P. frame C P w v"
      "pi_Bucket i = Some bk" "check_bucket_naming bk"
    have "good_object (put_name i)" using put_name_good v(3,4) assms(3,4) by blast
    then have "own_apart (put_name i) ?s ?P"
      using own_dirs_apart [of "put_name i" h] own_ok_good [of "put_name i" h] assms(2)
      by (intro own_apart_good) (auto simp: own_paths_def)
    then have "own_frame (put_name i) ?s ?P v w'" using on_failD [OF on_fail_put_object v(1)] by blast
    then show "own_frame (put_name i) ?s ?P w w'" using v(2) frame.trans by blast
  qed blast
  then show ?thesis using g by (simp add: frame_def same_look_def)
qed

text \<open>
  Claim C8.  However an upload ends, it changes no other file: a path that is not the one of the
  object, its metainfo file, their scratch names and the directories above the object names the
  same file with the same content afterwards.
\<close>

theorem put_object_leaves_others:
  assumes "PutObject b (Scratch_marker h) q i w = (r, w')" "marker_ok (Scratch_marker h)"
    "pi_Key i = Some key" "good_key key" "begins (put_name i) (Scratch_marker h) w"
    "p \<notin> dirs_of (put_name i)" "p \<notin> set (own_paths (put_name i) (Scratch_marker h))" "calm {p} (waits w)"
  shows "look (disk w') p = look (disk w) p"
proof -
  let ?s = "Scratch_marker h"
  have g: "guard {scratch_path (put_name i) ?s, meta_scratch (put_name i) ?s} {p} w"
    using assms(5,8) by (intro begins_guard) auto
  from PutObject_cases [OF assms(1)] have "own_frame (put_name i) ?s {p} w w'"
  proof (elim disjE exE conjE)
    fix v bk k
    assume v: "put_object b ?s q i (put_name i) v = (r, w')" "\<forall>C P. frame C P w v"
      "pi_Bucket i = Some bk" "check_bucket_naming bk"
    have "good_object (put_name i)" using put_name_good v(3,4) assms(3,4) by blast
    then have "own_apart (put_name i) ?s {p}"
      using assms(2,6,7) by (intro own_apart_good) auto
    moreover have "obj_path (put_name i) \<notin> {p}" using assms(7) by (auto simp: own_paths_def)
    ultimately have "own_frame (put_name i) ?s {p} v w'" using keepsD [OF keeps_put_object v(1)] by blast
    then show "own_frame (put_name i) ?s {p} w w'" using v(2) frame.trans by blast
  qed blast
  then show ?thesis using g by (simp add: frame_def same_look_def)
qed

section \<open>Witnesses\<close>

definition example_upload :: http_request where
  "example_upload =
     \<lparr>rq_ContentLength = 3, rq_TransferEncoding = [], rq_Trailer = False, rq_Header = [],
      rq_body = \<lparr>buffered = [], segs = [''ab'', ''c''], ending = None\<rparr>\<rparr>"

definition example_put :: "string option \<Rightarrow> put_input" where
  "example_put md5 =
     \<lparr>pi_Bucket = Some ''bkt'', pi_Key = Some ''x'', pi_ExpectedBucketOwner = None,
      pi_ContentLength = Some 3, pi_ContentMD5 = md5, pi_checksums = no_checksums, pi_Metadata = None,
      pi_Tagging = None, pi_content = empty_meta, pi_IfMatch = None, pi_IfNoneMatch = None\<rparr>"

abbreviation example_run :: "string option \<Rightarrow> put_output result \<times> world" where
  "example_run md5 \<equiv> PutObject example_bbs example_sfx example_upload (example_put md5) example_world"

lemma example_put_name: "put_name (example_put md5) = ''bkt/x''" "pi_Key (example_put md5) = Some ''x''"
  "good_key ''x''" "payload_of example_bbs ''bkt/x'' example_upload (announced (example_put md5)) = Some ''abc''"
     apply (simp add: put_name_def example_put_def)
     apply code_simp
    apply (simp add: example_put_def)
   apply code_simp
  apply (simp add: announced_def example_put_def)
  apply code_simp
  done

lemma example_run_ok: "\<exists>out w'. example_run None = (Inr out, w')"
proof -
  have "case fst (example_run None) of Inr out \<Rightarrow> True | Inl _ \<Rightarrow> False" by code_simp
  then show ?thesis by (cases "example_run None") (auto split: sum.splits)
qed

lemma example_run_fails: "\<exists>e w'. example_run (Some ''AAAA'') = (failed e, w')"
proof -
  have "case fst (example_run (Some ''AAAA'')) of Inl (Fail e) \<Rightarrow> Code e = BadDigest | _ \<Rightarrow> False" by code_simp
  then show ?thesis by (cases "example_run (Some ''AAAA'')") (auto split: sum.splits stop.splits)
qed

theorem put_object_stores_witness:
  "\<exists>out w' f t. example_run None = (Inr out, w')
     \<and> look (disk w') (obj_path ''bkt/x'') = (Some (File f), Some \<lparr>ino_content = Data ''abc'', ino_mtime = t\<rparr>)
     \<and> po_Size out = 3"
proof -
  obtain out w' where r: "example_run None = (Inr out, w')" using example_run_ok by blast
  show ?thesis
    using put_object_stores [OF r example_sfx_ok example_put_name(2,3)] example_begins r
    by (fastforce simp: example_put_name)
qed

theorem put_object_verifies_witness:
  "\<exists>out w' d. example_run None = (Inr out, w')
     \<and> payload_of example_bbs ''bkt/x'' example_upload (announced (example_put None)) = Some d"
proof -
  obtain out w' where r: "example_run None = (Inr out, w')" using example_run_ok by blast
  show ?thesis
    using put_object_verifies [OF r example_sfx_ok example_put_name(2,3)] example_begins r
    by (fastforce simp: example_put_name)
qed

theorem put_object_fails_cleanly_witness:
  "\<exists>e w'. example_run (Some ''AAAA'') = (failed e, w') \<and> look (disk w') (obj_path ''bkt/x'') = look example_fs (obj_path ''bkt/x'')"
proof -
  obtain e w' where r: "example_run (Some ''AAAA'') = (failed e, w')" using example_run_fails by blast
  show ?thesis
    using put_object_fails_cleanly [OF r example_sfx_ok example_put_name(2,3)] example_begins r
    by (auto simp: example_put_name example_world_def)
qed

theorem put_object_leaves_others_witness:
  "\<exists>r w'. example_run None = (r, w') \<and> look (disk w') [''bkt'', ''y''] = look example_fs [''bkt'', ''y'']"
proof -
  obtain r w' where r: "example_run None = (r, w')" by (cases "example_run None")
  have "[''bkt'', ''y''] \<notin> dirs_of ''bkt/x''" "[''bkt'', ''y''] \<notin> set (own_paths ''bkt/x'' example_sfx)"
    by code_simp+
  then show ?thesis
    using put_object_leaves_others [OF r example_sfx_ok example_put_name(2,3)] example_begins r
    by (auto simp: example_put_name example_world_def)
qed

end
