(* ===== verification/Get_object.thy ===== *)
theory Get_object
  imports Setup
begin

text \<open>
  GetObject, HeadObject, GetObjectAttributes and GetObjectTagging of v1/server/api-action.go.
  The body of an answer is the open file with the extent that is sent.
\<close>

section \<open>The part GetObject and HeadObject share\<close>

record get_input =
  gi_Bucket :: "string option"
  gi_Key :: "string option"
  gi_ExpectedBucketOwner :: "string option"
  gi_VersionId :: "string option"
  gi_Range :: "string option"
  gi_PartNumber :: "int option"
  gi_IfMatch :: "string option"
  gi_IfNoneMatch :: "string option"
  gi_IfModifiedSince :: "time option"
  gi_IfUnmodifiedSince :: "time option"
  gi_ChecksumMode :: string
  gi_response :: meta_info

record get_output =
  go_Body :: "(handle \<times> (int \<times> int) option) option"
  go_ContentLength :: int
  go_ContentRange :: "string option"
  go_LastModified :: time
  go_ETag :: string
  go_checksums :: "checksum_set option"
  go_Metadata :: "(string \<times> string) list option"
  go_TagCount :: "int option"
  go_AcceptRanges :: "string option"
  go_response :: meta_info

text \<open>What the two actions know of the object when its conditions have passed.\<close>

record object_view =
  ov_object :: string
  ov_entity :: string
  ov_stat :: file_info
  ov_etag :: string
  ov_metainfo :: "meta_info option"
  ov_extent :: "(int \<times> int) option"

definition view_object :: "bbs \<Rightarrow> marker \<Rightarrow> get_input \<Rightarrow> string \<Rightarrow> object_view act" where
  "view_object b sfx i object =
     seqE (liftE (check_options_unsupported b
       (no_options\<lparr>ExpectedBucketOwner := gi_ExpectedBucketOwner i, VersionId := gi_VersionId i\<rparr>))) (\<lambda>_.
     seqE (check_object_exists b object) (\<lambda>(entity, stat).
     seqE (fetch_object_etag b object entity) (\<lambda>(etag, metainfo).
     seqE (liftE (scan_range b object (gi_Range i) (fi_size stat))) (\<lambda>extent.
     seqE (liftE (lookat_part_number object (gi_PartNumber i) False)) (\<lambda>_.
     seqE (if metainfo = None \<and> byte_size (Etag_save_threshold (config b)) \<le> fi_size stat
           then store_etag_as_metainfo b object sfx entity etag else retE ()) (\<lambda>_.
     seqE (liftE (check_conditions etag (fi_mtime stat) (fi_size stat) Cond_read
       (no_conditions\<lparr>some_match := gi_IfMatch i, none_match := gi_IfNoneMatch i,
          modified_after := gi_IfModifiedSince i, modified_before := gi_IfUnmodifiedSince i\<rparr>))) (\<lambda>_.
     retE \<lparr>ov_object = object, ov_entity = entity, ov_stat = stat, ov_etag = etag,
           ov_metainfo = metainfo, ov_extent = extent\<rparr>)))))))"

definition content_length :: "object_view \<Rightarrow> int" where
  "content_length v =
     (case ov_extent v of None \<Rightarrow> fi_size (ov_stat v) | Some (lo, hi) \<Rightarrow> int64 (hi - lo))"

definition content_range :: "object_view \<Rightarrow> string option" where
  "content_range v =
     (case ov_extent v of
        None \<Rightarrow> None
      | Some (lo, hi) \<Rightarrow>
          Some (''bytes '' @ print_int lo @ ''-'' @ print_int (int64 (hi - 1)) @ ''/'' @ print_int (fi_size (ov_stat v))))"

definition tag_count :: "meta_info option \<Rightarrow> int option" where
  "tag_count metainfo =
     (case metainfo of
        None \<Rightarrow> None
      | Some m \<Rightarrow>
          (case Tags m of
             None \<Rightarrow> None
           | Some ts \<Rightarrow> if 0 < int32 (int (length ts)) then Some (int32 (int (length ts))) else None))"

definition get_metadata :: "meta_info option \<Rightarrow> (string \<times> string) list option" where
  "get_metadata metainfo = (case metainfo of None \<Rightarrow> None | Some m \<Rightarrow> Headers m)"

section \<open>The actions\<close>

definition get_object :: "bbs \<Rightarrow> marker \<Rightarrow> get_input \<Rightarrow> string \<Rightarrow> get_output act" where
  "get_object b sfx i object =
     seqE (view_object b sfx i object) (\<lambda>v.
     seqE (if gi_ChecksumMode i = ''ENABLED''
           then seqE (calculate_csum2 b object ''CRC64NVME'' object (ov_extent v)) (\<lambda>(_, crc1, _). retE crc1)
           else retE None) (\<lambda>csum.
     seqE (make_file_stream b object (ov_extent v) (ov_entity v)) (\<lambda>f1.
     retE \<lparr>go_Body = Some f1, go_ContentLength = content_length v, go_ContentRange = content_range v,
           go_LastModified = fi_mtime (ov_stat v), go_ETag = ov_etag v,
           go_checksums = (if gi_ChecksumMode i = ''ENABLED''
                           then Some (fill_checksum_union ''CRC64NVME'' csum) else None),
           go_Metadata = get_metadata (ov_metainfo v), go_TagCount = tag_count (ov_metainfo v),
           go_AcceptRanges = gi_Range i, go_response = gi_response i\<rparr>)))"

definition GetObject :: "bbs \<Rightarrow> marker \<Rightarrow> get_input \<Rightarrow> get_output act" where
  "GetObject b sfx i =
     seqE (check_usual_object_setup b (gi_Bucket i) (gi_Key i)) (get_object b sfx i)"

text \<open>hex.DecodeString of the checksum in the metainfo.\<close>

fun hex_decode :: "string \<Rightarrow> bytes option" where
  "hex_decode [] = Some []"
| "hex_decode (a # c # s) =
     (case (digit_val a, digit_val c, hex_decode s) of
        (Some x, Some y, Some r) \<Rightarrow>
          if x < 16 \<and> y < 16 then Some (char_of (x * 16 + y) # r) else None
      | _ \<Rightarrow> None)"
| "hex_decode _ = None"

definition head_checksums :: "string \<Rightarrow> get_input \<Rightarrow> meta_info option \<Rightarrow> checksum_set option result" where
  "head_checksums object i metainfo =
     (case metainfo of
        None \<Rightarrow> ok None
      | Some m \<Rightarrow>
          if gi_ChecksumMode i \<noteq> ''ENABLED'' then ok None
          else (case hex_decode (Csum m) of
            None \<Rightarrow> failed (s3_error InvalidObjectState ''Metainfo file broken.'' (''/'' @ object))
          | Some crc1 \<Rightarrow> ok (Some (fill_checksum_union (Checksum m) (Some crc1)))))"

definition HeadObject :: "bbs \<Rightarrow> marker \<Rightarrow> get_input \<Rightarrow> get_output act" where
  "HeadObject b sfx i =
     seqE (check_usual_object_setup b (gi_Bucket i) (gi_Key i)) (\<lambda>object.
     seqE (view_object b sfx i object) (\<lambda>v.
     seqE (liftE (head_checksums object i (ov_metainfo v))) (\<lambda>csums.
     retE \<lparr>go_Body = None, go_ContentLength = content_length v, go_ContentRange = content_range v,
           go_LastModified = fi_mtime (ov_stat v), go_ETag = ov_etag v, go_checksums = csums,
           go_Metadata = get_metadata (ov_metainfo v), go_TagCount = tag_count (ov_metainfo v),
           go_AcceptRanges = gi_Range i, go_response = gi_response i\<rparr>)))"

record attributes_output =
  ao_ETag :: "string option"
  ao_Checksum :: "checksum_set option"
  ao_StorageClass :: "string option"
  ao_ObjectSize :: "int option"
  ao_LastModified :: time

definition GetObjectAttributes :: "bbs \<Rightarrow> get_input \<Rightarrow> string list \<Rightarrow> attributes_output act" where
  "GetObjectAttributes b i attributes =
     seqE (check_usual_object_setup b (gi_Bucket i) (gi_Key i)) (\<lambda>object.
     seqE (liftE (check_options_unsupported b
       (no_options\<lparr>ExpectedBucketOwner := gi_ExpectedBucketOwner i, VersionId := gi_VersionId i\<rparr>))) (\<lambda>_.
     seqE (check_object_exists b object) (\<lambda>(entity, stat).
     seqE (if ''ETag'' \<in> set attributes
           then seqE (fetch_object_etag b object entity) (\<lambda>(etag, _). retE (Some etag)) else retE None) (\<lambda>etag.
     seqE (if ''Checksum'' \<in> set attributes
           then seqE (calculate_csum2 b object ''CRC64NVME'' object None) (\<lambda>(_, crc1, _).
             retE (Some (fill_checksum_union ''CRC64NVME'' crc1))) else retE None) (\<lambda>csums.
     retE \<lparr>ao_ETag = etag, ao_Checksum = csums,
           ao_StorageClass = (if ''StorageClass'' \<in> set attributes then Some ''STANDARD'' else None),
           ao_ObjectSize = (if ''ObjectSize'' \<in> set attributes then Some (fi_size stat) else None),
           ao_LastModified = fi_mtime stat\<rparr>)))))"

definition GetObjectTagging :: "bbs \<Rightarrow> get_input \<Rightarrow> tag list act" where
  "GetObjectTagging b i =
     seqE (check_usual_object_setup b (gi_Bucket i) (gi_Key i)) (\<lambda>object.
     seqE (liftE (check_options_unsupported b
       (no_options\<lparr>ExpectedBucketOwner := gi_ExpectedBucketOwner i, VersionId := gi_VersionId i\<rparr>))) (\<lambda>_.
     seqE (check_object_exists b object) (\<lambda>(entity, _).
     seqE (fetch_object_metainfo b object entity) (\<lambda>metainfo.
     retE (case metainfo of None \<Rightarrow> [] | Some m \<Rightarrow> (case Tags m of None \<Rightarrow> [] | Some ts \<Rightarrow> ts))))))"

end
