(* ===== verification/No_fault.thy ===== *)
theory No_fault
  imports Success
begin

text \<open>
  Calls that succeed: with no fault of the operating system, a path all of whose directories
  are there can be looked at, opened and read.
\<close>

section \<open>Calls without faults\<close>

lemma no_faults [simp]: "faults w = [] \<Longrightarrow> w\<lparr>faults := []\<rparr> = w"
  by simp

lemma syscall_ok:
  "faults w = [] \<Longrightarrow> f (disk w) = Inr (x, disk w) \<Longrightarrow> syscall opn path f w = (Inr x, w)"
  by (simp add: syscall_def Let_def)

lemma syscall_bad:
  "faults w = [] \<Longrightarrow> f (disk w) = Inl k \<Longrightarrow> syscall opn path f w = (Inl (Os_error k opn path), w)"
  by (simp add: syscall_def Let_def)

lemma lstat_ok:
  assumes "faults w = []" "sound (disk w)" "reach (disk w) (comps path)" "\<not> has_suffix path ''/''"
    "node_at (disk w) (comps path) = Some n"
  shows "os_Lstat b path w = (Inr (node_info b (disk w) n), w)"
  unfolding os_Lstat_def using assms reach_resolve [OF assms(2-4)]
  by (intro syscall_ok) (simp_all add: fs_stat_def)

lemma open_file_ok:
  assumes "faults w = []" "sound (disk w)" "reach (disk w) (comps path)" "\<not> has_suffix path ''/''"
    "node_at (disk w) (comps path) = Some (File i)"
  shows "os_Open path w = (Inr (H_file i path), w)"
  unfolding os_Open_def using assms reach_resolve [OF assms(2-4)]
  by (intro syscall_ok) (simp_all add: fs_open_def)

lemma open_total:
  assumes "faults w = []"
  shows "\<exists>r. os_Open path w = (r, w)"
proof (cases "fs_open path (disk w)")
  case (Inl k)
  then show ?thesis using syscall_bad [of w "fs_open path" k] assms unfolding os_Open_def by blast
next
  case (Inr p)
  then have "p = (fst p, disk w)" by (cases p) (auto simp: fs_open_def split: sum.splits option.splits node.splits)
  then show ?thesis using syscall_ok [of w "fs_open path" "fst p"] assms Inr unfolding os_Open_def by metis
qed

lemma file_stat_ok: "faults w = [] \<Longrightarrow> file_Stat b (H_file i p) w = (Inr (inode_info b (disk w) i), w)"
  unfolding file_Stat_def by (intro syscall_ok) simp_all

lemma file_read_ok:
  "faults w = [] \<Longrightarrow> file_read b (H_file i p) w = (Inr (content_bytes b (ino_content (inode_at (disk w) i)), None), w)"
  by (simp add: file_read_def Let_def)

lemma json_decode_total:
  "faults w = [] \<Longrightarrow> \<exists>r. json_decode dec h w = (r, w)"
  by (cases h) (auto simp: json_decode_def Let_def split: option.split)

lemma json_decode_ok:
  "faults w = [] \<Longrightarrow> dec (ino_content (inode_at (disk w) i)) = Some x \<Longrightarrow> json_decode dec (H_file i p) w = (Inr x, w)"
  by (simp add: json_decode_def Let_def)

section \<open>Operations without faults\<close>

lemmas stepping = seqE_def sys_elseE_def sysE_def try_elseE_def tryE_def retE_def failE_def os_failE_def

text \<open>A file object in a sound file system, its directories there, and no fault to come.\<close>

definition at_rest :: "string \<Rightarrow> nat \<Rightarrow> inode \<Rightarrow> world \<Rightarrow> bool" where
  "at_rest object f x w \<longleftrightarrow> faults w = [] \<and> sound (disk w)
     \<and> look (disk w) (obj_path object) = (Some (File f), Some x) \<and> reach (disk w) (obj_path object)
     \<and> \<not> has_suffix (make_path_of_object object No_marker) ''/''"

lemma look_file: "look s p = (Some (File f), Some x) \<longleftrightarrow> node_at s p = Some (File f) \<and> inode_at s f = x"
  by (auto simp: look_def split: option.splits node.splits)

lemma status_ok:
  assumes "at_rest object f x w"
  shows "fetch_object_status b object serializing w = (Inr (hash_entity_key b (look_info b f x), Some (look_info b f x)), w)"
proof -
  have "os_Lstat b (make_path_of_object object No_marker) w = (Inr (look_info b f x), w)"
    using lstat_ok [of w "make_path_of_object object No_marker" "File f" b] assms
    by (simp add: at_rest_def look_file node_info_def inode_info_look)
  then show ?thesis
    by (simp add: fetch_object_status_def Let_def stepping look_info_def)
qed

lemma exists_ok:
  assumes "at_rest object f x w"
  shows "check_object_exists b object w = (Inr (hash_entity_key b (look_info b f x), look_info b f x), w)"
  by (simp add: check_object_exists_def Let_def stepping status_ok [OF assms])

lemma open_object_ok:
  assumes "at_rest object f x w"
  shows "os_Open (make_path_of_object object No_marker) w = (Inr (H_file f (make_path_of_object object No_marker)), w)"
  using assms by (intro open_file_ok) (simp_all add: at_rest_def look_file)

text \<open>Without a fault, the digests of an object are those of its content.\<close>

lemma csum2_ok:
  assumes "at_rest object f x w"
  shows "calculate_csum2 b object [] object None w
    = (Inr (md5_sum b (content_bytes b (ino_content x)), None, hash_entity_key b (look_info b f x)), w)"
proof -
  have x: "inode_at (disk w) f = x" "faults w = []" using assms by (simp_all add: at_rest_def look_file)
  have st: "file_Stat b (H_file f p) w = (Inr (look_info b f x), w)" for p
    using file_stat_ok [OF x(2)] x by (simp add: inode_info_look)
  have rd: "copy_to_digests b (H_file f p) None w = (Inr (content_bytes b (ino_content x)), w)" for p
    using x by (simp add: copy_to_digests_def file_read_ok section_bytes_def)
  show ?thesis
    unfolding calculate_csum2_def Let_def
    by (simp add: open_object_ok [OF assms] st rd stepping checksum_algorithm_def run_digest_def look_info_def)
qed

text \<open>
  The ETag of an object at rest: the one in its metainfo when that is valid, or else the MD5 of
  its content.  Nothing is changed in either case.
\<close>

lemma fetch_json_total:
  assumes "faults w = []"
  shows "\<exists>r. fetch_json_data object path dec w = (r, w) \<and> (\<forall>e. r = Inl e \<longrightarrow> (\<exists>a. e = Fail a))"
proof -
  obtain r where r: "os_Open path w = (r, w)" using open_total [OF assms] by blast
  show ?thesis
  proof (cases r)
    case (Inl e)
    then show ?thesis using r
      by (auto simp: fetch_json_data_def Let_def stepping)
  next
    case (Inr h)
    obtain q where "json_decode dec h w = (q, w)" using json_decode_total [OF assms] by blast
    then show ?thesis using r Inr
      by (cases q) (auto simp: fetch_json_data_def Let_def stepping)
  qed
qed

lemma fetch_metainfo_total:
  assumes "faults w = []"
  shows "\<exists>r. fetch_object_metainfo b object entity w = (r, w) \<and> (\<forall>e. r = Inl e \<longrightarrow> (\<exists>a. e = Fail a))"
proof -
  obtain r where r: "fetch_json_data object (make_path_of_object object Meta_marker) (decode_meta b) w = (r, w)"
    "\<forall>e. r = Inl e \<longrightarrow> (\<exists>a. e = Fail a)" using fetch_json_total [OF assms] by blast
  then show ?thesis
    by (cases r) (auto simp: fetch_object_metainfo_def Let_def stepping split: option.splits)
qed

lemma etag_ok:
  assumes "at_rest object f x w"
  shows "\<exists>etag metainfo. fetch_object_etag b object entity w = (Inr (etag, metainfo), w)
    \<and> (metainfo = None \<longrightarrow> etag = make_object_etag_from_md5 (md5_sum b (content_bytes b (ino_content x))))"
proof -
  have "faults w = []" using assms by (simp add: at_rest_def)
  then obtain r where r: "fetch_object_metainfo b object entity w = (r, w)" "\<forall>e. r = Inl e \<longrightarrow> (\<exists>a. e = Fail a)"
    using fetch_metainfo_total by blast
  show ?thesis
  proof (cases r)
    case (Inl e)
    then obtain a where "r = failed a" using r(2) by blast
    then show ?thesis using r(1)
      by (simp add: fetch_object_etag_def Let_def stepping csum2_ok [OF assms])
  next
    case (Inr m)
    then show ?thesis using r(1)
      by (cases m) (simp_all add: fetch_object_etag_def Let_def stepping csum2_ok [OF assms])
  qed
qed

text \<open>A metainfo file that is valid for the object is read back.\<close>

lemma metainfo_ok:
  assumes "faults w = []" "sound (disk w)" "reach (disk w) (meta_path object)"
    "\<not> has_suffix (make_path_of_object object Meta_marker) ''/''"
    "file_content (disk w) (meta_path object) = Some (Json (stored_meta m))" "Entity_key m = entity"
  shows "fetch_object_metainfo b object entity w = (Inr (Some (m\<lparr>Metafile_format := Bbs_metafile_format\<rparr>)), w)"
proof -
  obtain i where i: "node_at (disk w) (meta_path object) = Some (File i)"
    "ino_content (inode_at (disk w) i) = Json (stored_meta m)"
    using assms(5) by (auto simp: file_content_def split: option.splits node.splits)
  have d: "decode_meta b (Json (stored_meta m)) = Some (m\<lparr>Metafile_format := Bbs_metafile_format\<rparr>)"
    by (simp add: decode_meta_def stored_meta_def)
  have "fetch_json_data object (make_path_of_object object Meta_marker) (decode_meta b) w
      = (Inr (Some (m\<lparr>Metafile_format := Bbs_metafile_format\<rparr>)), w)"
    unfolding fetch_json_data_def Let_def
    using json_decode_ok [of w "decode_meta b" i, OF assms(1)] i(2) d
    by (simp add: open_file_ok [OF assms(1-4) i(1)] stepping)
  then show ?thesis
    using assms(6) by (simp add: fetch_object_metainfo_def Let_def stepping)
qed

section \<open>The ETag of an object\<close>

lemma open_done:
  assumes "os_Open path w = (Inr h, w')" "sound (disk w)"
  shows "disk w' = disk w \<and> same_rest w w' \<and> (\<exists>n. node_at (disk w) (comps path) = Some n
    \<and> h = (case n of File i \<Rightarrow> H_file i path | _ \<Rightarrow> H_other path))"
proof -
  have "fs_open path (disk w) = Inr (h, disk w')" "same_rest w w'"
    using syscall_done [OF assms(1) [unfolded os_Open_def]] by (simp_all add: same_rest_def)
  then show ?thesis using resolve_sound [OF assms(2)]
    by (auto simp: fs_open_def split: sum.splits option.splits node.splits)
qed

text \<open>Reading a file of JSON: the value decoded from its content.\<close>

lemma fetch_json_done:
  assumes "fetch_json_data object path dec w = (Inr (Some x), w')" "sound (disk w)"
  shows "disk w' = disk w \<and> same_rest w w' \<and> (\<exists>c. file_content (disk w) (comps path) = Some c \<and> dec c = Some x)"
proof -
  obtain h w1 where o: "os_Open path w = (Inr h, w1)" and j: "json_decode dec h w1 = (Inr x, w')"
    using assms(1) by (auto simp: fetch_json_data_def Let_def runs split: if_splits)
  note od = open_done [OF o assms(2)]
  obtain i p where h: "h = H_file i p" "dec (ino_content (inode_at (disk w1) i)) = Some x" "disk w' = disk w1" "same_rest w1 w'"
    using j by (auto simp: json_decode_def Let_def same_rest_def split: handle.splits list.splits option.splits)
  obtain n where "node_at (disk w) (comps path) = Some n" "h = (case n of File i \<Rightarrow> H_file i path | _ \<Rightarrow> H_other path)"
    using od by blast
  then have "file_content (disk w) (comps path) = Some (ino_content (inode_at (disk w) i))"
    using h(1) by (cases n) (auto simp: file_content_def)
  then show ?thesis using od h same_rest_trans by auto
qed

text \<open>
  The metainfo that is valid for an object with a key of its file: the metafile beside it, when it is there, can be
  decoded, and has the key.  The ETag of the object is the one in it, or else the MD5 of the content.
\<close>

definition current_meta :: "bbs \<Rightarrow> fsys \<Rightarrow> string \<Rightarrow> string \<Rightarrow> meta_info option" where
  "current_meta b s object entity =
     (case file_content s (meta_path object) of
        None \<Rightarrow> None
      | Some c \<Rightarrow>
          (case decode_meta b c of
             None \<Rightarrow> None
           | Some m \<Rightarrow> if Metafile_format m = Bbs_metafile_format \<and> Entity_key m = entity then Some m else None))"

definition object_etag :: "bbs \<Rightarrow> fsys \<Rightarrow> string \<Rightarrow> nat \<Rightarrow> inode \<Rightarrow> string" where
  "object_etag b s object f x =
     (case current_meta b s object (hash_entity_key b (look_info b f x)) of
        Some m \<Rightarrow> ETag m
      | None \<Rightarrow> make_object_etag_from_md5 (md5_sum b (content_bytes b (ino_content x))))"

lemma current_meta_done:
  assumes "fetch_object_metainfo b object entity w = (Inr (Some m), w')" "sound (disk w)"
  shows "current_meta b (disk w) object entity = Some m \<and> disk w' = disk w \<and> same_rest w w'"
proof -
  have "fetch_json_data object (make_path_of_object object Meta_marker) (decode_meta b) w = (Inr (Some m), w')"
    and v: "Metafile_format m = Bbs_metafile_format" "Entity_key m = entity"
    using assms(1) by (auto simp: fetch_object_metainfo_def Let_def runs split: option.splits if_splits)
  from fetch_json_done [OF this(1) assms(2)] v show ?thesis by (auto simp: current_meta_def)
qed

lemma metainfo_look:
  assumes "faults w = []" "sound (disk w)" "reach (disk w) (meta_path object)"
    "\<not> has_suffix (make_path_of_object object Meta_marker) ''/''"
  shows "\<exists>r. fetch_object_metainfo b object entity w = (r, w) \<and> (\<forall>e. r = Inl e \<longrightarrow> (\<exists>a. e = Fail a))
    \<and> (case r of Inr (Some m) \<Rightarrow> Some m | _ \<Rightarrow> None) = current_meta b (disk w) object entity"
proof -
  obtain r where r: "fetch_object_metainfo b object entity w = (r, w)" "\<forall>e. r = Inl e \<longrightarrow> (\<exists>a. e = Fail a)"
    using fetch_metainfo_total [OF assms(1)] by blast
  have "r = Inr (Some m)" if m: "current_meta b (disk w) object entity = Some m" for m
  proof -
    obtain c where c: "file_content (disk w) (meta_path object) = Some c" "decode_meta b c = Some m"
      and v: "Metafile_format m = Bbs_metafile_format" "Entity_key m = entity"
      using m by (auto simp: current_meta_def split: option.splits if_splits)
    obtain i where i: "node_at (disk w) (meta_path object) = Some (File i)" "ino_content (inode_at (disk w) i) = c"
      using c(1) by (auto simp: file_content_def split: option.splits node.splits)
    have "fetch_json_data object (make_path_of_object object Meta_marker) (decode_meta b) w = (Inr (Some m), w)"
      unfolding fetch_json_data_def Let_def
      using json_decode_ok [of w "decode_meta b" i, OF assms(1)] i(2) c(2)
      by (simp add: open_file_ok [OF assms i(1)] stepping)
    then have "fetch_object_metainfo b object entity w = (Inr (Some m), w)"
      using v by (simp add: fetch_object_metainfo_def Let_def stepping)
    then show ?thesis using r(1) by simp
  qed
  moreover have "current_meta b (disk w) object entity = Some m" if "r = Inr (Some m)" for m
    using current_meta_done [OF r(1) [unfolded that] assms(2)] by blast
  ultimately have "(case r of Inr (Some m) \<Rightarrow> Some m | _ \<Rightarrow> None) = current_meta b (disk w) object entity"
    by (cases "current_meta b (disk w) object entity") (auto split: sum.split option.split)
  then show ?thesis using r by blast
qed

lemma etag_look:
  assumes "at_rest object f x w" "reach (disk w) (meta_path object)"
    "\<not> has_suffix (make_path_of_object object Meta_marker) ''/''"
  shows "fetch_object_etag b object (hash_entity_key b (look_info b f x)) w
    = (Inr (object_etag b (disk w) object f x, current_meta b (disk w) object (hash_entity_key b (look_info b f x))), w)"
proof -
  have "faults w = []" "sound (disk w)" using assms(1) by (simp_all add: at_rest_def)
  from metainfo_look [OF this assms(2,3)] obtain r where
    r: "fetch_object_metainfo b object (hash_entity_key b (look_info b f x)) w = (r, w)" "\<forall>e. r = Inl e \<longrightarrow> (\<exists>a. e = Fail a)"
    "(case r of Inr (Some m) \<Rightarrow> Some m | _ \<Rightarrow> None) = current_meta b (disk w) object (hash_entity_key b (look_info b f x))" by blast
  show ?thesis
  proof (cases r)
    case (Inl e)
    then obtain a where "r = failed a" using r(2) by blast
    then show ?thesis using r(1,3)
      by (simp add: fetch_object_etag_def Let_def stepping csum2_ok [OF assms(1)] object_etag_def flip: r(3))
  next
    case (Inr m)
    then show ?thesis using r(1,3)
      by (cases m) (simp_all add: fetch_object_etag_def Let_def stepping csum2_ok [OF assms(1)] object_etag_def flip: r(3))
  qed
qed

end
