(* ===== verification/Setup_ok.thy ===== *)
theory Setup_ok
  imports Setup No_fault
begin

text \<open>
  The setup of an action that succeeds: without faults, and with a bucket that is there.
\<close>

lemma no_slash_end:
  assumes "good_object object" "marker_ok m"
  shows "\<not> has_suffix (make_path_of_object object m) ''/''"
proof -
  note g = good_object_parts [OF assms(1)]
  let ?n = "prefix_suffix_by_marker (file_name object) m"
  have n: "plain ?n" using plain_marked_ok g(3) assms(2) by blast
  have "last ?n \<noteq> slash" using n last_in_set [of ?n] unfolding plain_def by metis
  moreover have "make_path_of_object object m = object_name (dir_comps object) ?n"
    using good_obj_path(2) [OF assms] .
  moreover have "\<exists>t. object_name (dir_comps object) ?n = t @ ?n"
    using join_append_last [of slash "dir_comps object" "[]" ?n] by (metis append_Nil object_name_def)
  ultimately show ?thesis using n
    by (auto simp: has_suffix_def suffix_def plain_def) (metis last_appendR last_snoc)
qed

lemma reach_meta:
  assumes "good_object object" "reach s (obj_path object)"
  shows "reach s (meta_path object)"
  using assms good_paths(1,2) [OF assms(1)] by (simp add: reach_snoc)

lemma bucket_path:
  assumes "plain bucket"
  shows "make_path_of_bucket bucket = bucket"
  using comps_join_dot [of "[]" bucket] assms
  by (simp add: make_path_of_bucket_def path_join_def)

lemma bucket_directory_ok:
  assumes "check_bucket_naming bucket" "faults w = []" "sound (disk w)" "node_at (disk w) [bucket] = Some Dir"
  shows "check_bucket_directory_exists b bucket w = (Inr (), w)"
proof -
  have p: "plain bucket" by (rule checked_bucket_plain) (rule assms)
  have c: "comps (make_path_of_bucket bucket) = [bucket]" "\<not> has_suffix (make_path_of_bucket bucket) ''/''"
    using bucket_path [OF p] p comps_join [of "[bucket]"]
    by (auto simp: has_suffix_def suffix_def plain_def)
  have "node_at (disk w) [] = Some Dir" by (simp add: node_at_def)
  then have "reach (disk w) [bucket]" by (simp add: reach_def strict_prefix_def prefix_def) (metis append_is_Nil_conv append_eq_Cons_conv)
  then have "os_Lstat b (make_path_of_bucket bucket) w = (Inr (node_info b (disk w) Dir), w)"
    using c assms by (intro lstat_ok) simp_all
  then show ?thesis
    by (simp add: check_bucket_directory_exists_def Let_def stepping node_info_def plain_info_def)
qed

lemma bucket_is_prefix:
  assumes "check_bucket_naming bucket" "good_key key"
  shows "strict_prefix [bucket] (obj_path (path_join [bucket, key]))"
proof -
  let ?o = "path_join [bucket, key]"
  have o: "?o = bucket @ slash # key" "good_object ?o" using setup_object [OF assms] by simp_all
  have "slash \<notin> set bucket" using checked_bucket_plain [OF assms(1)] by (simp add: plain_def)
  then have "split_on slash ?o = bucket # split_on slash key"
    using o(1) split_on_append [of slash bucket key] by (simp add: split_on_no_sep)
  then have "dir_comps ?o = bucket # butlast (split_on slash key)" by (simp add: dir_comps_def)
  then show ?thesis using good_paths(1) [OF o(2)] by (simp add: strict_prefix_def)
qed

lemma setup_ok:
  assumes "check_bucket_naming bucket" "check_object_naming key" "\<not> has_prefix key ''..''"
    "faults w = []" "sound (disk w)" "node_at (disk w) [bucket] = Some Dir"
  shows "check_usual_object_setup b (Some bucket) (Some key) w = (Inr (path_join [bucket, key]), w)"
  using assms bucket_directory_ok [OF assms(1,4,5,6)] by (simp add: check_usual_object_setup_def stepping)


section \<open>What an action changes after its setup\<close>

lemma setup_result:
  "check_usual_object_setup b bucket key w = (Inr object, w') \<Longrightarrow>
     \<exists>bk k. bucket = Some bk \<and> key = Some k \<and> check_bucket_naming bk \<and> check_object_naming k
       \<and> object = path_join [bk, k]"
  using run_object_setup by blast

text \<open>The rest of an action has only to be looked at on the object of its bucket and key.\<close>

lemma keeps_after_setup:
  assumes "\<And>bk k. bucket = Some bk \<Longrightarrow> key = Some k \<Longrightarrow> check_bucket_naming bk \<Longrightarrow>
    keeps (frame C P) (f (path_join [bk, k]))"
  shows "keeps (frame C P) (seqE (check_usual_object_setup b bucket key) f)"
proof (unfold keeps_def, intro allI)
  fix w
  obtain r w1 where s: "check_usual_object_setup b bucket key w = (r, w1)" by (cases "check_usual_object_setup b bucket key w")
  have k: "frame C P w w1" by (rule keepsD [OF keeps_object_setup s])
  show "frame C P w (snd (seqE (check_usual_object_setup b bucket key) f w))"
  proof (cases r)
    case (Inr object)
    then obtain bk k where o: "bucket = Some bk" "key = Some k" "check_bucket_naming bk" "object = path_join [bk, k]"
      using setup_result s by blast
    have "frame C P w1 (snd (f object w1))" using assms [OF o(1-3)] o(4) by (simp add: keeps_def)
    then show ?thesis using s Inr k frame.trans by (auto simp: seqE_def)
  qed (use s k in \<open>simp add: seqE_def\<close>)
qed

text \<open>Soundness of the files goes through every call.\<close>

lemma sound_frame:
  assumes "keeps (frame {} {}) m" "sound (disk w)" "calm {} (waits w)" "m w = (r, w')"
  shows "sound (disk w')" "calm {} (waits w')"
proof -
  have "guard {} {} w \<longleftrightarrow> sound (disk w) \<and> calm {} (waits w)" for w by (simp add: guard_def)
  then show "sound (disk w')" "calm {} (waits w')"
    using keepsD [OF assms(1,4)] assms(2,3) by (simp_all add: frame_def)
qed

lemma release_run: "release_access object w = (r, w') \<Longrightarrow> disk w' = disk w"
  by (auto simp: release_access_def split: if_splits)

text \<open>A serialized region that succeeds, from the world it is entered in.\<close>

lemma serialized_run:
  assumes "serializedE object m w = (Inr x, w')" "sound (disk w)" "calm {} (waits w)"
  shows "\<exists>w1 w2. m w1 = (Inr x, w2) \<and> disk w' = disk w2 \<and> sound (disk w1) \<and> calm {} (waits w1)
    \<and> open_inodes w1 = open_inodes w \<and> set (waits w1) \<subseteq> set (waits w)
    \<and> (\<forall>P. calm P (waits w) \<longrightarrow> (\<forall>p \<in> P. look (disk w1) p = look (disk w) p))"
proof -
  obtain w1 w2 r where s: "serialize_access object w = (Inr (), w1)" "m w1 = (Inr x, w2)"
    "release_access object w2 = (r, w')"
    using assms(1) by (auto simp: serializedE_def runs)
  have "sound (disk w1) \<and> calm {} (waits w1) \<and> open_inodes w1 = open_inodes w \<and> set (waits w1) \<subseteq> set (waits w)
      \<and> (\<forall>P. calm P (waits w) \<longrightarrow> (\<forall>p \<in> P. look (disk w1) p = look (disk w) p))"
    using s(1) assms(2,3)
    by (cases "waits w") (auto simp: serialize_access_def Let_def calm_def split: wait.splits)
  then show ?thesis using s release_run by blast
qed

section \<open>A world with an object, for the witnesses\<close>

definition object_fs :: fsys where
  "object_fs =
     \<lparr>tree = [([''bkt''], Dir), ([''bkt'', ''x''], File 0)],
      inodes = [(0, \<lparr>ino_content = Data ''abc'', ino_mtime = 7\<rparr>)], next_ino = 1, now = 1000\<rparr>"

definition object_world :: world where
  "object_world = example_world\<lparr>disk := object_fs\<rparr>"

lemma object_world_simps [simp]:
  "disk object_world = object_fs" "waits object_world = []" "open_inodes object_world = []" "faults object_world = []"
  by (simp_all add: object_world_def example_world_def)

lemma object_sound: "sound object_fs"
  by code_simp

lemma object_begins: "begins ''bkt/x'' example_sfx object_world"
  unfolding begins_def
  by (intro conjI) (simp add: object_sound, simp, simp, code_simp, simp, code_simp, simp)

lemma good_key_x: "good_key ''x''" "path_join [''bkt'', ''x''] = ''bkt/x''"
  by code_simp+


end
