(* ===== verification/Round_trip.thy ===== *)
theory Round_trip
  imports Put_object Get_object Setup_ok
begin

text \<open>
  An upload followed by a download: what PutObject stores, GetObject delivers.
\<close>

lemma run_put_setup:
  assumes "PutObject b sfx q i w = (Inr out, w')" "pi_Bucket i = Some bucket" "pi_Key i = Some key"
  shows "check_bucket_naming bucket" "check_object_naming key" "\<not> has_prefix key ''..''"
  using assms
  by (auto simp: PutObject_def check_usual_object_setup_def runs split: if_splits option.splits)

text \<open>A download without a range, conditions, a part number or a checksum.\<close>

definition plain_get :: "string \<Rightarrow> string \<Rightarrow> get_input" where
  "plain_get bucket key =
     \<lparr>gi_Bucket = Some bucket, gi_Key = Some key, gi_ExpectedBucketOwner = None, gi_VersionId = None,
      gi_Range = None, gi_PartNumber = None, gi_IfMatch = None, gi_IfNoneMatch = None,
      gi_IfModifiedSince = None, gi_IfUnmodifiedSince = None, gi_ChecksumMode = [],
      gi_response = empty_meta\<rparr>"

text \<open>The view of an object at rest: nothing is stored, unless the metainfo is missing.\<close>

lemma view_ok:
  assumes "at_rest object f x w" "fetch_object_etag b object (hash_entity_key b (look_info b f x)) w = (Inr (etag, metainfo), w)"
    "metainfo \<noteq> None \<or> \<not> byte_size (Etag_save_threshold (config b)) \<le> fi_size (look_info b f x)"
  shows "view_object b sfx (plain_get bucket key) object w
    = (Inr \<lparr>ov_object = object, ov_entity = hash_entity_key b (look_info b f x), ov_stat = look_info b f x,
            ov_etag = etag, ov_metainfo = metainfo, ov_extent = None\<rparr>, w)"
  using assms(3)
  by (auto simp: view_object_def plain_get_def stepping liftE_def exists_ok [OF assms(1)] assms(2) scan_range_def
      lookat_part_number_def check_conditions_def no_conditions_def no_options_def check_options_unsupported_def)

lemma stream_ok:
  assumes "at_rest object f x w"
  shows "make_file_stream b object None (hash_entity_key b (look_info b f x)) w
    = (Inr (H_file f (make_path_of_object object No_marker), None), w)"
proof -
  have x: "inode_at (disk w) f = x" "faults w = []" using assms by (simp_all add: at_rest_def look_file)
  show ?thesis
    using file_stat_ok [OF x(2)] x
    by (simp add: make_file_stream_def Let_def stepping open_object_ok [OF assms] make_entity_key_def inode_info_look)
qed

lemma get_object_ok:
  assumes "at_rest object f x w" "fetch_object_etag b object (hash_entity_key b (look_info b f x)) w = (Inr (etag, metainfo), w)"
    "metainfo \<noteq> None \<or> \<not> byte_size (Etag_save_threshold (config b)) \<le> fi_size (look_info b f x)"
  shows "\<exists>g. get_object b sfx (plain_get bucket key) object w = (Inr g, w)
    \<and> go_Body g = Some (H_file f (make_path_of_object object No_marker), None)
    \<and> go_ContentLength g = fi_size (look_info b f x) \<and> go_ETag g = etag \<and> go_Metadata g = get_metadata metainfo"
  using view_ok [OF assms, of sfx bucket key] stream_ok [OF assms(1), of b]
  by (simp add: get_object_def stepping content_length_def) (simp add: plain_get_def stepping)

lemma put_metainfo_headers:
  assumes "put_metainfo b object i k csum = ok metainfo"
  shows "get_metadata metainfo = pi_Metadata i"
  using assms by (auto simp: put_metainfo_def merge_metainfo_with_content_headers_def metainfo_null_for_zero_def
      with_content_headers_def get_metadata_def Let_def split: sum.splits)

text \<open>
  No metafile of an earlier object lies beside the key, and no request that runs in between makes
  one; or the upload has metadata, and so a metafile of its own.
\<close>

definition no_old_meta :: "string \<Rightarrow> put_input \<Rightarrow> world \<Rightarrow> bool" where
  "no_old_meta object i w \<longleftrightarrow>
     pi_Metadata i \<noteq> None \<or> node_at (disk w) (meta_path object) = None \<and> calm {meta_path object} (waits w)"

lemma put_get_arrives:
  assumes "PutObject b (Scratch_marker h) q i w = (Inr out, w')" "marker_ok (Scratch_marker h)"
    "pi_Bucket i = Some bucket" "pi_Key i = Some key" "good_key key" "begins (put_name i) (Scratch_marker h) w"
    "disk v = disk w'" "faults v = []"
  shows "\<exists>d g f. payload_of b (put_name i) q (announced i) = Some d
    \<and> GetObject b sfx (plain_get bucket key) v = (Inr g, v)
    \<and> go_Body g = Some (f, None) \<and> file_read b f v = (Inr (d, None), v)
    \<and> go_ContentLength g = int (length d)
    \<and> (no_old_meta (put_name i) i w \<longrightarrow> go_ETag g = po_ETag out \<and> go_Metadata g = pi_Metadata i)"
proof -
  let ?o = "put_name i"
  note g = PutObject_done(1) [OF assms(1,2,4,5,6)]
  obtain u where u: "put_object b (Scratch_marker h) q i ?o u = (Inr out, w')" "disk u = disk w" "waits u = waits w"
    "open_inodes u = open_inodes w" "req_header u = rq_Header q"
    using run_put_object [OF assms(1)] by blast
  have bu: "begins ?o (Scratch_marker h) u" using begins_cong [of u w] u assms(6) by simp
  obtain d f t k csumc metainfo where d: "payload_of b ?o q (announced i) = Some d"
    "look (disk w') (obj_path ?o) = (Some (File f), Some \<lparr>ino_content = Data d, ino_mtime = t\<rparr>)"
    "sound (disk w')" "reach (disk w') (obj_path ?o)" "put_metainfo b ?o i k csumc = ok metainfo"
    and po: "po_ETag out = make_object_etag_from_md5 (md5_sum b d)"
    and fm: "\<forall>m. final_meta b metainfo (hash_entity_key b (look_info b f \<lparr>ino_content = Data d, ino_mtime = t\<rparr>))
           (po_ETag out) (int (length d)) = Some m \<longrightarrow>
         file_content (disk w') (meta_path ?o) = Some (Json (stored_meta m))"
    and bare: "final_meta b metainfo (hash_entity_key b (look_info b f \<lparr>ino_content = Data d, ino_mtime = t\<rparr>))
           (po_ETag out) (int (length d)) = None \<longrightarrow>
         frame {scratch_path ?o (Scratch_marker h), meta_scratch ?o (Scratch_marker h)} {meta_path ?o} u w'"
    using put_object_done [OF u(1) bu own_ok_good [OF g assms(2)] own_dirs_apart [OF g assms(2)] u(5)]
    by (elim exE conjE) (rule that)
  define x where "x = \<lparr>ino_content = Data d, ino_mtime = t\<rparr>"
  have rest: "at_rest ?o f x v"
    using d(2-4) assms(7,8) no_slash_end [OF g, of No_marker] by (simp add: at_rest_def x_def)
  have sz: "fi_size (look_info b f x) = int (length d)" by (simp add: look_info_def x_def content_bytes_def)
  let ?e = "hash_entity_key b (look_info b f x)"
  let ?mi = "current_meta b (disk v) ?o ?e"
  have e: "fetch_object_etag b ?o ?e v = (Inr (object_etag b (disk v) ?o f x, ?mi), v)"
    using rest assms(7) reach_meta [OF g d(4)] no_slash_end [OF g, of Meta_marker] by (intro etag_look) simp_all
  have stored: "?mi = Some (m\<lparr>Metafile_format := Bbs_metafile_format\<rparr>) \<and> ETag m = po_ETag out \<and> Headers m = get_metadata metainfo"
    if m: "final_meta b metainfo ?e (po_ETag out) (int (length d)) = Some m" for m
  proof -
    have k: "Entity_key m = ?e" "ETag m = po_ETag out" "Headers m = get_metadata metainfo"
      using m by (auto simp: final_meta_def get_metadata_def empty_meta_def split: option.splits if_splits)
    moreover have "file_content (disk v) (meta_path ?o) = Some (Json (stored_meta m))"
      using fm m assms(7) by (simp add: x_def)
    ultimately show ?thesis by (simp add: current_meta_def decode_meta_def stored_meta_def)
  qed
  have save: "?mi \<noteq> None \<or> \<not> byte_size (Etag_save_threshold (config b)) \<le> fi_size (look_info b f x)"
    using stored sz by (cases "final_meta b metainfo ?e (po_ETag out) (int (length d))") (auto simp: final_meta_None)
  obtain r where r: "get_object b sfx (plain_get bucket key) ?o v = (Inr r, v)"
    "go_Body r = Some (H_file f (make_path_of_object ?o No_marker), None)"
    "go_ContentLength r = int (length d)" "go_ETag r = object_etag b (disk v) ?o f x" "go_Metadata r = get_metadata ?mi"
    using get_object_ok [OF rest e save, of sfx bucket key] sz by auto
  have meta: "go_ETag r = po_ETag out \<and> go_Metadata r = pi_Metadata i" if no: "no_old_meta ?o i w"
  proof (cases "final_meta b metainfo ?e (po_ETag out) (int (length d))")
    case (Some m)
    then show ?thesis using stored put_metainfo_headers [OF d(5)] r(4,5) by (simp add: object_etag_def get_metadata_def)
  next
    case None
    then have "pi_Metadata i = None" using put_metainfo_headers [OF d(5)] by (auto simp: final_meta_None get_metadata_def)
    then have n: "node_at (disk w) (meta_path ?o) = None" "calm {meta_path ?o} (waits u)"
      using no u(3) by (simp_all add: no_old_meta_def)
    have "guard {scratch_path ?o (Scratch_marker h), meta_scratch ?o (Scratch_marker h)} {meta_path ?o} u"
      using begins_guard [OF bu subset_refl n(2)] .
    then have "look (disk w') (meta_path ?o) = look (disk w) (meta_path ?o)"
      using bare None u(2) by (simp add: frame_def same_look_def x_def)
    then have "file_content (disk v) (meta_path ?o) = None"
      using n(1) assms(7) by (auto simp: look_def file_content_def split: option.splits)
    then show ?thesis using r(4,5) po \<open>pi_Metadata i = None\<close>
      by (simp add: object_etag_def current_meta_def get_metadata_def x_def content_bytes_def)
  qed
  note s = run_put_setup [OF assms(1,3,4)]
  have "node_at (disk v) [bucket] = Some Dir"
    using d(4) assms(7) bucket_is_prefix [OF s(1) assms(5)] assms(3,4) by (auto simp: reach_def put_name_def)
  then have "check_usual_object_setup b (Some bucket) (Some key) v = (Inr ?o, v)"
    using setup_ok [OF s assms(8)] d(3) assms(3,4,7) by (simp add: put_name_def)
  then have "GetObject b sfx (plain_get bucket key) v = (Inr r, v)"
    using r(1) by (simp add: GetObject_def seqE_def) (simp add: plain_get_def)
  moreover have "file_read b (H_file f (make_path_of_object ?o No_marker)) v = (Inr (d, None), v)"
    using file_read_ok [OF assms(8)] rest by (simp add: at_rest_def look_file x_def content_bytes_def)
  ultimately show ?thesis using d(1) r(2,3) meta by blast
qed

text \<open>
  Claim C2.  An object that has been uploaded is downloaded as it was sent: after a PutObject that
  is answered with success, where no metafile of an earlier object lies beside the key or the upload has
  metadata of its own, a GetObject of the same key succeeds when no system call fails, and
  what it delivers is the payload of the upload, whole, with its length, the ETag that the upload
  was answered with, and the user metadata of the upload, none when it had none.
\<close>

theorem put_get_roundtrip:
  assumes "PutObject b (Scratch_marker h) q i w = (Inr out, w')" "marker_ok (Scratch_marker h)"
    "pi_Bucket i = Some bucket" "pi_Key i = Some key" "good_key key" "begins (put_name i) (Scratch_marker h) w"
    "no_old_meta (put_name i) i w" "disk v = disk w'" "faults v = []"
  shows "\<exists>d g f. payload_of b (put_name i) q (announced i) = Some d
    \<and> GetObject b sfx (plain_get bucket key) v = (Inr g, v)
    \<and> go_Body g = Some (f, None) \<and> file_read b f v = (Inr (d, None), v)
    \<and> go_ContentLength g = int (length d)
    \<and> go_ETag g = po_ETag out \<and> go_Metadata g = pi_Metadata i"
  using put_get_arrives [OF assms(1-6,8,9)] assms(7) by simp

text \<open>An upload with metadata, and one without.\<close>

definition example_tagged :: put_input where
  "example_tagged = (example_put None)\<lparr>pi_Metadata := Some [(''x-amz-meta-a'', ''1'')]\<rparr>"

lemma example_tagged_ok:
  "\<exists>out w'. PutObject example_bbs example_sfx example_upload example_tagged example_world = (Inr out, w')"
proof -
  have "case fst (PutObject example_bbs example_sfx example_upload example_tagged example_world) of
      Inr out \<Rightarrow> True | Inl _ \<Rightarrow> False" by code_simp
  then show ?thesis
    by (cases "PutObject example_bbs example_sfx example_upload example_tagged example_world") (auto split: sum.splits)
qed

lemma example_no_old_meta: "no_old_meta ''bkt/x'' (example_put None) example_world"
proof -
  have "node_at (disk example_world) (meta_path ''bkt/x'') = None" "waits example_world = []" by code_simp+
  then show ?thesis by (simp add: no_old_meta_def)
qed

theorem put_get_roundtrip_witness:
  "(\<exists>out w' g f. PutObject example_bbs example_sfx example_upload example_tagged example_world = (Inr out, w')
     \<and> GetObject example_bbs No_marker (plain_get ''bkt'' ''x'') (w'\<lparr>faults := []\<rparr>) = (Inr g, w'\<lparr>faults := []\<rparr>)
     \<and> go_Body g = Some (f, None) \<and> go_ContentLength g = 3 \<and> go_ETag g = po_ETag out
     \<and> go_Metadata g = Some [(''x-amz-meta-a'', ''1'')])
   \<and> (\<exists>out w' g f. example_run None = (Inr out, w')
     \<and> GetObject example_bbs No_marker (plain_get ''bkt'' ''x'') (w'\<lparr>faults := []\<rparr>) = (Inr g, w'\<lparr>faults := []\<rparr>)
     \<and> go_Body g = Some (f, None) \<and> go_ContentLength g = 3 \<and> go_ETag g = po_ETag out \<and> go_Metadata g = None)"
proof
  have s: "pi_Bucket example_tagged = Some ''bkt''" "pi_Key example_tagged = Some ''x''" "put_name example_tagged = ''bkt/x''"
    "announced example_tagged = announced (example_put None)" "pi_Metadata example_tagged = Some [(''x-amz-meta-a'', ''1'')]"
    "pi_Bucket (example_put None) = Some ''bkt''" "pi_Metadata (example_put None) = None"
    using example_put_name by (simp_all add: example_tagged_def example_put_def put_name_def announced_def)
  obtain out w' where r: "PutObject example_bbs example_sfx example_upload example_tagged example_world = (Inr out, w')"
    using example_tagged_ok by blast
  have "no_old_meta (put_name example_tagged) example_tagged example_world" by (simp add: no_old_meta_def s)
  from put_get_roundtrip [OF r example_sfx_ok s(1,2) example_put_name(3) _ this, of "w'\<lparr>faults := []\<rparr>" No_marker]
    example_begins r
  show "\<exists>out w' g f. PutObject example_bbs example_sfx example_upload example_tagged example_world = (Inr out, w')
     \<and> GetObject example_bbs No_marker (plain_get ''bkt'' ''x'') (w'\<lparr>faults := []\<rparr>) = (Inr g, w'\<lparr>faults := []\<rparr>)
     \<and> go_Body g = Some (f, None) \<and> go_ContentLength g = 3 \<and> go_ETag g = po_ETag out
     \<and> go_Metadata g = Some [(''x-amz-meta-a'', ''1'')]"
    by (fastforce simp: example_put_name s)
  obtain out w' where r: "example_run None = (Inr out, w')" using example_run_ok by blast
  have "no_old_meta (put_name (example_put None)) (example_put None) example_world"
    using example_no_old_meta by (simp add: example_put_name)
  from put_get_roundtrip [OF r example_sfx_ok s(6) example_put_name(2,3) _ this, of "w'\<lparr>faults := []\<rparr>" No_marker]
    example_begins r
  show "\<exists>out w' g f. example_run None = (Inr out, w')
     \<and> GetObject example_bbs No_marker (plain_get ''bkt'' ''x'') (w'\<lparr>faults := []\<rparr>) = (Inr g, w'\<lparr>faults := []\<rparr>)
     \<and> go_Body g = Some (f, None) \<and> go_ContentLength g = 3 \<and> go_ETag g = po_ETag out \<and> go_Metadata g = None"
    by (fastforce simp: example_put_name s)
qed

end
