(* ===== verification/Monitor.thy ===== *)
theory Monitor
  imports Prelude "HOL-Library.AList"
begin

text \<open>
  The monitor of v1/server/monitor.go that serializes the accesses to an object.  Its queues,
  the guard loop and the tasks that use it are one state, and an event is one atomic step of
  the guard or of a task: what is done under the mutex, a rendezvous on the channel
  m.schedule, a broadcast.  The value of settling is the task that has decided to wait and
  holds the mutex until it is on the list of the condition variable; a broadcast does not take
  the mutex and can come in between.  Times are in nanoseconds.  Done is left out: only the
  tests call it.
\<close>

section \<open>The queues\<close>

record wait_task =
  rid :: nat
  due :: int
  start :: int

type_synonym queues = "(string \<times> wait_task list) list"

definition queue_at :: "queues \<Rightarrow> string \<Rightarrow> wait_task list" where
  "queue_at ws object = (case map_of ws object of None \<Rightarrow> [] | Some q \<Rightarrow> q)"

text \<open>Storing a queue; an empty one is deleted from the map.\<close>

definition put_queue :: "string \<Rightarrow> wait_task list \<Rightarrow> queues \<Rightarrow> queues" where
  "put_queue object q ws = (if q = [] then AList.delete object ws else AList.update object q ws)"

definition enter_queue :: "string \<Rightarrow> nat \<Rightarrow> int \<Rightarrow> int \<Rightarrow> queues \<Rightarrow> queues" where
  "enter_queue object r d t ws =
     AList.update object (queue_at ws object @ [\<lparr>rid = r, due = d, start = t\<rparr>]) ws"

text \<open>slices.IndexFunc and slices.Delete: without the first entry of a task.\<close>

fun delete_task :: "nat \<Rightarrow> wait_task list \<Rightarrow> wait_task list" where
  "delete_task r [] = []"
| "delete_task r (e # q) = (if rid e = r then q else e # delete_task r q)"

text \<open>One round of the loop of Enter.\<close>

datatype verdict = V_fatal | V_timeout queues | V_enter queues | V_wait

definition enter_round :: "int \<Rightarrow> string \<Rightarrow> nat \<Rightarrow> int \<Rightarrow> queues \<Rightarrow> verdict" where
  "enter_round now object r d ws =
     (let queue2 = queue_at ws object in
      if queue2 = [] then V_fatal
      else if \<not> now < d then
        (if list_ex (\<lambda>e. rid e = r) queue2 then V_timeout (put_queue object (delete_task r queue2) ws)
         else V_fatal)
      else if rid (hd queue2) = r
      then V_enter (AList.update object (hd queue2\<lparr>start := now\<rparr> # tl queue2) ws)
      else V_wait)"

text \<open>Exit: the queues and the time spent in the region, or None for log.Fatal.\<close>

definition exit_queue :: "int \<Rightarrow> string \<Rightarrow> nat \<Rightarrow> queues \<Rightarrow> (queues \<times> int) option" where
  "exit_queue now object r ws =
     (let queue1 = queue_at ws object in
      if queue1 \<noteq> [] \<and> rid (hd queue1) = r
      then Some (put_queue object (tl queue1) ws, now - start (hd queue1)) else None)"

definition Attest :: "string \<Rightarrow> nat \<Rightarrow> queues \<Rightarrow> bool" where
  "Attest object r ws \<longleftrightarrow> queue_at ws object \<noteq> [] \<and> rid (hd (queue_at ws object)) = r"

text \<open>When the guard has to wake the tasks next; the first entry of a queue is in service.\<close>

definition second :: int where "second = 1000000000"

definition smallwait :: int where "smallwait = 1000000"

definition next_due :: "int \<Rightarrow> queues \<Rightarrow> int" where
  "next_due now ws =
     fold (\<lambda>(k, q) acc. fold (\<lambda>e acc. if due e < acc then due e else acc) (drop 1 q) acc) ws
       (now + 3600 * second)"

definition guard_delay :: "int \<Rightarrow> queues \<Rightarrow> int" where
  "guard_delay now ws = max (next_due now ws - now) smallwait"

section \<open>The guard and the tasks\<close>

text \<open>
  The phases of a task: it has called Enter, has put itself into the queue and sends on the
  channel, is ready for the next round, has decided to wait, waits on the condition variable,
  is in the region, has left the queue and sends on the channel.
\<close>

datatype phase =
    Away
  | Arriving string int int
  | Announcing string int
  | Ready string int
  | Settling string int
  | Sleeping string int
  | Inside string
  | Leaving

text \<open>Guard_loop: before time.Now, before the lock, before the timer is set, in select, before Broadcast.\<close>

datatype guard_phase = G_begin | G_scan int | G_reset int | G_select int | G_wake

record mstate =
  clock :: int
  waitings :: queues
  task :: "nat \<Rightarrow> phase"
  guard :: guard_phase
  settling :: "nat option"
  fatal :: bool

datatype event =
    Tick nat
  | Call nat string int
  | Append nat
  | Announce nat
  | Round nat
  | Sleep nat
  | Exit nat
  | Signal nat
  | Guard_now
  | Guard_scan
  | Guard_reset
  | Guard_timer
  | Guard_wake

definition set_task :: "nat \<Rightarrow> phase \<Rightarrow> mstate \<Rightarrow> mstate" where
  "set_task r p s = s\<lparr>task := (task s)(r := p)\<rparr>"

definition wake_up :: "phase \<Rightarrow> phase" where
  "wake_up p = (case p of Sleeping object d \<Rightarrow> Ready object d | _ \<Rightarrow> p)"

definition locked :: "mstate \<Rightarrow> bool" where
  "locked s \<longleftrightarrow> settling s \<noteq> None"

definition round_step :: "nat \<Rightarrow> string \<Rightarrow> int \<Rightarrow> mstate \<Rightarrow> mstate" where
  "round_step r object d s =
     (case enter_round (clock s) object r d (waitings s) of
        V_fatal \<Rightarrow> s\<lparr>fatal := True\<rparr>
      | V_timeout ws \<Rightarrow> set_task r Away (s\<lparr>waitings := ws\<rparr>)
      | V_enter ws \<Rightarrow> set_task r (Inside object) (s\<lparr>waitings := ws\<rparr>)
      | V_wait \<Rightarrow> set_task r (Settling object d) (s\<lparr>settling := Some r\<rparr>))"

text \<open>An event that is not enabled, or comes after log.Fatal, is None.\<close>

fun task_step :: "event \<Rightarrow> mstate \<Rightarrow> mstate option" where
  "task_step (Call r object d) s =
     (if task s r = Away then Some (set_task r (Arriving object (clock s + d) (clock s)) s) else None)"
| "task_step (Append r) s =
     (case task s r of
        Arriving object d t \<Rightarrow>
          if locked s then None
          else Some (set_task r (Announcing object d) (s\<lparr>waitings := enter_queue object r d t (waitings s)\<rparr>))
      | _ \<Rightarrow> None)"
| "task_step (Announce r) s =
     (case (task s r, guard s) of
        (Announcing object d, G_select _) \<Rightarrow> Some (set_task r (Ready object d) (s\<lparr>guard := G_wake\<rparr>))
      | _ \<Rightarrow> None)"
| "task_step (Round r) s =
     (case task s r of
        Ready object d \<Rightarrow> if locked s then None else Some (round_step r object d s)
      | _ \<Rightarrow> None)"
| "task_step (Sleep r) s =
     (case task s r of
        Settling object d \<Rightarrow> Some (set_task r (Sleeping object d) (s\<lparr>settling := None\<rparr>))
      | _ \<Rightarrow> None)"
| "task_step (Exit r) s =
     (case task s r of
        Inside object \<Rightarrow>
          if locked s then None
          else (case exit_queue (clock s) object r (waitings s) of
            None \<Rightarrow> Some (s\<lparr>fatal := True\<rparr>)
          | Some (ws, _) \<Rightarrow> Some (set_task r Leaving (s\<lparr>waitings := ws\<rparr>)))
      | _ \<Rightarrow> None)"
| "task_step (Signal r) s =
     (case (task s r, guard s) of
        (Leaving, G_select _) \<Rightarrow> Some (set_task r Away (s\<lparr>guard := G_wake\<rparr>))
      | _ \<Rightarrow> None)"
| "task_step _ s = None"

fun guard_step :: "event \<Rightarrow> mstate \<Rightarrow> mstate option" where
  "guard_step Guard_now s = (if guard s = G_begin then Some (s\<lparr>guard := G_scan (clock s)\<rparr>) else None)"
| "guard_step Guard_scan s =
     (case guard s of
        G_scan now \<Rightarrow> if locked s then None else Some (s\<lparr>guard := G_reset (guard_delay now (waitings s))\<rparr>)
      | _ \<Rightarrow> None)"
| "guard_step Guard_reset s =
     (case guard s of G_reset d \<Rightarrow> Some (s\<lparr>guard := G_select (clock s + d)\<rparr>) | _ \<Rightarrow> None)"
| "guard_step Guard_timer s =
     (case guard s of
        G_select alarm \<Rightarrow> if alarm \<le> clock s then Some (s\<lparr>guard := G_wake\<rparr>) else None
      | _ \<Rightarrow> None)"
| "guard_step Guard_wake s =
     (if guard s = G_wake then Some (s\<lparr>guard := G_begin, task := wake_up \<circ> task s\<rparr>) else None)"
| "guard_step _ s = None"

definition exec :: "event \<Rightarrow> mstate \<Rightarrow> mstate option" where
  "exec e s =
     (if fatal s then None
      else case e of
        Tick n \<Rightarrow> Some (s\<lparr>clock := clock s + int n\<rparr>)
      | _ \<Rightarrow> (case guard_step e s of Some s' \<Rightarrow> Some s' | None \<Rightarrow> task_step e s))"

definition new_monitor :: "int \<Rightarrow> mstate" where
  "new_monitor t =
     \<lparr>clock = t, waitings = [], task = (\<lambda>_. Away), guard = G_begin, settling = None, fatal = False\<rparr>"

inductive reachable :: "mstate \<Rightarrow> bool" where
  reachable_new: "reachable (new_monitor t)"
| reachable_exec: "reachable s \<Longrightarrow> exec e s = Some s' \<Longrightarrow> reachable s'"

section \<open>What a queue is after an operation\<close>

text \<open>The tasks of a queue in their order, all the invariants look at.\<close>

definition rids :: "queues \<Rightarrow> string \<Rightarrow> nat list" where
  "rids ws object = map rid (queue_at ws object)"

lemma rids_update: "rids (AList.update object q ws) = (rids ws)(object := map rid q)"
  by (auto simp: rids_def queue_at_def update_conv')

lemma rids_put: "rids (put_queue object q ws) = (rids ws)(object := map rid q)"
  by (auto simp: put_queue_def rids_update) (auto simp: rids_def queue_at_def delete_conv')

lemma rids_enter: "rids (enter_queue object r d t ws) = (rids ws)(object := rids ws object @ [r])"
  by (simp add: enter_queue_def rids_update) (simp add: rids_def)

lemma map_delete_task: "map rid (delete_task r q) = remove1 r (map rid q)"
  by (induction q) auto

lemma queue_nil: "queue_at ws object = [] \<longleftrightarrow> rids ws object = []"
  by (simp add: rids_def)

lemma enter_round_cases:
  "enter_round now object r d ws = V_fatal \<Longrightarrow> r \<notin> set (rids ws object)"
  "enter_round now object r d ws = V_timeout ws' \<Longrightarrow>
     d \<le> now \<and> rids ws' = (rids ws)(object := remove1 r (rids ws object))"
  "enter_round now object r d ws = V_enter ws' \<Longrightarrow>
     now < d \<and> rids ws' = rids ws \<and> (\<exists>q. rids ws object = r # q)"
  "enter_round now object r d ws = V_wait \<Longrightarrow> now < d \<and> rids ws object \<noteq> [] \<and> hd (rids ws object) \<noteq> r"
  by (cases "queue_at ws object";
      auto simp: enter_round_def Let_def rids_def rids_put rids_update map_delete_task list_ex_iff
        split: if_splits)+

lemma exit_queue_cases:
  "exit_queue now object r ws = None \<Longrightarrow> \<not> (\<exists>q. rids ws object = r # q)"
  "exit_queue now object r ws = Some (ws', t) \<Longrightarrow>
     rids ws' = (rids ws)(object := tl (rids ws object)) \<and> (\<exists>q. rids ws object = r # q)"
  by (cases "queue_at ws object"; auto simp: exit_queue_def Let_def rids_def rids_put split: if_splits)+

lemma Attest_rids: "Attest object r ws \<longleftrightarrow> (\<exists>q. rids ws object = r # q)"
  by (cases "queue_at ws object") (auto simp: Attest_def rids_def)

section \<open>The invariant\<close>

text \<open>The object in whose queue a task is.\<close>

fun region :: "phase \<Rightarrow> string option" where
  "region (Announcing object d) = Some object"
| "region (Ready object d) = Some object"
| "region (Settling object d) = Some object"
| "region (Sleeping object d) = Some object"
| "region (Inside object) = Some object"
| "region _ = None"

lemma region_wake_up [simp]: "region (wake_up p) = region p"
  by (cases p) (simp_all add: wake_up_def)

lemma wake_up_simps [simp]:
  "wake_up p = Inside object \<longleftrightarrow> p = Inside object"
  "wake_up p = Settling object d \<longleftrightarrow> p = Settling object d"
  "wake_up p \<noteq> Sleeping object d"
  "wake_up p = Leaving \<longleftrightarrow> p = Leaving"
  by (cases p; simp add: wake_up_def)+

text \<open>
  The queues hold the tasks that want a region or are in it, each once; the task in a region
  is the first of its queue; the one that holds the mutex to wait is not.
\<close>

definition monitor_inv :: "mstate \<Rightarrow> bool" where
  "monitor_inv s \<longleftrightarrow>
     \<not> fatal s
     \<and> (\<forall>object. distinct (rids (waitings s) object))
     \<and> (\<forall>object r. r \<in> set (rids (waitings s) object) \<longleftrightarrow> region (task s r) = Some object)
     \<and> (\<forall>object r. task s r = Inside object \<longrightarrow> (\<exists>q. rids (waitings s) object = r # q))
     \<and> (\<forall>object r d. task s r = Settling object d \<longrightarrow>
          settling s = Some r \<and> hd (rids (waitings s) object) \<noteq> r)
     \<and> (\<forall>r. settling s = Some r \<longrightarrow> (\<exists>object d. task s r = Settling object d))"

lemma monitor_invD:
  assumes "monitor_inv s"
  shows "\<not> fatal s" "distinct (rids (waitings s) object)"
    "r \<in> set (rids (waitings s) object) \<longleftrightarrow> region (task s r) = Some object"
    "task s r = Inside object \<Longrightarrow> \<exists>q. rids (waitings s) object = r # q"
    "task s r = Settling object d \<Longrightarrow> settling s = Some r \<and> hd (rids (waitings s) object) \<noteq> r"
    "settling s = Some r \<Longrightarrow> \<exists>object d. task s r = Settling object d"
  using assms unfolding monitor_inv_def by blast+

lemma monitor_inv_new: "monitor_inv (new_monitor t)"
  by (simp add: monitor_inv_def new_monitor_def rids_def queue_at_def)

lemma set_task_simps [simp]:
  "waitings (set_task r p s) = waitings s" "task (set_task r p s) = (task s)(r := p)"
  "guard (set_task r p s) = guard s" "settling (set_task r p s) = settling s"
  "clock (set_task r p s) = clock s" "fatal (set_task r p s) = fatal s"
  by (simp_all add: set_task_def)

lemma inv_append:
  assumes "monitor_inv s" "task s r = Arriving object d t" "\<not> locked s"
  shows "monitor_inv (set_task r (Announcing object d) (s\<lparr>waitings := enter_queue object r d t (waitings s)\<rparr>))"
proof -
  have n: "r \<notin> set (rids (waitings s) o')" for o'
    using monitor_invD(3) [OF assms(1)] assms(2) by simp
  show ?thesis
    using assms(1,3) n unfolding monitor_inv_def locked_def
    by (auto simp: rids_enter) (metis append_Cons)
qed

lemma inv_round:
  assumes "monitor_inv s" "task s r = Ready object d" "\<not> locked s"
  shows "monitor_inv (round_step r object d s)"
proof -
  have m: "r \<in> set (rids (waitings s) object)" "settling s = None"
    "\<And>o'. r \<in> set (rids (waitings s) o') \<Longrightarrow> o' = object"
    using monitor_invD(3) [OF assms(1)] assms(2,3) by (simp_all add: locked_def)
  show ?thesis
  proof (cases "enter_round (clock s) object r d (waitings s)")
    case V_fatal
    then show ?thesis using enter_round_cases(1) m(1) by blast
  next
    case (V_timeout ws)
    note e = enter_round_cases(2) [OF V_timeout]
    have "\<exists>q. remove1 r (rids (waitings s) object) = x # q" if "task s x = Inside object" for x
      using monitor_invD(4) [OF assms(1) that] assms(2) that by auto
    then show ?thesis
      using V_timeout e assms(1) m unfolding monitor_inv_def round_step_def
      by (simp add: set_remove1_eq)
  next
    case (V_enter ws)
    note e = enter_round_cases(3) [OF V_enter]
    have "settling s \<noteq> Some r" using m(2) by simp
    then show ?thesis
      using V_enter e assms(1,2) m(1,2) unfolding monitor_inv_def round_step_def by simp
  next
    case V_wait
    note e = enter_round_cases(4) [OF V_wait]
    then show ?thesis
      using V_wait e assms(1,2) m(1,2) unfolding monitor_inv_def round_step_def by simp
  qed
qed

lemma inv_exit:
  assumes "monitor_inv s" "task s r = Inside object" "\<not> locked s"
  shows "\<exists>ws t. exit_queue (clock s) object r (waitings s) = Some (ws, t)
    \<and> monitor_inv (set_task r Leaving (s\<lparr>waitings := ws\<rparr>))"
proof -
  obtain q where q: "rids (waitings s) object = r # q" using monitor_invD(4) [OF assms(1,2)] by blast
  then obtain ws t where x: "exit_queue (clock s) object r (waitings s) = Some (ws, t)"
    using exit_queue_cases(1) by (cases "exit_queue (clock s) object r (waitings s)") auto
  have d: "r \<notin> set q" "distinct q" using monitor_invD(2) [OF assms(1), of object] q by simp_all
  have m: "x \<in> set q \<longleftrightarrow> x \<noteq> r \<and> region (task s x) = Some object" for x
    using monitor_invD(3) [OF assms(1), of x object] q d(1) by auto
  have "task s x \<noteq> Inside object" if "x \<noteq> r" for x
    using monitor_invD(4) [OF assms(1), of x object] q that by auto
  moreover have "settling s = None" using assms(3) by (simp add: locked_def)
  ultimately show ?thesis
    using x exit_queue_cases(2) [OF x] assms(1,2) q d m unfolding monitor_inv_def by auto
qed

lemma inv_same:
  assumes "monitor_inv s" "waitings s' = waitings s" "settling s' = settling s" "fatal s' = fatal s"
    "\<And>x. region (task s' x) = region (task s x)"
    "\<And>x object. task s' x = Inside object \<longleftrightarrow> task s x = Inside object"
    "\<And>x object d. task s' x = Settling object d \<longleftrightarrow> task s x = Settling object d"
  shows "monitor_inv s'"
  using assms unfolding monitor_inv_def by simp

lemma inv_sleep:
  assumes "monitor_inv s" "task s r = Settling object d"
  shows "monitor_inv (set_task r (Sleeping object d) (s\<lparr>settling := None\<rparr>))"
proof -
  have "settling s = Some r" using monitor_invD(5) [OF assms] by simp
  then have "task s x \<noteq> Settling o' d'" if "x \<noteq> r" for x o' d'
    using monitor_invD(5) [OF assms(1), of x o' d'] that by auto
  then show ?thesis using assms unfolding monitor_inv_def by auto
qed

text \<open>Which event changed what; the events of the guard and of the clock change no queue.\<close>

lemma exec_cases:
  assumes "exec e s = Some s'"
  obtains (append) r object d t where "e = Append r" "task s r = Arriving object d t" "\<not> locked s"
      "s' = set_task r (Announcing object d) (s\<lparr>waitings := enter_queue object r d t (waitings s)\<rparr>)"
  | (round) r object d where "e = Round r" "task s r = Ready object d" "\<not> locked s" "s' = round_step r object d s"
  | (sleep) r object d where "e = Sleep r" "task s r = Settling object d"
      "s' = set_task r (Sleeping object d) (s\<lparr>settling := None\<rparr>)"
  | (exit) r object where "e = Exit r" "task s r = Inside object" "\<not> locked s"
      "s' = (case exit_queue (clock s) object r (waitings s) of
               None \<Rightarrow> s\<lparr>fatal := True\<rparr> | Some (ws, t) \<Rightarrow> set_task r Leaving (s\<lparr>waitings := ws\<rparr>))"
  | (call) r object d where "e = Call r object d" "task s r = Away"
      "s' = set_task r (Arriving object (clock s + d) (clock s)) s"
  | (announce) r object d a where "e = Announce r" "task s r = Announcing object d" "guard s = G_select a"
      "s' = set_task r (Ready object d) (s\<lparr>guard := G_wake\<rparr>)"
  | (signal) r a where "e = Signal r" "task s r = Leaving" "guard s = G_select a"
      "s' = set_task r Away (s\<lparr>guard := G_wake\<rparr>)"
  | (wake) "e = Guard_wake" "guard s = G_wake" "s' = s\<lparr>guard := G_begin, task := wake_up \<circ> task s\<rparr>"
  | (idle) g t where "guard s \<noteq> G_wake \<or> g = G_wake" "s' = s\<lparr>guard := g, clock := t\<rparr>"
proof (cases e)
  case (Tick n)
  then show ?thesis using assms idle [of "guard s" "clock s + int n"]
    by (auto simp: exec_def split: if_splits)
next
  case Guard_now
  then show ?thesis using assms idle [of _ "clock s"] by (auto simp: exec_def split: if_splits)
next
  case Guard_scan
  then show ?thesis using assms idle [of _ "clock s"] by (auto simp: exec_def split: if_splits guard_phase.splits)
next
  case Guard_reset
  then show ?thesis using assms idle [of _ "clock s"] by (auto simp: exec_def split: if_splits guard_phase.splits)
next
  case Guard_timer
  then show ?thesis using assms idle [of _ "clock s"] by (auto simp: exec_def split: if_splits guard_phase.splits)
next
  case Guard_wake
  then show ?thesis using assms wake by (auto simp: exec_def split: if_splits)
next
  case (Call r object d)
  then show ?thesis using assms call by (auto simp: exec_def split: if_splits)
next
  case (Append r)
  then show ?thesis using assms append by (auto simp: exec_def split: if_splits phase.splits)
next
  case (Announce r)
  then show ?thesis using assms announce by (auto simp: exec_def split: if_splits phase.splits guard_phase.splits)
next
  case (Round r)
  then show ?thesis using assms round by (auto simp: exec_def split: if_splits phase.splits)
next
  case (Sleep r)
  then show ?thesis using assms sleep by (auto simp: exec_def split: if_splits phase.splits)
next
  case (Exit r)
  then show ?thesis using assms exit by (auto simp: exec_def split: if_splits phase.splits option.splits)
next
  case (Signal r)
  then show ?thesis using assms signal by (auto simp: exec_def split: if_splits phase.splits guard_phase.splits)
qed

lemma inv_exec:
  assumes "monitor_inv s" "exec e s = Some s'"
  shows "monitor_inv s'"
  using assms(2)
proof (cases rule: exec_cases)
  case append
  then show ?thesis using inv_append [OF assms(1)] by blast
next
  case round
  then show ?thesis using inv_round [OF assms(1)] by blast
next
  case sleep
  then show ?thesis using inv_sleep [OF assms(1)] by blast
next
  case (exit r object)
  then show ?thesis using inv_exit [OF assms(1)] by fastforce
next
  case (wake)
  then show ?thesis by (intro inv_same [OF assms(1)]) simp_all
next
  case idle
  then show ?thesis by (intro inv_same [OF assms(1)]) simp_all
qed (intro inv_same [OF assms(1)]; auto)+

lemma inv_reachable: "reachable s \<Longrightarrow> monitor_inv s"
  by (induction rule: reachable.induct) (auto intro: monitor_inv_new inv_exec)

section \<open>Exclusion and order\<close>

lemma Inside_Attest: "monitor_inv s \<Longrightarrow> task s r = Inside object \<Longrightarrow> Attest object r (waitings s)"
  using monitor_invD(4) by (simp add: Attest_rids)

text \<open>
  Claim C26.  However the tasks and the guard interleave, and whatever the deadlines are, two
  tasks are never in the region of one object at the same time, and Attest is true exactly of
  the task that is in the region, when it is asked by a task that does not wait.
\<close>

theorem monitor_excludes:
  assumes "reachable s" "task s x = Inside object"
  shows "Attest object x (waitings s) \<and> (task s y = Inside object \<longrightarrow> x = y)
    \<and> (region (task s y) = None \<longrightarrow> \<not> Attest object y (waitings s))"
proof -
  note i = inv_reachable [OF assms(1)]
  have a: "Attest object x (waitings s)" using Inside_Attest [OF i assms(2)] .
  moreover have "task s y = Inside object \<Longrightarrow> x = y"
    using Inside_Attest [OF i] a by (simp add: Attest_def)
  moreover have "region (task s y) = None \<Longrightarrow> \<not> Attest object y (waitings s)"
    using monitor_invD(3) [OF i, of y object] by (auto simp: Attest_rids)
  ultimately show ?thesis by blast
qed

text \<open>
  Claim C30.  The three log.Fatal of the monitor are never reached by tasks that leave a region
  if and only if they have entered it.
\<close>

theorem monitor_never_fatal:
  assumes "reachable s" "exec e s = Some s'"
  shows "\<not> fatal s'"
  using inv_reachable [OF reachable_exec [OF assms]] by (rule monitor_invD)

text \<open>A task that stands before another in the queue of an object.\<close>

definition ahead :: "mstate \<Rightarrow> string \<Rightarrow> nat \<Rightarrow> nat \<Rightarrow> bool" where
  "ahead s object x y \<longleftrightarrow> (\<exists>a b c. rids (waitings s) object = a @ x # b @ y # c)"

lemma ahead_remove1:
  assumes "distinct (a @ x # b @ y # c)" "z \<noteq> x" "z \<noteq> y"
  shows "\<exists>a' b' c'. remove1 z (a @ x # b @ y # c) = a' @ x # b' @ y # c'"
  using assms by (auto simp: remove1_append)

lemma ahead_append: "rids (waitings s) object = a @ x # b @ y # c \<Longrightarrow>
    rids (waitings s) object @ zs = a @ x # b @ y # (c @ zs)"
  by simp

lemma ahead_tl: "\<exists>a' b' c'. tl (a @ x # b @ y # c) = a' @ x # b' @ y # c' \<or> x \<notin> set (tl (a @ x # b @ y # c))"
  if "distinct (a @ x # b @ y # c)"
  using that by (cases a) auto

lemma fifo_waits:
  assumes "reachable s" "ahead s object x y"
  shows "task s y \<noteq> Inside object"
proof -
  note i = inv_reachable [OF assms(1)]
  obtain a b c where q: "rids (waitings s) object = a @ x # b @ y # c" using assms(2) by (auto simp: ahead_def)
  then have "distinct (a @ x # b @ y # c)" using monitor_invD(2) [OF i, of object] by simp
  then show ?thesis using monitor_invD(4) [OF i, of y object] q by (cases a) auto
qed

lemma fifo_step:
  assumes "reachable s" "ahead s object x y" "exec e s = Some s'"
  shows "ahead s' object x y \<or> x \<notin> set (rids (waitings s') object) \<or> y \<notin> set (rids (waitings s') object)"
proof -
  note i = inv_reachable [OF assms(1)]
  obtain a b c where q: "rids (waitings s) object = a @ x # b @ y # c" using assms(2) by (auto simp: ahead_def)
  have d: "distinct (a @ x # b @ y # c)" using monitor_invD(2) [OF i, of object] q by simp
  from assms(3) show ?thesis
  proof (cases rule: exec_cases)
    case (append r o' d t)
    then show ?thesis using q by (cases "o' = object") (auto simp: ahead_def rids_enter)
  next
    case (round r o' d)
    show ?thesis
    proof (cases "enter_round (clock s) o' r d (waitings s)")
      case (V_timeout ws)
      note e = enter_round_cases(2) [OF V_timeout]
      show ?thesis
      proof (cases "o' = object \<and> (r = x \<or> r = y)")
        case True
        then show ?thesis using e V_timeout round d q by (auto simp: round_step_def)
      next
        case False
        then show ?thesis using e V_timeout round q ahead_remove1 [OF d, of r]
          by (auto simp: round_step_def ahead_def)
      qed
    qed (use enter_round_cases(3) [of "clock s" o' r d "waitings s"] round assms(2) in
          \<open>auto simp: round_step_def ahead_def\<close>)
  next
    case (exit r o')
    show ?thesis
    proof (cases "exit_queue (clock s) o' r (waitings s)")
      case (Some p)
      then show ?thesis
        using exit exit_queue_cases(2) [of "clock s" o' r "waitings s"] ahead_tl [OF d] assms(2) q
        by (cases p; cases "o' = object") (auto simp: ahead_def)
    qed (use exit assms(2) in \<open>auto simp: ahead_def\<close>)
  qed (use assms(2) in \<open>auto simp: ahead_def\<close>)
qed

fun run :: "event list \<Rightarrow> mstate \<Rightarrow> mstate option" where
  "run [] s = Some s"
| "run (e # es) s = (case exec e s of None \<Rightarrow> None | Some s' \<Rightarrow> run es s')"

lemma run_append: "run (es @ fs) s = (case run es s of None \<Rightarrow> None | Some s' \<Rightarrow> run fs s')"
  by (induction es arbitrary: s) (auto split: option.splits)

lemma run_reachable: "run es s = Some s' \<Longrightarrow> reachable s \<Longrightarrow> reachable s'"
  by (induction es arbitrary: s) (auto split: option.splits intro: reachable_exec)

text \<open>A task that joins a queue stands behind all that are in it.\<close>

lemma fifo_joins:
  assumes "reachable s" "exec e s = Some s'" "x \<in> set (rids (waitings s) object)" "y \<notin> set (rids (waitings s) object)"
    "x \<in> set (rids (waitings s') object)" "y \<in> set (rids (waitings s') object)"
  shows "ahead s' object x y"
  using assms(2)
proof (cases rule: exec_cases)
  case (append r o' d t)
  then have "o' = object" "r = y" using assms(4,6) by (auto simp: rids_enter split: if_splits)
  then have "rids (waitings s') object = rids (waitings s) object @ [y]" using append by (simp add: rids_enter)
  moreover obtain a b where "rids (waitings s) object = a @ x # b" using assms(3) by (meson split_list)
  ultimately show ?thesis by (auto simp: ahead_def)
next
  case (round r o' d)
  have "set (rids (waitings s') object) \<subseteq> set (rids (waitings s) object)"
  proof (cases "enter_round (clock s) o' r d (waitings s)")
    case (V_timeout ws)
    then show ?thesis using conjunct2 [OF enter_round_cases(2) [OF V_timeout]] round(4)
        set_remove1_subset [of r "rids (waitings s) o'"]
      by (simp add: round_step_def)
  next
    case (V_enter ws)
    then show ?thesis using enter_round_cases(3) [OF V_enter] round(4) by (simp add: round_step_def)
  qed (use round(4) in \<open>simp_all add: round_step_def\<close>)
  then show ?thesis using assms(4,6) by blast
next
  case (exit r o')
  have "set (rids (waitings s') object) \<subseteq> set (rids (waitings s) object)"
  proof (cases "exit_queue (clock s) o' r (waitings s)")
    case (Some p)
    then show ?thesis using exit(4) exit_queue_cases(2) [of "clock s" o' r "waitings s"]
      by (cases p; cases "rids (waitings s) o'") auto
  qed (use exit(4) in simp)
  then show ?thesis using assms(4,6) by blast
qed (use assms(4,6) in auto)

text \<open>The task is in the queue of the object, waiting or in the region, all through a run.\<close>

fun stays :: "string \<Rightarrow> nat \<Rightarrow> event list \<Rightarrow> mstate \<Rightarrow> bool" where
  "stays object r [] s \<longleftrightarrow> region (task s r) = Some object"
| "stays object r (e # es) s \<longleftrightarrow> region (task s r) = Some object
     \<and> (case exec e s of None \<Rightarrow> True | Some s' \<Rightarrow> stays object r es s')"

lemma stays_begin: "stays object r es s \<Longrightarrow> region (task s r) = Some object"
  by (cases es) auto

lemma fifo_run:
  assumes "run es s = Some s'" "reachable s" "stays object x es s" "x \<noteq> y"
    "y \<in> set (rids (waitings s) object) \<longrightarrow> ahead s object x y"
  shows "y \<in> set (rids (waitings s') object) \<longrightarrow> ahead s' object x y"
  using assms
proof (induction es arbitrary: s)
  case (Cons e es)
  obtain u where u: "exec e s = Some u" "run es u = Some s'" using Cons.prems(1) by (auto split: option.splits)
  have ru: "reachable u" using Cons.prems(2) u(1) by (rule reachable_exec)
  have st: "stays object x es u" "region (task s x) = Some object" using Cons.prems(3) u(1) by auto
  have xs: "x \<in> set (rids (waitings s) object)" "x \<in> set (rids (waitings u) object)"
    using st(2) stays_begin [OF st(1)] monitor_invD(3) [OF inv_reachable [OF Cons.prems(2)]]
      monitor_invD(3) [OF inv_reachable [OF ru]] by blast+
  have "y \<in> set (rids (waitings u) object) \<longrightarrow> ahead u object x y"
    using fifo_joins [OF Cons.prems(2) u(1) xs(1) _ xs(2)] fifo_step [OF Cons.prems(2) _ u(1)] Cons.prems(5) xs(2)
    by blast
  then show ?case using Cons.IH u(2) ru st(1) Cons.prems(4) by blast
qed simp

text \<open>
  Claim C28.  The region of an object is entered in the order in which the tasks have put themselves
  into its queue: when a task is in the queue and another is not yet, because it has not called
  Enter or has not come to the queue, the other is not in the region as long as the first has
  neither left it nor given up, whatever is done in between, also when the other calls, gives up
  and calls again.
\<close>

theorem monitor_fifo:
  assumes "reachable s" "region (task s x) = Some object" "region (task s y) \<noteq> Some object"
    "run es s = Some s'" "stays object x es s"
  shows "task s' y \<noteq> Inside object"
proof
  assume y: "task s' y = Inside object"
  have r: "reachable s'" using run_reachable assms(1,4) by blast
  have "y \<notin> set (rids (waitings s) object)"
    using monitor_invD(3) [OF inv_reachable [OF assms(1)]] assms(3) by blast
  moreover have "x \<noteq> y" using assms(2,3) by auto
  ultimately have "y \<in> set (rids (waitings s') object) \<longrightarrow> ahead s' object x y"
    using fifo_run [OF assms(4,1,5)] by blast
  moreover have "y \<in> set (rids (waitings s') object)"
    using monitor_invD(3) [OF inv_reachable [OF r], of y object] y by simp
  ultimately show False using fifo_waits [OF r] y by blast
qed

section \<open>Waking the next task\<close>

fun times_out :: "event \<Rightarrow> mstate \<Rightarrow> bool" where
  "times_out (Round r) s = (case task s r of Ready object d \<Rightarrow> d \<le> clock s | _ \<Rightarrow> False)"
| "times_out _ s = False"

text \<open>The runs in which no task has given up.\<close>

inductive prompt :: "mstate \<Rightarrow> bool" where
  prompt_new: "prompt (new_monitor t)"
| prompt_exec: "prompt s \<Longrightarrow> exec e s = Some s' \<Longrightarrow> \<not> times_out e s \<Longrightarrow> prompt s'"

lemma prompt_reachable: "prompt s \<Longrightarrow> reachable s"
  by (induction rule: prompt.induct) (auto intro: reachable.intros)

text \<open>A task that could enter but sleeps, and a state in which a broadcast is under way.\<close>

definition stuck :: "mstate \<Rightarrow> nat \<Rightarrow> bool" where
  "stuck s r \<longleftrightarrow> (\<exists>object d q. task s r = Sleeping object d \<and> rids (waitings s) object = r # q)"

definition alert :: "mstate \<Rightarrow> bool" where
  "alert s \<longleftrightarrow> guard s = G_wake \<or> (\<exists>x. task s x = Leaving)"

lemma alert_frame:
  assumes "alert s" "task s r \<noteq> Leaving" "guard s' = guard s" "\<And>x. x \<noteq> r \<Longrightarrow> task s' x = task s x"
  shows "alert s'"
  using assms unfolding alert_def by metis

lemma exit_Leaving:
  assumes "monitor_inv s" "task s r = Inside object" "\<not> locked s"
  shows "alert (case exit_queue (clock s) object r (waitings s) of
    None \<Rightarrow> s\<lparr>fatal := True\<rparr> | Some (ws, t) \<Rightarrow> set_task r Leaving (s\<lparr>waitings := ws\<rparr>))"
proof -
  obtain ws t where "exit_queue (clock s) object r (waitings s) = Some (ws, t)"
    using inv_exit [OF assms] by blast
  then show ?thesis by (auto simp: alert_def)
qed

lemma alert_exec:
  assumes "monitor_inv s" "alert s" "exec e s = Some s'"
  shows "alert s' \<or> (\<forall>r. \<not> stuck s' r)"
  using assms(3)
proof (cases rule: exec_cases)
  case (round r o' d)
  have "guard s' = guard s \<and> (\<forall>x. x \<noteq> r \<longrightarrow> task s' x = task s x)"
    using round by (cases "enter_round (clock s) o' r d (waitings s)") (simp_all add: round_step_def)
  then show ?thesis using alert_frame [OF assms(2), of r s'] round by simp
next
  case (exit r o')
  then show ?thesis using exit_Leaving [OF assms(1)] by simp
next
  case wake
  then show ?thesis by (simp add: stuck_def)
next
  case (append r)
  then show ?thesis using alert_frame [OF assms(2), of r s'] by simp
next
  case (sleep r)
  then show ?thesis using alert_frame [OF assms(2), of r s'] by simp
next
  case (call r)
  then show ?thesis using alert_frame [OF assms(2), of r s'] by simp
qed (use assms(2) in \<open>auto simp: alert_def\<close>)

lemma stuck_exec:
  assumes "monitor_inv s" "exec e s = Some s'" "\<not> times_out e s" "stuck s' x"
  shows "stuck s x \<or> alert s'"
  using assms(2)
proof (cases rule: exec_cases)
  case (append r o' d t)
  obtain object d' q where x: "task s' x = Sleeping object d'" "rids (waitings s') object = x # q"
    using assms(4) by (auto simp: stuck_def)
  have "x \<noteq> r" using x append by auto
  then have "rids (waitings s) object = x # tl (rids (waitings s) object)"
    using x(2) append by (cases "rids (waitings s) object") (auto simp: rids_enter split: if_splits)
  then show ?thesis using x(1) \<open>x \<noteq> r\<close> append by (auto simp: stuck_def)
next
  case (round r o' d)
  then have "clock s < d" using assms(3) by simp
  then have "rids (waitings s') = rids (waitings s) \<and> (\<forall>oo dd. task s' r \<noteq> Sleeping oo dd)
      \<and> (\<forall>x. x \<noteq> r \<longrightarrow> task s' x = task s x)"
    using round(2,4) enter_round_cases(2,3)
    by (cases "enter_round (clock s) o' r d (waitings s)") (fastforce simp: round_step_def)+
  then show ?thesis using assms(4) by (metis stuck_def)
next
  case (sleep r o' d)
  have "hd (rids (waitings s) o') \<noteq> r" using monitor_invD(5) [OF assms(1)] sleep by blast
  then show ?thesis using sleep assms(4) by (auto simp: stuck_def split: if_splits)
next
  case (exit r o')
  then show ?thesis using exit_Leaving [OF assms(1)] by simp
next
  case wake
  then show ?thesis using assms(4) by (simp add: stuck_def)
qed (use assms(4) in \<open>auto simp: stuck_def alert_def split: if_splits\<close>)

lemma wakeful_prompt: "prompt s \<Longrightarrow> stuck s r \<Longrightarrow> alert s"
proof (induction arbitrary: r rule: prompt.induct)
  case (prompt_new t)
  then show ?case by (simp add: stuck_def new_monitor_def)
next
  case (prompt_exec s e s')
  note i = inv_reachable [OF prompt_reachable [OF prompt_exec.hyps(1)]]
  show ?case
    using stuck_exec [OF i prompt_exec.hyps(2,3) prompt_exec.prems] prompt_exec.IH
      alert_exec [OF i _ prompt_exec.hyps(2)] prompt_exec.prems by blast
qed

lemma guard_to_select:
  assumes "\<not> fatal s" "\<not> locked s" "guard s \<noteq> G_wake"
  shows "\<exists>es a. length es \<le> 3 \<and> run es s = Some (s\<lparr>guard := G_select a\<rparr>)"
proof -
  let ?reset = "\<lambda>d. s\<lparr>guard := G_select (clock s + d)\<rparr>"
  have r: "run [Guard_reset] (s\<lparr>guard := G_reset d\<rparr>) = Some (?reset d)" for d
    using assms(1) by (simp add: exec_def)
  have c: "run [Guard_scan, Guard_reset] (s\<lparr>guard := G_scan t\<rparr>) = Some (?reset (guard_delay t (waitings s)))" for t
    using assms(1,2) by (simp add: exec_def locked_def)
  have n: "run [Guard_now, Guard_scan, Guard_reset] (s\<lparr>guard := G_begin\<rparr>)
      = Some (?reset (guard_delay (clock s) (waitings s)))"
    using assms(1,2) by (simp add: exec_def locked_def)
  show ?thesis
  proof (cases "guard s")
    case (G_select a)
    then have "s = s\<lparr>guard := G_select a\<rparr>" by simp
    then show ?thesis by (metis le0 list.size(3) run.simps(1))
  next
    case G_begin
    then have "s = s\<lparr>guard := G_begin\<rparr>" by simp
    with n show ?thesis by (metis length_Cons list.size(3) numeral_3_eq_3 order_refl)
  next
    case (G_scan t)
    then have "s = s\<lparr>guard := G_scan t\<rparr>" by simp
    with c [of t] have "run [Guard_scan, Guard_reset] s = Some (?reset (guard_delay t (waitings s)))" by metis
    then show ?thesis by (intro exI [of _ "[Guard_scan, Guard_reset]"]) auto
  next
    case (G_reset d)
    then have "s = s\<lparr>guard := G_reset d\<rparr>" by simp
    with r [of d] have "run [Guard_reset] s = Some (?reset d)" by metis
    then show ?thesis by (intro exI [of _ "[Guard_reset]"]) auto
  qed (use assms(3) in simp)
qed

lemma head_round:
  assumes "rids ws object = r # q"
  shows "if now < d then \<exists>ws'. enter_round now object r d ws = V_enter ws'
         else \<exists>ws'. enter_round now object r d ws = V_timeout ws'"
  using assms by (cases "queue_at ws object") (auto simp: rids_def enter_round_def Let_def)

text \<open>With a broadcast under way and the mutex free, a sleeping head of a queue enters at once.\<close>

lemma wake_and_round:
  assumes "monitor_inv s" "task s r = Sleeping object d" "rids (waitings s) object = r # q"
    "\<not> locked s" "guard s = G_wake"
  shows "\<exists>s'. run [Guard_wake, Round r] s = Some s' \<and> clock s' = clock s
    \<and> task s' r = (if clock s < d then Inside object else Away)"
proof -
  let ?s = "s\<lparr>guard := G_begin, task := wake_up \<circ> task s\<rparr>"
  have f: "\<not> fatal s" using assms(1) by (rule monitor_invD)
  have w: "exec Guard_wake s = Some ?s" using f assms(5) by (simp add: exec_def)
  have t: "task ?s r = Ready object d" using assms(2) by (simp add: wake_up_def)
  have x: "exec (Round r) ?s = Some (round_step r object d ?s)"
    using f assms(4) t by (simp add: exec_def locked_def)
  have "task (round_step r object d ?s) r = (if clock s < d then Inside object else Away)
      \<and> clock (round_step r object d ?s) = clock s"
    using head_round [of "waitings s" object r q "clock s" d] assms(3)
    by (auto simp: round_step_def)
  then show ?thesis using w x by simp
qed

lemma alert_to_wake:
  assumes "monitor_inv s" "alert s" "\<not> locked s" "task s r = Sleeping object d"
  shows "\<exists>es s'. length es \<le> 4 \<and> run es s = Some s' \<and> guard s' = G_wake \<and> \<not> locked s'
    \<and> task s' r = task s r \<and> waitings s' = waitings s \<and> clock s' = clock s"
proof (cases "guard s = G_wake")
  case True
  then show ?thesis using assms(3) by (intro exI [of _ "[]"]) simp
next
  case False
  then obtain x where x: "task s x = Leaving" using assms(2) by (auto simp: alert_def)
  have f: "\<not> fatal s" using assms(1) by (rule monitor_invD)
  obtain es a where e: "length es \<le> 3" "run es s = Some (s\<lparr>guard := G_select a\<rparr>)"
    using guard_to_select [OF f assms(3) False] by blast
  have "run [Signal x] (s\<lparr>guard := G_select a\<rparr>)
      = Some (set_task x Away (s\<lparr>guard := G_wake\<rparr>))"
    using f x by (simp add: exec_def set_task_def)
  then have "run (es @ [Signal x]) s = Some (set_task x Away (s\<lparr>guard := G_wake\<rparr>))"
    using e(2) by (simp only: run_append) simp
  moreover have "x \<noteq> r" using x assms(4) by auto
  ultimately show ?thesis using e(1) assms(3)
    by (intro exI [of _ "es @ [Signal x]"]) (auto simp: locked_def)
qed

text \<open>
  Claim C27.  As long as no task has given up, no wakeup is lost: a task that sleeps although
  it is the first of its queue can be brought into the region (or to its timeout) by at most
  seven steps of the guard and of tasks that are about to move, without any time passing.
\<close>

theorem monitor_wakes_next:
  assumes "prompt s" "task s r = Sleeping object d" "rids (waitings s) object = r # q"
  shows "\<exists>es s'. length es \<le> 7 \<and> run es s = Some s' \<and> clock s' = clock s
    \<and> task s' r = (if clock s < d then Inside object else Away)"
proof -
  note i = inv_reachable [OF prompt_reachable [OF assms(1)]]
  have al: "alert s" using wakeful_prompt [OF assms(1)] assms(2,3) by (auto simp: stuck_def)
  obtain fs t where f: "length fs \<le> 1" "run fs s = Some t" "\<not> locked t" "alert t" "monitor_inv t"
    "task t r = task s r" "waitings t = waitings s" "clock t = clock s"
  proof (cases "settling s")
    case None
    then show ?thesis using that [of "[]" s] al i by (simp add: locked_def)
  next
    case (Some y)
    then obtain o' d' where y: "task s y = Settling o' d'" using monitor_invD(6) [OF i] by blast
    let ?t = "set_task y (Sleeping o' d') (s\<lparr>settling := None\<rparr>)"
    have "exec (Sleep y) s = Some ?t" using y monitor_invD(1) [OF i] by (simp add: exec_def)
    moreover have "alert ?t" using alert_frame [OF al, of y] y by simp
    moreover have "y \<noteq> r" using y assms(2) by auto
    ultimately show ?thesis using that [of "[Sleep y]" ?t] inv_exec [OF i] by (simp add: locked_def)
  qed
  obtain es u where e: "length es \<le> 4" "run es t = Some u" "guard u = G_wake" "\<not> locked u"
    "task u r = task t r" "waitings u = waitings t" "clock u = clock t"
    using alert_to_wake [OF f(5,4,3)] f(6) assms(2) by metis
  have "reachable u"
    using prompt_reachable [OF assms(1)] run_reachable f(2) e(2) by blast
  then obtain v where "run [Guard_wake, Round r] u = Some v" "clock v = clock u"
    "task v r = (if clock u < d then Inside object else Away)"
    using wake_and_round [OF inv_reachable] e f assms(2,3) by metis
  then show ?thesis
    using f e by (intro exI [of _ "fs @ es @ [Guard_wake, Round r]"] exI [of _ v])
      (simp add: run_append del: run.simps(2))
qed

section \<open>A lost wakeup\<close>

text \<open>
  Three tasks want the same object.  The second gives up at the moment the first has left the
  region, after the third has looked at the queue.  Nobody signals when a task gives up.
\<close>

definition lost_wakeup_run :: "event list" where
  "lost_wakeup_run =
     [Guard_now, Guard_scan, Guard_reset,
      Call 1 ''bkt/x'' (5 * second), Append 1, Announce 1, Round 1, Guard_wake, Guard_now, Guard_scan, Guard_reset,
      Call 2 ''bkt/x'' (5 * second), Append 2, Announce 2, Round 2, Sleep 2,
      Guard_wake, Round 2, Sleep 2, Guard_now, Guard_scan, Guard_reset,
      Tick 1000000000,
      Call 3 ''bkt/x'' (5 * second), Append 3, Announce 3, Guard_wake, Round 2, Sleep 2, Round 3, Sleep 3,
      Guard_now, Guard_scan, Guard_reset,
      Tick 3999999999, Exit 1, Signal 1, Guard_wake, Round 3, Sleep 3,
      Tick 1, Round 2, Guard_now, Guard_scan, Guard_reset]"

lemma away_exec:
  assumes "exec e s = Some s'" "task s x = Away" "\<forall>object d. e \<noteq> Call x object d"
  shows "task s' x = Away"
  using assms(1)
proof (cases rule: exec_cases)
  case (round r o' d)
  then show ?thesis using assms(2)
    by (cases "enter_round (clock s) o' r d (waitings s)") (auto simp: round_step_def)
next
  case (exit r o')
  then show ?thesis using assms(2) by (auto split: option.splits)
next
  case wake
  then show ?thesis using assms(2) by (simp add: wake_up_def)
qed (use assms(2,3) in auto)

lemma away_run:
  "run es s = Some s' \<Longrightarrow> task s x = Away \<Longrightarrow> \<forall>object d. Call x object d \<notin> set es \<Longrightarrow> task s' x = Away"
proof (induction es arbitrary: s)
  case (Cons e es)
  then show ?case using away_exec [of e s _ x] by (fastforce split: option.splits)
qed simp

lemma lost_wakeup_state:
  "case run lost_wakeup_run (new_monitor 0) of
     None \<Rightarrow> False
   | Some s \<Rightarrow> task s 1 = Away \<and> task s 2 = Away \<and> task s 3 = Sleeping ''bkt/x'' (6 * second)
       \<and> rids (waitings s) ''bkt/x'' = [3] \<and> clock s = 5 * second \<and> guard s = G_select (3605 * second) \<and> \<not> fatal s"
  by (simp add: lost_wakeup_run_def exec_def new_monitor_def second_def set_task_def locked_def
      enter_queue_def queue_at_def guard_delay_def next_due_def smallwait_def round_step_def enter_round_def
      put_queue_def wake_up_def comp_def exit_queue_def rids_def)

text \<open>
  Claim C29.  But a wakeup can be lost: there is a run of three tasks after which the third
  sleeps alone in its queue, nobody being in the region, while the guard sleeps for another
  hour, far beyond the deadline of the task.  No step of the guard or of a task can be made
  before, unless another request comes.
\<close>

theorem wakeup_can_be_lost:
  "\<exists>s. reachable s \<and> task s 3 = Sleeping ''bkt/x'' (6 * second) \<and> rids (waitings s) ''bkt/x'' = [3]
     \<and> clock s = 5 * second \<and> guard s = G_select (3605 * second)
     \<and> (\<forall>e. exec e s = None \<or> (\<exists>n. e = Tick n) \<or> (\<exists>r object d. e = Call r object d))"
proof -
  obtain s where s: "run lost_wakeup_run (new_monitor 0) = Some s" "task s 1 = Away" "task s 2 = Away"
    "task s 3 = Sleeping ''bkt/x'' (6 * second)" "rids (waitings s) ''bkt/x'' = [3]"
    "clock s = 5 * second" "guard s = G_select (3605 * second)" "\<not> fatal s"
    using lost_wakeup_state by (auto split: option.splits)
  have "task s r = Away" if "r \<noteq> 1" "r \<noteq> 2" "r \<noteq> 3" for r
    using that by (intro away_run [OF s(1)]) (auto simp: new_monitor_def lost_wakeup_run_def)
  then have t: "task s r = Away" if "r \<noteq> 3" for r using that s(2,3) by metis
  have p: "task s r = (if r = 3 then Sleeping ''bkt/x'' (6 * second) else Away)" for r
    using t s(4) by simp
  have "exec e s = None \<or> (\<exists>n. e = Tick n) \<or> (\<exists>r object d. e = Call r object d)" for e
    using s(6-8) by (cases e) (simp_all add: exec_def p second_def)
  then show ?thesis using s run_reachable [OF s(1)] reachable_new by blast
qed

section \<open>Examples\<close>

definition example_run_of :: "event list \<Rightarrow> mstate" where
  "example_run_of es = (case run es (new_monitor 0) of None \<Rightarrow> new_monitor 0 | Some s \<Rightarrow> s)"

lemma example_reachable: "reachable (example_run_of es)"
  using run_reachable reachable_new by (auto simp: example_run_of_def intro: reachable_new split: option.splits)

text \<open>Task 1 is in the region, task 2 waits for it.\<close>

definition two_tasks :: "event list" where
  "two_tasks =
     [Guard_now, Guard_scan, Guard_reset, Call 1 ''o'' 9, Append 1, Announce 1, Round 1, Guard_wake,
      Guard_now, Guard_scan, Guard_reset, Call 2 ''o'' 9, Append 2, Announce 2, Round 2, Sleep 2]"

lemma two_tasks_state:
  "task (example_run_of two_tasks) 1 = Inside ''o''" "task (example_run_of two_tasks) 2 = Sleeping ''o'' 9"
  "rids (waitings (example_run_of two_tasks)) ''o'' = [1, 2]" "exec (Exit 1) (example_run_of two_tasks) \<noteq> None"
  by code_simp+

theorem monitor_excludes_witness:
  "Attest ''o'' 1 (waitings (example_run_of two_tasks)) \<and> task (example_run_of two_tasks) 2 \<noteq> Inside ''o''"
  using monitor_excludes [OF example_reachable two_tasks_state(1), of 2] by auto

theorem monitor_never_fatal_witness:
  "\<exists>s'. exec (Exit 1) (example_run_of two_tasks) = Some s' \<and> \<not> fatal s'"
  using monitor_never_fatal [OF example_reachable, of "Exit 1" two_tasks] two_tasks_state(4) by auto

text \<open>
  Task 1 is in the region, task 2 waits, task 3 calls, task 1 leaves; task 3 looks at the queue first,
  but finds task 2 before it.
\<close>

definition three_tasks :: "event list" where
  "three_tasks =
     [Call 3 ''o'' 9, Append 3, Guard_wake, Guard_now, Guard_scan, Guard_reset, Announce 3, Guard_wake,
      Exit 1, Round 3, Sleep 3]"

lemma three_tasks_run:
  "run three_tasks (example_run_of two_tasks) = Some (example_run_of (two_tasks @ three_tasks))"
  "stays ''o'' 2 three_tasks (example_run_of two_tasks)"
  "region (task (example_run_of two_tasks) 2) = Some ''o''" "region (task (example_run_of two_tasks) 3) \<noteq> Some ''o''"
  "rids (waitings (example_run_of (two_tasks @ three_tasks))) ''o'' = [2, 3]"
proof -
  have "run two_tasks (new_monitor 0) \<noteq> None" "run (two_tasks @ three_tasks) (new_monitor 0) \<noteq> None" by code_simp+
  then show "run three_tasks (example_run_of two_tasks) = Some (example_run_of (two_tasks @ three_tasks))"
    by (auto simp: example_run_of_def run_append split: option.splits)
qed code_simp+

theorem monitor_fifo_witness:
  "task (example_run_of (two_tasks @ three_tasks)) 3 \<noteq> Inside ''o''"
  using monitor_fifo [OF example_reachable three_tasks_run(3,4,1,2)] .

text \<open>A run in which no task gives up.\<close>

fun in_time :: "event list \<Rightarrow> mstate \<Rightarrow> bool" where
  "in_time [] s \<longleftrightarrow> True"
| "in_time (e # es) s \<longleftrightarrow> \<not> times_out e s \<and> (case exec e s of None \<Rightarrow> False | Some s' \<Rightarrow> in_time es s')"

lemma in_time_prompt: "in_time es s \<Longrightarrow> prompt s \<Longrightarrow> \<exists>s'. run es s = Some s' \<and> prompt s'"
  by (induction es arbitrary: s) (auto split: option.splits intro: prompt_exec)

text \<open>Task 1 has left the region and is about to signal.\<close>

lemma left_state:
  "in_time (two_tasks @ [Exit 1]) (new_monitor 0)"
  "task (example_run_of (two_tasks @ [Exit 1])) 2 = Sleeping ''o'' 9"
  "rids (waitings (example_run_of (two_tasks @ [Exit 1]))) ''o'' = [2]"
  "clock (example_run_of (two_tasks @ [Exit 1])) = 0"
  by code_simp+

theorem monitor_wakes_next_witness:
  "\<exists>es s'. run es (example_run_of (two_tasks @ [Exit 1])) = Some s' \<and> task s' 2 = Inside ''o''"
proof -
  have "prompt (example_run_of (two_tasks @ [Exit 1]))"
    using in_time_prompt [OF left_state(1) prompt_new] by (auto simp: example_run_of_def split: option.splits)
  from monitor_wakes_next [OF this left_state(2,3)] show ?thesis using left_state(4) by auto
qed

end
