(* ===== verification/Deleting.thy ===== *)
theory Deleting
  imports Setup_ok "HOL-Library.Multiset"
begin

text \<open>
  Deleting objects: v1/server/deleting.go, and DeleteObject and DeleteObjects of
  v1/server/api-action.go.
\<close>

section \<open>Deleting an object\<close>

text \<open>
  The steps in the serialized region.  The errors of the status and of the removal of the
  metainfo are ignored; a status that is missing is a nil interface.
\<close>

definition delete_serialized ::
  "bbs \<Rightarrow> marker \<Rightarrow> string \<Rightarrow> string \<Rightarrow> string \<Rightarrow> copy_conditions \<Rightarrow> unit act" where
  "delete_serialized b sfx object entity etag conditions =
     (let location = ''/'' @ object; path = make_path_of_object object No_marker in
      seqE (tryE (fetch_object_status b object True)) (\<lambda>r.
      let (entity2, stat) = (case r of Inl _ \<Rightarrow> ([], None) | Inr x \<Rightarrow> x) in
      if entity2 \<noteq> entity
      then failE (s3_error InternalError ''Target object changed during operation.'' location)
      else case stat of
        None \<Rightarrow> panicE
      | Some st \<Rightarrow>
          seqE (liftE (check_conditions etag (fi_mtime st) (fi_size st) Cond_delete conditions)) (\<lambda>_.
          seqE (ignoreE (store_object_metainfo b object sfx None)) (\<lambda>_.
          sys_elseE (os_Remove path) (os_failE location) retE))))"

definition delete_object :: "bbs \<Rightarrow> marker \<Rightarrow> string \<Rightarrow> copy_conditions \<Rightarrow> unit act" where
  "delete_object b sfx object conditions =
     seqE (check_object_exists b object) (\<lambda>(entity, _).
     seqE (fetch_object_etag b object entity) (\<lambda>(etag, _).
     serializedE object (delete_serialized b sfx object entity etag conditions)))"

record delete_input =
  di_Bucket :: "string option"
  di_Key :: "string option"
  di_ExpectedBucketOwner :: "string option"
  di_MFA :: "string option"
  di_VersionId :: "string option"
  di_IfMatch :: "string option"
  di_IfMatchLastModifiedTime :: "time option"
  di_IfMatchSize :: "int option"

definition DeleteObject :: "bbs \<Rightarrow> marker \<Rightarrow> delete_input \<Rightarrow> unit act" where
  "DeleteObject b sfx i =
     seqE (check_usual_object_setup b (di_Bucket i) (di_Key i)) (\<lambda>object.
     seqE (liftE (check_options_unsupported b
       (no_options\<lparr>ExpectedBucketOwner := di_ExpectedBucketOwner i, MFA := di_MFA i,
                   VersionId := di_VersionId i\<rparr>))) (\<lambda>_.
     delete_object b sfx object
       (no_conditions\<lparr>some_match := di_IfMatch i, modified_time := di_IfMatchLastModifiedTime i,
                      cond_size := di_IfMatchSize i\<rparr>)))"

section \<open>Deleting several objects\<close>

record object_identifier =
  oi_Key :: "string option"
  oi_ETag :: "string option"
  oi_LastModifiedTime :: "time option"
  oi_Size :: "int option"
  oi_VersionId :: "string option"

text \<open>The object a key names: the path of the key read as a URL, joined to the bucket.\<close>

definition key_object :: "bbs \<Rightarrow> string \<Rightarrow> string \<Rightarrow> string option" where
  "key_object b bucket k =
     (case url_Parse b k of None \<Rightarrow> None | Some key \<Rightarrow> Some (path_join [bucket, key]))"

text \<open>The state of one deletion: the object, and the code and the message of its error.\<close>

type_synonym delete_state = "string \<times> (string \<times> string) option"

definition delete_one :: "bbs \<Rightarrow> marker \<Rightarrow> string \<Rightarrow> object_identifier \<Rightarrow> delete_state act" where
  "delete_one b sfx bucket e =
     (case oi_Key e of
        None \<Rightarrow> panicE
      | Some k \<Rightarrow>
          (case key_object b bucket k of
             None \<Rightarrow> retE ([], Some (InvalidArgument, ''Bad key to DeleteObjects.''))
           | Some object \<Rightarrow>
               if \<not> check_object_naming object
               then retE ([], Some (InvalidArgument, ''Bad object naming to DeleteObjects.''))
               else if oi_VersionId e \<noteq> None
               then retE (object, Some (NotImplemented, ''VersionID is not implemented.''))
               else try_elseE
                 (delete_object b sfx object
                    (no_conditions\<lparr>some_match := fix_etag_quoting b (oi_ETag e),
                       modified_time := oi_LastModifiedTime e, cond_size := oi_Size e\<rparr>))
                 (\<lambda>err6. retE (object, Some (Code err6, Message err6)))
                 (\<lambda>_. retE (object, None))))"

fun delete_each :: "bbs \<Rightarrow> marker \<Rightarrow> string \<Rightarrow> object_identifier list \<Rightarrow> delete_state list act" where
  "delete_each b sfx bucket [] = retE []"
| "delete_each b sfx bucket (e # es) =
     seqE (delete_one b sfx bucket e) (\<lambda>x.
     seqE (delete_each b sfx bucket es) (\<lambda>xs. retE (x # xs)))"

record deletes_input =
  dl_Bucket :: "string option"
  dl_Delete :: "(object_identifier list \<times> bool option) option"
  dl_ExpectedBucketOwner :: "string option"
  dl_MFA :: "string option"

record deletes_output =
  Deleted :: "string option list"
  Errors :: "(string option \<times> string \<times> string) list"

definition fill_deletes ::
  "bool \<Rightarrow> object_identifier list \<Rightarrow> delete_state list \<Rightarrow> deletes_output result" where
  "fill_deletes quiet es states =
     (if list_ex (\<lambda>(object, r). r = None \<and> object = []) states then Inl Fatal
      else ok
        \<lparr>Deleted = (if quiet then []
           else map (\<lambda>(e, _). oi_Key e) (filter (\<lambda>(e, object, r). r = None) (zip es states))),
         Errors = concat (map (\<lambda>(e, object, r).
           case r of None \<Rightarrow> [] | Some (code, msg) \<Rightarrow> [(oi_Key e, code, msg)]) (zip es states))\<rparr>)"

definition DeleteObjects :: "bbs \<Rightarrow> marker \<Rightarrow> deletes_input \<Rightarrow> deletes_output act" where
  "DeleteObjects b sfx i =
     seqE (check_usual_object_setup b (dl_Bucket i) (Some ''dummy'')) (\<lambda>_.
     case dl_Bucket i of
       None \<Rightarrow> panicE
     | Some bucket \<Rightarrow>
         seqE (liftE (check_options_unsupported b
           (no_options\<lparr>ExpectedBucketOwner := dl_ExpectedBucketOwner i, MFA := dl_MFA i\<rparr>))) (\<lambda>_.
         case dl_Delete i of
           None \<Rightarrow> failE (s3_error InvalidArgument ''Body of DeteteObjects is missing.'' [])
         | Some (objects, quiet) \<Rightarrow>
             seqE (delete_each b sfx bucket objects) (\<lambda>states.
             liftE (fill_deletes (quiet = Some True) objects states))))"

section \<open>What the deletions leave alone\<close>

context quiet_relation
begin

lemma delete_steps [keeps_rules]: "keeps R (delete_serialized b sfx object entity etag conditions)"
  unfolding delete_serialized_def store_object_metainfo_def store_json_data_def Let_def
  by (intro keeps_rules) (auto intro!: keeps_rules)

end

lemma keeps_delete_serialized [keeps_rules]:
  assumes "meta_path object \<notin> P" "meta_path object \<notin> C" "obj_path object \<notin> P"
  shows "keeps (frame C P) (delete_serialized b sfx object entity etag conditions)"
  unfolding delete_serialized_def Let_def using assms
  by (intro keeps_rules) (auto intro!: keeps_rules)

lemma keeps_delete_object [keeps_rules]:
  assumes "meta_path object \<notin> P" "meta_path object \<notin> C" "obj_path object \<notin> P"
  shows "keeps (frame C P) (delete_object b sfx object conditions)"
  unfolding delete_object_def using assms by (intro keeps_rules) auto


section \<open>A deletion that succeeds\<close>

lemma delete_serialized_run:
  assumes "delete_serialized b sfx object entity etag conditions w = (Inr u, w')"
  shows "\<exists>r w1 w2. tryE (fetch_object_status b object True) w = (Inr r, w1)
    \<and> ignoreE (store_object_metainfo b object sfx None) w1 = (Inr (), w2)
    \<and> os_Remove (make_path_of_object object No_marker) w2 = (Inr (), w')"
proof -
  obtain r w1 where r: "tryE (fetch_object_status b object True) w = (Inr r, w1)"
    using assms by (auto simp: delete_serialized_def Let_def run_seq)
  obtain e st where e: "(case r of Inl _ \<Rightarrow> ([], None) | Inr x \<Rightarrow> x) = (e, st)" by (cases "case r of Inl _ \<Rightarrow> ([], None) | Inr x \<Rightarrow> x")
  show ?thesis
    using assms r e by (auto simp: delete_serialized_def Let_def runs seqE_def [of "tryE _"] split: if_splits option.splits)
qed

lemma delete_serialized_done:
  assumes "delete_serialized b sfx object entity etag conditions w = (Inr u, w')" "sound (disk w)" "calm {} (waits w)"
  shows "node_at (disk w') (obj_path object) = None"
proof -
  obtain r w1 w2 where s: "tryE (fetch_object_status b object True) w = (Inr r, w1)"
    "ignoreE (store_object_metainfo b object sfx None) w1 = (Inr (), w2)"
    "os_Remove (make_path_of_object object No_marker) w2 = (Inr (), w')"
    using delete_serialized_run [OF assms(1)] by blast
  have "keeps (frame {} {}) (tryE (fetch_object_status b object True))"
    "keeps (frame {} {}) (ignoreE (store_object_metainfo b object sfx None))"
    by (auto intro!: keeps_rules)
  then have "sound (disk w2)" using sound_frame s assms(2,3) by metis
  then show ?thesis using remove_done [OF s(3)] by simp
qed

lemma delete_object_done:
  assumes "delete_object b sfx object conditions w = (Inr u, w')" "sound (disk w)" "calm {} (waits w)"
  shows "node_at (disk w') (obj_path object) = None"
proof -
  obtain e st w1 etag m w2 where x: "check_object_exists b object w = (Inr (e, st), w1)"
    "fetch_object_etag b object e w1 = (Inr (etag, m), w2)"
    "serializedE object (delete_serialized b sfx object e etag conditions) w2 = (Inr u, w')"
    using assms(1) by (auto simp: delete_object_def runs split: prod.splits)
  have "keeps (frame {} {}) (check_object_exists b object)" "keeps (frame {} {}) (fetch_object_etag b object e)"
    by (intro keeps_rules)+
  then have "sound (disk w2)" "calm {} (waits w2)" using sound_frame x(1,2) assms(2,3) by metis+
  then show ?thesis using serialized_run [OF x(3)] delete_serialized_done by metis
qed

text \<open>
  Claim C20.  A DeleteObject that is answered with success has removed the object: nothing is
  under its path any more, whatever the other requests have done before it entered the region
  and whatever system calls have failed.
\<close>

theorem delete_object_removes:
  assumes "DeleteObject b sfx i w = (Inr u, w')" "di_Bucket i = Some bucket" "di_Key i = Some key"
    "sound (disk w)" "calm {} (waits w)"
  shows "node_at (disk w') (obj_path (path_join [bucket, key])) = None"
proof -
  obtain o1 w1 w2 c where x: "check_usual_object_setup b (di_Bucket i) (di_Key i) w = (Inr o1, w1)"
    "delete_object b sfx o1 c w1 = (Inr u, w')"
    using assms(1) by (auto simp: DeleteObject_def runs)
  have "o1 = path_join [bucket, key]" "sound (disk w1)" "calm {} (waits w1)"
    using run_object_setup [OF x(1)] assms(2-5) by auto
  then show ?thesis using delete_object_done [OF x(2)] by simp
qed

text \<open>
  Claim C40.  A DeleteObject, however it ends, changes no file but the object and its metainfo.
\<close>

theorem delete_object_leaves_others:
  assumes "DeleteObject b sfx i w = (r, w')" "di_Bucket i = Some bucket" "di_Key i = Some key"
    "p \<noteq> obj_path (path_join [bucket, key])" "p \<noteq> meta_path (path_join [bucket, key])"
    "sound (disk w)" "open_inodes w = []" "calm {p} (waits w)"
  shows "look (disk w') p = look (disk w) p"
proof -
  let ?F = "frame {} {p}"
  have "keeps ?F (DeleteObject b sfx i)"
    unfolding DeleteObject_def using assms(2-5)
    by (intro keeps_after_setup keeps_rules) auto
  then have "?F w w'" using assms(1) by (rule keepsD)
  then show ?thesis using assms(6-8) by (simp add: frame_def guard_def same_look_def)
qed

section \<open>Deleting several objects\<close>

lemma delete_each_length:
  "delete_each b sfx bucket es w = (Inr xs, w') \<Longrightarrow> length xs = length es"
  by (induction es arbitrary: w xs) (auto simp: runs)

lemma fill_deletes_keys:
  assumes "length xs = length es" "fill_deletes False es xs = ok out"
  shows "mset (Deleted out) + mset (map fst (Errors out)) = mset (map oi_Key es)"
proof -
  have o: "Deleted out = map (\<lambda>(e, _). oi_Key e) (filter (\<lambda>(e, object, r). r = None) (zip es xs))"
    "Errors out = concat (map (\<lambda>(e, object, r).
       case r of None \<Rightarrow> [] | Some (code, msg) \<Rightarrow> [(oi_Key e, code, msg)]) (zip es xs))"
    using assms(2) by (auto simp: fill_deletes_def split: if_splits)
  show ?thesis
    unfolding o using assms(1)
    by (induction es xs rule: list_induct2') (auto split: option.splits)
qed

text \<open>
  A DeleteObjects that is answered accounts for every key of the request: the keys it
  reports as deleted and the keys it reports with an error are together the keys of the
  request; in the quiet mode only the errors are reported.
\<close>

theorem delete_objects_accounts:
  assumes "DeleteObjects b sfx i w = (Inr out, w')" "dl_Delete i = Some (es, quiet)"
  shows "if quiet = Some True then Deleted out = []
    else mset (Deleted out) + mset (map fst (Errors out)) = mset (map oi_Key es)"
proof -
  obtain bucket w1 xs where x: "delete_each b sfx bucket es w1 = (Inr xs, w')"
    "fill_deletes (quiet = Some True) es xs = ok out"
    using assms by (auto simp: DeleteObjects_def runs split: option.splits)
  show ?thesis
  proof (cases "quiet = Some True")
    case True
    then show ?thesis using x(2) by (auto simp: fill_deletes_def split: if_splits)
  next
    case False
    then show ?thesis using fill_deletes_keys [OF delete_each_length [OF x(1)]] x(2) by simp
  qed
qed

text \<open>
  The keys of DeleteObjects are read as URLs and are not checked like the keys of the
  other actions: a question mark ends the key, a percent sign escapes, and dots leave the
  bucket.  So deleting the key "a?b" deletes the object "a", "a%41" stands for "aA", and
  deleting "../other/y" in one bucket is deleting "y" in another one.
\<close>

theorem delete_keys_confused:
  defines "key k \<equiv> \<lparr>oi_Key = Some k, oi_ETag = None, oi_LastModifiedTime = None, oi_Size = None, oi_VersionId = None\<rparr>"
  shows "delete_one b sfx ''bkt'' (key ''a?b'') = delete_one b sfx ''bkt'' (key ''a'')
    \<and> delete_one b sfx ''bkt'' (key ''a%41'') = delete_one b sfx ''bkt'' (key ''aA'')
    \<and> delete_one b sfx ''bkt'' (key ''../other/y'') = delete_one b sfx ''other'' (key ''y'')"
proof -
  have k: "key_object b ''bkt'' ''a?b'' = Some ''bkt/a''" "key_object b ''bkt'' ''a'' = Some ''bkt/a''"
    "key_object b ''bkt'' ''a%41'' = Some ''bkt/aA''" "key_object b ''bkt'' ''aA'' = Some ''bkt/aA''"
    "key_object b ''bkt'' ''../other/y'' = Some ''other/y''" "key_object b ''other'' ''y'' = Some ''other/y''"
    by code_simp+
  show ?thesis by (simp add: delete_one_def key_def k)
qed


section \<open>Witnesses\<close>

definition example_delete :: delete_input where
  "example_delete =
     \<lparr>di_Bucket = Some ''bkt'', di_Key = Some ''x'', di_ExpectedBucketOwner = None, di_MFA = None,
      di_VersionId = None, di_IfMatch = None, di_IfMatchLastModifiedTime = None, di_IfMatchSize = None\<rparr>"

lemma example_delete_ok: "\<exists>w'. DeleteObject example_bbs example_sfx example_delete object_world = (Inr (), w')"
proof -
  have "case fst (DeleteObject example_bbs example_sfx example_delete object_world) of Inr u \<Rightarrow> True | Inl _ \<Rightarrow> False"
    by code_simp
  then show ?thesis
    by (cases "DeleteObject example_bbs example_sfx example_delete object_world") (auto split: sum.splits)
qed

theorem delete_object_removes_witness:
  "\<exists>w'. DeleteObject example_bbs example_sfx example_delete object_world = (Inr (), w')
     \<and> node_at (disk w') (obj_path ''bkt/x'') = None"
proof -
  obtain w' where r: "DeleteObject example_bbs example_sfx example_delete object_world = (Inr (), w')"
    using example_delete_ok by blast
  have "di_Bucket example_delete = Some ''bkt''" "di_Key example_delete = Some ''x''"
    by (simp_all add: example_delete_def)
  from delete_object_removes [OF r this] show ?thesis using r object_sound good_key_x by auto
qed

theorem delete_object_leaves_others_witness:
  "\<exists>r w'. DeleteObject example_bbs example_sfx example_delete object_world = (r, w')
     \<and> look (disk w') [''bkt'', ''y''] = look object_fs [''bkt'', ''y'']"
proof -
  obtain r w' where r: "DeleteObject example_bbs example_sfx example_delete object_world = (r, w')"
    by (cases "DeleteObject example_bbs example_sfx example_delete object_world")
  have d: "di_Bucket example_delete = Some ''bkt''" "di_Key example_delete = Some ''x''"
    by (simp_all add: example_delete_def)
  have p: "[''bkt'', ''y''] \<noteq> obj_path (path_join [''bkt'', ''x''])" "[''bkt'', ''y''] \<noteq> meta_path (path_join [''bkt'', ''x''])"
    by code_simp+
  show ?thesis using delete_object_leaves_others [OF r d p] r object_sound by auto
qed

definition example_deletes :: deletes_input where
  "example_deletes =
     \<lparr>dl_Bucket = Some ''bkt'', dl_Delete = Some ([\<lparr>oi_Key = Some ''%'', oi_ETag = None,
        oi_LastModifiedTime = None, oi_Size = None, oi_VersionId = None\<rparr>], None),
      dl_ExpectedBucketOwner = None, dl_MFA = None\<rparr>"

theorem delete_objects_accounts_witness:
  "\<exists>out w'. DeleteObjects example_bbs example_sfx example_deletes object_world = (Inr out, w')
     \<and> mset (Deleted out) + mset (map fst (Errors out)) = {#Some ''%''#}"
proof -
  have "case fst (DeleteObjects example_bbs example_sfx example_deletes object_world) of Inr u \<Rightarrow> True | Inl _ \<Rightarrow> False"
    by code_simp
  then obtain out w' where r: "DeleteObjects example_bbs example_sfx example_deletes object_world = (Inr out, w')"
    by (cases "DeleteObjects example_bbs example_sfx example_deletes object_world") (auto split: sum.splits)
  have "dl_Delete example_deletes = Some ([\<lparr>oi_Key = Some ''%'', oi_ETag = None,
      oi_LastModifiedTime = None, oi_Size = None, oi_VersionId = None\<rparr>], None)"
    by (simp add: example_deletes_def)
  from delete_objects_accounts [OF r this] show ?thesis using r by auto
qed


section \<open>A deletion that fails\<close>

text \<open>The object of the example with a metainfo file that holds a user header.\<close>

definition headed_fs :: fsys where
  "headed_fs =
     object_fs\<lparr>tree := tree object_fs @ [([''bkt'', ''.x@meta''], File 1)],
       inodes := inodes object_fs @ [(1, \<lparr>ino_content = Json (stored_meta (empty_meta\<lparr>Headers := Some [(''k'', ''v'')]\<rparr>)),
         ino_mtime = 8\<rparr>)],
       next_ino := 2\<rparr>"

text \<open>
  A DeleteObject that fails can lose the headers and tags of the object: the metainfo is
  removed first, and when the removal of the object fails then, the object stays without it.
\<close>

theorem failed_delete_loses_metainfo:
  "\<exists>w e w'. disk w = headed_fs \<and> DeleteObject example_bbs example_sfx example_delete w = (failed e, w')
     \<and> file_content (disk w') (obj_path ''bkt/x'') = Some (Data ''abc'')
     \<and> file_content headed_fs (meta_path ''bkt/x'') \<noteq> None \<and> file_content (disk w') (meta_path ''bkt/x'') = None"
proof -
  let ?w = "object_world\<lparr>disk := headed_fs, faults := replicate 10 None @ [Some (Err_permission, 0)]\<rparr>"
  have r: "case DeleteObject example_bbs example_sfx example_delete ?w of
      (Inl (Fail e), w') \<Rightarrow> file_content (disk w') (obj_path ''bkt/x'') = Some (Data ''abc'')
        \<and> file_content (disk w') (meta_path ''bkt/x'') = None
    | _ \<Rightarrow> False"
    by code_simp
  have m: "file_content headed_fs (meta_path ''bkt/x'') \<noteq> None" by code_simp
  obtain r w' where d: "DeleteObject example_bbs example_sfx example_delete ?w = (r, w')"
    by (cases "DeleteObject example_bbs example_sfx example_delete ?w")
  then obtain e where "r = failed e" using r by (auto split: sum.splits stop.splits)
  then show ?thesis using r d m by (intro exI [of _ ?w] exI [of _ e] exI [of _ w']) simp
qed


end
