(* ===== verification/Tagging.thy ===== *)
theory Tagging
  imports Setup_ok Get_object
begin

text \<open>
  The tags of an object: DeleteObjectTagging and PutObjectTagging of v1/server/api-action.go.
\<close>

section \<open>The actions\<close>

record untag_input =
  ui_Bucket :: "string option"
  ui_Key :: "string option"
  ui_ExpectedBucketOwner :: "string option"
  ui_VersionId :: "string option"

definition DeleteObjectTagging :: "bbs \<Rightarrow> marker \<Rightarrow> untag_input \<Rightarrow> unit act" where
  "DeleteObjectTagging b sfx i =
     seqE (check_usual_object_setup b (ui_Bucket i) (ui_Key i)) (\<lambda>object.
     seqE (liftE (check_options_unsupported b
       (no_options\<lparr>ExpectedBucketOwner := ui_ExpectedBucketOwner i, VersionId := ui_VersionId i\<rparr>))) (\<lambda>_.
     serializedE object
       (seqE (check_object_exists b object) (\<lambda>(entity, _).
        seqE (fetch_object_metainfo b object entity) (\<lambda>metainfo.
        case metainfo of
          None \<Rightarrow> retE ()
        | Some m \<Rightarrow>
            if Tags m = None then retE ()
            else store_object_metainfo b object sfx (Some (m\<lparr>Tags := None\<rparr>)))))))"

record tagging_input =
  ti_Bucket :: "string option"
  ti_Key :: "string option"
  ti_ExpectedBucketOwner :: "string option"
  ti_VersionId :: "string option"
  ti_Tagging :: "tag list option"

definition tagged_meta ::
  "string \<Rightarrow> string \<Rightarrow> meta_info option \<Rightarrow> tag list option \<Rightarrow> meta_info" where
  "tagged_meta entity etag metainfo tagging =
     (case metainfo of None \<Rightarrow> empty_meta\<lparr>Entity_key := entity, ETag := etag\<rparr> | Some m \<Rightarrow> m)
       \<lparr>Tags := tagging\<rparr>"

definition PutObjectTagging :: "bbs \<Rightarrow> marker \<Rightarrow> tagging_input \<Rightarrow> unit act" where
  "PutObjectTagging b sfx i =
     seqE (check_usual_object_setup b (ti_Bucket i) (ti_Key i)) (\<lambda>object.
     seqE (liftE (check_options_unsupported b
       (no_options\<lparr>ExpectedBucketOwner := ti_ExpectedBucketOwner i, VersionId := ti_VersionId i\<rparr>))) (\<lambda>_.
     serializedE object
       (seqE (check_object_exists b object) (\<lambda>(entity, _).
        seqE (fetch_object_etag b object entity) (\<lambda>(etag, metainfo).
        store_object_metainfo b object sfx (Some (tagged_meta entity etag metainfo (ti_Tagging i))))))))"

section \<open>Storing metainfo beside an object\<close>

lemma store_json_reach:
  assumes "store_json_data b object path sfx (Some m) w = (Inr u, w')" "sound (disk w)"
    "comps path \<noteq> []" "comps (path @ marker_text sfx) \<noteq> []" "length (comps (path @ marker_text sfx)) = length (comps path)"
  shows "reach (disk w') (comps path)"
proof -
  let ?sp = "path @ marker_text sfx"
  obtain i w1 w2 w3 where c: "os_Create ?sp w = (Inr i, w1)"
    and wr: "file_write_json b i ?sp m w1 = (Inr (), w2)"
    and rn: "os_Rename ?sp path w2 = (Inr (), w3)"
    and w': "w' = w3\<lparr>open_inodes := remove1 i (open_inodes w3)\<rparr>"
    using assms(1) by (auto simp: store_json_data_def Let_def runs close_run)
  have "sound (disk w2)" using create_done [OF c assms(2,4)] write_json_done [OF wr] by simp
  then show ?thesis using rename_reach [OF rn _ assms(3,5)] w' by simp
qed

text \<open>
  Storing the metainfo of an object leaves the object alone and is what the metainfo file holds.
\<close>

lemma store_beside:
  assumes "store_object_metainfo b object sfx (Some m) w = (Inr u, w')" "own_ok object sfx"
    "guard {meta_scratch object sfx} {obj_path object} w" "good_object object"
  shows "look (disk w') (obj_path object) = look (disk w) (obj_path object) \<and> sound (disk w')
    \<and> reach (disk w') (obj_path object) \<and> reach (disk w') (meta_path object)
    \<and> file_content (disk w') (meta_path object) = Some (Json (stored_meta m))"
proof -
  let ?F = "frame {meta_scratch object sfx} {obj_path object}"
  note own = assms(2) [unfolded own_ok_def own_paths_def, simplified]
  have "?F w w'"
    by (rule keepsD [OF keeps_store_metainfo assms(1)]) (use own in auto)
  then have l: "look (disk w') (obj_path object) = look (disk w) (obj_path object)" "sound (disk w')"
    using assms(3) by (auto simp: frame_def same_look_def guard_def)
  have st: "store_json_data b object (make_path_of_object object Meta_marker) sfx (Some (stored_meta m)) w = (Inr u, w')"
    using assms(1) by (simp add: store_object_metainfo_def stored_meta_def)
  have s: "sound (disk w)" using assms(3) by (simp add: guard_def)
  have "file_content (disk w') (meta_path object) = Some (Json (stored_meta m))"
    using store_json_done [OF st s] own by auto
  moreover have r: "reach (disk w') (meta_path object)"
    using store_json_reach [OF st s] own by auto
  moreover have "reach (disk w') (obj_path object)"
    using r good_paths(1,2) [OF assms(4)] by (simp add: reach_snoc)
  ultimately show ?thesis using l by blast
qed

lemma fetched_entity:
  assumes "fetch_object_etag b object entity w = (Inr (etag, Some m), w')"
  shows "Entity_key m = entity"
  using assms
  by (auto simp: fetch_object_etag_def fetch_object_metainfo_def Let_def runs
      split: option.splits if_splits prod.splits)

lemma fetched_metainfo_entity:
  assumes "fetch_object_metainfo b object entity w = (Inr (Some m), w')"
  shows "Entity_key m = entity"
  using assms
  by (auto simp: fetch_object_metainfo_def Let_def runs split: option.splits if_splits)

section \<open>Reading the tags that were put\<close>

lemma get_tags_ok:
  assumes "check_bucket_naming bucket" "check_object_naming key" "\<not> has_prefix key ''..''" "good_key key"
    "at_rest (path_join [bucket, key]) f x v" "reach (disk v) (meta_path (path_join [bucket, key]))"
    "file_content (disk v) (meta_path (path_join [bucket, key])) = Some (Json (stored_meta m))"
    "Entity_key m = hash_entity_key b (look_info b f x)"
    "gi_Bucket j = Some bucket" "gi_Key j = Some key" "gi_ExpectedBucketOwner j = None" "gi_VersionId j = None"
  shows "GetObjectTagging b j v = (Inr (case Tags m of None \<Rightarrow> [] | Some ts \<Rightarrow> ts), v)"
proof -
  let ?o = "path_join [bucket, key]"
  have v: "faults v = []" "sound (disk v)" "reach (disk v) (obj_path ?o)" using assms(5) by (simp_all add: at_rest_def)
  have g: "good_object ?o" using setup_object [OF assms(1,4)] by simp
  have "node_at (disk v) [bucket] = Some Dir"
    using v(3) bucket_is_prefix [OF assms(1,4)] by (simp add: reach_def)
  then have s: "check_usual_object_setup b (Some bucket) (Some key) v = (Inr ?o, v)"
    using setup_ok [OF assms(1-3) v(1,2)] by blast
  have c: "check_options_unsupported b (no_options\<lparr>ExpectedBucketOwner := None, VersionId := None\<rparr>) = ok ()"
    by (simp add: check_options_unsupported_iff no_options_def)
  show ?thesis
    unfolding GetObjectTagging_def assms(9-12)
    using metainfo_ok [OF v(1,2) assms(6) no_slash_end [OF g] assms(7,8), of b]
    by (simp add: stepping s c liftE_def exists_ok [OF assms(5)])
qed

text \<open>What a PutObjectTagging that succeeds has stored.\<close>

lemma put_tagging_done:
  assumes "PutObjectTagging b sfx i w = (Inr u, w')" "ti_Bucket i = Some bucket" "ti_Key i = Some key"
    "object = path_join [bucket, key]" "good_object object" "own_ok object sfx" "begins object sfx w"
    "calm {obj_path object} (waits w)"
  shows "\<exists>f x m. look (disk w') (obj_path object) = (Some (File f), Some x) \<and> sound (disk w')
    \<and> reach (disk w') (obj_path object) \<and> reach (disk w') (meta_path object)
    \<and> file_content (disk w') (meta_path object) = Some (Json (stored_meta m))
    \<and> Entity_key m = hash_entity_key b (look_info b f x) \<and> Tags m = ti_Tagging i
    \<and> check_bucket_naming bucket \<and> check_object_naming key \<and> \<not> has_prefix key ''..''"
proof -
  let ?C = "{meta_scratch object sfx}" and ?P = "{obj_path object}"
  let ?body = "seqE (check_object_exists b object) (\<lambda>(entity, _).
        seqE (fetch_object_etag b object entity) (\<lambda>(etag, metainfo).
        store_object_metainfo b object sfx (Some (tagged_meta entity etag metainfo (ti_Tagging i)))))"
  note own = assms(6) [unfolded own_ok_def own_paths_def, simplified]
  obtain o1 w1 where x: "check_usual_object_setup b (Some bucket) (Some key) w = (Inr o1, w1)"
    and y: "serializedE o1 (seqE (check_object_exists b o1) (\<lambda>(entity, _).
        seqE (fetch_object_etag b o1 entity) (\<lambda>(etag, metainfo).
        store_object_metainfo b o1 sfx (Some (tagged_meta entity etag metainfo (ti_Tagging i)))))) w1 = (Inr u, w')"
    using assms(1-3) by (auto simp: PutObjectTagging_def runs)
  have o1: "o1 = object" "disk w1 = disk w" "waits w1 = waits w" "open_inodes w1 = []"
    "check_bucket_naming bucket" "check_object_naming key"
    using run_object_setup [OF x] assms(4,7) by (auto simp: begins_def)
  have dots: "\<not> has_prefix key ''..''" using x by (auto simp: check_usual_object_setup_def runs split: if_splits)
  have c: "sound (disk w1)" "calm {} (waits w1)" "calm (?C \<union> ?P) (waits w1)"
    using assms(7,8) o1 by (auto simp: begins_def calm_def)
  obtain w2 w3 where r: "?body w2 = (Inr u, w3)" "disk w' = disk w3" "sound (disk w2)"
    "open_inodes w2 = open_inodes w1" "set (waits w2) \<subseteq> set (waits w1)"
    and q: "\<forall>P. calm P (waits w1) \<longrightarrow> (\<forall>p \<in> P. look (disk w2) p = look (disk w1) p)"
    using serialized_run [OF y [unfolded o1(1)] c(1,2)] by blast
  have r6: "\<forall>p \<in> ?C \<union> ?P. look (disk w2) p = look (disk w1) p" using q c(3) by blast
  have "look (disk w2) (meta_scratch object sfx) = look (disk w) (meta_scratch object sfx)"
    using r6 o1(2) by simp
  then have "node_at (disk w2) (meta_scratch object sfx) = None"
    using look_node [of "disk w2" _ "disk w"] assms(7) by (simp add: begins_def)
  then have g2: "guard ?C ?P w2"
    using r(3,4) o1(4) calm_subset [OF c(3) r(5)] by (auto simp: guard_def apart_def)
  obtain e st w4 etag mi w5 where b: "check_object_exists b object w2 = (Inr (e, st), w4)"
    "fetch_object_etag b object e w4 = (Inr (etag, mi), w5)"
    "store_object_metainfo b object sfx (Some (tagged_meta e etag mi (ti_Tagging i))) w5 = (Inr u, w3)"
    using r(1) by (auto simp: runs split: prod.splits)
  have "fetch_object_status b object False w2 = (Inr (e, Some st), w4)"
    using b(1) by (auto simp: check_object_exists_def runs Let_def split: option.splits)
  then obtain f x where f: "look (disk w2) (obj_path object) = (Some (File f), Some x)"
    "e = hash_entity_key b (look_info b f x)" using status_done r(3) by blast
  have "frame ?C ?P w2 w4" by (rule keepsD [OF keeps_exists b(1)])
  moreover have "frame ?C ?P w4 w5" by (rule keepsD [OF keeps_etag b(2)])
  ultimately have g5: "guard ?C ?P w5" "look (disk w5) (obj_path object) = look (disk w2) (obj_path object)"
    using g2 by (auto simp: frame_def same_look_def)
  note s = store_beside [OF b(3) assms(6) g5(1) assms(5)]
  have "Entity_key (tagged_meta e etag mi (ti_Tagging i)) = e"
    using fetched_entity [of b object e w4 etag _ w5] b(2) by (cases mi) (auto simp: tagged_meta_def)
  moreover have "Tags (tagged_meta e etag mi (ti_Tagging i)) = ti_Tagging i" by (simp add: tagged_meta_def)
  ultimately show ?thesis using s g5(2) f r(2) o1(5,6) dots by metis
qed

text \<open>
  Claim C21.  The tags that were put are the tags that are read: after a PutObjectTagging that is
  answered with success, a GetObjectTagging of the same key, when no system call fails, answers
  with exactly these tags, whatever tags and metainfo the object had before.
\<close>

theorem tagging_roundtrip:
  assumes "PutObjectTagging b (Scratch_marker h) i w = (Inr u, w')" "marker_ok (Scratch_marker h)"
    "ti_Bucket i = Some bucket" "ti_Key i = Some key" "good_key key"
    "begins (path_join [bucket, key]) (Scratch_marker h) w" "calm {obj_path (path_join [bucket, key])} (waits w)"
    "disk v = disk w'" "faults v = []"
    "gi_Bucket j = Some bucket" "gi_Key j = Some key" "gi_ExpectedBucketOwner j = None" "gi_VersionId j = None"
  shows "GetObjectTagging b j v = (Inr (case ti_Tagging i of None \<Rightarrow> [] | Some ts \<Rightarrow> ts), v)"
proof -
  let ?o = "path_join [bucket, key]"
  have "check_bucket_naming bucket"
    using assms(1,3,4) by (auto simp: PutObjectTagging_def runs dest: setup_result)
  then have g: "good_object ?o" using setup_object assms(5) by simp
  obtain f x m where d: "look (disk w') (obj_path ?o) = (Some (File f), Some x)" "sound (disk w')"
    "reach (disk w') (obj_path ?o)" "reach (disk w') (meta_path ?o)"
    "file_content (disk w') (meta_path ?o) = Some (Json (stored_meta m))"
    "Entity_key m = hash_entity_key b (look_info b f x)" "Tags m = ti_Tagging i"
    "check_bucket_naming bucket" "check_object_naming key" "\<not> has_prefix key ''..''"
    using put_tagging_done [OF assms(1,3,4) refl g own_ok_good [OF g assms(2)] assms(6,7)] by blast
  have "at_rest ?o f x v"
    using d(1-3) assms(8,9) no_slash_end [OF g, of No_marker] by (simp add: at_rest_def)
  from get_tags_ok [OF d(8-10) assms(5) this _ _ d(6) assms(10-13)] show ?thesis
    using d(4,5,7) assms(8) by simp
qed


text \<open>
  Putting or deleting tags, however it ends, changes no file but the metainfo file of
  the object and its scratch file; so the data of the object stays as it was.
\<close>

theorem tagging_leaves_others:
  assumes "PutObjectTagging b sfx i w = (r, w') \<and> ti_Bucket i = Some bucket \<and> ti_Key i = Some key
      \<or> DeleteObjectTagging b sfx j w = (r, w') \<and> ui_Bucket j = Some bucket \<and> ui_Key j = Some key"
    "begins (path_join [bucket, key]) sfx w" "own_ok (path_join [bucket, key]) sfx"
    "p \<noteq> meta_path (path_join [bucket, key])" "p \<noteq> meta_scratch (path_join [bucket, key]) sfx"
    "calm {p} (waits w)"
  shows "look (disk w') p = look (disk w) p"
proof -
  let ?F = "frame {meta_scratch (path_join [bucket, key]) sfx} {p}"
  note own = assms(3) [unfolded own_ok_def own_paths_def, simplified]
  have "keeps ?F (PutObjectTagging b sfx i)" if "ti_Bucket i = Some bucket" "ti_Key i = Some key"
    unfolding PutObjectTagging_def using that assms(4,5) own
    by (intro keeps_after_setup keeps_rules) auto
  moreover have "keeps ?F (DeleteObjectTagging b sfx j)" if "ui_Bucket j = Some bucket" "ui_Key j = Some key"
    unfolding DeleteObjectTagging_def using that assms(4,5) own
    by (intro keeps_after_setup keeps_rules) auto
  ultimately have "?F w w'" using assms(1) keepsD by blast
  moreover have "guard {meta_scratch (path_join [bucket, key]) sfx} {p} w"
    using assms(2,6) by (intro begins_guard) auto
  ultimately show ?thesis by (simp add: frame_def same_look_def)
qed

section \<open>Witnesses\<close>

definition example_tagging :: tagging_input where
  "example_tagging =
     \<lparr>ti_Bucket = Some ''bkt'', ti_Key = Some ''x'', ti_ExpectedBucketOwner = None,
      ti_VersionId = None, ti_Tagging = Some [(Some ''k'', Some ''v'')]\<rparr>"

definition example_get :: get_input where
  "example_get =
     \<lparr>gi_Bucket = Some ''bkt'', gi_Key = Some ''x'', gi_ExpectedBucketOwner = None, gi_VersionId = None,
      gi_Range = None, gi_PartNumber = None, gi_IfMatch = None, gi_IfNoneMatch = None,
      gi_IfModifiedSince = None, gi_IfUnmodifiedSince = None, gi_ChecksumMode = [],
      gi_response = empty_meta\<rparr>"

lemma example_tagging_ok:
  "\<exists>w'. PutObjectTagging example_bbs example_sfx example_tagging object_world = (Inr (), w')"
proof -
  have "case fst (PutObjectTagging example_bbs example_sfx example_tagging object_world) of Inr u \<Rightarrow> True | Inl _ \<Rightarrow> False"
    by code_simp
  then show ?thesis
    by (cases "PutObjectTagging example_bbs example_sfx example_tagging object_world") (auto split: sum.splits)
qed

lemma example_tagging_names: "ti_Bucket example_tagging = Some ''bkt''" "ti_Key example_tagging = Some ''x''"
  by (simp_all add: example_tagging_def)

theorem tagging_roundtrip_witness:
  "\<exists>w'. PutObjectTagging example_bbs example_sfx example_tagging object_world = (Inr (), w')
     \<and> GetObjectTagging example_bbs example_get (w'\<lparr>faults := []\<rparr>) = (Inr [(Some ''k'', Some ''v'')], w'\<lparr>faults := []\<rparr>)"
proof -
  obtain w' where r: "PutObjectTagging example_bbs example_sfx example_tagging object_world = (Inr (), w')"
    using example_tagging_ok by blast
  have "GetObjectTagging example_bbs example_get (w'\<lparr>faults := []\<rparr>)
      = (Inr (case ti_Tagging example_tagging of None \<Rightarrow> [] | Some ts \<Rightarrow> ts), w'\<lparr>faults := []\<rparr>)"
    using object_begins
    by (intro tagging_roundtrip [OF r example_sfx_ok example_tagging_names good_key_x(1)])
      (simp_all add: good_key_x example_get_def)
  then show ?thesis using r by (simp add: example_tagging_def)
qed

theorem tagging_leaves_others_witness:
  "\<exists>r w'. PutObjectTagging example_bbs example_sfx example_tagging object_world = (r, w')
     \<and> look (disk w') [''bkt'', ''x''] = look object_fs [''bkt'', ''x'']"
proof -
  obtain r w' where r: "PutObjectTagging example_bbs example_sfx example_tagging object_world = (r, w')"
    by (cases "PutObjectTagging example_bbs example_sfx example_tagging object_world")
  have "good_object ''bkt/x''" "[''bkt'', ''x''] \<noteq> meta_path ''bkt/x''"
    "[''bkt'', ''x''] \<noteq> meta_scratch ''bkt/x'' example_sfx"
    by code_simp+
  then show ?thesis
    using tagging_leaves_others [of example_bbs example_sfx example_tagging object_world r w' "''bkt''" "''x''"]
      r example_tagging_names object_begins own_ok_good [OF _ example_sfx_ok] by (auto simp: good_key_x)
qed


end
