(* ===== verification/Buckets.thy ===== *)
theory Buckets
  imports Setup_ok
begin

text \<open>
  CreateBucket, DeleteBucket and HeadBucket of v1/server/api-action.go, and the check of the
  emptiness of a bucket in v1/server/listing.go.
\<close>

section \<open>The check of a directory\<close>

definition check_special_file :: "file_info \<Rightarrow> bool" where
  "check_special_file stat \<longleftrightarrow> \<not> (fi_type stat = T_dir \<or> fi_type stat = T_regular)"

text \<open>
  The loop over the files: True when it returns from the function, at a special file; an error of
  fs.DirEntry.Info skips the entry.
\<close>

fun scan_files :: "bbs \<Rightarrow> string \<Rightarrow> string \<Rightarrow> (string \<times> node) list \<Rightarrow> bool act" where
  "scan_files b location path1 [] = retE False"
| "scan_files b location path1 ((name, node) # es) =
     sys_elseE (os_Lstat b (path_join [path1, name]))
       (\<lambda>_. scan_files b location path1 es)
       (\<lambda>stat.
         if node = Dir then scan_files b location path1 es
         else if check_special_file stat then retE True
         else if check_metainfo_name name then scan_files b location path1 es
         else failE (s3_error BucketNotEmpty [] location))"

text \<open>The loop over the directories; None when the fuel of the recursive check ends.\<close>

fun scan_dirs ::
  "(string \<Rightarrow> unit option act) \<Rightarrow> string \<Rightarrow> string \<Rightarrow> (string \<times> node) list \<Rightarrow> unit option act" where
  "scan_dirs rec location path1 [] = retE (Some ())"
| "scan_dirs rec location path1 ((name, node) # es) =
     (if node \<noteq> Dir \<or> name = ''.'' \<or> name = ''..'' then scan_dirs rec location path1 es
      else if check_mpul_scratch_name name then failE (s3_error BucketNotEmpty [] location)
      else seqE (rec (path_join [path1, name])) (\<lambda>r.
        case r of None \<Rightarrow> retE None | Some _ \<Rightarrow> scan_dirs rec location path1 es))"

primrec check_directory_empty :: "nat \<Rightarrow> bbs \<Rightarrow> string \<Rightarrow> string \<Rightarrow> unit option act" where
  "check_directory_empty 0 b bucket path1 = retE None"
| "check_directory_empty (Suc n) b bucket path1 =
     (let location = ''/'' @ bucket in
      sys_elseE (os_ReadDir path1)
        (\<lambda>_. failE (s3_error InternalError ''Listing in a bucket failed.'' location))
        (\<lambda>filelist.
          seqE (scan_files b location path1 filelist) (\<lambda>stop.
          if stop then retE (Some ())
          else scan_dirs (check_directory_empty n b bucket) location path1 filelist)))"

text \<open>The fuel: a directory is not deeper than the longest path in the tree.\<close>

definition tree_depth :: "fsys \<Rightarrow> nat" where
  "tree_depth s = fold (\<lambda>(p, _) n. max (length p) n) (tree s) 0"

definition check_bucket_empty :: "bbs \<Rightarrow> string \<Rightarrow> unit act" where
  "check_bucket_empty b bucket =
     seqE (getE (\<lambda>w. tree_depth (disk w) + 1)) (\<lambda>n.
     seqE (check_directory_empty n b bucket (make_path_of_bucket bucket)) (\<lambda>r.
     case r of None \<Rightarrow> panicE | Some _ \<Rightarrow> retE ()))"

section \<open>The actions\<close>

record bucket_input =
  bi_Bucket :: "string option"
  bi_ExpectedBucketOwner :: "string option"

definition CreateBucket :: "bbs \<Rightarrow> bucket_input \<Rightarrow> string act" where
  "CreateBucket b i =
     (case bi_Bucket i of
        None \<Rightarrow> fatalE
      | Some bucket \<Rightarrow>
          if \<not> check_bucket_naming bucket then failE (s3_error InvalidBucketName [] [])
          else (let location = ''/'' @ bucket in
            seqE (liftE (check_options_unsupported b no_options)) (\<lambda>_.
            serializedE bucket
              (sys_elseE (os_Mkdir (make_path_of_bucket bucket))
                (\<lambda>err3. failE (map_os_error location err3 [(Some Err_exist, BucketAlreadyOwnedByYou)]))
                (\<lambda>_. retE location)))))"

definition HeadBucket :: "bbs \<Rightarrow> bucket_input \<Rightarrow> unit act" where
  "HeadBucket b i =
     seqE (check_usual_bucket_setup b (bi_Bucket i)) (\<lambda>_.
     liftE (check_options_unsupported b (no_options\<lparr>ExpectedBucketOwner := bi_ExpectedBucketOwner i\<rparr>)))"

text \<open>The emptiness is checked at the path of the bucket, which is its own path again.\<close>

definition DeleteBucket :: "bbs \<Rightarrow> bucket_input \<Rightarrow> unit act" where
  "DeleteBucket b i =
     seqE (check_usual_bucket_setup b (bi_Bucket i)) (\<lambda>bucket.
     let location = ''/'' @ bucket; path = make_path_of_bucket bucket in
     seqE (liftE (check_options_unsupported b
       (no_options\<lparr>ExpectedBucketOwner := bi_ExpectedBucketOwner i\<rparr>))) (\<lambda>_.
     serializedE bucket
       (sys_elseE (os_Remove path)
         (\<lambda>_. seqE (check_bucket_empty b path) (\<lambda>_.
           sys_elseE (os_RemoveAll path)
             (\<lambda>_. failE (s3_error BucketNotEmpty [] location))
             retE))
         retE)))"

section \<open>Directories without faults\<close>

text \<open>The paths the checks are made with: plain names joined by slashes.\<close>

definition dir_path :: "path \<Rightarrow> string" where
  "dir_path ps = join_with slash ps"

definition dir_ok :: "fsys \<Rightarrow> path \<Rightarrow> bool" where
  "dir_ok s ps \<longleftrightarrow> ps \<noteq> [] \<and> list_all plain ps \<and> reach s ps \<and> node_at s ps = Some Dir"

text \<open>File systems whose names are names: not empty, without slashes and not dots.\<close>

definition plain_tree :: "fsys \<Rightarrow> bool" where
  "plain_tree s \<longleftrightarrow> list_all (\<lambda>(p, n). list_all plain p) (tree s)"

lemma plain_tree_node: "plain_tree s \<Longrightarrow> node_at s (ps @ [n]) = Some x \<Longrightarrow> plain n"
  by (auto simp: plain_tree_def node_at_def list_all_iff dest!: map_of_SomeD)

lemma last_join_with: "ps \<noteq> [] \<Longrightarrow> last ps \<noteq> [] \<Longrightarrow> join_with c ps \<noteq> [] \<and> last (join_with c ps) = last (last ps)"
  by (induction c ps rule: join_with.induct) auto

lemma dir_path_plain:
  assumes "ps \<noteq> []" "\<forall>c \<in> set ps. plain c"
  shows "comps (dir_path ps) = ps" "\<not> has_suffix (dir_path ps) ''/''"
proof -
  show "comps (dir_path ps) = ps" using assms comps_join by (simp add: dir_path_def)
  have n: "plain (last ps)" using assms by simp
  then have "last (last ps) \<noteq> slash" "last ps \<noteq> []" unfolding plain_def by (metis last_in_set, simp)
  then have "last (dir_path ps) \<noteq> slash" "dir_path ps \<noteq> []"
    using last_join_with [OF assms(1), of slash] by (simp_all add: dir_path_def)
  then show "\<not> has_suffix (dir_path ps) ''/''" by (auto simp: has_suffix_def suffix_def)
qed

lemma dir_path_comps:
  assumes "dir_ok s ps"
  shows "comps (dir_path ps) = ps" "\<not> has_suffix (dir_path ps) ''/''"
  using dir_path_plain [of ps] assms by (simp_all add: dir_ok_def list_all_iff)

lemma dir_path_snoc:
  assumes "dir_ok s ps" "plain n"
  shows "path_join [dir_path ps, n] = dir_path (ps @ [n])"
proof -
  have p: "ps \<noteq> []" "\<forall>c \<in> set (ps @ [n]). plain c" using assms by (auto simp: dir_ok_def list_all_iff)
  have "dir_path ps \<noteq> []" using plain_join_ne [OF p(1)] p(2) by (simp add: dir_path_def)
  moreover have "n \<noteq> []" using assms(2) by (simp add: plain_def)
  moreover have "join_with slash [dir_path ps, n] = dir_path (ps @ [n])"
    using join_with_append [OF p(1), of "[n]" slash] by (simp add: dir_path_def)
  ultimately show ?thesis
    using path_clean_plain [of "ps @ [n]"] p(2) by (simp add: path_join_def dir_path_def)
qed

text \<open>The entries of a directory, as os.ReadDir lists them.\<close>

definition entries :: "fsys \<Rightarrow> path \<Rightarrow> (string \<times> node) list" where
  "entries s p =
     map (\<lambda>n. (n, case node_at s (p @ [n]) of Some x \<Rightarrow> x | None \<Rightarrow> Special)) (sort (map last (children s p)))"

lemma child_iff: "n \<in> last ` set (children s p) \<longleftrightarrow> node_at s (p @ [n]) \<noteq> None"
proof
  assume "n \<in> last ` set (children s p)"
  then obtain q where q: "q \<noteq> []" "butlast q = p" "last q = n" "q \<in> fst ` set (tree s)"
    by (auto simp: children_def)
  then have "q = p @ [n]" by (metis append_butlast_last_id)
  then show "node_at s (p @ [n]) \<noteq> None" using q(4) by (auto simp: node_at_def map_of_eq_None_iff)
next
  assume "node_at s (p @ [n]) \<noteq> None"
  then have "p @ [n] \<in> set (children s p)"
    by (auto simp: children_def node_at_def map_of_eq_None_iff)
  then show "n \<in> last ` set (children s p)" by force
qed

lemma entries_node: "(n, x) \<in> set (entries s p) \<longleftrightarrow> node_at s (p @ [n]) = Some x"
  using child_iff [of n s p] by (auto simp: entries_def split: option.splits)

lemma readdir_ok:
  assumes "faults w = []" "sound (disk w)" "dir_ok (disk w) ps"
  shows "os_ReadDir (dir_path ps) w = (Inr (entries (disk w) ps), w)"
proof -
  have "resolve (disk w) True (dir_path ps) = Inr ps"
    using reach_resolve [OF assms(2), of "dir_path ps" True] dir_path_comps [OF assms(3)] assms(3)
    by (simp add: dir_ok_def)
  then show ?thesis
    using assms(1,3) unfolding os_ReadDir_def
    by (intro syscall_ok) (simp_all add: fs_readdir_def dir_ok_def entries_def)
qed

lemma entry_lstat_ok:
  assumes "faults w = []" "sound (disk w)" "dir_ok (disk w) ps" "plain n" "node_at (disk w) (ps @ [n]) = Some x"
  shows "os_Lstat b (path_join [dir_path ps, n]) w = (Inr (node_info b (disk w) x), w)"
proof -
  have p: "ps @ [n] \<noteq> []" "\<forall>c \<in> set (ps @ [n]). plain c" using assms(3,4) by (auto simp: dir_ok_def list_all_iff)
  show ?thesis
    unfolding dir_path_snoc [OF assms(3,4)] using assms dir_path_plain [OF p]
    by (intro lstat_ok) (simp_all add: reach_snoc dir_ok_def)
qed

section \<open>What the check of emptiness finds\<close>

definition no_special :: "fsys \<Rightarrow> bool" where
  "no_special s \<longleftrightarrow> list_all (\<lambda>(p, n). n \<noteq> Special) (tree s)"

lemma no_special_node: "no_special s \<Longrightarrow> node_at s p \<noteq> Some Special"
  by (auto simp: no_special_def node_at_def list_all_iff dest!: map_of_SomeD split: if_splits)

text \<open>An object below a directory: a regular file whose name has no leading dot.\<close>

definition visible :: "fsys \<Rightarrow> path \<Rightarrow> bool" where
  "visible s ps \<longleftrightarrow> (\<exists>qs n i. node_at s (ps @ qs @ [n]) = Some (File i) \<and> \<not> has_prefix n ''.''
     \<and> reach s (ps @ qs @ [n]))"

lemma visible_cases:
  assumes "visible s ps"
  obtains (here) n i where "node_at s (ps @ [n]) = Some (File i)" "\<not> has_prefix n ''.''"
  | (down) c where "node_at s (ps @ [c]) = Some Dir" "visible s (ps @ [c])"
proof -
  obtain qs n i where v: "node_at s (ps @ qs @ [n]) = Some (File i)" "\<not> has_prefix n ''.''"
    "reach s (ps @ qs @ [n])" using assms unfolding visible_def by blast
  show ?thesis
  proof (cases qs)
    case Nil
    then show ?thesis using v here by simp
  next
    case (Cons c rs)
    have "strict_prefix (ps @ [c]) (ps @ qs @ [n])" by (simp add: Cons strict_prefix_def)
    then have "node_at s (ps @ [c]) = Some Dir" using v(3) by (simp add: reach_def)
    moreover have "visible s (ps @ [c])" unfolding visible_def using v Cons by (intro exI [of _ rs] exI [of _ n]) auto
    ultimately show ?thesis using down by blast
  qed
qed

abbreviation not_empty :: "string \<Rightarrow> 'a result" where
  "not_empty location \<equiv> failed (s3_error BucketNotEmpty [] location)"

text \<open>Without faults and special files, the first loop fails at an object or goes through.\<close>

lemma scan_files_ok:
  assumes "faults w = []" "sound (disk w)" "plain_tree (disk w)" "no_special (disk w)" "dir_ok (disk w) ps"
    "\<forall>(n, x) \<in> set es. node_at (disk w) (ps @ [n]) = Some x"
  shows "scan_files b location (dir_path ps) es w
    = (if \<exists>(n, x) \<in> set es. x \<noteq> Dir \<and> \<not> has_prefix n ''.'' then not_empty location else Inr False, w)"
  using assms(6)
proof (induction es)
  case Nil
  then show ?case by (simp add: retE_def)
next
  case (Cons e es)
  obtain n x where e: "e = (n, x)" by (cases e)
  then have x: "node_at (disk w) (ps @ [n]) = Some x" using Cons.prems by simp
  note l = entry_lstat_ok [OF assms(1,2,5) plain_tree_node [OF assms(3) x] x, of b]
  have "x \<noteq> Special" using no_special_node [OF assms(4)] x by blast
  moreover have "\<not> (\<exists>t. x = Symlink t)" using sound_not_link [OF assms(2)] x by auto
  ultimately have "\<not> check_special_file (node_info b (disk w) x)"
    by (cases x) (auto simp: check_special_file_def node_info_def plain_info_def inode_info_def Let_def)
  moreover have "\<forall>(n, x) \<in> set es. node_at (disk w) (ps @ [n]) = Some x" using Cons.prems by simp
  note IH = Cons.IH [OF this]
  ultimately show ?case
    using l e IH by (auto simp: stepping check_metainfo_name_def)
qed

lemma dir_ok_snoc:
  "dir_ok s ps \<Longrightarrow> plain_tree s \<Longrightarrow> node_at s (ps @ [n]) = Some Dir \<Longrightarrow> dir_ok s (ps @ [n])"
  using plain_tree_node by (auto simp: dir_ok_def reach_snoc)

text \<open>The second loop, given what the recursive check does in the directories below.\<close>

definition check_sound :: "(string \<Rightarrow> unit option act) \<Rightarrow> string \<Rightarrow> path \<Rightarrow> world \<Rightarrow> bool" where
  "check_sound chk location ps w \<longleftrightarrow>
     (\<exists>r. chk (dir_path ps) w = (r, w)
        \<and> (r = Inr None \<or> r = not_empty location \<or> r = Inr (Some ()) \<and> \<not> visible (disk w) ps))"

lemma scan_dirs_ok:
  assumes "plain_tree (disk w)" "dir_ok (disk w) ps"
    "\<forall>(n, x) \<in> set es. node_at (disk w) (ps @ [n]) = Some x"
    "\<And>n. node_at (disk w) (ps @ [n]) = Some Dir \<Longrightarrow> check_sound rec location (ps @ [n]) w"
  shows "\<exists>r. scan_dirs rec location (dir_path ps) es w = (r, w)
    \<and> (r = Inr None \<or> r = not_empty location
       \<or> r = Inr (Some ()) \<and> (\<forall>(n, x) \<in> set es. x = Dir \<longrightarrow> \<not> visible (disk w) (ps @ [n])))"
  using assms(3)
proof (induction es)
  case Nil
  then show ?case by (simp add: retE_def)
next
  case (Cons e es)
  obtain n x where e: "e = (n, x)" by (cases e)
  then have x: "node_at (disk w) (ps @ [n]) = Some x" using Cons.prems by simp
  note p = plain_tree_node [OF assms(1) x]
  obtain r where r: "scan_dirs rec location (dir_path ps) es w = (r, w)"
    "r = Inr None \<or> r = not_empty location
       \<or> r = Inr (Some ()) \<and> (\<forall>(n, x) \<in> set es. x = Dir \<longrightarrow> \<not> visible (disk w) (ps @ [n]))"
    using Cons by auto
  show ?case
  proof (cases "x = Dir")
    case False
    then show ?thesis using r e by auto
  next
    case True
    then obtain q where q: "rec (dir_path (ps @ [n])) w = (q, w)"
      "q = Inr None \<or> q = not_empty location \<or> q = Inr (Some ()) \<and> \<not> visible (disk w) (ps @ [n])"
      using assms(4) x unfolding check_sound_def by blast
    have "path_join [dir_path ps, n] = dir_path (ps @ [n])" using dir_path_snoc [OF assms(2) p] .
    then show ?thesis using True r q e p
      by (auto simp: plain_def seqE_def failE_def retE_def)
  qed
qed

lemma check_directory_ok:
  assumes "faults w = []" "sound (disk w)" "plain_tree (disk w)" "no_special (disk w)" "dir_ok (disk w) ps"
  shows "check_sound (check_directory_empty n b bucket) (''/'' @ bucket) ps w"
  using assms(5)
proof (induction n arbitrary: ps)
  case 0
  then show ?case by (simp add: check_sound_def retE_def)
next
  case (Suc n)
  let ?es = "entries (disk w) ps" and ?l = "''/'' @ bucket"
  have es: "\<forall>(n, x) \<in> set ?es. node_at (disk w) (ps @ [n]) = Some x" using entries_node by blast
  note rd = readdir_ok [OF assms(1,2) Suc.prems]
  note fl = scan_files_ok [OF assms(1-4) Suc.prems es, of b ?l]
  obtain r where r: "scan_dirs (check_directory_empty n b bucket) ?l (dir_path ps) ?es w = (r, w)"
    "r = Inr None \<or> r = not_empty ?l
       \<or> r = Inr (Some ()) \<and> (\<forall>(n, x) \<in> set ?es. x = Dir \<longrightarrow> \<not> visible (disk w) (ps @ [n]))"
    using scan_dirs_ok [OF assms(3) Suc.prems es, of "check_directory_empty n b bucket" ?l]
      Suc.IH [OF dir_ok_snoc [OF Suc.prems assms(3)]] by blast
  show ?case
  proof (cases "\<exists>(n, x) \<in> set ?es. x \<noteq> Dir \<and> \<not> has_prefix n ''.''")
    case True
    then show ?thesis using rd fl by (simp add: check_sound_def stepping Let_def)
  next
    case False
    have "\<not> visible (disk w) ps" if "\<forall>(n, x) \<in> set ?es. x = Dir \<longrightarrow> \<not> visible (disk w) (ps @ [n])"
    proof
      assume "visible (disk w) ps"
      then show False
      proof (cases rule: visible_cases)
        case (here m i)
        then show ?thesis using False entries_node [of m "File i" "disk w" ps] by fastforce
      next
        case (down c)
        then show ?thesis using that entries_node [of c Dir "disk w" ps] by fastforce
      qed
    qed
    then show ?thesis using rd fl False r by (auto simp: check_sound_def stepping Let_def)
  qed
qed

section \<open>The recursion ends\<close>

lemma tree_depth_ge:
  assumes "node_at s p \<noteq> None"
  shows "length p \<le> tree_depth s"
proof -
  have m: "m \<le> fold (\<lambda>(p, _) n. max (length p) n) t m" for t :: "(path \<times> node) list" and m
    by (induction t arbitrary: m) (auto intro: order_trans [OF max.cobounded2])
  have "length p \<le> fold (\<lambda>(p, _) n. max (length p) n) t m" if "p \<in> fst ` set t" for t :: "(path \<times> node) list" and m
    using that
  proof (induction t arbitrary: m)
    case (Cons e t)
    then show ?case
    proof (cases "p = fst e")
      case True
      have "length p \<le> max (length p) m" by simp
      also have "\<dots> \<le> fold (\<lambda>(p, _) n. max (length p) n) t (max (length p) m)" by (rule m)
      finally show ?thesis using True by (simp add: case_prod_unfold)
    qed (auto simp: case_prod_unfold)
  qed simp
  moreover have "p = [] \<or> p \<in> fst ` set (tree s)"
    using assms by (cases "p = []") (auto simp: node_at_def dest!: map_of_SomeD intro: rev_image_eqI)
  ultimately show ?thesis by (auto simp: tree_depth_def)
qed

text \<open>None of the calls of the check changes the files, whatever fails.\<close>

definition same_disk :: "world \<Rightarrow> world \<Rightarrow> bool" where
  "same_disk w w' \<longleftrightarrow> disk w' = disk w"

interpretation check: call_relation same_disk
  by unfold_locales (auto simp: same_disk_def)

lemma same_disk_calls [keeps_rules]:
  "keeps same_disk (sysE (os_Lstat b path))" "keeps same_disk (sysE (os_ReadDir path))"
  by (auto simp: keeps_def sysE_def os_Lstat_def os_ReadDir_def same_disk_def syscall_def fs_stat_def fs_readdir_def Let_def
      split: list.splits option.splits sum.splits node.splits)

lemma scan_files_disk [keeps_rules]: "keeps same_disk (scan_files b location path1 es)"
  by (induction b location path1 es rule: scan_files.induct) (auto intro!: keeps_rules)

text \<open>Some value with enough fuel: at a directory of a depth with the fuel for what is below it.\<close>

definition never_none :: "(string \<Rightarrow> unit option act) \<Rightarrow> path \<Rightarrow> fsys \<Rightarrow> bool" where
  "never_none chk ps s \<longleftrightarrow> (\<forall>w r w'. disk w = s \<longrightarrow> chk (dir_path ps) w = (r, w') \<longrightarrow> r \<noteq> Inr None \<and> disk w' = s)"

lemma scan_dirs_some:
  assumes "plain_tree s" "dir_ok s ps" "\<forall>(n, x) \<in> set es. node_at s (ps @ [n]) = Some x"
    "\<And>n. node_at s (ps @ [n]) = Some Dir \<Longrightarrow> never_none rec (ps @ [n]) s"
    "disk w = s" "scan_dirs rec location (dir_path ps) es w = (r, w')"
  shows "r \<noteq> Inr None \<and> disk w' = s"
  using assms(3,5,6)
proof (induction es arbitrary: w)
  case Nil
  then show ?case by (auto simp: retE_def)
next
  case (Cons e es)
  obtain n x where e: "e = (n, x)" by (cases e)
  then have x: "node_at s (ps @ [n]) = Some x" using Cons.prems(1) by simp
  note p = plain_tree_node [OF assms(1) x]
  have j: "path_join [dir_path ps, n] = dir_path (ps @ [n])" using dir_path_snoc [OF assms(2) p] .
  obtain q w1 where q: "rec (dir_path (ps @ [n])) w = (q, w1)" by (cases "rec (dir_path (ps @ [n])) w")
  show ?case
  proof (cases "x = Dir")
    case False
    then show ?thesis using Cons e by auto
  next
    case True
    then have "q \<noteq> Inr None" "disk w1 = s"
      using assms(4) x q Cons.prems(2) unfolding never_none_def by blast+
    then show ?thesis using Cons e True q p j
      by (auto simp: plain_def seqE_def failE_def retE_def split: if_splits sum.splits option.splits)
  qed
qed

lemma check_directory_some:
  assumes "sound s" "plain_tree s" "dir_ok s ps" "tree_depth s < n + length ps"
  shows "never_none (check_directory_empty n b bucket) ps s"
  using assms(3,4)
proof (induction n arbitrary: ps)
  case 0
  then show ?case using tree_depth_ge [of s ps] by (simp add: dir_ok_def)
next
  case (Suc n)
  have below: "never_none (check_directory_empty n b bucket) (ps @ [m]) s" if "node_at s (ps @ [m]) = Some Dir" for m
    using Suc.IH [OF dir_ok_snoc [OF Suc.prems(1) assms(2) that]] Suc.prems(2) by simp
  show ?case
  proof (unfold never_none_def, intro allI impI)
    fix w r w'
    assume w: "disk w = s" and run: "check_directory_empty (Suc n) b bucket (dir_path ps) w = (r, w')"
    obtain l w1 where l: "os_ReadDir (dir_path ps) w = (l, w1)" by (cases "os_ReadDir (dir_path ps) w")
    have w1: "disk w1 = s"
      using keepsD [OF same_disk_calls(2), of "dir_path ps" w "Inr l" w1] l w by (simp add: sysE_def same_disk_def)
    show "r \<noteq> Inr None \<and> disk w' = s"
    proof (cases l)
      case (Inl e)
      then show ?thesis using run l w1 by (auto simp: sys_elseE_def seqE_def sysE_def failE_def Let_def)
    next
      case (Inr es)
      have "resolve s True (dir_path ps) = Inr ps"
        using reach_resolve [OF assms(1), of "dir_path ps" True] dir_path_comps [OF Suc.prems(1)] Suc.prems(1)
        by (simp add: dir_ok_def)
      then have "es = entries s ps"
        using l Inr w Suc.prems(1) syscall_done [of "''open''" "dir_path ps" "fs_readdir (dir_path ps)" w es w1]
        by (auto simp: os_ReadDir_def fs_readdir_def dir_ok_def entries_def)
      then have es: "\<forall>(m, x) \<in> set es. node_at s (ps @ [m]) = Some x" using entries_node by blast
      obtain q w2 where q: "scan_files b (''/'' @ bucket) (dir_path ps) es w1 = (q, w2)"
        by (cases "scan_files b (''/'' @ bucket) (dir_path ps) es w1")
      have w2: "disk w2 = s" using keepsD [OF scan_files_disk q] w1 by (simp add: same_disk_def)
      note sd = scan_dirs_some [OF assms(2) Suc.prems(1) es below w2]
      show ?thesis using run l Inr q w2 sd
        by (auto simp: sys_elseE_def seqE_def sysE_def retE_def Let_def split: sum.splits if_splits)
    qed
  qed
qed

declare check_directory_empty.simps(2) [simp del]

lemma bucket_dir_path: "check_bucket_naming bucket \<Longrightarrow> make_path_of_bucket bucket = dir_path [bucket]"
  using bucket_path [OF checked_bucket_plain] by (simp add: dir_path_def)

lemma bucket_dir_ok: "check_bucket_naming bucket \<Longrightarrow> node_at s [bucket] = Some Dir \<Longrightarrow> dir_ok s [bucket]"
  using checked_bucket_plain [of bucket] reach_snoc [of s "[]" bucket]
  by (simp add: dir_ok_def node_at_def)

text \<open>
  The recursive check of the emptiness of a bucket ends: with the depth of the file
  system as its fuel the result is never the exhausted one, whatever system calls fail.
\<close>

theorem check_bucket_terminates:
  assumes "sound (disk w)" "plain_tree (disk w)" "check_bucket_naming bucket" "node_at (disk w) [bucket] = Some Dir"
    "check_directory_empty (tree_depth (disk w) + 1) b bucket2 (make_path_of_bucket bucket) w = (r, w')"
  shows "r \<noteq> Inr None"
proof -
  have "never_none (check_directory_empty (tree_depth (disk w) + 1) b bucket2) [bucket] (disk w)"
    using check_directory_some [OF assms(1,2) bucket_dir_ok [OF assms(3,4)], of "tree_depth (disk w) + 1"] by simp
  then show ?thesis using assms(5) bucket_dir_path [OF assms(3)] unfolding never_none_def by metis
qed

section \<open>The actions on buckets\<close>

lemma bucket_setup_ok:
  assumes "check_bucket_naming bucket" "faults w = []" "sound (disk w)" "node_at (disk w) [bucket] = Some Dir"
  shows "check_usual_bucket_setup b (Some bucket) w = (Inr bucket, w)"
  using assms bucket_directory_ok [OF assms] by (simp add: check_usual_bucket_setup_def stepping)

lemma remove_directory_fails:
  assumes "faults w = []" "sound (disk w)" "dir_ok (disk w) ps" "children (disk w) ps \<noteq> []"
  shows "\<exists>e. os_Remove (dir_path ps) w = (Inl e, w)"
proof -
  have "resolve (disk w) False (dir_path ps) = Inr ps"
    using reach_resolve [OF assms(2), of "dir_path ps" False] dir_path_comps [OF assms(3)] assms(3)
    by (simp add: dir_ok_def)
  then have "fs_remove (dir_path ps) (disk w) = Inl Err_exist"
    using assms(3,4) by (simp add: fs_remove_def dir_ok_def)
  then show ?thesis using syscall_bad [OF assms(1), of "fs_remove (dir_path ps)"] by (simp add: os_Remove_def)
qed

text \<open>
  Claim C19.  A bucket that holds an object is not deleted: without faults and special files,
  DeleteBucket answers BucketNotEmpty and changes nothing if there is a file anywhere below the
  bucket whose name has no leading dot.
\<close>

theorem delete_bucket_keeps_objects:
  assumes "bi_Bucket i = Some bucket" "bi_ExpectedBucketOwner i = None" "check_bucket_naming bucket"
    "faults w = []" "waits w = []" "sound (disk w)" "plain_tree (disk w)" "no_special (disk w)"
    "node_at (disk w) (bucket # qs @ [n]) = Some (File f)" "reach (disk w) (bucket # qs @ [n])" "\<not> has_prefix n ''.''"
  shows "\<exists>e w'. DeleteBucket b i w = (failed e, w') \<and> Code e = BucketNotEmpty \<and> disk w' = disk w"
proof -
  define v where "v = w\<lparr>waits := [], held := bucket # held w\<rparr>"
  let ?s = "disk w" and ?p = "dir_path [bucket]"
  have v: "disk v = ?s" "faults v = []" using assms(4) by (simp_all add: v_def)
  have "strict_prefix [bucket] (bucket # qs @ [n])" by (simp add: strict_prefix_def)
  then have d: "node_at ?s [bucket] = Some Dir" using assms(10) by (simp add: reach_def)
  note ok = bucket_dir_ok [OF assms(3) d]
  have vis: "visible ?s [bucket]" using assms(9-11) unfolding visible_def by (intro exI [of _ qs] exI [of _ n]) auto
  have "children ?s [bucket] \<noteq> []"
    using vis child_iff [of _ ?s "[bucket]"] by (cases rule: visible_cases) fastforce+
  then obtain e where rm: "os_Remove ?p v = (Inl e, v)"
    using remove_directory_fails [of v "[bucket]"] v assms(6) ok by auto
  have pp: "make_path_of_bucket bucket = ?p" "make_path_of_bucket ?p = ?p"
    using bucket_dir_path [OF assms(3)] by (simp_all add: dir_path_def)
  have "check_sound (check_directory_empty (tree_depth ?s + 1) b ?p) (''/'' @ ?p) [bucket] v"
    by (rule check_directory_ok) (use v assms(6-8) ok in simp_all)
  then obtain r where r: "check_directory_empty (tree_depth ?s + 1) b ?p ?p v = (r, v)"
    "r = Inr None \<or> r = not_empty (''/'' @ ?p) \<or> r = Inr (Some ()) \<and> \<not> visible ?s [bucket]"
    unfolding check_sound_def v(1) by blast
  have "never_none (check_directory_empty (tree_depth ?s + 1) b ?p) [bucket] ?s"
    by (rule check_directory_some [OF assms(6,7) ok]) simp
  then have "r \<noteq> Inr None" using r(1) v(1) unfolding never_none_def by blast
  then have "r = not_empty (''/'' @ ?p)" using r(2) vis by blast
  then have "check_bucket_empty b ?p v = (not_empty (''/'' @ ?p), v)"
    using r(1) pp(2) v(1) by (simp add: check_bucket_empty_def getE_def stepping)
  moreover have "serialize_access bucket w = (Inr (), v)"
    using assms(5) by (simp add: serialize_access_def v_def)
  ultimately have "serializedE bucket
       (sys_elseE (os_Remove ?p)
         (\<lambda>_. seqE (check_bucket_empty b ?p) (\<lambda>_.
           sys_elseE (os_RemoveAll ?p) (\<lambda>_. failE (s3_error BucketNotEmpty [] (''/'' @ bucket))) retE))
         retE) w = (not_empty (''/'' @ ?p), v\<lparr>held := held w\<rparr>)"
    using rm by (simp add: serializedE_def stepping deferE_def release_access_def v_def)
  moreover have "check_options_unsupported b (no_options\<lparr>ExpectedBucketOwner := None\<rparr>) = ok ()"
    by (simp add: check_options_unsupported_iff no_options_def)
  ultimately have "DeleteBucket b i w = (not_empty (''/'' @ ?p), v\<lparr>held := held w\<rparr>)"
    using bucket_setup_ok [OF assms(3,4,6) d, of b] assms(1,2) pp(1)
    by (simp add: DeleteBucket_def Let_def liftE_def seqE_def)
  then show ?thesis using v(1) by (simp add: s3_error_def)
qed

text \<open>
  A special file hides the objects of its directory from the check: when the listing
  of a bucket comes to a socket or a pipe before it comes to an object, the bucket counts as
  empty, and DeleteBucket removes it together with the object.
\<close>

theorem special_file_hides_objects:
  "\<exists>w w'. sound (disk w) \<and> faults w = [] \<and> look (disk w) [''bkt'', ''x''] = look object_fs [''bkt'', ''x'']
     \<and> DeleteBucket example_bbs \<lparr>bi_Bucket = Some ''bkt'', bi_ExpectedBucketOwner = None\<rparr> w = (Inr (), w')
     \<and> node_at (disk w') [''bkt'', ''x''] = None"
proof -
  let ?w = "object_world\<lparr>disk := object_fs\<lparr>tree := tree object_fs @ [([''bkt'', ''a''], Special)]\<rparr>\<rparr>"
  let ?i = "\<lparr>bi_Bucket = Some ''bkt'', bi_ExpectedBucketOwner = None\<rparr> :: bucket_input"
  have r: "case DeleteBucket example_bbs ?i ?w of (Inr u, w') \<Rightarrow> node_at (disk w') [''bkt'', ''x''] = None | _ \<Rightarrow> False"
    by code_simp
  have s: "sound (disk ?w)" "look (disk ?w) [''bkt'', ''x''] = look object_fs [''bkt'', ''x'']" by code_simp+
  obtain q w' where d: "DeleteBucket example_bbs ?i ?w = (q, w')" by (cases "DeleteBucket example_bbs ?i ?w")
  then show ?thesis using r s by (intro exI [of _ ?w] exI [of _ w']) (auto split: sum.splits)
qed

text \<open>
  CreateBucket makes a bucket exactly once: without faults it makes the directory when
  nothing has its name, and answers BucketAlreadyOwnedByYou and changes nothing otherwise.
\<close>

theorem create_bucket_once:
  assumes "bi_Bucket i = Some bucket" "check_bucket_naming bucket" "faults w = []" "waits w = []" "sound (disk w)"
  shows "\<exists>r w'. CreateBucket b i w = (r, w')
    \<and> (if node_at (disk w) [bucket] = None
       then r = Inr (''/'' @ bucket) \<and> disk w' = put_node [bucket] Dir (disk w)
       else fail_code r = Some BucketAlreadyOwnedByYou \<and> disk w' = disk w)"
proof -
  let ?w = "w\<lparr>waits := [], held := bucket # held w\<rparr>" and ?p = "dir_path [bucket]"
  have p: "make_path_of_bucket bucket = ?p" using bucket_dir_path [OF assms(2)] .
  have pl: "plain bucket" by (rule checked_bucket_plain) (rule assms)
  have c: "comps ?p = [bucket]" "\<not> has_suffix ?p ''/''" using dir_path_plain [of "[bucket]"] pl by simp_all
  have "reach (disk w) [bucket]" using reach_snoc [of "disk w" "[]" bucket] by (simp add: node_at_def)
  then have r: "resolve (disk w) False ?p = Inr [bucket]"
    using reach_resolve [OF assms(5), of ?p False] c by simp
  have "os_Mkdir ?p ?w = (if node_at (disk w) [bucket] = None
      then (Inr (), ?w\<lparr>disk := put_node [bucket] Dir (disk w)\<rparr>)
      else (Inl (Os_error Err_exist ''mkdir'' ?p), ?w))"
    using assms(3) r by (simp add: os_Mkdir_def syscall_def fs_mkdir_def Let_def)
  then show ?thesis
    using assms(1,2,4) p
    by (simp add: CreateBucket_def stepping liftE_def Let_def serializedE_def serialize_access_def deferE_def
        release_access_def map_os_error_def s3_error_def)
qed

text \<open>
  HeadBucket answers with success, without faults, exactly for the directories of the
  pool whose names are bucket names.
\<close>

theorem head_bucket_iff:
  assumes "bi_Bucket i = Some bucket" "bi_ExpectedBucketOwner i = None" "faults w = []" "sound (disk w)"
  shows "(\<exists>w'. HeadBucket b i w = (Inr (), w')) \<longleftrightarrow> check_bucket_naming bucket \<and> node_at (disk w) [bucket] = Some Dir"
proof
  assume "\<exists>w'. HeadBucket b i w = (Inr (), w')"
  then obtain w1 where r: "check_usual_bucket_setup b (Some bucket) w = (Inr bucket, w1)" and n: "check_bucket_naming bucket"
    using assms(1) by (auto simp: HeadBucket_def runs check_usual_bucket_setup_def split: if_splits)
  have "comps (make_path_of_bucket bucket) = [bucket]"
    using bucket_dir_path [OF n] dir_path_plain [of "[bucket]"] checked_bucket_plain [OF n] by simp
  moreover obtain stat where "os_Lstat b (make_path_of_bucket bucket) w = (Inr stat, w1)" "fi_type stat = T_dir"
    using r n by (auto simp: check_usual_bucket_setup_def check_bucket_directory_exists_def runs Let_def split: if_splits)
  ultimately obtain n where "node_at (disk w) [bucket] = Some n" "fi_type (node_info b (disk w) n) = T_dir"
    using lstat_done [of b "make_path_of_bucket bucket" w stat w1, OF _ assms(4)] by auto
  then have "node_at (disk w) [bucket] = Some Dir"
    by (cases n) (auto simp: node_info_def plain_info_def inode_info_def Let_def)
  then show "check_bucket_naming bucket \<and> node_at (disk w) [bucket] = Some Dir" using n by blast
next
  assume "check_bucket_naming bucket \<and> node_at (disk w) [bucket] = Some Dir"
  then show "\<exists>w'. HeadBucket b i w = (Inr (), w')"
    using bucket_setup_ok [OF _ assms(3,4), of bucket b] assms(1,2)
    by (simp add: HeadBucket_def stepping liftE_def check_options_unsupported_iff no_options_def)
qed

section \<open>Witnesses\<close>

abbreviation example_bucket :: bucket_input where
  "example_bucket \<equiv> \<lparr>bi_Bucket = Some ''bkt'', bi_ExpectedBucketOwner = None\<rparr>"

lemma example_bucket_facts:
  "check_bucket_naming ''bkt''" "plain_tree object_fs" "no_special object_fs" "node_at object_fs [''bkt''] = Some Dir"
  "node_at object_fs [''bkt'', ''x''] = Some (File 0)" "\<not> has_prefix ''x'' ''.''"
  by code_simp+

theorem check_bucket_terminates_witness:
  "\<exists>r w'. check_directory_empty (tree_depth object_fs + 1) example_bbs ''bkt'' (make_path_of_bucket ''bkt'') object_world = (r, w')
     \<and> r \<noteq> Inr None"
proof -
  obtain r w' where "check_directory_empty (tree_depth object_fs + 1) example_bbs ''bkt'' (make_path_of_bucket ''bkt'') object_world = (r, w')"
    by (cases "check_directory_empty (tree_depth object_fs + 1) example_bbs ''bkt'' (make_path_of_bucket ''bkt'') object_world")
  then show ?thesis
    using check_bucket_terminates [of object_world "''bkt''" example_bbs "''bkt''" r w'] object_sound example_bucket_facts by simp
qed

theorem delete_bucket_keeps_objects_witness:
  "\<exists>e w'. DeleteBucket example_bbs example_bucket object_world = (failed e, w') \<and> disk w' = object_fs"
proof -
  have "reach object_fs [''bkt'', ''x'']"
    using reach_snoc [of object_fs "[''bkt'']" "''x''"] reach_snoc [of object_fs "[]" "''bkt''"] example_bucket_facts(4)
    by (simp add: node_at_def)
  then show ?thesis
    using delete_bucket_keeps_objects [of example_bucket "''bkt''" object_world "[]" "''x''" 0 example_bbs]
      object_sound example_bucket_facts by auto
qed

theorem create_bucket_once_witness:
  "\<exists>r w'. CreateBucket example_bbs example_bucket object_world = (r, w') \<and> fail_code r = Some BucketAlreadyOwnedByYou"
  using create_bucket_once [of example_bucket "''bkt''" object_world example_bbs] object_sound example_bucket_facts(1,4) by auto

theorem head_bucket_iff_witness: "\<exists>w'. HeadBucket example_bbs example_bucket object_world = (Inr (), w')"
  using head_bucket_iff [of example_bucket "''bkt''" object_world example_bbs] object_sound example_bucket_facts(1,4) by simp


end
