(* ===== verification/Listing.thy ===== *)
theory Listing
  imports Buckets Get_object
begin

text \<open>
  The listers of v1/server/listing.go, on fs.WalkDir of Go's standard library: the buckets of
  the pool, the objects of a bucket, and the multipart uploads of a bucket.
\<close>

section \<open>Walking a directory\<close>

text \<open>
  An entry of a directory.  Its Info is read when it is asked for; the root has been read
  before the walk.
\<close>

record dir_entry =
  de_name :: string
  de_node :: node
  de_info :: "file_info sys"

text \<open>
  What the function that is called for the entries returns: nil, fs.SkipDir or fs.SkipAll; the
  listers return no other error.  The variables it shares with the lister are its state.
\<close>

datatype walk_next = Go_on | Skip_dir | Skip_all

type_synonym 's walk_fn = "os_error + dir_entry \<Rightarrow> string \<Rightarrow> 's \<Rightarrow> (walk_next \<times> 's) act"

definition child_entry :: "bbs \<Rightarrow> string \<Rightarrow> string \<Rightarrow> string \<Rightarrow> node \<Rightarrow> dir_entry" where
  "child_entry b root key n x =
     \<lparr>de_name = n, de_node = x, de_info = os_Lstat b (path_join [root, key])\<rparr>"

text \<open>
  The loop over the entries of a directory: fs.SkipDir ends the directory, fs.SkipAll the walk.
  None when the fuel of the recursive walk ends.
\<close>

fun walk_each ::
  "(string \<Rightarrow> dir_entry \<Rightarrow> 's \<Rightarrow> (walk_next \<times> 's) option act) \<Rightarrow> bbs \<Rightarrow> string \<Rightarrow> string
     \<Rightarrow> (string \<times> node) list \<Rightarrow> 's \<Rightarrow> (walk_next \<times> 's) option act" where
  "walk_each rec b root name [] s = retE (Some (Go_on, s))"
| "walk_each rec b root name ((n, x) # es) s =
     (let name1 = path_join [name, n] in
      seqE (rec name1 (child_entry b root name1 n x) s) (\<lambda>r.
        case r of
          None \<Rightarrow> retE None
        | Some (Go_on, s1) \<Rightarrow> walk_each rec b root name es s1
        | Some (Skip_dir, s1) \<Rightarrow> retE (Some (Go_on, s1))
        | Some (Skip_all, s1) \<Rightarrow> retE (Some (Skip_all, s1))))"

text \<open>fs.SkipDir at a directory leaves the directory out and goes on.\<close>

definition after_skip :: "dir_entry \<Rightarrow> walk_next \<Rightarrow> walk_next" where
  "after_skip d next = (if next = Skip_dir \<and> de_node d = Dir then Go_on else next)"

primrec walk_dir ::
  "nat \<Rightarrow> bbs \<Rightarrow> string \<Rightarrow> 's walk_fn \<Rightarrow> string \<Rightarrow> dir_entry \<Rightarrow> 's \<Rightarrow> (walk_next \<times> 's) option act" where
  "walk_dir 0 b root f name d s = retE None"
| "walk_dir (Suc k) b root f name d s =
     seqE (f (Inr d) name s) (\<lambda>(next, s1).
     if next \<noteq> Go_on \<or> de_node d \<noteq> Dir then retE (Some (after_skip d next, s1))
     else sys_elseE (os_ReadDir (path_join [root, name]))
       (\<lambda>e. seqE (f (Inl e) name s1) (\<lambda>(next, s2). retE (Some (after_skip d next, s2))))
       (\<lambda>dirs. walk_each (walk_dir k b root f) b root name dirs s1))"

text \<open>The fuel is the depth of the files, as in the check of the emptiness.\<close>

definition WalkDir :: "bbs \<Rightarrow> string \<Rightarrow> 's walk_fn \<Rightarrow> 's \<Rightarrow> 's act" where
  "WalkDir b root f s =
     sys_elseE (os_Stat b (path_join [root, ''.'']))
       (\<lambda>e. seqE (f (Inl e) ''.'' s) (\<lambda>(next, s1). retE s1))
       (\<lambda>stat.
         let d = \<lparr>de_name = ''.'', de_node = (if fi_type stat = T_dir then Dir else Special),
                  de_info = (\<lambda>w. (Inr stat, w))\<rparr> in
         seqE (getE (\<lambda>w. tree_depth (disk w) + 1)) (\<lambda>k.
         seqE (walk_dir k b root f ''.'' d s) (\<lambda>r.
         case r of None \<Rightarrow> panicE | Some (next, s1) \<Rightarrow> retE s1)))"

section \<open>Common prefixes\<close>

text \<open>The first part strings.SplitAfter gives: up to a delimiter, and with it.\<close>

fun upto_delimiter :: "string \<Rightarrow> string \<Rightarrow> string" where
  "upto_delimiter d [] = []"
| "upto_delimiter d (c # cs) =
     (if has_prefix (c # cs) d then d else c # upto_delimiter d cs)"

definition check_common_prefix :: "string \<Rightarrow> string \<Rightarrow> string \<Rightarrow> string" where
  "check_common_prefix key delimiter pre =
     (if delimiter = [] then []
      else let s = upto_delimiter delimiter (trim_prefix key pre) in
           if has_suffix s delimiter then pre @ s else [])"

section \<open>Objects\<close>

record list_state =
  ls_entries :: "(string \<times> file_info) list"
  ls_nextindex :: int
  ls_nextmarker :: string
  ls_count :: int
  ls_markerhit :: bool
  ls_common :: string

definition list_start :: list_state where
  "list_start =
     \<lparr>ls_entries = [], ls_nextindex = 0, ls_nextmarker = [], ls_count = 0, ls_markerhit = False,
      ls_common = []\<rparr>"

record list_request =
  lr_index :: int
  lr_marker :: string
  lr_maxkeys :: int
  lr_delimiter :: string
  lr_prefix :: string

text \<open>The function of the walk from the check of the prefix on; the deferred code counts.\<close>

definition counted :: "list_state \<Rightarrow> list_state" where
  "counted s = s\<lparr>ls_count := ls_count s + 1\<rparr>"

definition offer_object ::
  "list_request \<Rightarrow> string \<times> file_info \<Rightarrow> list_state \<Rightarrow> walk_next \<times> list_state" where
  "offer_object q e s =
     (let key1 = fst e; commonpart = check_common_prefix key1 (lr_delimiter q) (lr_prefix q) in
      if \<not> has_prefix key1 (lr_prefix q) then (Go_on, s)
      else if commonpart \<noteq> [] \<and> ls_common s = commonpart then (Go_on, s)
      else
        let s1 = (if commonpart \<noteq> [] then s\<lparr>ls_common := commonpart\<rparr> else s) in
        if lr_marker q \<noteq> [] \<and> \<not> ls_markerhit s1 \<and> lr_marker q \<noteq> key1 then (Go_on, counted s1)
        else
          let s2 = (if lr_marker q \<noteq> [] then s1\<lparr>ls_markerhit := True\<rparr> else s1) in
          if ls_count s2 < lr_index q then (Go_on, counted s2)
          else if int (length (ls_entries s2)) < lr_maxkeys q
          then (Go_on, counted (s2\<lparr>ls_entries := ls_entries s2 @ [e]\<rparr>))
          else (Skip_all, counted (s2\<lparr>ls_nextindex := ls_count s2, ls_nextmarker := key1\<rparr>)))"

definition visit_object :: "list_request \<Rightarrow> list_state walk_fn" where
  "visit_object q r key1 s =
     (case r of
        Inl err1 \<Rightarrow> retE (Go_on, s)
      | Inr e \<Rightarrow>
          sys_elseE (de_info e)
            (\<lambda>err2. retE (Go_on, s))
            (\<lambda>stat.
              if de_node e = Dir
              then retE (if check_mpul_scratch_name (de_name e) then Skip_dir else Go_on, s)
              else if check_special_file stat then retE (Go_on, s)
              else if check_metainfo_name (de_name e) then retE (Go_on, s)
              else retE (offer_object q (key1, stat) s)))"

definition list_objects_flat ::
  "bbs \<Rightarrow> string \<Rightarrow> list_request \<Rightarrow> ((string \<times> file_info) list \<times> int \<times> string) act" where
  "list_objects_flat b bucket q =
     seqE (WalkDir b (path_join [''.'', bucket]) (visit_object q) list_start) (\<lambda>s.
     retE (ls_entries s, ls_nextindex s, ls_nextmarker s))"

section \<open>What the walk offers\<close>

text \<open>
  The files below a directory in the order of the walk, without those whose name has a leading
  dot and without the directories of multipart uploads.
\<close>

primrec files_below :: "nat \<Rightarrow> bbs \<Rightarrow> fsys \<Rightarrow> path \<Rightarrow> path \<Rightarrow> (string \<times> file_info) list" where
  "files_below 0 b s root rel = []"
| "files_below (Suc k) b s root rel =
     concat (map (\<lambda>(n, x).
       case x of
         Dir \<Rightarrow> if check_mpul_scratch_name n then [] else files_below k b s root (rel @ [n])
       | File i \<Rightarrow> if check_metainfo_name n then [] else [(dir_path (rel @ [n]), node_info b s x)]
       | _ \<Rightarrow> []) (entries s (root @ rel)))"

fun offer_all :: "list_request \<Rightarrow> (string \<times> file_info) list \<Rightarrow> list_state \<Rightarrow> walk_next \<times> list_state" where
  "offer_all q [] s = (Go_on, s)"
| "offer_all q (e # es) s =
     (case offer_object q e s of (Go_on, s1) \<Rightarrow> offer_all q es s1 | r \<Rightarrow> r)"

lemma offer_all_append:
  "offer_all q (xs @ ys) s = (case offer_all q xs s of (Go_on, s1) \<Rightarrow> offer_all q ys s1 | r \<Rightarrow> r)"
  by (induction xs arbitrary: s) (auto split: prod.splits walk_next.splits)

lemma offer_object_next: "offer_object q e s = (next, s1) \<Longrightarrow> next \<noteq> Skip_dir"
  by (auto simp: offer_object_def Let_def split: if_splits)

lemma offer_all_next: "offer_all q es s = (next, s1) \<Longrightarrow> next \<noteq> Skip_dir"
  by (induction es arbitrary: s) (auto dest: offer_object_next split: prod.splits walk_next.splits)

definition walk_name :: "path \<Rightarrow> string" where
  "walk_name rel = (if rel = [] then ''.'' else dir_path rel)"

lemma walk_name_snoc:
  assumes "\<forall>c \<in> set (rel @ [n]). plain c"
  shows "path_join [walk_name rel, n] = dir_path (rel @ [n])"
proof (cases "rel = []")
  case True
  then show ?thesis using assms bucket_path [of n] by (simp add: make_path_of_bucket_def walk_name_def dir_path_def)
next
  case False
  then have "dir_path rel \<noteq> []" using plain_join_ne [of rel] assms by (simp add: dir_path_def)
  moreover have "n \<noteq> []" using assms by (simp add: plain_def)
  moreover have "join_with slash [dir_path rel, n] = dir_path (rel @ [n])"
    using join_with_append [of rel "[n]" slash] False by (simp add: dir_path_def)
  ultimately show ?thesis
    using path_clean_plain [of "rel @ [n]"] assms False by (simp add: path_join_def dir_path_def walk_name_def)
qed

lemma root_walk_name:
  assumes "plain root" "\<forall>c \<in> set rel. plain c"
  shows "path_join [root, walk_name rel] = dir_path (root # rel)"
proof (cases "rel = []")
  case True
  have "split_on slash (root @ [slash, CHR ''.'']) = [root, ''.'']"
    using assms(1) split_on_append [of slash root "''.''"] by (simp add: plain_def split_on_no_sep)
  moreover have "hd root \<noteq> slash" using assms(1) by (cases root) (auto simp: plain_def)
  ultimately show ?thesis using assms(1) True
    by (auto simp: path_join_def walk_name_def dir_path_def path_clean_def plain_def clean_comps_def clean_step_def)
next
  case False
  have "dir_path rel \<noteq> []" using plain_join_ne [OF False] assms by (simp add: dir_path_def)
  moreover have "root \<noteq> []" using assms(1) by (simp add: plain_def)
  moreover have "join_with slash [root, dir_path rel] = dir_path (root # rel)"
    using join_with_append [of "[root]" rel slash] False by (simp add: dir_path_def)
  ultimately show ?thesis
    using path_clean_plain [of "root # rel"] assms False by (simp add: path_join_def dir_path_def walk_name_def)
qed

text \<open>Without faults the walk of the lister is the offer of these files, one after the other.\<close>

definition walk_sound ::
  "(string \<Rightarrow> dir_entry \<Rightarrow> list_state \<Rightarrow> (walk_next \<times> list_state) option act) \<Rightarrow> list_request
     \<Rightarrow> (string \<times> file_info) list \<Rightarrow> string \<Rightarrow> dir_entry \<Rightarrow> world \<Rightarrow> bool" where
  "walk_sound rec q es name d w \<longleftrightarrow> (\<forall>s. rec name d s w = (Inr (Some (offer_all q es s)), w))"

lemma walk_each_ok:
  assumes "\<And>n x. (n, x) \<in> set es \<Longrightarrow>
      walk_sound rec q (f n x) (path_join [name, n]) (child_entry b root (path_join [name, n]) n x) w"
  shows "walk_each rec b root name es s w = (Inr (Some (offer_all q (concat (map (\<lambda>(n, x). f n x) es)) s)), w)"
  using assms
proof (induction es arbitrary: s)
  case Nil
  then show ?case by (simp add: retE_def)
next
  case (Cons e es)
  obtain n x where e: "e = (n, x)" by (cases e)
  let ?r = "offer_all q (f n x) s"
  have r: "rec (path_join [name, n]) (child_entry b root (path_join [name, n]) n x) s w = (Inr (Some ?r), w)"
    using Cons.prems [of n x] e by (simp add: walk_sound_def)
  obtain nx s1 where n: "?r = (nx, s1)" by (cases ?r)
  have IH: "walk_each rec b root name es s1 w = (Inr (Some (offer_all q (concat (map (\<lambda>(n, x). f n x) es)) s1)), w)"
    using Cons by simp
  show ?case
    using r n IH offer_all_next [OF n]
    by (cases nx) (simp_all add: e Let_def stepping offer_all_append)
qed

lemma walk_file_ok:
  assumes "de_node d = x" "x \<noteq> Dir" "de_info d w = (Inr (node_info b s x), w)" "node_at s p = Some x" "sound s"
  shows "walk_sound (walk_dir (Suc k) b root (visit_object q)) q
    (case x of File i \<Rightarrow> if check_metainfo_name (de_name d) then [] else [(name, node_info b s x)] | _ \<Rightarrow> []) name d w"
proof -
  have "\<not> (\<exists>t. x = Symlink t)" using assms(4,5) sound_not_link by blast
  then consider i where "x = File i" | "x = Special" using assms(2) by (cases x) auto
  then show ?thesis
  proof cases
    case 1
    then show ?thesis using assms
      by (auto simp: walk_sound_def visit_object_def stepping check_special_file_def node_info_def inode_info_def
          Let_def after_skip_def split: prod.splits walk_next.splits dest: offer_object_next)
  next
    case 2
    then show ?thesis using assms
      by (simp add: walk_sound_def visit_object_def stepping check_special_file_def node_info_def plain_info_def after_skip_def)
  qed
qed

lemma visit_dir:
  assumes "de_node d = Dir" "de_info d w = (Inr stat, w)"
  shows "visit_object q (Inr d) key1 s w = (Inr (if check_mpul_scratch_name (de_name d) then Skip_dir else Go_on, s), w)"
  using assms by (simp add: visit_object_def stepping)

lemma walk_dir_ok:
  assumes "faults w = []" "sound (disk w)" "plain_tree (disk w)" "plain root"
    "dir_ok (disk w) (root # rel)" "tree_depth (disk w) < k + length (root # rel)"
    "de_node d = Dir" "de_info d w = (Inr (plain_info T_dir), w)" "\<not> check_mpul_scratch_name (de_name d)"
  shows "walk_sound (walk_dir k b root (visit_object q)) q (files_below k b (disk w) [root] rel) (walk_name rel) d w"
  using assms(5-9)
proof (induction k arbitrary: rel d)
  case 0
  then show ?case using tree_depth_ge [of "disk w" "root # rel"] by (simp add: dir_ok_def)
next
  case (Suc k)
  let ?ps = "root # rel" and ?f = "visit_object q"
  let ?each = "\<lambda>(n, x).
       case x of
         Dir \<Rightarrow> if check_mpul_scratch_name n then [] else files_below k b (disk w) [root] (rel @ [n])
       | File i \<Rightarrow> if check_metainfo_name n then [] else [(dir_path (rel @ [n]), node_info b (disk w) x)]
       | _ \<Rightarrow> []"
  have pl: "\<forall>c \<in> set rel. plain c" using Suc.prems(1) by (simp add: dir_ok_def list_all_iff)
  have name: "path_join [root, walk_name rel] = dir_path ?ps" using root_walk_name [OF assms(4) pl] .
  have each: "walk_sound (walk_dir k b root ?f) q (?each (n, x)) (path_join [walk_name rel, n])
      (child_entry b root (path_join [walk_name rel, n]) n x) w" if "(n, x) \<in> set (entries (disk w) ?ps)" for n x
  proof -
    have x: "node_at (disk w) (?ps @ [n]) = Some x" using that entries_node by blast
    have n: "plain n" by (rule plain_tree_node [OF assms(3) x])
    have key: "path_join [walk_name rel, n] = dir_path (rel @ [n])" using walk_name_snoc pl n by simp
    let ?d = "child_entry b root (dir_path (rel @ [n])) n x"
    have "path_join [root, dir_path (rel @ [n])] = path_join [dir_path ?ps, n]"
      using root_walk_name [OF assms(4), of "rel @ [n]"] pl n dir_path_snoc [OF Suc.prems(1) n] by (simp add: walk_name_def)
    then have info: "de_info ?d w = (Inr (node_info b (disk w) x), w)"
      using entry_lstat_ok [OF assms(1,2) Suc.prems(1) n x, of b] by (simp add: child_entry_def)
    have deep: "tree_depth (disk w) < k + length (root # rel @ [n])" using Suc.prems(2) by simp
    then obtain j where j: "k = Suc j" using tree_depth_ge [of "disk w" "?ps @ [n]"] x by (cases k) auto
    show ?thesis
    proof (cases "x = Dir")
      case True
      have "dir_ok (disk w) (root # rel @ [n])" using dir_ok_snoc [OF Suc.prems(1) assms(3)] x True by simp
      moreover have "de_info ?d w = (Inr (plain_info T_dir), w)" using info True by (simp add: node_info_def)
      ultimately have "walk_sound (walk_dir k b root ?f) q (files_below k b (disk w) [root] (rel @ [n]))
          (dir_path (rel @ [n])) ?d w" if "\<not> check_mpul_scratch_name n"
        using Suc.IH [of "rel @ [n]" ?d] deep True that by (simp add: child_entry_def walk_name_def)
      then show ?thesis using True key info
        by (auto simp: walk_sound_def j visit_object_def stepping child_entry_def after_skip_def)
    next
      case False
      then show ?thesis
        using walk_file_ok [of ?d x w b "disk w" "?ps @ [n]" j root q "dir_path (rel @ [n])"] info x assms(2) key j
        by (cases x) (auto simp: child_entry_def)
    qed
  qed
  have "walk_each (walk_dir k b root ?f) b root (walk_name rel) (entries (disk w) ?ps) s w
      = (Inr (Some (offer_all q (files_below (Suc k) b (disk w) [root] rel) s)), w)" for s
    using walk_each_ok [of "entries (disk w) ?ps" "walk_dir k b root ?f" q "\<lambda>n x. ?each (n, x)"] each by simp
  then show ?case
    using readdir_ok [OF assms(1,2) Suc.prems(1)] name Suc.prems(3,5) visit_dir [OF Suc.prems(3,4)]
    by (simp add: walk_sound_def stepping)
qed

definition objects_below :: "bbs \<Rightarrow> fsys \<Rightarrow> string \<Rightarrow> (string \<times> file_info) list" where
  "objects_below b s bucket = files_below (tree_depth s + 1) b s [bucket] []"

lemma list_objects_walk:
  assumes "faults w = []" "sound (disk w)" "plain_tree (disk w)" "check_bucket_naming bucket"
    "node_at (disk w) [bucket] = Some Dir"
  shows "list_objects_flat b bucket q w
    = (let (_, s) = offer_all q (objects_below b (disk w) bucket) list_start in
       (Inr (ls_entries s, ls_nextindex s, ls_nextmarker s), w))"
proof -
  note p = checked_bucket_plain [OF assms(4)] and d = bucket_dir_ok [OF assms(4,5)]
  let ?root = "path_join [''.'', bucket]" and ?d = "\<lparr>de_name = ''.'', de_node = Dir, de_info = (\<lambda>w. (Inr (plain_info T_dir), w))\<rparr>"
  have root: "?root = bucket" using bucket_path [OF p] by (simp add: make_path_of_bucket_def)
  have dot: "path_join [bucket, ''.''] = dir_path [bucket]" using root_walk_name [OF p, of "[]"] by (simp add: walk_name_def)
  have "resolve (disk w) True (dir_path [bucket]) = Inr [bucket]"
    using reach_resolve [OF assms(2), of "dir_path [bucket]" True] dir_path_comps [OF d] d by (simp add: dir_ok_def)
  then have st: "os_Stat b (dir_path [bucket]) w = (Inr (plain_info T_dir), w)"
    using assms(1,5) unfolding os_Stat_def by (intro syscall_ok) (simp_all add: fs_stat_def node_info_def)
  have "\<not> check_mpul_scratch_name ''.''" by code_simp
  then have "walk_sound (walk_dir (tree_depth (disk w) + 1) b bucket (visit_object q)) q
      (objects_below b (disk w) bucket) ''.'' ?d w"
    using walk_dir_ok [OF assms(1-3) p, of "[]" "tree_depth (disk w) + 1" ?d b q] d
    by (simp add: objects_below_def walk_name_def)
  then show ?thesis using st root dot
    by (simp add: list_objects_flat_def WalkDir_def stepping getE_def walk_sound_def plain_info_def split: prod.splits)
qed

section \<open>The page of a listing\<close>

text \<open>
  The entries a listing is made of: the keys with the prefix, and of each run of keys with the
  same common prefix the first one.
\<close>

fun candidates :: "string \<Rightarrow> string \<Rightarrow> string \<Rightarrow> (string \<times> file_info) list \<Rightarrow> (string \<times> file_info) list" where
  "candidates delimiter pre c [] = []"
| "candidates delimiter pre c (e # es) =
     (let d = check_common_prefix (fst e) delimiter pre in
      if \<not> has_prefix (fst e) pre \<or> d \<noteq> [] \<and> c = d then candidates delimiter pre c es
      else e # candidates delimiter pre (if d \<noteq> [] then d else c) es)"

text \<open>The part of them from the marker on, and of that the part from the index on.\<close>

definition from_marker :: "string \<Rightarrow> bool \<Rightarrow> (string \<times> 'a) list \<Rightarrow> (string \<times> 'a) list" where
  "from_marker marker hit es = (if marker = [] \<or> hit then es else dropWhile (\<lambda>e. fst e \<noteq> marker) es)"

definition window :: "list_request \<Rightarrow> bool \<Rightarrow> int \<Rightarrow> (string \<times> file_info) list \<Rightarrow> (string \<times> file_info) list" where
  "window q hit n es =
     (let ms = from_marker (lr_marker q) hit es in
      drop (nat (lr_index q - (n + int (length es - length ms)))) ms)"

lemma from_marker_length: "length (from_marker m h es) \<le> length es"
  by (simp add: from_marker_def length_dropWhile_le)

lemma window_length: "length (window q h n es) \<le> length es"
  using from_marker_length [of "lr_marker q" h es] by (simp add: window_def Let_def)

lemma window_skip:
  assumes "lr_marker q \<noteq> []" "lr_marker q \<noteq> fst e"
  shows "window q False n (e # es) = window q False (n + 1) es"
  using assms from_marker_length [of "lr_marker q" False es]
  by (simp add: window_def from_marker_def Let_def algebra_simps Suc_diff_le)

lemma window_hit:
  assumes "\<not> (lr_marker q \<noteq> [] \<and> \<not> h \<and> lr_marker q \<noteq> fst e)"
  shows "window q h n (e # es) = (if n < lr_index q then window q True (n + 1) es else e # es)"
proof -
  have "from_marker (lr_marker q) h (e # es) = e # es" using assms by (auto simp: from_marker_def)
  moreover have "from_marker (lr_marker q) True es = es" by (simp add: from_marker_def)
  moreover have "nat (lr_index q - n) = Suc (nat (lr_index q - (n + 1)))" if "n < lr_index q" using that by simp
  ultimately show ?thesis by (auto simp: window_def Let_def)
qed

lemma window_free: "lr_marker q = [] \<or> h \<Longrightarrow> window q h n es = window q True n es"
  by (auto simp: window_def from_marker_def)

lemma window_late: "lr_index q \<le> n \<Longrightarrow> window q True n es = es"
  by (simp add: window_def from_marker_def)

definition page_of ::
  "list_request \<Rightarrow> int \<Rightarrow> (string \<times> file_info) list \<Rightarrow> list_state \<Rightarrow> list_state \<Rightarrow> bool" where
  "page_of q n es s s1 \<longleftrightarrow>
     (let ws = window q (ls_markerhit s) n es; room = nat (lr_maxkeys q - int (length (ls_entries s))) in
      ls_entries s1 = ls_entries s @ take room ws
      \<and> (if length ws \<le> room then ls_nextindex s1 = ls_nextindex s \<and> ls_nextmarker s1 = ls_nextmarker s
         else ls_nextindex s1 = n + int (length es - length ws + room) \<and> ls_nextmarker s1 = fst (ws ! room)))"

definition same_page :: "list_state \<Rightarrow> list_state \<Rightarrow> bool" where
  "same_page s t \<longleftrightarrow> ls_entries t = ls_entries s \<and> ls_nextindex t = ls_nextindex s \<and> ls_nextmarker t = ls_nextmarker s"

lemma page_skip:
  assumes "page_of q (n + 1) cs t u" "window q (ls_markerhit s) n (e # cs) = window q (ls_markerhit t) (n + 1) cs"
    "same_page s t"
  shows "page_of q n (e # cs) s u"
  using assms window_length [of q "ls_markerhit t" "n + 1" cs]
  by (simp add: page_of_def same_page_def Let_def Suc_diff_le split: if_splits)

lemma page_take:
  assumes "page_of q (n + 1) cs t u" "window q (ls_markerhit s) n (e # cs) = e # cs"
    "window q (ls_markerhit t) (n + 1) cs = cs" "ls_entries t = ls_entries s @ [e]"
    "ls_nextindex t = ls_nextindex s" "ls_nextmarker t = ls_nextmarker s"
    "int (length (ls_entries s)) < lr_maxkeys q"
  shows "page_of q n (e # cs) s u"
proof -
  have "nat (lr_maxkeys q - int (length (ls_entries s))) = Suc (nat (lr_maxkeys q - (1 + int (length (ls_entries s)))))"
    using assms(7) by simp
  then show ?thesis using assms(1-6) by (simp add: page_of_def Let_def split: if_splits)
qed

lemma page_full:
  assumes "window q (ls_markerhit s) n (e # cs) = e # cs" "\<not> int (length (ls_entries s)) < lr_maxkeys q"
    "ls_entries u = ls_entries s" "ls_nextindex u = n" "ls_nextmarker u = fst e"
  shows "page_of q n (e # cs) s u"
  using assms by (simp add: page_of_def Let_def)

lemma offer_all_page:
  "page_of q (ls_count s) (candidates (lr_delimiter q) (lr_prefix q) (ls_common s) es) s (snd (offer_all q es s))"
proof (induction es arbitrary: s)
  case Nil
  then show ?case by (simp add: page_of_def window_def from_marker_def)
next
  case (Cons e es)
  let ?c = "check_common_prefix (fst e) (lr_delimiter q) (lr_prefix q)"
  show ?case
  proof (cases "\<not> has_prefix (fst e) (lr_prefix q) \<or> ?c \<noteq> [] \<and> ls_common s = ?c")
    case True
    then show ?thesis using Cons.IH [of s] by (auto simp: offer_object_def Let_def)
  next
    case False
    define s1 where "s1 = (if ?c \<noteq> [] then s\<lparr>ls_common := ?c\<rparr> else s)"
    define cs where "cs = candidates (lr_delimiter q) (lr_prefix q) (ls_common s1) es"
    have cs: "candidates (lr_delimiter q) (lr_prefix q) (ls_common s) (e # es) = e # cs"
      using False by (auto simp: s1_def cs_def Let_def)
    have s1: "ls_count s1 = ls_count s" "ls_markerhit s1 = ls_markerhit s" "same_page s s1" "ls_entries s1 = ls_entries s"
      by (simp_all add: s1_def same_page_def)
    show ?thesis
    proof (cases "lr_marker q \<noteq> [] \<and> \<not> ls_markerhit s \<and> lr_marker q \<noteq> fst e")
      case True
      then have "offer_object q e s = (Go_on, counted s1)"
        using False s1 by (auto simp: offer_object_def Let_def s1_def)
      moreover have "page_of q (ls_count s + 1) cs (counted s1) (snd (offer_all q es (counted s1)))"
        using Cons.IH [of "counted s1"] s1 by (simp add: counted_def cs_def)
      ultimately show ?thesis
        using page_skip [of q "ls_count s" cs "counted s1" _ s e] True window_skip [of q e "ls_count s" cs] s1
        unfolding cs by (simp add: counted_def same_page_def)
    next
      case hit: False
      define s2 where "s2 = (if lr_marker q \<noteq> [] then s1\<lparr>ls_markerhit := True\<rparr> else s1)"
      have s2: "ls_count s2 = ls_count s" "ls_common s2 = ls_common s1" "same_page s s2" "ls_entries s2 = ls_entries s"
        using s1 by (simp_all add: s2_def same_page_def)
      have free: "window q (ls_markerhit s2) n xs = window q True n xs" for n xs
        by (rule window_free) (simp add: s2_def)
      have o: "offer_object q e s =
          (if ls_count s < lr_index q then (Go_on, counted s2)
           else if int (length (ls_entries s)) < lr_maxkeys q
           then (Go_on, counted (s2\<lparr>ls_entries := ls_entries s @ [e]\<rparr>))
           else (Skip_all, counted (s2\<lparr>ls_nextindex := ls_count s, ls_nextmarker := fst e\<rparr>)))"
        using False hit s1 s2 by (auto simp: offer_object_def Let_def s1_def s2_def)
      have w: "window q (ls_markerhit s) (ls_count s) (e # cs)
          = (if ls_count s < lr_index q then window q True (ls_count s + 1) cs else e # cs)"
        by (rule window_hit) (use hit in blast)
      let ?s3 = "counted (s2\<lparr>ls_entries := ls_entries s @ [e]\<rparr>)"
      have IH: "page_of q (ls_count s + 1) cs (counted s2) (snd (offer_all q es (counted s2)))"
        "page_of q (ls_count s + 1) cs ?s3 (snd (offer_all q es ?s3))"
        using Cons.IH [of "counted s2"] Cons.IH [of ?s3] s2 by (simp_all add: counted_def cs_def)
      consider (early) "ls_count s < lr_index q"
        | (room) "\<not> ls_count s < lr_index q" "int (length (ls_entries s)) < lr_maxkeys q"
        | (full) "\<not> ls_count s < lr_index q" "\<not> int (length (ls_entries s)) < lr_maxkeys q" by blast
      then show ?thesis
      proof cases
        case early
        then show ?thesis using page_skip [OF IH(1), of s e] o w free s2 unfolding cs
          by (simp add: counted_def same_page_def)
      next
        case room
        have "window q True (ls_count s + 1) cs = cs" by (rule window_late) (use room in simp)
        then show ?thesis using page_take [OF IH(2), of s e] o w free s2 room unfolding cs
          by (simp add: counted_def same_page_def)
      next
        case full
        then show ?thesis using page_full [of q s "ls_count s" e cs] o w s2 unfolding cs
          by (simp add: counted_def)
      qed
    qed
  qed
qed

text \<open>The page a request asks for, of the entries of a listing: its part, the next index, the next marker.\<close>

definition page_at :: "list_request \<Rightarrow> (string \<times> file_info) list \<Rightarrow> (string \<times> file_info) list \<times> int \<times> string" where
  "page_at q es =
     (let ws = window q False 0 es; n = nat (lr_maxkeys q) in
      (take n ws, if length ws \<le> n then 0 else int (length es - length ws + n),
       if length ws \<le> n then [] else fst (ws ! n)))"

definition listing :: "bbs \<Rightarrow> fsys \<Rightarrow> string \<Rightarrow> string \<Rightarrow> string \<Rightarrow> (string \<times> file_info) list" where
  "listing b s bucket delimiter pre = candidates delimiter pre [] (objects_below b s bucket)"

text \<open>
  Claim C25.  The lister implements paging: what its single pass over the files returns, with its
  counters and flags, is the page of the index and the marker, cut out of the listing of the bucket.
\<close>

theorem list_objects_page:
  assumes "faults w = []" "sound (disk w)" "plain_tree (disk w)" "check_bucket_naming bucket"
    "node_at (disk w) [bucket] = Some Dir"
  shows "list_objects_flat b bucket q w
    = (Inr (page_at q (listing b (disk w) bucket (lr_delimiter q) (lr_prefix q))), w)"
proof -
  let ?es = "objects_below b (disk w) bucket"
  have "page_of q 0 (listing b (disk w) bucket (lr_delimiter q) (lr_prefix q)) list_start (snd (offer_all q ?es list_start))"
    using offer_all_page [of q list_start ?es] by (simp add: listing_def list_start_def)
  then show ?thesis
    using list_objects_walk [OF assms, of b q]
    by (auto simp: page_of_def page_at_def list_start_def Let_def split: prod.splits)
qed

text \<open>A marker that is not a key of the listing: nothing is listed, and there is no next page.\<close>

lemma unknown_marker_page:
  assumes "lr_marker q \<noteq> []" "lr_marker q \<notin> fst ` set es"
  shows "page_at q es = ([], 0, [])"
proof -
  have "from_marker (lr_marker q) False es = []" using assms by (force simp: from_marker_def)
  then show ?thesis by (simp add: page_at_def window_def)
qed

section \<open>The objects that are listed\<close>

definition listed :: "bbs \<Rightarrow> fsys \<Rightarrow> path \<Rightarrow> path \<Rightarrow> string \<times> file_info \<Rightarrow> bool" where
  "listed b s root rel e \<longleftrightarrow>
     (\<exists>ds n i. e = (dir_path (rel @ ds @ [n]), node_info b s (File i))
        \<and> node_at s (root @ rel @ ds @ [n]) = Some (File i) \<and> reach s (root @ rel @ ds @ [n])
        \<and> \<not> check_metainfo_name n \<and> list_all (\<lambda>d. \<not> check_mpul_scratch_name d) ds)"

lemma listed_here:
  "node_at s (root @ rel @ [n]) = Some (File i) \<Longrightarrow> reach s (root @ rel @ [n]) \<Longrightarrow> \<not> check_metainfo_name n
     \<Longrightarrow> listed b s root rel (dir_path (rel @ [n]), node_info b s (File i))"
  unfolding listed_def by (intro exI [of _ "[]"] exI [of _ n] exI [of _ i]) simp

lemma listed_down:
  assumes "listed b s root (rel @ [d]) e" "\<not> check_mpul_scratch_name d"
  shows "listed b s root rel e"
proof -
  obtain ds n i where "e = (dir_path ((rel @ [d]) @ ds @ [n]), node_info b s (File i))"
    "node_at s (root @ (rel @ [d]) @ ds @ [n]) = Some (File i)" "reach s (root @ (rel @ [d]) @ ds @ [n])"
    "\<not> check_metainfo_name n" "list_all (\<lambda>d. \<not> check_mpul_scratch_name d) ds"
    using assms(1) unfolding listed_def by blast
  then show ?thesis unfolding listed_def using assms(2)
    by (intro exI [of _ "d # ds"] exI [of _ n] exI [of _ i]) simp
qed

lemma listed_cases:
  assumes "listed b s root rel e"
  obtains (here) n i where "e = (dir_path (rel @ [n]), node_info b s (File i))" "node_at s (root @ rel @ [n]) = Some (File i)"
      "\<not> check_metainfo_name n"
  | (down) d where "node_at s (root @ rel @ [d]) = Some Dir" "\<not> check_mpul_scratch_name d" "listed b s root (rel @ [d]) e"
proof -
  obtain ds n i where v: "e = (dir_path (rel @ ds @ [n]), node_info b s (File i))"
    "node_at s (root @ rel @ ds @ [n]) = Some (File i)" "reach s (root @ rel @ ds @ [n])"
    "\<not> check_metainfo_name n" "list_all (\<lambda>d. \<not> check_mpul_scratch_name d) ds"
    using assms unfolding listed_def by blast
  show ?thesis
  proof (cases ds)
    case Nil
    then show ?thesis using v here by simp
  next
    case (Cons d es)
    have "strict_prefix (root @ rel @ [d]) (root @ rel @ ds @ [n])" by (simp add: Cons strict_prefix_def)
    then have "node_at s (root @ rel @ [d]) = Some Dir" using v(3) by (simp add: reach_def)
    moreover have "listed b s root (rel @ [d]) e"
      unfolding listed_def using v Cons by (intro exI [of _ es] exI [of _ n] exI [of _ i]) simp
    ultimately show ?thesis using down v(5) Cons by simp
  qed
qed

lemma files_below_mem:
  "e \<in> set (files_below (Suc k) b s root rel) \<longleftrightarrow>
     (\<exists>n x. node_at s (root @ rel @ [n]) = Some x
       \<and> e \<in> set (case x of Dir \<Rightarrow> if check_mpul_scratch_name n then [] else files_below k b s root (rel @ [n])
         | File i \<Rightarrow> if check_metainfo_name n then [] else [(dir_path (rel @ [n]), node_info b s x)] | _ \<Rightarrow> []))"
  by (simp add: Bex_def split_paired_Ex entries_node)

lemma files_below_listed:
  assumes "sound s" "plain_tree s" "dir_ok s (root @ rel)" "tree_depth s < k + length (root @ rel)"
  shows "e \<in> set (files_below k b s root rel) \<longleftrightarrow> listed b s root rel e"
  using assms(3,4)
proof (induction k arbitrary: rel)
  case 0
  then show ?case using tree_depth_ge [of s "root @ rel"] by (simp add: dir_ok_def)
next
  case (Suc k)
  have IH: "e \<in> set (files_below k b s root (rel @ [d])) \<longleftrightarrow> listed b s root (rel @ [d]) e"
    if "node_at s ((root @ rel) @ [d]) = Some Dir" for d
    using Suc.IH [of "rel @ [d]"] Suc.prems dir_ok_snoc [OF Suc.prems(1) assms(2) that] by simp
  show ?case
  proof
    assume "e \<in> set (files_below (Suc k) b s root rel)"
    then obtain n x where n: "node_at s (root @ rel @ [n]) = Some x"
      "e \<in> set (case x of Dir \<Rightarrow> if check_mpul_scratch_name n then [] else files_below k b s root (rel @ [n])
         | File i \<Rightarrow> if check_metainfo_name n then [] else [(dir_path (rel @ [n]), node_info b s x)] | _ \<Rightarrow> [])"
      unfolding files_below_mem by blast
    have r: "reach s (root @ rel @ [n])"
      using Suc.prems(1) reach_snoc [of s "root @ rel" n] by (simp add: dir_ok_def)
    show "listed b s root rel e"
    proof (cases x)
      case Dir
      then have "\<not> check_mpul_scratch_name n" "e \<in> set (files_below k b s root (rel @ [n]))"
        using n(2) by (auto split: if_splits)
      then show ?thesis using IH [of n] listed_down n(1) Dir by simp
    next
      case (File i)
      then show ?thesis using n r listed_here [of s root rel n i b] by (auto split: if_splits)
    qed (use n in auto)
  next
    assume "listed b s root rel e"
    then show "e \<in> set (files_below (Suc k) b s root rel)"
    proof (cases rule: listed_cases)
      case (here n i)
      then show ?thesis unfolding files_below_mem by (intro exI [of _ n] exI [of _ "File i"]) simp
    next
      case (down d)
      then show ?thesis using IH [of d] unfolding files_below_mem by (intro exI [of _ d] exI [of _ Dir]) simp
    qed
  qed
qed

text \<open>Every file is offered once.\<close>

lemma distinct_children: "distinct (map last (children s p))"
proof -
  have "inj_on last (set (children s p))"
  proof (rule inj_onI)
    fix x y assume "x \<in> set (children s p)" "y \<in> set (children s p)" "last x = last y"
    then have "x \<noteq> []" "y \<noteq> []" "butlast x = butlast y" "last x = last y" by (simp_all add: children_def)
    then show "x = y" by (metis append_butlast_last_id)
  qed
  then show ?thesis by (simp add: distinct_map children_def)
qed

lemma distinct_entries: "distinct (map fst (entries s p))"
  using distinct_children by (simp add: entries_def comp_def)

lemma distinct_concat_map:
  assumes "distinct xs" "\<And>x. x \<in> set xs \<Longrightarrow> distinct (f x)"
    "\<And>x y z. x \<in> set xs \<Longrightarrow> y \<in> set xs \<Longrightarrow> z \<in> set (f x) \<Longrightarrow> z \<in> set (f y) \<Longrightarrow> x = y"
  shows "distinct (concat (map f xs))"
  using assms
proof (induction xs)
  case (Cons x xs)
  have "distinct (concat (map f xs))" by (rule Cons.IH) (use Cons.prems in auto)
  moreover have "set (f x) \<inter> set (concat (map f xs)) = {}"
  proof (rule ccontr)
    assume "set (f x) \<inter> set (concat (map f xs)) \<noteq> {}"
    then obtain z y where z: "z \<in> set (f x)" "y \<in> set xs" "z \<in> set (f y)" by auto
    then have "x = y" using Cons.prems(3) [of x y z] by simp
    then show False using z(2) Cons.prems(1) by simp
  qed
  ultimately show ?case using Cons.prems by simp
qed simp

lemma dir_path_inj:
  assumes "dir_path xs = dir_path ys" "xs \<noteq> []" "ys \<noteq> []" "\<forall>c \<in> set (xs @ ys). plain c"
  shows "xs = ys"
proof -
  have "comps (dir_path xs) = xs" by (rule dir_path_plain) (use assms in auto)
  moreover have "comps (dir_path ys) = ys" by (rule dir_path_plain) (use assms in auto)
  ultimately show ?thesis using assms(1) by argo
qed

lemma files_below_keys:
  assumes "plain_tree s" "dir_ok s (root @ rel)" "(key, st) \<in> set (files_below k b s root rel)"
  shows "\<exists>ds. key = dir_path (rel @ ds) \<and> ds \<noteq> [] \<and> (\<forall>c \<in> set (rel @ ds). plain c)"
  using assms(2,3)
proof (induction k arbitrary: rel)
  case (Suc k)
  obtain n x where n: "node_at s ((root @ rel) @ [n]) = Some x"
      "(key, st) \<in> set (case x of Dir \<Rightarrow> if check_mpul_scratch_name n then [] else files_below k b s root (rel @ [n])
         | File i \<Rightarrow> if check_metainfo_name n then [] else [(dir_path (rel @ [n]), node_info b s x)] | _ \<Rightarrow> [])"
    using Suc.prems(2) unfolding files_below_mem by auto
  have p: "\<forall>c \<in> set rel. plain c" "plain n"
    using Suc.prems(1) plain_tree_node [OF assms(1) n(1)] by (auto simp: dir_ok_def list_all_iff)
  show ?case
  proof (cases x)
    case Dir
    then have "(key, st) \<in> set (files_below k b s root (rel @ [n]))" using n(2) by (simp split: if_splits)
    moreover have "dir_ok s (root @ (rel @ [n]))" using dir_ok_snoc [OF Suc.prems(1) assms(1)] n(1) Dir by simp
    ultimately obtain ds where "key = dir_path ((rel @ [n]) @ ds)" "\<forall>c \<in> set ((rel @ [n]) @ ds). plain c"
      using Suc.IH by blast
    then show ?thesis by (intro exI [of _ "n # ds"]) simp
  next
    case (File i)
    then have "key = dir_path (rel @ [n])" using n(2) by (simp split: if_splits)
    then show ?thesis using p by (intro exI [of _ "[n]"]) simp
  qed (use n(2) in simp_all)
qed simp

lemma distinct_files_below:
  assumes "plain_tree s" "dir_ok s (root @ rel)"
  shows "distinct (map fst (files_below k b s root rel))"
  using assms(2)
proof (induction k arbitrary: rel)
  case (Suc k)
  let ?f = "\<lambda>(n, x). case x of
         Dir \<Rightarrow> if check_mpul_scratch_name n then [] else files_below k b s root (rel @ [n])
       | File i \<Rightarrow> if check_metainfo_name n then [] else [(dir_path (rel @ [n]), node_info b s x)]
       | _ \<Rightarrow> []"
  let ?es = "entries s (root @ rel)"
  have pl: "\<forall>c \<in> set rel. plain c" using Suc.prems by (simp add: dir_ok_def list_all_iff)
  have first: "\<exists>ds. key = dir_path (rel @ n # ds) \<and> (\<forall>c \<in> set (rel @ n # ds). plain c)"
    if e: "(n, x) \<in> set ?es" and k: "key \<in> set (map fst (?f (n, x)))" for n x key
  proof -
    have n: "node_at s ((root @ rel) @ [n]) = Some x" using e entries_node by blast
    note p = plain_tree_node [OF assms(1) n]
    show ?thesis
    proof (cases x)
      case Dir
      then obtain st where "(key, st) \<in> set (files_below k b s root (rel @ [n]))" using k by (auto split: if_splits)
      moreover have "dir_ok s (root @ (rel @ [n]))" using dir_ok_snoc [OF Suc.prems assms(1)] n Dir by simp
      ultimately show ?thesis using files_below_keys [OF assms(1)] by fastforce
    next
      case (File i)
      then have "key = dir_path (rel @ [n])" using k by (simp split: if_splits)
      then show ?thesis using p pl by (intro exI [of _ "[]"]) simp
    qed (use k in simp_all)
  qed
  have "distinct (concat (map (\<lambda>e. map fst (?f e)) ?es))"
  proof (rule distinct_concat_map)
    show "distinct ?es" using distinct_entries distinct_map by blast
  next
    fix e assume e: "e \<in> set ?es"
    obtain n x where nx: "e = (n, x)" by (cases e)
    have "dir_ok s (root @ (rel @ [n]))" if "x = Dir"
      using dir_ok_snoc [OF Suc.prems assms(1), of n] e nx that entries_node by auto
    then show "distinct (map fst (?f e))" using Suc.IH nx by (cases x) auto
  next
    fix e e' z assume e: "e \<in> set ?es" "e' \<in> set ?es" "z \<in> set (map fst (?f e))" "z \<in> set (map fst (?f e'))"
    obtain n x n' x' where nx: "e = (n, x)" "e' = (n', x')" by (cases e, cases e')
    obtain ds where d: "z = dir_path (rel @ n # ds)" "\<forall>c \<in> set (rel @ n # ds). plain c"
      using first [of n x z] e nx by blast
    obtain ds' where d': "z = dir_path (rel @ n' # ds')" "\<forall>c \<in> set (rel @ n' # ds'). plain c"
      using first [of n' x' z] e nx by blast
    have "rel @ n # ds = rel @ n' # ds'" by (rule dir_path_inj) (use d d' in auto)
    then have "n = n'" by simp
    moreover have "x = x'" using e(1,2) nx calculation entries_node by (metis option.inject)
    ultimately show "e = e'" using nx by simp
  qed
  then show ?case by (simp add: map_concat comp_def)
qed simp

lemma candidates_all: "candidates [] pre c es = filter (\<lambda>e. has_prefix (fst e) pre) es"
  by (induction es) (auto simp: check_common_prefix_def)

lemma page_whole:
  assumes "lr_index q = 0" "lr_marker q = []" "int (length es) \<le> lr_maxkeys q"
  shows "page_at q es = (es, 0, [])"
proof -
  have "length es \<le> nat (lr_maxkeys q)" using assms(3) by linarith
  then show ?thesis using assms by (simp add: page_at_def window_def from_marker_def Let_def)
qed

text \<open>
  Claim C24.  A listing is exact: without a delimiter, a page large enough holds, each once, exactly
  the keys of the regular files below the bucket that begin with the prefix, have a last
  component without a leading dot and are not in the directory of a multipart upload.
\<close>

theorem list_objects_exact:
  assumes "faults w = []" "sound (disk w)" "plain_tree (disk w)" "check_bucket_naming bucket"
    "node_at (disk w) [bucket] = Some Dir" "lr_index q = 0" "lr_marker q = []" "lr_delimiter q = []"
    "int (length (objects_below b (disk w) bucket)) \<le> lr_maxkeys q"
  shows "\<exists>es. list_objects_flat b bucket q w = (Inr (es, 0, []), w) \<and> distinct (map fst es)
    \<and> (\<forall>key st. (key, st) \<in> set es \<longleftrightarrow> has_prefix key (lr_prefix q)
         \<and> (\<exists>ds n i. key = dir_path (ds @ [n]) \<and> st = node_info b (disk w) (File i)
           \<and> node_at (disk w) (bucket # ds @ [n]) = Some (File i) \<and> reach (disk w) (bucket # ds @ [n])
           \<and> \<not> check_metainfo_name n \<and> list_all (\<lambda>d. \<not> check_mpul_scratch_name d) ds))"
proof -
  let ?os = "objects_below b (disk w) bucket"
  let ?es = "filter (\<lambda>e. has_prefix (fst e) (lr_prefix q)) ?os"
  have d: "dir_ok (disk w) ([bucket] @ [])" using bucket_dir_ok [OF assms(4,5)] by simp
  have "length ?es \<le> length ?os" by simp
  then have "int (length ?es) \<le> lr_maxkeys q" using assms(9) by linarith
  then have "list_objects_flat b bucket q w = (Inr (?es, 0, []), w)"
    using list_objects_page [OF assms(1-5), of b q] page_whole [OF assms(6,7)] assms(8)
    by (simp add: listing_def candidates_all)
  moreover have "distinct (map fst ?es)"
    using distinct_files_below [OF assms(3) d, of "tree_depth (disk w) + 1" b]
    unfolding objects_below_def by (rule distinct_map_filter)
  moreover have "(key, st) \<in> set ?os \<longleftrightarrow> listed b (disk w) [bucket] [] (key, st)" for key st
    unfolding objects_below_def by (rule files_below_listed [OF assms(2,3) d]) simp
  ultimately show ?thesis by (intro exI [of _ ?es]) (auto simp: listed_def)
qed

section \<open>Following the pages\<close>

text \<open>
  A client that asks for the page at the index the last page gave, until there is no next one.
  The contract of a lister: the page at an index is the part of a listing from there on.
\<close>

primrec follow :: "nat \<Rightarrow> (nat \<Rightarrow> 'a list \<times> int) \<Rightarrow> nat \<Rightarrow> 'a list" where
  "follow 0 page start = []"
| "follow (Suc k) page start =
     (let (es, next) = page start in if next = 0 then es else es @ follow k page (nat next))"

locale paged =
  fixes page :: "nat \<Rightarrow> 'a list \<times> int" and listing :: "'a list" and room :: nat
  assumes page: "page start =
      (take room (drop start listing), if length listing \<le> start + room then 0 else int (start + room))"
    and room: "0 < room"
begin

lemma follow_drop:
  "length listing < start + k \<Longrightarrow> start \<le> length listing \<Longrightarrow> follow k page start = drop start listing"
proof (induction k arbitrary: start)
  case (Suc k)
  show ?case
  proof (cases "length listing \<le> start + room")
    case False
    then have "nat (int (start + room)) = start + room" "start + room \<noteq> 0" using room by linarith+
    moreover have "follow k page (start + room) = drop (start + room) listing"
      using Suc.prems False room by (intro Suc.IH) auto
    moreover have "take room (drop start listing) @ drop (start + room) listing = drop start listing"
      by (metis add.commute append_take_drop_id drop_drop)
    ultimately show ?thesis using page [of start] False room by simp
  qed (simp add: page)
qed simp

lemma pages_complete: "length listing < k \<Longrightarrow> follow k page 0 = listing"
  using follow_drop [of 0 k] by simp

end

definition page_request :: "nat \<Rightarrow> string \<Rightarrow> string \<Rightarrow> nat \<Rightarrow> list_request" where
  "page_request room delimiter pre start =
     \<lparr>lr_index = int start, lr_marker = [], lr_maxkeys = int room, lr_delimiter = delimiter, lr_prefix = pre\<rparr>"

lemma page_request_slice:
  "page_at (page_request room delimiter pre start) es =
     (take room (drop start es), if length es \<le> start + room then 0 else int (start + room),
      if length es \<le> start + room then [] else fst (es ! (start + room)))"
  by (auto simp: page_at_def page_request_def window_def from_marker_def Let_def)

interpretation objects: paged
  "\<lambda>start. case page_at (page_request (Suc m) delimiter pre start) es of (xs, next, _) \<Rightarrow> (xs, next)" es "Suc m"
  for es m delimiter pre
  by unfold_locales (simp_all add: page_request_slice)

section \<open>The entries of an answer\<close>

record list_object =
  lo_Key :: string
  lo_ETag :: string
  lo_Size :: int
  lo_LastModified :: time

type_synonym list_answer = "list_object list \<times> string list"

text \<open>
  An object that has gone, or whose ETag cannot be made, is left out; an error of its status
  ends the loop.
\<close>

fun make_list_objects_entries ::
  "bbs \<Rightarrow> (string \<times> file_info) list \<Rightarrow> string \<Rightarrow> string \<Rightarrow> string \<Rightarrow> bool \<Rightarrow> list_answer act" where
  "make_list_objects_entries b [] bucket delimiter pre urlencode = retE ([], [])"
| "make_list_objects_entries b ((key1, stat) # es) bucket delimiter pre urlencode =
     (let object = path_join [bucket, key1];
          commonpart = check_common_prefix key1 delimiter pre;
          rest = make_list_objects_entries b es bucket delimiter pre urlencode in
      if commonpart = [] then
        seqE (fetch_object_status b object False) (\<lambda>(entity, _).
        if entity = [] then rest
        else try_elseE (fetch_object_etag b object entity)
          (\<lambda>_. rest)
          (\<lambda>(etag, _). seqE rest (\<lambda>(contents, commons).
            retE (\<lparr>lo_Key = (if urlencode then QueryEscape key1 else key1), lo_ETag = etag,
                   lo_Size = fi_size stat, lo_LastModified = fi_mtime stat\<rparr> # contents, commons))))
      else seqE rest (\<lambda>(contents, commons). retE (contents, commonpart # commons)))"

section \<open>The actions ListObjects and ListObjectsV2\<close>

text \<open>MaxKeys is an int32 of the request; an absent string parameter is the empty one.\<close>

definition max_keys :: "int option \<Rightarrow> int" where
  "max_keys i = (case i of Some n \<Rightarrow> min list_objects_limit n | None \<Rightarrow> list_objects_limit)"

definition or_empty :: "string option \<Rightarrow> string" where
  "or_empty i = (case i of Some s \<Rightarrow> s | None \<Rightarrow> [])"

record list_objects_input =
  li_Bucket :: "string option"
  li_Delimiter :: "string option"
  li_EncodingType :: string
  li_ExpectedBucketOwner :: "string option"
  li_Marker :: "string option"
  li_MaxKeys :: "int option"
  li_Prefix :: "string option"
  li_ContinuationToken :: "string option"
  li_FetchOwner :: "bool option"
  li_StartAfter :: "string option"

record list_objects_output =
  lp_Contents :: "list_object list"
  lp_CommonPrefixes :: "string list"
  lp_IsTruncated :: bool
  lp_NextMarker :: "string option"
  lp_NextContinuationToken :: "string option"
  lp_KeyCount :: "int option"
  lp_Name :: string

text \<open>The error of make_list_objects_entries is dropped by its callers, and with it the entries.\<close>

definition list_entries ::
  "bbs \<Rightarrow> list_objects_input \<Rightarrow> string \<Rightarrow> list_request \<Rightarrow> (string \<times> file_info) list \<Rightarrow> list_answer act" where
  "list_entries b i bucket q found =
     try_elseE (make_list_objects_entries b found bucket (lr_delimiter q) (lr_prefix q) (li_EncodingType i = ''url''))
       (\<lambda>_. retE ([], [])) retE"

definition list_request1 :: "list_objects_input \<Rightarrow> list_request" where
  "list_request1 i =
     \<lparr>lr_index = 0, lr_marker = or_empty (li_Marker i), lr_maxkeys = max_keys (li_MaxKeys i),
      lr_delimiter = or_empty (li_Delimiter i), lr_prefix = or_empty (li_Prefix i)\<rparr>"

definition ListObjects :: "bbs \<Rightarrow> list_objects_input \<Rightarrow> list_objects_output act" where
  "ListObjects b i =
     seqE (check_usual_bucket_setup b (li_Bucket i)) (\<lambda>bucket.
     seqE (liftE (check_options_unsupported b
       (no_options\<lparr>ExpectedBucketOwner := li_ExpectedBucketOwner i\<rparr>))) (\<lambda>_.
     let q = list_request1 i in
     seqE (list_objects_flat b bucket q) (\<lambda>(found, nextindex, nextmarker).
     seqE (list_entries b i bucket q found) (\<lambda>(contents, commons).
     retE \<lparr>lp_Contents = contents, lp_CommonPrefixes = commons, lp_IsTruncated = (nextindex \<noteq> 0),
           lp_NextMarker = Some nextmarker, lp_NextContinuationToken = None, lp_KeyCount = None,
           lp_Name = bucket\<rparr>))))"

text \<open>
  The continuation token is the index in decimal.  The quoting of strconv is exact for texts of
  graphic characters.
\<close>

definition make_parameter_error :: "string \<Rightarrow> string \<Rightarrow> string" where
  "make_parameter_error name err = ''Parameter '' @ [dquote] @ name @ [dquote] @ '' error: '' @ err"

definition parse_error :: "string \<Rightarrow> string" where
  "parse_error t =
     ''strconv.ParseInt: parsing '' @ [dquote] @ t @ [dquote] @ '': ''
     @ (if parse_int 10 (4 * length t + 2) t = None then ''invalid syntax'' else ''value out of range'')"

definition parse_token :: "string option \<Rightarrow> int result" where
  "parse_token token =
     (case token of
        None \<Rightarrow> ok 0
      | Some t \<Rightarrow>
          (case parse_int 10 32 t of
             None \<Rightarrow> failed (s3_error InvalidArgument (make_parameter_error ''continuation-token'' (parse_error t)) [])
           | Some n \<Rightarrow> ok n))"

definition list_request2 :: "list_objects_input \<Rightarrow> list_request result" where
  "list_request2 i =
     (case parse_token (li_ContinuationToken i) of
        Inl e \<Rightarrow> Inl e
      | Inr n \<Rightarrow> ok ((list_request1 i)\<lparr>lr_index := n, lr_marker := or_empty (li_StartAfter i)\<rparr>))"

definition next_token :: "int \<Rightarrow> string option" where
  "next_token nextindex = (if nextindex \<noteq> 0 then Some (print_int nextindex) else None)"

definition ListObjectsV2 :: "bbs \<Rightarrow> list_objects_input \<Rightarrow> list_objects_output act" where
  "ListObjectsV2 b i =
     seqE (check_usual_bucket_setup b (li_Bucket i)) (\<lambda>bucket.
     seqE (liftE (check_options_unsupported b
       (no_options\<lparr>ExpectedBucketOwner := li_ExpectedBucketOwner i, FetchOwner := li_FetchOwner i\<rparr>))) (\<lambda>_.
     seqE (liftE (list_request2 i)) (\<lambda>q.
     seqE (list_objects_flat b bucket q) (\<lambda>(found, nextindex, _).
     seqE (list_entries b i bucket q found) (\<lambda>(contents, commons).
     retE \<lparr>lp_Contents = contents, lp_CommonPrefixes = commons, lp_IsTruncated = (nextindex \<noteq> 0),
           lp_NextMarker = None, lp_NextContinuationToken = next_token nextindex,
           lp_KeyCount = Some (int32 (int (length contents + length commons))), lp_Name = bucket\<rparr>)))))"

section \<open>Answers without faults\<close>

lemma dir_path_split:
  assumes "ps \<noteq> []" "\<forall>c \<in> set ps. plain c"
  shows "split_on slash (dir_path ps) = ps"
  using split_join_plain [OF assms] by (simp add: dir_path_def)

lemma listed_at_rest:
  assumes "faults w = []" "sound (disk w)" "plain_tree (disk w)" "plain bucket" "listed b (disk w) [bucket] [] (key, st)"
  shows "\<exists>f x. at_rest (path_join [bucket, key]) f x w \<and> st = look_info b f x"
proof -
  obtain ds n f where l: "key = dir_path (ds @ [n])" "st = node_info b (disk w) (File f)"
    "node_at (disk w) (bucket # ds @ [n]) = Some (File f)" "reach (disk w) (bucket # ds @ [n])" "\<not> has_prefix n ''.''"
    using assms(5) by (auto simp: listed_def check_metainfo_name_def)
  let ?ps = "bucket # ds @ [n]" and ?x = "inode_at (disk w) f"
  have "(?ps, File f) \<in> set (tree (disk w))" using l(3) by (auto simp: node_at_def dest: map_of_SomeD)
  then have pl: "\<forall>c \<in> set ?ps. plain c" using assms(3) by (auto simp: plain_tree_def list_all_iff)
  then have o: "path_join [bucket, key] = dir_path ?ps"
    using root_walk_name [OF assms(4), of "ds @ [n]"] l(1) by (simp add: walk_name_def)
  have sp: "split_on slash (dir_path ?ps) = ?ps" by (rule dir_path_split) (use pl in auto)
  then have g: "good_object (dir_path ?ps)" using pl l(5) by (simp add: good_object_def list_all_iff)
  have "obj_path (dir_path ?ps) = ?ps"
    using good_paths(1) [OF g] sp by (simp add: dir_comps_def file_name_def)
  then have "at_rest (dir_path ?ps) f ?x w"
    using assms(1,2) l(3,4) no_slash_end [OF g, of No_marker] by (simp add: at_rest_def look_file)
  moreover have "st = look_info b f ?x" using l(2) by (simp add: node_info_def inode_info_look)
  ultimately show ?thesis using o by metis
qed

definition is_common :: "list_request \<Rightarrow> string \<times> file_info \<Rightarrow> bool" where
  "is_common q e \<longleftrightarrow> check_common_prefix (fst e) (lr_delimiter q) (lr_prefix q) \<noteq> []"

definition common_of :: "list_request \<Rightarrow> string \<times> file_info \<Rightarrow> string" where
  "common_of q e = check_common_prefix (fst e) (lr_delimiter q) (lr_prefix q)"

lemma entries_answer:
  assumes "faults w = []" "sound (disk w)" "plain_tree (disk w)" "plain bucket" "\<And>d. md5_sum b d \<noteq> []"
    "\<forall>e \<in> set es. listed b (disk w) [bucket] [] e"
  shows "\<exists>cs. make_list_objects_entries b es bucket (lr_delimiter q) (lr_prefix q) False w
      = (Inr (cs, map (common_of q) (filter (is_common q) es)), w)
    \<and> map (\<lambda>c. (lo_Key c, lo_Size c)) cs = map (\<lambda>e. (fst e, fi_size (snd e))) (filter (\<lambda>e. \<not> is_common q e) es)"
  using assms(6)
proof (induction es)
  case Nil
  then show ?case by (simp add: retE_def)
next
  case (Cons e es)
  obtain key st where e: "e = (key, st)" by (cases e)
  obtain cs where IH: "make_list_objects_entries b es bucket (lr_delimiter q) (lr_prefix q) False w
      = (Inr (cs, map (common_of q) (filter (is_common q) es)), w)"
    "map (\<lambda>c. (lo_Key c, lo_Size c)) cs = map (\<lambda>e. (fst e, fi_size (snd e))) (filter (\<lambda>e. \<not> is_common q e) es)"
    using Cons by auto
  obtain f x where r: "at_rest (path_join [bucket, key]) f x w" "st = look_info b f x"
    using listed_at_rest [OF assms(1-4)] Cons.prems e by fastforce
  obtain etag mi where "fetch_object_etag b (path_join [bucket, key]) (hash_entity_key b (look_info b f x)) w
      = (Inr (etag, mi), w)" using etag_ok [OF r(1)] by blast
  moreover have "hash_entity_key b (look_info b f x) \<noteq> []"
    using assms(5) by (cases "md5_sum b (le64 (fi_size (look_info b f x)) @ le64 (fi_mtime (look_info b f x) div 1000)
      @ le64 (int (fi_ino (look_info b f x))) @ le64 0xdeadbeefdeadbeef)") (auto simp: hash_entity_key_def hex_encode_def)
  moreover have c: "is_common q (key, st) \<longleftrightarrow> check_common_prefix key (lr_delimiter q) (lr_prefix q) \<noteq> []"
    "common_of q (key, st) = check_common_prefix key (lr_delimiter q) (lr_prefix q)"
    by (simp_all add: is_common_def common_of_def)
  ultimately show ?case
    using IH e status_ok [OF r(1), of b False]
    by (cases "is_common q e") (simp_all add: Let_def stepping c)
qed

lemma candidates_subset: "set (candidates delimiter pre c es) \<subseteq> set es"
  by (induction delimiter pre c es rule: candidates.induct) (auto simp: Let_def)

lemma page_subset: "page_at q es = (xs, n, m) \<Longrightarrow> set xs \<subseteq> set es"
proof -
  assume "page_at q es = (xs, n, m)"
  then have "set xs \<subseteq> set (window q False 0 es)" by (auto simp: page_at_def Let_def dest: in_set_takeD)
  also have "\<dots> \<subseteq> set es" by (auto simp: window_def from_marker_def Let_def dest!: in_set_dropD set_dropWhileD)
  finally show ?thesis .
qed

text \<open>Without faults ListObjectsV2 answers with the page: its keys, and its common prefixes.\<close>

lemma list_v2_ok:
  assumes "faults w = []" "sound (disk w)" "plain_tree (disk w)" "check_bucket_naming bucket"
    "node_at (disk w) [bucket] = Some Dir" "\<And>d. md5_sum b d \<noteq> []"
    "li_Bucket i = Some bucket" "li_ExpectedBucketOwner i = None" "li_FetchOwner i = None" "li_EncodingType i = []"
    "list_request2 i = ok q"
    "page_at q (listing b (disk w) bucket (lr_delimiter q) (lr_prefix q)) = (xs, n, m)"
  shows "\<exists>out. ListObjectsV2 b i w = (Inr out, w)
    \<and> map (\<lambda>c. (lo_Key c, lo_Size c)) (lp_Contents out)
        = map (\<lambda>e. (fst e, fi_size (snd e))) (filter (\<lambda>e. \<not> is_common q e) xs)
    \<and> lp_CommonPrefixes out = map (common_of q) (filter (is_common q) xs)
    \<and> lp_NextContinuationToken out = next_token n"
proof -
  note d = bucket_dir_ok [OF assms(4,5)] and p = checked_bucket_plain [OF assms(4)]
  have "set xs \<subseteq> set (objects_below b (disk w) bucket)"
    using page_subset [OF assms(12)] candidates_subset unfolding listing_def by blast
  moreover have "e \<in> set (objects_below b (disk w) bucket) \<longleftrightarrow> listed b (disk w) [bucket] [] e" for e
    unfolding objects_below_def by (rule files_below_listed [OF assms(2,3)]) (use d in simp_all)
  ultimately have "\<forall>e \<in> set xs. listed b (disk w) [bucket] [] e" by blast
  then obtain cs where cs: "make_list_objects_entries b xs bucket (lr_delimiter q) (lr_prefix q) False w
      = (Inr (cs, map (common_of q) (filter (is_common q) xs)), w)"
    "map (\<lambda>c. (lo_Key c, lo_Size c)) cs = map (\<lambda>e. (fst e, fi_size (snd e))) (filter (\<lambda>e. \<not> is_common q e) xs)"
    using entries_answer [OF assms(1-3) p assms(6)] by blast
  have "no_options\<lparr>ExpectedBucketOwner := None, FetchOwner := None\<rparr> = no_options" by (simp add: no_options_def)
  then show ?thesis
    using cs list_objects_page [OF assms(1-5), of b q] assms(7-12) bucket_setup_ok [OF assms(4,1,2,5), of b]
    by (simp add: ListObjectsV2_def stepping liftE_def list_entries_def)
qed

text \<open>A client that follows the continuation tokens of ListObjectsV2.\<close>

primrec follow_tokens ::
  "nat \<Rightarrow> (string option \<Rightarrow> string list \<times> string list \<times> string option) \<Rightarrow> string option \<Rightarrow> string list \<times> string list" where
  "follow_tokens 0 ask token = ([], [])"
| "follow_tokens (Suc k) ask token =
     (let (keys, commons, next) = ask token in
      case next of
        None \<Rightarrow> (keys, commons)
      | Some t \<Rightarrow> (let (ks, cs) = follow_tokens k ask (Some t) in (keys @ ks, commons @ cs)))"

lemma parse_next_token:
  assumes "n < 2 ^ 31"
  shows "parse_token (Some (print_int (int n))) = ok (int n)"
  using parse_print_nat [of n 32] assms by (simp add: parse_token_def print_int_def)

text \<open>The tokens lead through the pages: K and C are what the answers show of the entries.\<close>

context paged
begin

lemma follow_tokens_pages:
  assumes ask: "\<And>token s. parse_token token = ok (int s) \<Longrightarrow>
      ask token = (K (fst (page s)), C (fst (page s)), next_token (snd (page s)))"
    and hom: "K [] = []" "C [] = []" "\<And>xs ys. K (xs @ ys) = K xs @ K ys" "\<And>xs ys. C (xs @ ys) = C xs @ C ys"
    and small: "length listing < 2 ^ 31"
  shows "parse_token token = ok (int s) \<Longrightarrow> follow_tokens k ask token = (K (follow k page s), C (follow k page s))"
proof (induction k arbitrary: token s)
  case 0
  then show ?case by (simp add: hom)
next
  case (Suc k)
  note a = ask [OF Suc.prems]
  show ?case
  proof (cases "length listing \<le> s + room")
    case True
    then show ?thesis using a by (simp add: page next_token_def)
  next
    case False
    then have "parse_token (Some (print_int (int (s + room)))) = ok (int (s + room))"
      using small by (intro parse_next_token) simp
    note IH = Suc.IH [OF this]
    have "next_token (snd (page s)) = Some (print_int (int (s + room)))" "snd (page s) \<noteq> 0"
      "nat (snd (page s)) = s + room" using False room by (simp_all add: page next_token_def)
    then show ?thesis using a IH hom(3,4) by (simp add: case_prod_unfold)
  qed
qed

lemma tokens_complete:
  assumes "\<And>token s. parse_token token = ok (int s) \<Longrightarrow>
      ask token = (K (fst (page s)), C (fst (page s)), next_token (snd (page s)))"
    "K [] = []" "C [] = []" "\<And>xs ys. K (xs @ ys) = K xs @ K ys" "\<And>xs ys. C (xs @ ys) = C xs @ C ys"
    "length listing < 2 ^ 31" "length listing < k"
  shows "follow_tokens k ask None = (K listing, C listing)"
  using follow_tokens_pages [OF assms(1-6), where token = None and s = 0 and k = k] pages_complete [OF assms(7)] by (simp add: parse_token_def)

end

definition ask_v2 :: "bbs \<Rightarrow> list_objects_input \<Rightarrow> world \<Rightarrow> string option \<Rightarrow> string list \<times> string list \<times> string option" where
  "ask_v2 b i w token =
     (case fst (ListObjectsV2 b (i\<lparr>li_ContinuationToken := token\<rparr>) w) of
        Inl _ \<Rightarrow> ([], [], None)
      | Inr out \<Rightarrow> (map lo_Key (lp_Contents out), lp_CommonPrefixes out, lp_NextContinuationToken out))"

text \<open>
  Claim C23.  Following the continuation tokens of ListObjectsV2 lists everything: while nothing
  changes, the pages joined are the keys and the common prefixes of the whole listing, in its order,
  whatever the size of the pages is.
\<close>

theorem list_v2_complete:
  assumes "faults w = []" "sound (disk w)" "plain_tree (disk w)" "check_bucket_naming bucket"
    "node_at (disk w) [bucket] = Some Dir" "\<And>d. md5_sum b d \<noteq> []"
    "li_Bucket i = Some bucket" "li_ExpectedBucketOwner i = None" "li_FetchOwner i = None" "li_EncodingType i = []"
    "li_StartAfter i = None" "li_MaxKeys i = Some n" "0 < n"
    "es = listing b (disk w) bucket (or_empty (li_Delimiter i)) (or_empty (li_Prefix i))"
    "length es < k" "length es < 2 ^ 31"
  shows "follow_tokens k (ask_v2 b i w) None
    = (map fst (filter (\<lambda>e. check_common_prefix (fst e) (or_empty (li_Delimiter i)) (or_empty (li_Prefix i)) = []) es),
       filter (\<lambda>c. c \<noteq> []) (map (\<lambda>e. check_common_prefix (fst e) (or_empty (li_Delimiter i)) (or_empty (li_Prefix i))) es))"
proof -
  let ?d = "or_empty (li_Delimiter i)" and ?p = "or_empty (li_Prefix i)"
  obtain m where m: "nat (min 1000 n) = Suc m" using assms(13) by (cases "nat (min 1000 n)") auto
  let ?req = "page_request (Suc m) ?d ?p"
  let ?page = "\<lambda>start. case page_at (?req start) es of (xs, nx, _) \<Rightarrow> (xs, nx)"
  let ?keys = "\<lambda>xs. map fst (filter (\<lambda>e. check_common_prefix (fst e) ?d ?p = []) xs)"
  let ?commons = "\<lambda>xs. filter (\<lambda>c. c \<noteq> []) (map (\<lambda>e. check_common_prefix (fst e) ?d ?p) xs)"
  have "is_common (?req s) = (\<lambda>e. check_common_prefix (fst e) ?d ?p \<noteq> [])"
    "common_of (?req s) = (\<lambda>e. check_common_prefix (fst e) ?d ?p)" for s
    by (auto simp: is_common_def common_of_def page_request_def)
  then have commons: "map (common_of (?req s)) (filter (is_common (?req s)) xs) = ?commons xs"
    and keys: "map fst (filter (\<lambda>e. \<not> is_common (?req s) e) xs) = ?keys xs" for s xs
    by (simp_all only: filter_map comp_def not_not)
  have ask: "ask_v2 b i w token = (?keys (fst (?page s)), ?commons (fst (?page s)), next_token (snd (?page s)))"
    if "parse_token token = ok (int s)" for token s
  proof -
    let ?i = "i\<lparr>li_ContinuationToken := token\<rparr>"
    obtain xs nx mk where pg: "page_at (?req s) es = (xs, nx, mk)" by (cases "page_at (?req s) es")
    have "int (Suc m) = min 1000 n" using m by linarith
    then have "list_request2 ?i = ok (?req s)"
      using that assms(11,12)
      by (simp add: list_request2_def list_request1_def page_request_def max_keys_def list_objects_limit_def or_empty_def)
    moreover have "page_at (?req s) (listing b (disk w) bucket (lr_delimiter (?req s)) (lr_prefix (?req s))) = (xs, nx, mk)"
      using pg assms(14) by (simp add: page_request_def)
    ultimately obtain out where out: "ListObjectsV2 b ?i w = (Inr out, w)"
      "map (\<lambda>c. (lo_Key c, lo_Size c)) (lp_Contents out)
        = map (\<lambda>e. (fst e, fi_size (snd e))) (filter (\<lambda>e. \<not> is_common (?req s) e) xs)"
      "lp_CommonPrefixes out = map (common_of (?req s)) (filter (is_common (?req s)) xs)"
      "lp_NextContinuationToken out = next_token nx"
      using list_v2_ok [OF assms(1-6), of ?i "?req s" xs nx mk] assms(7-10) by auto
    have "map lo_Key (lp_Contents out) = map fst (filter (\<lambda>e. \<not> is_common (?req s) e) xs)"
      using arg_cong [OF out(2), of "map fst"] by (simp add: comp_def)
    then show ?thesis using out pg commons keys by (simp add: ask_v2_def)
  qed
  show ?thesis
    by (rule objects.tokens_complete [where K = ?keys and C = ?commons, OF ask _ _ _ _ assms(16,15)]) simp_all
qed

section \<open>Markers and order\<close>

text \<open>
  The marker of a listing, which is the StartAfter of ListObjectsV2, has to be a key: the
  page of a marker that is a key begins with that key itself, and the page of any other marker is
  empty and the last one.
\<close>

theorem marker_must_be_a_key:
  assumes "faults w = []" "sound (disk w)" "plain_tree (disk w)" "check_bucket_naming bucket"
    "node_at (disk w) [bucket] = Some Dir" "lr_index q = 0" "0 < lr_maxkeys q" "lr_marker q \<noteq> []"
    "es = listing b (disk w) bucket (lr_delimiter q) (lr_prefix q)"
  shows "(lr_marker q \<notin> fst ` set es \<longrightarrow> list_objects_flat b bucket q w = (Inr ([], 0, []), w))
    \<and> (lr_marker q \<in> fst ` set es \<longrightarrow>
        (\<exists>x xs n m. list_objects_flat b bucket q w = (Inr (x # xs, n, m), w) \<and> fst x = lr_marker q))"
proof -
  have page: "list_objects_flat b bucket q w = (Inr (page_at q es), w)"
    using list_objects_page [OF assms(1-5), of b q] assms(9) by simp
  have "\<exists>x xs n m. page_at q es = (x # xs, n, m) \<and> fst x = lr_marker q" if "lr_marker q \<in> fst ` set es"
  proof -
    have "dropWhile (\<lambda>e. fst e \<noteq> lr_marker q) es \<noteq> []" using that by (force simp: dropWhile_eq_Nil_conv)
    then obtain x ys where "dropWhile (\<lambda>e. fst e \<noteq> lr_marker q) es = x # ys" "fst x = lr_marker q"
      using hd_dropWhile by (metis (mono_tags, lifting) list.exhaust_sel)
    then have "window q False 0 es = x # ys" using assms(6,8) by (simp add: window_def from_marker_def)
    moreover obtain k where "nat (lr_maxkeys q) = Suc k" using assms(7) by (cases "nat (lr_maxkeys q)") auto
    ultimately show ?thesis using \<open>fst x = lr_marker q\<close> by (simp add: page_at_def Let_def)
  qed
  then show ?thesis using page unknown_marker_page [OF assms(8)] by fastforce
qed

text \<open>The files of the example that is not sorted: the object "a/x" in a directory, and "a.x".\<close>

definition order_fs :: fsys where
  "order_fs =
     \<lparr>tree = [([''bkt''], Dir), ([''bkt'', ''a''], Dir), ([''bkt'', ''a'', ''x''], File 0), ([''bkt'', ''a.x''], File 1)],
      inodes = [(0, \<lparr>ino_content = Data ''abc'', ino_mtime = 7\<rparr>), (1, \<lparr>ino_content = Data ''abc'', ino_mtime = 7\<rparr>)],
      next_ino = 2, now = 1000\<rparr>"

text \<open>
  The keys are listed in the order of the walk, component by component, which is not the
  order of the keys as strings: "a/x" is listed before "a.x".
\<close>

theorem listing_not_sorted:
  "\<exists>es. list_objects_flat example_bbs ''bkt'' (page_request 10 [] [] 0) (object_world\<lparr>disk := order_fs\<rparr>)
      = (Inr (es, 0, []), object_world\<lparr>disk := order_fs\<rparr>)
    \<and> map fst es = [''a/x'', ''a.x''] \<and> sound order_fs \<and> ''a.x'' < ''a/x''"
proof -
  let ?w = "object_world\<lparr>disk := order_fs\<rparr>"
  have f: "sound order_fs" "plain_tree order_fs" "check_bucket_naming ''bkt''" "node_at order_fs [''bkt''] = Some Dir"
    by code_simp+
  have l: "map fst (listing example_bbs order_fs ''bkt'' [] []) = [''a/x'', ''a.x'']" by code_simp
  then have "length (listing example_bbs order_fs ''bkt'' [] []) = 2" by (metis length_map One_nat_def Suc_1 list.size(3,4) plus_1_eq_Suc add.commute)
  then have "page_at (page_request 10 [] [] 0) (listing example_bbs order_fs ''bkt'' [] []) = (listing example_bbs order_fs ''bkt'' [] [], 0, [])"
    by (intro page_whole) (simp_all add: page_request_def)
  moreover have "''a.x'' < ''a/x''" by code_simp
  ultimately show ?thesis
    using l f list_objects_page [of ?w "''bkt''" example_bbs "page_request 10 [] [] 0"]
    by (intro exI [of _ "listing example_bbs order_fs ''bkt'' [] []"]) (simp add: page_request_def)
qed

section \<open>Witnesses\<close>

lemma listing_example: "map fst (listing example_bbs object_fs ''bkt'' [] []) = [''x'']"
  by code_simp

theorem list_objects_page_witness:
  "list_objects_flat example_bbs ''bkt'' (page_request 10 [] [] 0) object_world
     = (Inr (page_at (page_request 10 [] [] 0) (listing example_bbs object_fs ''bkt'' [] [])), object_world)"
  using list_objects_page [of object_world "''bkt''" example_bbs "page_request 10 [] [] 0"] object_sound example_bucket_facts(1,2,4)
  by (simp add: page_request_def)

theorem list_objects_exact_witness:
  "\<exists>es. list_objects_flat example_bbs ''bkt'' (page_request 10 [] [] 0) object_world = (Inr (es, 0, []), object_world)"
proof -
  have "length (objects_below example_bbs object_fs ''bkt'') = 1" by code_simp
  then show ?thesis
    using list_objects_exact [of object_world "''bkt''" "page_request 10 [] [] 0" example_bbs] object_sound example_bucket_facts(1,2,4)
    by (auto simp: page_request_def)
qed

definition example_list :: list_objects_input where
  "example_list =
     \<lparr>li_Bucket = Some ''bkt'', li_Delimiter = None, li_EncodingType = [], li_ExpectedBucketOwner = None, li_Marker = None,
      li_MaxKeys = Some 1, li_Prefix = None, li_ContinuationToken = None, li_FetchOwner = None, li_StartAfter = None\<rparr>"

theorem list_v2_complete_witness: "follow_tokens 3 (ask_v2 example_bbs example_list object_world) None = ([''x''], [])"
proof -
  have "length (listing example_bbs object_fs ''bkt'' [] []) = 1"
    using arg_cong [OF listing_example, of length] by simp
  moreover have "md5_sum example_bbs d \<noteq> []" for d by (simp add: example_bbs_def example_digest_def)
  ultimately show ?thesis
    using list_v2_complete [of object_world "''bkt''" example_bbs example_list 1 _ 3] object_sound example_bucket_facts(1,2,4) listing_example
    by (simp add: example_list_def or_empty_def check_common_prefix_def)
qed

theorem marker_must_be_a_key_witness:
  "list_objects_flat example_bbs ''bkt'' ((page_request 10 [] [] 0)\<lparr>lr_marker := ''w''\<rparr>) object_world
     = (Inr ([], 0, []), object_world)"
proof -
  let ?q = "(page_request 10 [] [] 0)\<lparr>lr_marker := ''w''\<rparr>"
  have "fst ` set (listing example_bbs object_fs ''bkt'' [] []) = {''x''}"
    using arg_cong [OF listing_example, of set] by simp
  then show ?thesis
    using marker_must_be_a_key [of object_world "''bkt''" ?q _ example_bbs] object_sound example_bucket_facts(1,2,4)
    by (simp add: page_request_def)
qed

end
