(* ===== verification/Lists.thy ===== *)
theory Lists
  imports Listing
begin

text \<open>
  The other listers of v1/server/listing.go: the buckets of the pool, the multipart uploads of a
  bucket, and the lister by directories, with the actions ListBuckets and ListMultipartUploads.
\<close>

section \<open>Buckets\<close>

text \<open>The entries that are kept; an entry whose status cannot be read is skipped.\<close>

fun keep_buckets :: "bbs \<Rightarrow> string \<Rightarrow> (string \<times> node) list \<Rightarrow> string list act" where
  "keep_buckets b pre [] = retE []"
| "keep_buckets b pre ((name, x) # es) =
     sys_elseE (os_Lstat b (path_join [''.'', name]))
       (\<lambda>_. keep_buckets b pre es)
       (\<lambda>stat.
         if x \<noteq> Dir \<or> check_special_file stat \<or> check_metainfo_name name
           \<or> \<not> check_bucket_naming name \<or> \<not> has_prefix name pre
         then keep_buckets b pre es
         else seqE (keep_buckets b pre es) (\<lambda>ns. retE (name # ns)))"

text \<open>
  A bucket of the answer is its name and its status, from which the file_time of the system makes
  the creation time; a bucket that has gone is skipped.
\<close>

fun stat_buckets :: "bbs \<Rightarrow> string list \<Rightarrow> (string \<times> file_info) list act" where
  "stat_buckets b [] = retE []"
| "stat_buckets b (name # ns) =
     sys_elseE (os_Lstat b (path_join [''.'', name]))
       (\<lambda>_. stat_buckets b ns)
       (\<lambda>stat. seqE (stat_buckets b ns) (\<lambda>bs. retE ((name, stat) # bs)))"

text \<open>The slice from start to end panics when its bounds are out of order.\<close>

definition list_buckets :: "bbs \<Rightarrow> int \<Rightarrow> int \<Rightarrow> string \<Rightarrow> ((string \<times> file_info) list \<times> int) act" where
  "list_buckets b start count pre =
     sys_elseE (os_ReadDir ''.'')
       (\<lambda>err1. failE (map_os_error ''/'' err1 []))
       (\<lambda>entries1. seqE (keep_buckets b pre entries1) (\<lambda>entries2.
         let n = int (length entries2) in
         if start < n then
           (let hi = min (start + count) n in
            if start < 0 \<or> hi < start then panicE
            else seqE (stat_buckets b (take (nat (hi - start)) (drop (nat start) entries2))) (\<lambda>buckets.
                 retE (buckets, if hi < n then hi else 0)))
         else retE ([], 0)))"

record list_buckets_input =
  lb_ContinuationToken :: "string option"
  lb_MaxBuckets :: "int option"
  lb_Prefix :: "string option"

definition ListBuckets :: "bbs \<Rightarrow> list_buckets_input \<Rightarrow> ((string \<times> file_info) list \<times> string option) act" where
  "ListBuckets b i =
     seqE (liftE (check_options_unsupported b no_options)) (\<lambda>_.
     seqE (liftE (parse_token (lb_ContinuationToken i))) (\<lambda>start.
     seqE (liftE (case lb_MaxBuckets i of
         None \<Rightarrow> ok list_buckets_limit
       | Some n \<Rightarrow> if list_buckets_limit < n
                   then failed (s3_error InvalidArgument (''Value too large: '' @ print_int n) []) else ok n)) (\<lambda>max_buckets.
     seqE (list_buckets b start max_buckets (or_empty (lb_Prefix i))) (\<lambda>(buckets, continuation).
     retE (buckets, next_token continuation)))))"

text \<open>
  A negative continuation token is never answered: ListBuckets slices the list of the
  buckets with it and panics, unless the pool cannot be read, whatever buckets there are.
\<close>

theorem negative_token_panics:
  assumes "parse_token (lb_ContinuationToken i) = ok start" "start < 0"
  shows "ListBuckets b i w \<noteq> (Inr r, w')"
proof
  assume "ListBuckets b i w = (Inr r, w')"
  then obtain m bs c w1 w2 where "list_buckets b start m (or_empty (lb_Prefix i)) w1 = (Inr (bs, c), w2)"
    using assms(1) by (auto simp: ListBuckets_def runs liftE_def split: prod.splits)
  then show False using assms(2) by (auto simp: list_buckets_def runs Let_def panicE_def)
qed

text \<open>Without faults: the names of the buckets in the pool, sorted, and their slices.\<close>

definition bucket_names :: "fsys \<Rightarrow> string \<Rightarrow> string list" where
  "bucket_names s pre =
     map fst (filter (\<lambda>(n, x). x = Dir \<and> check_bucket_naming n \<and> has_prefix n pre) (entries s []))"

definition bucket_page :: "nat \<Rightarrow> string list \<Rightarrow> nat \<Rightarrow> string list \<times> int" where
  "bucket_page count ns start =
     (take count (drop start ns), if length ns \<le> start + count then 0 else int (start + count))"

interpretation buckets: paged "bucket_page (Suc m) ns" ns "Suc m" for m ns
  by unfold_locales (simp_all add: bucket_page_def)

lemma pool_readdir:
  assumes "faults w = []"
  shows "os_ReadDir ''.'' w = (Inr (entries (disk w) []), w)"
proof -
  have "resolve (disk w) True ''.'' = Inr []" by (simp add: resolve_def comps_def clean_comps_def clean_step_def has_suffix_def suffix_def)
  then show ?thesis
    using assms unfolding os_ReadDir_def by (intro syscall_ok) (simp_all add: fs_readdir_def node_at_def entries_def)
qed

lemma pool_lstat:
  assumes "faults w = []" "sound (disk w)" "plain_tree (disk w)" "node_at (disk w) [n] = Some x"
  shows "os_Lstat b (path_join [''.'', n]) w = (Inr (node_info b (disk w) x), w)"
proof -
  have p: "plain n" using plain_tree_node [OF assms(3), of "[]" n x] assms(4) by simp
  have "path_join [''.'', n] = n" using bucket_path [OF p] by (simp add: make_path_of_bucket_def)
  moreover have "comps n = [n]" "\<not> has_suffix n ''/''" using dir_path_plain [of "[n]"] p by (simp_all add: dir_path_def)
  moreover have "reach (disk w) [n]" using reach_snoc [of "disk w" "[]" n] by (simp add: node_at_def)
  ultimately show ?thesis using assms lstat_ok [of w n x b] by simp
qed

lemma bucket_naming_no_dot: "check_bucket_naming n \<Longrightarrow> \<not> check_metainfo_name n"
  by (cases n) (auto simp: check_bucket_naming_def bucket_naming_good_def bucket_char_def is_lower_def is_digit_def
    check_metainfo_name_def has_prefix_def)

lemma keep_buckets_ok:
  assumes "faults w = []" "sound (disk w)" "plain_tree (disk w)" "\<forall>(n, x) \<in> set es. node_at (disk w) [n] = Some x"
  shows "keep_buckets b pre es w
    = (Inr (map fst (filter (\<lambda>(n, x). x = Dir \<and> check_bucket_naming n \<and> has_prefix n pre) es)), w)"
  using assms(4)
proof (induction es)
  case Nil
  then show ?case by (simp add: retE_def)
next
  case (Cons e es)
  obtain n x where e: "e = (n, x)" by (cases e)
  then have "node_at (disk w) [n] = Some x" using Cons.prems by simp
  note l = pool_lstat [OF assms(1-3) this, of b]
  have "\<not> check_special_file (node_info b (disk w) x) \<and> \<not> check_metainfo_name n" if "x = Dir" "check_bucket_naming n"
    using that bucket_naming_no_dot [of n] by (auto simp: check_special_file_def node_info_def plain_info_def)
  then show ?case using l e Cons by (auto simp: stepping)
qed

lemma stat_buckets_ok:
  assumes "faults w = []" "sound (disk w)" "plain_tree (disk w)" "\<forall>n \<in> set ns. node_at (disk w) [n] = Some Dir"
  shows "stat_buckets b ns w = (Inr (map (\<lambda>n. (n, plain_info T_dir)) ns), w)"
  using assms(4)
proof (induction ns)
  case (Cons n ns)
  then show ?case using pool_lstat [OF assms(1-3), of n Dir b] by (simp add: stepping node_info_def)
qed (simp add: retE_def)

lemma list_buckets_ok:
  assumes "faults w = []" "sound (disk w)" "plain_tree (disk w)"
  shows "list_buckets b (int start) (int (Suc m)) pre w
    = (let (ns, next) = bucket_page (Suc m) (bucket_names (disk w) pre) start in
       (Inr (map (\<lambda>n. (n, plain_info T_dir)) ns, next), w))"
proof -
  let ?ns = "bucket_names (disk w) pre" and ?es = "entries (disk w) []"
  let ?hi = "min (int start + int (Suc m)) (int (length ?ns))"
  have es: "node_at (disk w) [n] = Some x" if "(n, x) \<in> set ?es" for n x
    using that entries_node [of n x "disk w" "[]"] by simp
  have keep: "keep_buckets b pre ?es w = (Inr ?ns, w)"
    using keep_buckets_ok [OF assms, of ?es b pre] es by (auto simp: bucket_names_def)
  have dirs: "\<forall>n \<in> set ns. node_at (disk w) [n] = Some Dir" if "set ns \<subseteq> set ?ns" for ns
    using that es by (fastforce simp: bucket_names_def)
  have sub: "set (take k (drop start ?ns)) \<subseteq> set ?ns" for k by (auto dest: in_set_takeD in_set_dropD)
  note st = stat_buckets_ok [OF assms dirs [OF sub], of b]
  show ?thesis
  proof (cases "start < length ?ns")
    case True
    then have "nat (?hi - int start) = min (Suc m) (length ?ns - start)" by linarith
    then have "take (nat (?hi - int start)) (drop start ?ns) = take (Suc m) (drop start ?ns)" by (simp add: min_def)
    moreover have "(if ?hi < int (length ?ns) then ?hi else 0)
        = (if length ?ns \<le> start + Suc m then 0 else int (start + Suc m))" by auto
    ultimately show ?thesis
      using True pool_readdir [OF assms(1)] keep st [of "nat (?hi - int start)"]
      by (simp add: list_buckets_def stepping Let_def bucket_page_def)
  next
    case False
    then show ?thesis using pool_readdir [OF assms(1)] keep
      by (simp add: list_buckets_def stepping Let_def bucket_page_def)
  qed
qed

definition ask_buckets :: "bbs \<Rightarrow> list_buckets_input \<Rightarrow> world \<Rightarrow> string option \<Rightarrow> string list \<times> string list \<times> string option" where
  "ask_buckets b i w token =
     (case fst (ListBuckets b (i\<lparr>lb_ContinuationToken := token\<rparr>) w) of
        Inl _ \<Rightarrow> ([], [], None)
      | Inr (bs, next) \<Rightarrow> (map fst bs, [], next))"

text \<open>
  Claim C36.  ListBuckets lists the directories of the pool whose names are bucket names: following
  its continuation tokens with pages of any size gives exactly their names, sorted, each once.
\<close>

theorem list_buckets_complete:
  assumes "faults w = []" "sound (disk w)" "plain_tree (disk w)" "lb_MaxBuckets i = Some n" "0 < n" "n \<le> list_buckets_limit"
    "length (bucket_names (disk w) (or_empty (lb_Prefix i))) < k"
    "length (bucket_names (disk w) (or_empty (lb_Prefix i))) < 2 ^ 31"
  shows "\<exists>ns. follow_tokens k (ask_buckets b i w) None = (ns, []) \<and> sorted ns \<and> distinct ns
    \<and> set ns = {n. node_at (disk w) [n] = Some Dir \<and> check_bucket_naming n \<and> has_prefix n (or_empty (lb_Prefix i))}"
proof -
  let ?p = "or_empty (lb_Prefix i)"
  let ?ns = "bucket_names (disk w) ?p"
  obtain m where m: "n = int (Suc m)" using assms(5) by (metis gr0_conv_Suc zero_less_imp_eq_int)
  have ask: "ask_buckets b i w token = (fst (bucket_page (Suc m) ?ns s), [], next_token (snd (bucket_page (Suc m) ?ns s)))"
    if "parse_token token = ok (int s)" for token s
    using list_buckets_ok [OF assms(1-3), of b s m ?p] that assms(4,6) m
    by (auto simp: ask_buckets_def ListBuckets_def stepping liftE_def comp_def split: prod.splits)
  have "follow_tokens k (ask_buckets b i w) None = (id ?ns, [])"
    by (rule buckets.tokens_complete [where K = id and C = "\<lambda>_. []", OF _ _ _ _ _ assms(8,7)]) (simp_all add: ask)
  moreover have "set ?ns = {n. node_at (disk w) [n] = Some Dir \<and> check_bucket_naming n \<and> has_prefix n ?p}"
    using entries_node [of _ _ "disk w" "[]"] by (force simp: bucket_names_def)
  moreover have "distinct ?ns"
    unfolding bucket_names_def by (rule distinct_map_filter) (rule distinct_entries)
  moreover have "sorted (map fst (entries (disk w) []))" by (simp add: entries_def comp_def)
  then have "sorted ?ns" unfolding bucket_names_def by (rule sorted_filter)
  ultimately show ?thesis by simp
qed

section \<open>Multipart uploads\<close>

record mpul_entry =
  me_Key :: string
  me_UploadId :: string
  me_Initiated :: time
  me_ChecksumAlgorithm :: string
  me_ChecksumType :: string

record mpul_list_state =
  ms_objects :: "mpul_entry list"
  ms_commons :: "string list"
  ms_nextmarker :: string
  ms_markerhit :: bool
  ms_common :: string

text \<open>The function of the walk; the count of the lister is never read.\<close>

definition visit_mpul :: "bbs \<Rightarrow> string \<Rightarrow> list_request \<Rightarrow> bool \<Rightarrow> mpul_list_state walk_fn" where
  "visit_mpul b bucket q urlencode r key1 s =
     (case r of
        Inl err1 \<Rightarrow> retE (Go_on, s)
      | Inr e \<Rightarrow>
          if de_node e \<noteq> Dir \<or> \<not> check_mpul_scratch_name (de_name e) then retE (Go_on, s)
          else if snd (path_split key1) \<noteq> de_name e then fatalE
          else
            let key2 = adjust_mpul_scratch_to_object_name key1;
                commonpart = check_common_prefix key2 (lr_delimiter q) (lr_prefix q) in
            if \<not> has_prefix key2 (lr_prefix q) then retE (Go_on, s)
            else if commonpart \<noteq> [] \<and> ms_common s = commonpart then retE (Go_on, s)
            else
              let s1 = (if commonpart \<noteq> [] then s\<lparr>ms_common := commonpart\<rparr> else s) in
              if lr_marker q \<noteq> [] \<and> \<not> ms_markerhit s1 \<and> lr_marker q \<noteq> key2 then retE (Go_on, s1)
              else
                let s2 = (if lr_marker q \<noteq> [] then s1\<lparr>ms_markerhit := True\<rparr> else s1) in
                if int (length (ms_objects s2)) < lr_maxkeys q then
                  (if commonpart \<noteq> [] then retE (Go_on, s2\<lparr>ms_commons := ms_commons s2 @ [commonpart]\<rparr>)
                   else try_elseE (fetch_mpul_info b (path_join [bucket, key2]) False)
                     (\<lambda>err4. retE (Go_on, s2))
                     (\<lambda>mpul. retE (Go_on, s2\<lparr>ms_objects := ms_objects s2 @
                        [\<lparr>me_Key = (if urlencode then QueryEscape key2 else key2), me_UploadId = Upload_id mpul,
                          me_Initiated = Initiate_time mpul, me_ChecksumAlgorithm = Mpul_checksum mpul,
                          me_ChecksumType = Checksum_type mpul\<rparr>]\<rparr>)))
                else retE (Skip_all, s2\<lparr>ms_nextmarker := key2\<rparr>))"

definition list_mpuls_flat ::
  "bbs \<Rightarrow> string \<Rightarrow> list_request \<Rightarrow> bool \<Rightarrow> (mpul_entry list \<times> string list \<times> string) act" where
  "list_mpuls_flat b bucket q urlencode =
     seqE (WalkDir b (path_join [''.'', bucket]) (visit_mpul b bucket q urlencode)
       \<lparr>ms_objects = [], ms_commons = [], ms_nextmarker = [], ms_markerhit = False, ms_common = []\<rparr>) (\<lambda>s.
     retE (ms_objects s, ms_commons s, ms_nextmarker s))"

record list_uploads_input =
  lu_Bucket :: "string option"
  lu_Delimiter :: "string option"
  lu_EncodingType :: string
  lu_ExpectedBucketOwner :: "string option"
  lu_KeyMarker :: "string option"
  lu_MaxUploads :: "int option"
  lu_Prefix :: "string option"

text \<open>The next marker is answered as the KeyMarker, not as the NextKeyMarker.\<close>

record list_uploads_output =
  lv_Uploads :: "mpul_entry list"
  lv_CommonPrefixes :: "string list"
  lv_IsTruncated :: bool
  lv_KeyMarker :: string
  lv_NextKeyMarker :: "string option"

definition ListMultipartUploads :: "bbs \<Rightarrow> list_uploads_input \<Rightarrow> list_uploads_output act" where
  "ListMultipartUploads b i =
     seqE (check_usual_bucket_setup b (lu_Bucket i)) (\<lambda>bucket.
     seqE (liftE (check_options_unsupported b
       (no_options\<lparr>ExpectedBucketOwner := lu_ExpectedBucketOwner i\<rparr>))) (\<lambda>_.
     let q = \<lparr>lr_index = 0, lr_marker = or_empty (lu_KeyMarker i), lr_maxkeys = max_keys (lu_MaxUploads i),
              lr_delimiter = or_empty (lu_Delimiter i), lr_prefix = or_empty (lu_Prefix i)\<rparr> in
     seqE (list_mpuls_flat b bucket q (lu_EncodingType i = ''url'')) (\<lambda>(objects, commons, nextmarker).
     retE \<lparr>lv_Uploads = objects, lv_CommonPrefixes = commons, lv_IsTruncated = (nextmarker \<noteq> []),
           lv_KeyMarker = nextmarker, lv_NextKeyMarker = None\<rparr>)))"

section \<open>The lister by directories\<close>

text \<open>
  list_objects_delimited lists one directory.  It is not called, since always_use_flat_lister is
  set.  The delimiter is a slash.
\<close>

fun keep_named :: "bbs \<Rightarrow> string \<Rightarrow> string \<Rightarrow> (string \<times> node) list \<Rightarrow> string list act" where
  "keep_named b directory fileprefix [] = retE []"
| "keep_named b directory fileprefix ((name, x) # es) =
     sys_elseE (os_Lstat b (path_join [directory, name]))
       (\<lambda>_. keep_named b directory fileprefix es)
       (\<lambda>stat.
         if check_special_file stat \<or> check_metainfo_name name \<or> fileprefix \<noteq> [] \<and> \<not> has_prefix name fileprefix
         then keep_named b directory fileprefix es
         else seqE (keep_named b directory fileprefix es) (\<lambda>ns. retE (name # ns)))"

fun stat_named :: "bbs \<Rightarrow> string \<Rightarrow> string \<Rightarrow> string list \<Rightarrow> (string \<times> file_info) list act" where
  "stat_named b directory dir1 [] = retE []"
| "stat_named b directory dir1 (name # ns) =
     sys_elseE (os_Lstat b (path_join [directory, name]))
       (\<lambda>_. stat_named b directory dir1 ns)
       (\<lambda>stat. seqE (stat_named b directory dir1 ns) (\<lambda>es. retE ((path_join [dir1, name], stat) # es)))"

definition position_of :: "string \<Rightarrow> string list \<Rightarrow> int" where
  "position_of filemarker ns =
     (if filemarker = [] then 0
      else if filemarker \<in> set ns then int (length (takeWhile (\<lambda>n. n \<noteq> filemarker) ns)) else - 1)"

definition list_objects_delimited ::
  "bbs \<Rightarrow> string \<Rightarrow> list_request \<Rightarrow> ((string \<times> file_info) list \<times> int \<times> string) act" where
  "list_objects_delimited b bucket q =
     (if lr_delimiter q \<noteq> ''/'' then fatalE
      else
        let location = ''/'' @ bucket;
            (dir1, fileprefix) = path_split (path_clean (lr_prefix q));
            (dir2, filemarker) = path_split (path_clean (lr_marker q));
            directory = path_join [''.'', bucket, dir1] in
        if lr_marker q \<noteq> [] \<and> dir1 \<noteq> dir2 then retE ([], 0, [])
        else sys_elseE (os_ReadDir directory)
          (\<lambda>err1. os_failE location err1)
          (\<lambda>entries1. seqE (keep_named b directory fileprefix entries1) (\<lambda>entries2.
            if position_of filemarker entries2 = - 1 then retE ([], 0, [])
            else
              let start = max (lr_index q) (position_of filemarker entries2);
                  entries3 = drop (nat start) entries2;
                  n = min (int (length entries3)) (lr_maxkeys q) in
              if int (length entries2) < start \<or> n < 0 then panicE
              else seqE (stat_named b directory dir1 (take (nat n) entries3)) (\<lambda>entries5.
                   retE (entries5,
                         if n < int (length entries3) then start + n else 0,
                         if n < int (length entries3) then entries3 ! nat n else [])))))"

text \<open>
  The lister by directories would list nothing without a marker: the empty marker is cleaned to a
  dot, and no entry has that name.
\<close>

lemma keep_named_no_dot:
  "keep_named b directory fileprefix es w = (Inr ns, w') \<Longrightarrow> \<forall>n \<in> set ns. \<not> has_prefix n ''.''"
  by (induction es arbitrary: w ns w') (auto simp: runs check_metainfo_name_def split: if_splits)

theorem delimited_lists_nothing:
  assumes "lr_marker q = []" "list_objects_delimited b bucket q w = (Inr r, w')"
  shows "r = ([], 0, [])"
proof -
  have m: "path_split (path_clean []) = ([], ''.'')" by code_simp
  have dot: "position_of ''.'' ns = - 1" if "keep_named b d f es v = (Inr ns, v')" for d f es v v' ns
    using keep_named_no_dot [OF that] by (auto simp: position_of_def has_prefix_def)
  obtain d f where p: "path_split (path_clean (lr_prefix q)) = (d, f)" by (cases "path_split (path_clean (lr_prefix q))")
  have "lr_delimiter q = ''/''"
    using assms(2) by (rule contrapos_pp) (simp add: list_objects_delimited_def fatalE_def)
  then obtain es w1 where "seqE (keep_named b (path_join [''.'', bucket, d]) f es) (\<lambda>es2.
      if position_of ''.'' es2 = - 1 then retE ([], 0, []) else
        let start = max (lr_index q) (position_of ''.'' es2); entries3 = drop (nat start) es2;
            n = min (int (length entries3)) (lr_maxkeys q) in
        if int (length es2) < start \<or> n < 0 then panicE
        else seqE (stat_named b (path_join [''.'', bucket, d]) d (take (nat n) entries3)) (\<lambda>entries5.
          retE (entries5, if n < int (length entries3) then start + n else 0,
            if n < int (length entries3) then entries3 ! nat n else []))) w1 = (Inr r, w')"
    using assms p m by (simp add: list_objects_delimited_def Let_def run_sys_else os_failE_def failE_def) blast
  then show ?thesis using dot by (auto simp: run_seq retE_def)
qed

section \<open>Witnesses\<close>

definition example_buckets :: list_buckets_input where
  "example_buckets = \<lparr>lb_ContinuationToken = None, lb_MaxBuckets = Some 1, lb_Prefix = None\<rparr>"

theorem list_buckets_complete_witness:
  "\<exists>ns. follow_tokens 3 (ask_buckets example_bbs example_buckets object_world) None = (ns, []) \<and> ''bkt'' \<in> set ns"
proof -
  have "bucket_names object_fs [] = [''bkt'']" by code_simp
  then show ?thesis
    using list_buckets_complete [of object_world example_buckets 1 3 example_bbs] object_sound example_bucket_facts(1,2,4)
    by (auto simp: example_buckets_def or_empty_def list_buckets_limit_def has_prefix_def)
qed

theorem negative_token_panics_witness:
  "ListBuckets example_bbs (example_buckets\<lparr>lb_ContinuationToken := Some ''-1''\<rparr>) object_world \<noteq> (Inr ([], None), object_world)"
proof -
  have "parse_token (Some ''-1'') = ok (- 1)"
    by (simp add: parse_token_def parse_int_def digit_val_def Let_def)
  then show ?thesis
    using negative_token_panics [of "example_buckets\<lparr>lb_ContinuationToken := Some ''-1''\<rparr>" "- 1"] by simp
qed

theorem delimited_lists_nothing_witness:
  "\<forall>r w'. list_objects_delimited example_bbs ''bkt'' (page_request 10 ''/'' [] 0) object_world = (Inr r, w') \<longrightarrow> r = ([], 0, [])"
  using delimited_lists_nothing [of "page_request 10 ''/'' [] 0" example_bbs "''bkt''" object_world]
  by (simp add: page_request_def)

end
