(* ===== verification/Multipart.thy ===== *)
theory Multipart
  imports Put_object Setup_ok Listing
begin

text \<open>
  Multipart uploads in v1/server/api-action.go: CreateMultipartUpload, UploadPart,
  CompleteMultipartUpload, AbortMultipartUpload and ListParts.
\<close>

section \<open>Creating and aborting\<close>

record create_mpul_input =
  ci_Bucket :: "string option"
  ci_Key :: "string option"
  ci_StorageClass :: string
  ci_Metadata :: "(string \<times> string) list option"
  ci_Tagging :: "string option"
  ci_content :: meta_info
  ci_ChecksumType :: string
  ci_ChecksumAlgorithm :: string

record create_mpul_output =
  cm_UploadId :: string
  cm_ChecksumType :: string
  cm_ChecksumAlgorithm :: string

definition create_metainfo :: "bbs \<Rightarrow> string \<Rightarrow> create_mpul_input \<Rightarrow> meta_info option result" where
  "create_metainfo b object i =
     (case parse_tags b object (ci_Tagging i) of
        Inl e \<Rightarrow> Inl e
      | Inr tagging \<Rightarrow>
          ok (merge_metainfo_with_content_headers
            (if ci_Metadata i \<noteq> None \<or> tagging \<noteq> None
             then Some (empty_meta\<lparr>Headers := ci_Metadata i, Tags := tagging\<rparr>) else None)
            (ci_content i)))"

text \<open>
  The upload-ID is drawn by the server (crypto/rand); it is a parameter.  The directory is made
  and filled in the serialized region, and removed again when its catalog cannot be stored.
\<close>

definition create_upload :: "bbs \<Rightarrow> marker \<Rightarrow> string \<Rightarrow> mpul_info \<Rightarrow> unit act" where
  "create_upload b sfx object mpul =
     serializedE object
       (seqE (create_mpul_directory b object sfx mpul) (\<lambda>_.
        on_failE (ignoreE (discard_mpul_directory b object)) (store_mpul_catalog b object sfx [])))"

definition CreateMultipartUpload ::
  "bbs \<Rightarrow> marker \<Rightarrow> string \<Rightarrow> create_mpul_input \<Rightarrow> create_mpul_output act" where
  "CreateMultipartUpload b sfx uploadid i =
     seqE (check_usual_object_setup b (ci_Bucket i) (ci_Key i)) (\<lambda>object.
     seqE (liftE (check_options_unsupported b (no_options\<lparr>StorageClass := ci_StorageClass i\<rparr>))) (\<lambda>_.
     seqE (liftE (create_metainfo b object i)) (\<lambda>metainfo.
     seqE (liftE (reject_composite_checksum object (ci_ChecksumType i))) (\<lambda>_.
     let checksum = (if ci_ChecksumAlgorithm i = [] then ''CRC64NVME'' else ci_ChecksumAlgorithm i) in
     seqE (getE (\<lambda>w. now (disk w))) (\<lambda>t.
     seqE (create_upload b sfx object
       \<lparr>Upload_id = uploadid, Initiate_time = t, Checksum_type = ''FULL_OBJECT'', Mpul_checksum = checksum,
        Metainfo = metainfo, Mpul_format = []\<rparr>) (\<lambda>_.
     retE \<lparr>cm_UploadId = uploadid, cm_ChecksumType = ''FULL_OBJECT'', cm_ChecksumAlgorithm = checksum\<rparr>))))))"

record abort_input =
  ab_Bucket :: "string option"
  ab_Key :: "string option"
  ab_UploadId :: "string option"
  ab_ExpectedBucketOwner :: "string option"
  ab_IfMatchInitiatedTime :: "time option"

text \<open>The error of the removal is ignored.\<close>

definition AbortMultipartUpload :: "bbs \<Rightarrow> abort_input \<Rightarrow> unit act" where
  "AbortMultipartUpload b i =
     seqE (check_usual_object_setup b (ab_Bucket i) (ab_Key i)) (\<lambda>object.
     seqE (liftE (check_options_unsupported b
       (no_options\<lparr>ExpectedBucketOwner := ab_ExpectedBucketOwner i\<rparr>))) (\<lambda>_.
     serializedE object
       (seqE (check_mpul_ongoing b object (ab_UploadId i) True) (\<lambda>mpulinfo.
        if ab_IfMatchInitiatedTime i \<noteq> None \<and> ab_IfMatchInitiatedTime i \<noteq> Some (Initiate_time mpulinfo)
        then failE (s3_error PreconditionFailed [] (''/'' @ object))
        else ignoreE (discard_mpul_directory b object)))))"

section \<open>Uploading a part\<close>

record part_input =
  pa_Bucket :: "string option"
  pa_Key :: "string option"
  pa_UploadId :: "string option"
  pa_PartNumber :: "int option"
  pa_ExpectedBucketOwner :: "string option"
  pa_ContentLength :: "int option"
  pa_ContentMD5 :: "string option"
  pa_checksums :: checksum_set

record part_output =
  pr_ETag :: string
  pr_checksums :: checksum_set

text \<open>The checksums in the answer are those of the input, with the trailer in it.\<close>

definition part_build ::
  "bbs \<Rightarrow> marker \<Rightarrow> string \<Rightarrow> part_input \<Rightarrow> string \<Rightarrow> int \<Rightarrow> int \<Rightarrow> bytes option \<Rightarrow> string \<Rightarrow> string \<Rightarrow> bytes option
   \<Rightarrow> bytes \<Rightarrow> bytes option \<Rightarrow> part_output act" where
  "part_build b sfx object i upload_id part size_to_check md5_to_check trailer_checksum checksum csum0 md5v csum =
     (let scratch = make_scratch_object_name object sfx;
          csumset = (pa_checksums i)\<lparr>ChecksumType := ''FULL_OBJECT''\<rparr>
      in
      seqE (put_trailer object trailer_checksum csumset csum0) (\<lambda>(csumset2, csum_to_check).
      seqE (compare_checksums b object scratch md5v csum md5_to_check csum_to_check) (\<lambda>_.
      seqE (upload_object b sfx object upload_id part md5v csum None
              \<lparr>check_algorithm = checksum, check_in_trailer = (trailer_checksum \<noteq> []),
               check_size = size_to_check, check_md5 = md5_to_check, check_csum = csum_to_check\<rparr>
              no_conditions) (\<lambda>_.
      retE \<lparr>pr_ETag = make_object_etag_from_md5 md5v, pr_checksums = csumset2\<rparr>))))"

definition upload_part :: "bbs \<Rightarrow> marker \<Rightarrow> http_request \<Rightarrow> part_input \<Rightarrow> string \<Rightarrow> part_output act" where
  "upload_part b sfx q i object =
     seqE (liftE (check_options_unsupported b
            (no_options\<lparr>ExpectedBucketOwner := pa_ExpectedBucketOwner i\<rparr>))) (\<lambda>_.
     seqE (check_mpul_ongoing b object (pa_UploadId i) False) (\<lambda>mpulinfo.
     seqE (liftE (lookat_part_number object (pa_PartNumber i) True)) (\<lambda>part.
     let size_to_check = (case pa_ContentLength i of Some n \<Rightarrow> n | None \<Rightarrow> - 1) in
     seqE (liftE (decode_base64 object (pa_ContentMD5 i))) (\<lambda>md5_to_check.
     seqE (liftE (put_checksum object ((pa_checksums i)\<lparr>ChecksumType := ''FULL_OBJECT''\<rparr>) (rq_Header q)))
       (\<lambda>(trailer_checksum, checksum, csum0).
     seqE (upload_scratch b sfx object q size_to_check checksum) (\<lambda>(md5v, csum).
     seqE (modE (\<lambda>w. w\<lparr>cleanup_needed := True\<rparr>)) (\<lambda>_.
     deferE (cleanup_scratch (make_scratch_object_name object sfx))
       (part_build b sfx object i (Upload_id mpulinfo) part size_to_check md5_to_check trailer_checksum
          checksum csum0 md5v csum))))))))"

definition UploadPart :: "bbs \<Rightarrow> marker \<Rightarrow> http_request \<Rightarrow> part_input \<Rightarrow> part_output act" where
  "UploadPart b sfx q i =
     seqE (modE (\<lambda>w. w\<lparr>req_header := rq_Header q\<rparr>)) (\<lambda>_.
     seqE (check_usual_object_setup b (pa_Bucket i) (pa_Key i)) (upload_part b sfx q i))"

section \<open>Completing\<close>

record complete_input =
  mi_Bucket :: "string option"
  mi_Key :: "string option"
  mi_UploadId :: "string option"
  mi_checksums :: checksum_set
  mi_ExpectedBucketOwner :: "string option"
  mi_IfMatch :: "string option"
  mi_IfNoneMatch :: "string option"
  mi_MpuObjectSize :: "int option"
  mi_Parts :: "completed_part list option"

text \<open>
  slices.IsSortedFunc compares from the last pair to the first and stops at the first pair out of
  order; a missing part number is noted and passed.  The list is given reversed.
\<close>

fun parts_sorted :: "bool \<Rightarrow> completed_part list \<Rightarrow> bool \<times> bool" where
  "parts_sorted missing (a # c # ps) =
     (case (PartNumber a, PartNumber c) of
        (Some m, Some n) \<Rightarrow> if int32 (m - n) < 0 then (missing, False) else parts_sorted missing (c # ps)
      | _ \<Rightarrow> parts_sorted True (c # ps))"
| "parts_sorted missing _ = (missing, True)"

definition check_part_order :: "string \<Rightarrow> completed_part list \<Rightarrow> unit result" where
  "check_part_order location ps =
     (let (missing, sorted) = parts_sorted False (rev ps) in
      if missing then failed (s3_error InvalidArgument ''Part number missing.'' location)
      else if \<not> sorted then failed (s3_error InvalidPartOrder [] location)
      else ok ())"

definition part_checksums :: "completed_part \<Rightarrow> checksum_set" where
  "part_checksums e =
     \<lparr>ChecksumType = ''FULL_OBJECT'', ChecksumCRC32 = cp_CRC32 e, ChecksumCRC32C = cp_CRC32C e,
      ChecksumCRC64NVME = cp_CRC64NVME e, ChecksumSHA1 = cp_SHA1 e, ChecksumSHA256 = cp_SHA256 e\<rparr>"

text \<open>The errors of decoding are ignored: they give the zero values.\<close>

definition or_zero :: "'a \<Rightarrow> 'a result \<Rightarrow> 'a" where
  "or_zero z r = (case r of Inr x \<Rightarrow> x | Inl e \<Rightarrow> z)"

definition check_part :: "bbs \<Rightarrow> string \<Rightarrow> mpul_catalog \<Rightarrow> completed_part \<Rightarrow> unit result" where
  "check_part b object catalog e =
     (let location = ''/'' @ object in
      case (PartNumber e, fix_etag_quoting b (cp_ETag e)) of
        (Some part, Some etag) \<Rightarrow>
          (let k = int32 (part - 1); partinfo = catalog ! nat k;
               (checksum3, csum_to_check3) = or_zero ([], None) (decode_checksum_union object (part_checksums e)) in
           if \<not> (0 \<le> k \<and> k < int (length catalog) \<and> Part_ETag partinfo \<noteq> [])
           then failed (s3_error NoSuchUpload [] location)
           else if Part_ETag partinfo \<noteq> etag then failed (s3_error InvalidPart [] location)
           else if csum_to_check3 \<noteq> None then
             (if checksum3 \<noteq> Part_checksum partinfo
              then failed (s3_error InvalidPart ''Checksum algorithm mismatch.'' location)
              else if slice csum_to_check3 \<noteq> slice (or_zero None (decode_base64 object (Some (Part_csum partinfo))))
              then failed (s3_error InvalidPart ''Checksum mismatch.'' location)
              else ok ())
           else ok ())
      | _ \<Rightarrow> failed (s3_error InvalidArgument ''Part number or ETag missing.'' location))"

text \<open>slices.ContainsFunc stops at the first part with an error.\<close>

fun check_parts :: "bbs \<Rightarrow> string \<Rightarrow> mpul_catalog \<Rightarrow> completed_part list \<Rightarrow> unit result" where
  "check_parts b object catalog [] = ok ()"
| "check_parts b object catalog (e # es) =
     (case check_part b object catalog e of Inl x \<Rightarrow> Inl x | Inr _ \<Rightarrow> check_parts b object catalog es)"

record complete_output =
  mo_ETag :: string
  mo_checksums :: checksum_set

definition complete_build ::
  "bbs \<Rightarrow> marker \<Rightarrow> string \<Rightarrow> complete_input \<Rightarrow> mpul_info \<Rightarrow> string \<Rightarrow> bytes option \<Rightarrow> bytes \<Rightarrow> bytes option
   \<Rightarrow> complete_output act" where
  "complete_build b sfx object i mpulinfo checksum csum_to_check md5v csum =
     seqE (compare_checksums b object (make_scratch_object_name object sfx) md5v csum None csum_to_check) (\<lambda>_.
     seqE (concatenate_object b sfx object mpulinfo md5v csum checksum
            (no_conditions\<lparr>some_match := mi_IfMatch i, none_match := mi_IfNoneMatch i\<rparr>)) (\<lambda>_.
     retE \<lparr>mo_ETag = make_object_etag_from_md5 md5v, mo_checksums = mi_checksums i\<rparr>))"

text \<open>The action behind the checks of bucket and key; the address in the answer is left out.\<close>

definition complete_object :: "bbs \<Rightarrow> marker \<Rightarrow> complete_input \<Rightarrow> string \<Rightarrow> complete_output act" where
  "complete_object b sfx i object =
     (let location = ''/'' @ object in
      seqE (liftE (check_options_unsupported b
             (no_options\<lparr>ExpectedBucketOwner := mi_ExpectedBucketOwner i\<rparr>))) (\<lambda>_.
      seqE (check_mpul_ongoing b object (mi_UploadId i) False) (\<lambda>mpulinfo.
      let size_to_check = (case mi_MpuObjectSize i of None \<Rightarrow> - 1 | Some n \<Rightarrow> n) in
      case mi_Parts i of
        None \<Rightarrow> failE (s3_error InvalidArgument ''Parts in request empty.'' location)
      | Some ps \<Rightarrow>
          if ps = [] then failE (s3_error InvalidArgument ''Parts in request empty.'' location)
          else
            seqE (liftE (check_part_order location ps)) (\<lambda>_.
            seqE (fetch_mpul_catalog b object) (\<lambda>catalog.
            seqE (liftE (check_parts b object catalog ps)) (\<lambda>_.
            seqE (liftE (decode_checksum_union object (mi_checksums i))) (\<lambda>(checksum, csum_to_check).
            if checksum \<noteq> [] \<and> checksum \<noteq> Mpul_checksum mpulinfo
            then failE (s3_error NotImplemented ''Checksum algorithm differs MPUL creation/completion.'' location)
            else
              seqE (concatenate_scratch b sfx object mpulinfo ps checksum size_to_check) (\<lambda>(md5v, csum).
              seqE (modE (\<lambda>w. w\<lparr>cleanup_needed := True\<rparr>)) (\<lambda>_.
              deferE (cleanup_scratch (make_scratch_object_name object sfx))
                (complete_build b sfx object i mpulinfo checksum csum_to_check md5v csum))))))))))"

definition CompleteMultipartUpload :: "bbs \<Rightarrow> marker \<Rightarrow> complete_input \<Rightarrow> complete_output act" where
  "CompleteMultipartUpload b sfx i =
     seqE (check_usual_object_setup b (mi_Bucket i) (mi_Key i)) (complete_object b sfx i)"

section \<open>Listing the parts\<close>

record list_parts_input =
  lq_Bucket :: "string option"
  lq_Key :: "string option"
  lq_UploadId :: "string option"
  lq_ExpectedBucketOwner :: "string option"
  lq_MaxParts :: "int option"
  lq_PartNumberMarker :: "string option"

record list_part =
  pt_PartNumber :: int
  pt_ETag :: string
  pt_Size :: int
  pt_LastModified :: time
  pt_checksums :: checksum_set

text \<open>
  The slice of the catalog: its indices are int32, and it panics when they are out of order.  The
  end of the slice is - 1 when no count is given.
\<close>

definition slice_parts :: "int \<Rightarrow> int \<Rightarrow> mpul_catalog \<Rightarrow> (mpul_catalog \<times> int) result" where
  "slice_parts index count parts =
     (let n = int (length parts); start = min index n;
          hi = (if count = - 1 then n else min (int32 (index + count)) n) in
      if start < 0 \<or> hi < start then Inl Panic
      else ok (take (nat (hi - start)) (drop (nat start) parts), if count = - 1 then - 1 else hi))"

definition list_part_of :: "string \<Rightarrow> nat \<Rightarrow> mpul_part \<Rightarrow> list_part" where
  "list_part_of checksum i e =
     \<lparr>pt_PartNumber = int i + 1, pt_ETag = Part_ETag e, pt_Size = Part_size e, pt_LastModified = Part_mtime e,
      pt_checksums = fill_checksum_union checksum (base64_decode (Part_csum e))\<rparr>"

record list_parts_output =
  lo_Parts :: "list_part list"
  lo_IsTruncated :: "bool option"
  lo_NextPartNumberMarker :: "string option"
  lo_ChecksumAlgorithm :: string

definition parse_marker :: "string option \<Rightarrow> int result" where
  "parse_marker marker =
     (case marker of
        None \<Rightarrow> ok 0
      | Some t \<Rightarrow>
          (case parse_int 10 32 t of
             None \<Rightarrow> failed (s3_error InvalidArgument (make_parameter_error ''part-number-marker'' (parse_error t)) [])
           | Some n \<Rightarrow> ok n))"

definition ListParts :: "bbs \<Rightarrow> list_parts_input \<Rightarrow> list_parts_output act" where
  "ListParts b i =
     seqE (check_usual_object_setup b (lq_Bucket i) (lq_Key i)) (\<lambda>object.
     seqE (liftE (check_options_unsupported b
       (no_options\<lparr>ExpectedBucketOwner := lq_ExpectedBucketOwner i\<rparr>))) (\<lambda>_.
     seqE (check_mpul_ongoing b object (lq_UploadId i) False) (\<lambda>mpulinfo.
     let count = (case lq_MaxParts i of None \<Rightarrow> - 1 | Some n \<Rightarrow> n) in
     seqE (liftE (parse_marker (lq_PartNumberMarker i))) (\<lambda>index.
     seqE (fetch_mpul_catalog b object) (\<lambda>catalog.
     seqE (liftE (slice_parts index count catalog)) (\<lambda>(parts, endindex).
     retE \<lparr>lo_Parts = map (\<lambda>(k, e). list_part_of (Mpul_checksum mpulinfo) k e) (enumerate 0 parts),
           lo_IsTruncated = (if endindex \<noteq> - 1 then Some True else None),
           lo_NextPartNumberMarker = (if endindex \<noteq> - 1 then Some (print_int endindex) else None),
           lo_ChecksumAlgorithm = Mpul_checksum mpulinfo\<rparr>))))))"

section \<open>The parts joined\<close>

abbreviation part_path :: "string \<Rightarrow> int \<Rightarrow> path" where
  "part_path object n \<equiv> mpul_file object (make_part_name (nat n))"

lemma read_done:
  assumes "file_read b h w = (Inr (d, None), w')"
  shows "disk w' = disk w \<and> same_rest w w'
    \<and> (\<exists>i p. h = H_file i p \<and> d = content_bytes b (ino_content (inode_at (disk w) i)))"
  using assms by (auto simp: file_read_def Let_def same_rest_def split: handle.splits list.splits option.splits)

definition holds_part :: "bbs \<Rightarrow> string \<Rightarrow> fsys \<Rightarrow> completed_part \<Rightarrow> bytes \<Rightarrow> bool" where
  "holds_part b object s p d \<longleftrightarrow>
     (\<exists>n c. PartNumber p = Some n \<and> file_content s (part_path object n) = Some c \<and> d = content_bytes b c)"

lemma holds_part_look:
  assumes "\<And>n. PartNumber p = Some n \<Longrightarrow> look t (part_path object n) = look s (part_path object n)"
  shows "holds_part b object t p d \<longleftrightarrow> holds_part b object s p d"
  using assms file_content_look unfolding holds_part_def by metis

lemma concat_parts_done:
  assumes "concat_parts b location (make_path_of_object object Mpul_marker) f1 path ps acc w = (Inr d, w')"
    "guard C P w" "\<And>p n. p \<in> set ps \<Longrightarrow> PartNumber p = Some n \<Longrightarrow> part_path object n \<in> P"
    "node_at (disk w) sp = Some (File f1)" "ino_content (inode_at (disk w) f1) = Data acc"
  shows "\<exists>ds. list_all2 (holds_part b object (disk w)) ps ds \<and> d = acc @ concat ds
    \<and> node_at (disk w') sp = Some (File f1) \<and> ino_content (inode_at (disk w') f1) = Data d \<and> same_rest w w'"
  using assms
proof (induction ps arbitrary: acc w)
  case Nil
  then show ?case by (auto simp: retE_def file_content_def)
next
  case (Cons p ps)
  obtain n where n: "PartNumber p = Some n" using Cons.prems(1) by (cases "PartNumber p") (auto simp: panicE_def)
  let ?pp = "path_join [make_path_of_object object Mpul_marker, make_part_name (nat n)]"
  obtain h w1 x w2 w3 where o: "os_Open ?pp w = (Inr h, w1)" and r: "file_read b h w1 = (Inr (x, None), w2)"
    and wr: "file_write b f1 path x w2 = (Inr (), w3)"
    and rest: "concat_parts b location (make_path_of_object object Mpul_marker) f1 path ps (acc @ x) w3 = (Inr d, w')"
    using Cons.prems(1) n by (auto simp: Let_def runs split: option.splits)
  have s: "sound (disk w)" by (rule guard_sound [OF Cons.prems(2)])
  note od = open_done [OF o s] and rd = read_done [OF r]
  obtain nd where nd: "node_at (disk w) (comps ?pp) = Some nd" "h = (case nd of File i \<Rightarrow> H_file i ?pp | _ \<Rightarrow> H_other ?pp)"
    using od by blast
  then obtain i where i: "node_at (disk w) (comps ?pp) = Some (File i)" "x = content_bytes b (ino_content (inode_at (disk w) i))"
    using rd od by (cases nd) auto
  have hp: "holds_part b object (disk w) p x"
    unfolding holds_part_def using n i by (auto simp: mpul_file_def file_content_def)
  have d3: "disk w3 = append_data b f1 x (disk w)" "same_rest w w3"
    using od rd write_done [OF wr] by (auto simp: same_rest_def)
  have "keeps (frame C P) (seqE (sysE (os_Open ?pp)) (\<lambda>_. seqE (file_read b h) (\<lambda>_. sysE (file_write b f1 path x))))"
    by (intro keeps_rules)
  moreover have "seqE (sysE (os_Open ?pp)) (\<lambda>_. seqE (file_read b h) (\<lambda>_. sysE (file_write b f1 path x))) w = (Inr (Inr ()), w3)"
    using o r wr by (simp add: seqE_def sysE_def)
  ultimately have "frame C P w w3" by (rule keepsD)
  then have g3: "guard C P w3" "same_look P (disk w) (disk w3)" using Cons.prems(2) by (simp_all add: frame_def)
  have "node_at (disk w3) sp = Some (File f1)" "ino_content (inode_at (disk w3) f1) = Data (acc @ x)"
    using Cons.prems(4,5) d3(1) by (simp_all add: append_data_def content_bytes_def)
  then obtain ds where ds: "list_all2 (holds_part b object (disk w3)) ps ds" "d = (acc @ x) @ concat ds"
    "node_at (disk w') sp = Some (File f1)" "ino_content (inode_at (disk w') f1) = Data d" "same_rest w3 w'"
    using Cons.IH [OF rest g3(1)] Cons.prems(3) by auto
  have "list_all2 (holds_part b object (disk w)) ps ds"
  proof (rule list.rel_mono_strong [OF ds(1)])
    fix q y assume q: "q \<in> set ps" "y \<in> set ds" "holds_part b object (disk w3) q y"
    have "look (disk w3) (part_path object m) = look (disk w) (part_path object m)" if "PartNumber q = Some m" for m
      using g3(2) Cons.prems(3) [of q m] q(1) that by (simp add: same_look_def)
    then show "holds_part b object (disk w) q y" using holds_part_look [of q "disk w3" object "disk w" b y] q(3) by blast
  qed
  then show ?case
    using hp ds(2-5) d3(2) same_rest_trans by (intro exI [of _ "x # ds"]) auto
qed

lemma chtimes_content:
  assumes "ignore_sysE (os_Chtimes path t) w = (Inr u, w')" "sound (disk w)"
  shows "(\<forall>p. file_content (disk w') p = file_content (disk w) p) \<and> (\<forall>p. node_at (disk w') p = node_at (disk w) p)
    \<and> same_rest w w' \<and> sound (disk w')"
proof -
  obtain r where r: "os_Chtimes path t w = (r, w')"
    using assms(1) by (auto simp: ignore_sysE_def runs)
  have "sysE (os_Chtimes path t) w = (Inr r, w')" using r by (simp add: sysE_def)
  then have rest: "same_rest w w'" by (rule keepsD [OF rest.calls(10)])
  have "disk w' = disk w \<or> (\<exists>i. disk w' = put_inode i ((inode_at (disk w) i)\<lparr>ino_mtime := t\<rparr>) (disk w))"
  proof (cases r)
    case (Inl e)
    then show ?thesis using r syscall_error unfolding os_Chtimes_def by blast
  next
    case (Inr y)
    then have "syscall ''chtimes'' path (fs_chtimes path t) w = (Inr y, w')" using r by (simp add: os_Chtimes_def)
    then have "fs_chtimes path t (disk w) = Inr (y, disk w')" by (rule syscall_done [THEN conjunct1])
    then show ?thesis by (auto simp: fs_chtimes_def split: sum.splits option.splits node.splits) metis
  qed
  then show ?thesis
  proof (elim disjE exE)
    fix i assume i: "disk w' = put_inode i ((inode_at (disk w) i)\<lparr>ino_mtime := t\<rparr>) (disk w)"
    have "file_content (disk w') p = file_content (disk w) p" for p
      unfolding i by (simp add: file_content_def split: option.split node.split)
    then show ?thesis using rest i assms(2) by simp
  qed (use rest assms(2) in simp)
qed

lemma file_stat_done:
  assumes "file_Stat b (H_file i p) w = (Inr stat, w')"
  shows "disk w' = disk w \<and> same_rest w w' \<and> stat = inode_info b (disk w) i"
  using syscall_done [OF assms [unfolded file_Stat_def]] by (auto simp: same_rest_def)

text \<open>The paths of the parts a completion lists.\<close>

definition listed_paths :: "string \<Rightarrow> completed_part list \<Rightarrow> path set" where
  "listed_paths object ps = {part_path object n |n p. p \<in> set ps \<and> PartNumber p = Some n}"

lemma concat_as_scratch_done:
  assumes "concat_parts_as_scratch b object scratch mpul ps checksum n w = (Inr (md5v, csum), w')"
    "guard {obj_path scratch} P w" "obj_path scratch \<noteq> []" "obj_path scratch \<notin> P" "listed_paths object ps \<subseteq> P"
  shows "\<exists>ds hash. list_all2 (holds_part b object (disk w)) ps ds \<and> md5v = md5_sum b (concat ds)
    \<and> csum = run_digest hash (concat ds)
    \<and> (checksum = [] \<longrightarrow> hash = None) \<and> (checksum \<noteq> [] \<longrightarrow> hash = Some (digest_sum b checksum))
    \<and> (n = - 1 \<or> int (length (concat ds)) = n)
    \<and> file_content (disk w') (obj_path scratch) = Some (Data (concat ds)) \<and> sound (disk w') \<and> same_rest w w'"
proof -
  let ?p = "make_path_of_object scratch No_marker"
  obtain i w1 hash w2 d w3 w4 where c: "os_Create ?p w = (Inr i, w1)"
    and ck: "checksum_algorithm b checksum w1 = (Inr hash, w2)"
    and cp: "concat_parts b (''/'' @ object) (make_path_of_object object Mpul_marker) i ?p ps [] w2 = (Inr d, w3)"
    and sz: "(if n = - 1 then retE ()
                  else sys_elseE (file_Stat b (H_file i ?p)) (os_failE (''/'' @ object)) (\<lambda>stat.
                    if fi_size stat \<noteq> n
                    then failE (s3_error InvalidArgument ''Size of concatenated object mismatch.'' [])
                    else retE ())) w3 = (Inr (), w4)"
    and ch: "ignore_sysE (os_Chtimes ?p (Initiate_time mpul)) (w4\<lparr>open_inodes := remove1 i (open_inodes w4)\<rparr>) = (Inr (), w')"
    and r: "md5v = md5_sum b d" "csum = run_digest hash d"
    using assms(1)
    by (auto simp: concat_parts_as_scratch_def Let_def run_sys_else run_on_fail run_defer close_run run_simple run_seq
        simp del: append.simps append_Cons split: prod.splits)
  have "sysE (os_Create ?p) w = (Inr (Inr i), w1)" using c by (simp add: sysE_def)
  then have f: "frame {obj_path scratch} P w w1" by (rule keepsD [rotated]) (intro keeps_rules, use assms(4) in simp_all)
  have w2: "w2 = w1" using ck by (auto simp: checksum_algorithm_def runs split: if_splits)
  have h: "checksum = [] \<longrightarrow> hash = None" "checksum \<noteq> [] \<longrightarrow> hash = Some (digest_sum b checksum)"
    using ck by (auto simp: checksum_algorithm_def runs split: if_splits)
  have g1: "guard {obj_path scratch} P w1" "same_look P (disk w) (disk w1)" using f assms(2) by (simp_all add: frame_def)
  note c1 = create_done [OF c guard_sound [OF assms(2)] assms(3)]
  have lp: "part_path object m \<in> P" if "p \<in> set ps" "PartNumber p = Some m" for p m
    using that assms(5) by (auto simp: listed_paths_def)
  obtain ds where ds: "list_all2 (holds_part b object (disk w1)) ps ds" "d = concat ds"
    "node_at (disk w3) (obj_path scratch) = Some (File i)" "ino_content (inode_at (disk w3) i) = Data d" "same_rest w1 w3"
    using concat_parts_done [OF cp [unfolded w2] g1(1) lp] c1 by fastforce
  have "frame {obj_path scratch} P w1 w3" by (rule keepsD, rule keeps_concat) (rule cp [unfolded w2])
  then have s3: "sound (disk w3)" using g1 guard_sound by (auto simp: frame_def)
  have w4: "disk w4 = disk w3" "same_rest w3 w4" "n = - 1 \<or> int (length d) = n"
    using sz ds(3,4) by (auto simp: runs inode_info_def content_bytes_def Let_def dest!: file_stat_done split: if_splits)
  have "list_all2 (holds_part b object (disk w)) ps ds"
  proof (rule list.rel_mono_strong [OF ds(1)])
    fix q y assume q: "q \<in> set ps" "y \<in> set ds" "holds_part b object (disk w1) q y"
    have "look (disk w1) (part_path object m) = look (disk w) (part_path object m)" if "PartNumber q = Some m" for m
      using g1(2) lp [of q m] q(1) that by (simp add: same_look_def)
    then show "holds_part b object (disk w) q y" using holds_part_look [of q "disk w1" object "disk w" b y] q(3) by blast
  qed
  moreover have "file_content (disk w3) (obj_path scratch) = Some (Data d)" using ds(3,4) by (simp add: file_content_def)
  moreover note chtimes_content [OF ch]
  ultimately show ?thesis
    using h r ds w4 s3 c1 by (intro exI [of _ ds] exI [of _ hash]) (auto simp: same_rest_def)
qed

lemma concatenate_scratch_done:
  assumes "concatenate_scratch b sfx object mpul ps checksum n w = (Inr (md5v, csum), w')" "begins object sfx w"
    "own_ok object sfx" "dirs_of object \<inter> set (own_paths object sfx) = {}"
    "scratch_path object sfx \<notin> listed_paths object ps" "dirs_of object \<inter> listed_paths object ps = {}"
    "calm (listed_paths object ps) (waits w)"
  shows "\<exists>ds hash. list_all2 (holds_part b object (disk w)) ps ds \<and> md5v = md5_sum b (concat ds)
    \<and> csum = run_digest hash (concat ds)
    \<and> (checksum = [] \<longrightarrow> hash = None) \<and> (checksum \<noteq> [] \<longrightarrow> hash = Some (digest_sum b checksum))
    \<and> (n = - 1 \<or> int (length (concat ds)) = n)
    \<and> file_content (disk w') (scratch_path object sfx) = Some (Data (concat ds))
    \<and> placing object sfx w' \<and> waits w' = waits w \<and> open_inodes w' = open_inodes w"
proof -
  let ?scratch = "make_scratch_object_name object sfx"
  let ?C = "{scratch_path object sfx}" and ?P = "insert (meta_scratch object sfx) (listed_paths object ps)"
  obtain w1 where d: "make_intervening_directories b object w = (Inr (), w1)"
    and c: "concat_parts_as_scratch b object ?scratch mpul ps checksum n w1 = (Inr (md5v, csum), w')"
    using assms(1) by (auto simp: concatenate_scratch_def Let_def runs)
  have nn: "scratch_path object sfx \<noteq> []" "scratch_path object sfx \<noteq> meta_scratch object sfx"
    using assms(3) by (auto simp: own_ok_def own_paths_def)
  have rest1: "same_rest w w1" by (rule keepsD, rule rest.directories, rule d)
  have g: "guard ?C ?P w"
    using assms(2,7) by (intro begins_guard) (auto simp: begins_def calm_def)
  have dd: "dirs_of object \<inter> ?P = {}" "dirs_of object \<inter> ?C = {}" using assms(4,6) by (auto simp: own_paths_def)
  have "frame ?C ?P w w1" by (rule keepsD, rule keeps_intervening [OF dd]) (rule d)
  then have g1: "guard ?C ?P w1" "same_look ?P (disk w) (disk w1)" using g by (simp_all add: frame_def)
  have "frame ?C ?P w1 w'"
    by (rule keepsD, rule keeps_concat_scratch, use nn(2) assms(5) in auto) (rule c)
  then have gl: "guard ?C ?P w'" "same_look ?P (disk w1) (disk w')" using g1 by (simp_all add: frame_def)
  have "look (disk w') (meta_scratch object sfx) = look (disk w) (meta_scratch object sfx)"
    using g1(2) gl(2) by (simp add: same_look_def)
  then have m: "node_at (disk w') (meta_scratch object sfx) = None"
    using look_node assms(2) unfolding begins_def by metis
  have "?scratch = ?scratch" "obj_path ?scratch \<notin> ?P" using nn(2) assms(5) by auto
  note cs = concat_as_scratch_done [OF c g1(1) nn(1) this(2) subset_insertI]
  obtain ds hash where x: "list_all2 (holds_part b object (disk w1)) ps ds" "md5v = md5_sum b (concat ds)"
    "csum = run_digest hash (concat ds)" "checksum = [] \<longrightarrow> hash = None" "checksum \<noteq> [] \<longrightarrow> hash = Some (digest_sum b checksum)"
    "n = - 1 \<or> int (length (concat ds)) = n" "file_content (disk w') (scratch_path object sfx) = Some (Data (concat ds))"
    "sound (disk w')" "same_rest w1 w'"
    using cs by blast
  have w': "open_inodes w' = []" "waits w' = waits w"
    using x(9) rest1 assms(2) by (auto simp: same_rest_def begins_def)
  have op: "open_inodes w' = open_inodes w" using w'(1) assms(2) by (simp add: begins_def)
  have "calm {scratch_path object sfx, meta_scratch object sfx} (waits w')"
    using assms(2) w' by (simp add: begins_def)
  then have pl: "placing object sfx w'"
    using w' m x(8) by (auto simp: guard_def apart_def calm_def)
  have "list_all2 (holds_part b object (disk w)) ps ds"
  proof (rule list.rel_mono_strong [OF x(1)])
    fix q y assume q: "q \<in> set ps" "y \<in> set ds" "holds_part b object (disk w1) q y"
    have "look (disk w1) (part_path object m) = look (disk w) (part_path object m)" if "PartNumber q = Some m" for m
      using g1(2) q(1) that by (auto simp: same_look_def listed_paths_def)
    then show "holds_part b object (disk w) q y" using holds_part_look [of q "disk w1" object "disk w" b y] q(3) by blast
  qed
  then show ?thesis using x w' pl op by blast
qed

section \<open>The paths of the parts\<close>

lemma plain_part_name: "plain (make_part_name n)"
proof -
  have "slash \<notin> set (print_nat 10 n)" using print_nat_digits [of 10 slash n] by (auto simp: is_digit_def)
  then show ?thesis by (auto simp: make_part_name_def pad_zero_def plain_def)
qed

lemma part_file:
  assumes "good_object object"
  shows "mpul_file object (make_part_name n) = mpul_path object @ [make_part_name n]"
  by (rule good_mpul_file) (use assms plain_part_name in auto)

lemma part_target:
  assumes "good_object object"
  shows "obj_path (make_mpul_part_name object n) = mpul_file object (make_part_name n)"
proof -
  note g = good_object_parts [OF assms]
  let ?m = "prefix_suffix_by_marker (file_name object) Mpul_marker"
  let ?ds = "dir_comps object @ [?m]"
  have pl: "\<forall>p \<in> set ?ds. plain p" using g plain_marked_ok by auto
  have sp: "path_split object = (join_with slash (dir_comps object) @ [slash], file_name object)"
    using path_split_join [OF g(2,3)] g(1,4) by (simp add: object_name_def)
  have "join_with slash [join_with slash (dir_comps object) @ [slash], ?m, make_part_name n]
      = join_with slash [join_with slash (dir_comps object) @ [slash], ?m] @ slash # make_part_name n" by simp
  have nz: "join_with slash (dir_comps object) \<noteq> []" "hd (join_with slash (dir_comps object)) \<noteq> slash"
    using plain_join_ne [OF g(4,2)] by auto
  have mne: "?m \<noteq> []" by (simp add: prefix_suffix_by_marker_def)
  have "make_mpul_part_name object n = path_join [join_with slash (dir_comps object) @ [slash], ?m, make_part_name n]"
    using sp by (simp add: make_mpul_part_name_def prefix_suffix_by_marker_def)
  also have "... = object_name ?ds (make_part_name n)"
  proof -
    have n: "split_on slash ?m = [?m]" "split_on slash (make_part_name n) = [make_part_name n]"
      using pl plain_part_name by (auto simp: plain_def split_on_no_sep)
    have "split_on slash (join_with slash (dir_comps object) @ slash # [] @ slash # ?m @ slash # make_part_name n)
        = dir_comps object @ [[]] @ [?m] @ [make_part_name n]"
      using split_on_append [of slash "join_with slash (dir_comps object)"] split_on_append [of slash "[]"]
        split_on_append [of slash ?m] n g(2,4) by (simp add: split_join_plain)
    moreover have "filter (\<lambda>c. c \<noteq> [] \<and> c \<noteq> ''.'') (dir_comps object @ [[]] @ [?m] @ [make_part_name n]) = ?ds @ [make_part_name n]"
      using pl plain_part_name g(2) by (auto simp: plain_def filter_id_conv)
    ultimately have "clean_comps False (split_on slash (join_with slash (dir_comps object) @ slash # slash # ?m @ slash # make_part_name n))
        = ?ds @ [make_part_name n]"
      using clean_comps_filter [of False "dir_comps object @ [[]] @ [?m] @ [make_part_name n]"] pl plain_part_name by auto
    then show ?thesis using nz mne plain_part_name
      by (simp add: path_join_def path_clean_def Let_def object_name_def plain_def)
  qed
  finally have "make_mpul_part_name object n = object_name ?ds (make_part_name n)" .
  then show ?thesis
    using comps_of_object [OF pl plain_part_name, of No_marker] part_file [OF assms]
      good_obj_path(1) [OF assms, of Mpul_marker] by simp
qed

lemma mpul_dir: "good_object object \<Longrightarrow> mpul_path object = dir_comps object @ [''.'' @ file_name object @ ''@mpul'']"
  using good_paths(3) by (simp add: prefix_suffix_by_marker_def)

text \<open>The multipart directory is apart from the paths of the object.\<close>

lemma mpul_outside:
  assumes "good_object object" "marker_ok (Scratch_marker h)" "plain n"
  shows "mpul_file object n \<notin> dirs_of object \<union> set (own_paths object (Scratch_marker h))"
    and "p \<in> dirs_of object \<union> set (own_paths object (Scratch_marker h)) \<Longrightarrow> \<not> prefix (mpul_path object) p"
proof -
  have own: "mpul_path object \<notin> set (own_paths object (Scratch_marker h))"
    using own_names_distinct [OF good_object_parts(3) [OF assms(1)], of h] assms(2)
    by (auto simp: own_paths_good [OF assms(1,2)] own_names_def mpul_dir [OF assms(1)] prefix_suffix_by_marker_def)
  have len: "length p \<le> length (mpul_path object)" if "p \<in> dirs_of object \<union> set (own_paths object (Scratch_marker h))" for p
    using that by (auto simp: own_paths_good [OF assms(1,2)] good_dirs_of [OF assms(1)] mpul_dir [OF assms(1)]
        dest: prefix_length_le)
  show np: "\<not> prefix (mpul_path object) p" if p: "p \<in> dirs_of object \<union> set (own_paths object (Scratch_marker h))" for p
  proof
    assume pr: "prefix (mpul_path object) p"
    then have "p = mpul_path object" using len [OF p] by (auto simp: prefix_def)
    moreover have "mpul_path object \<notin> dirs_of object"
      by (auto simp: good_dirs_of [OF assms(1)] mpul_dir [OF assms(1)] dest: prefix_length_le)
    ultimately show False using own p by blast
  qed
  have "prefix (mpul_path object) (mpul_file object n)" using good_mpul_file(1) [OF assms(1,3)] by simp
  then show "mpul_file object n \<notin> dirs_of object \<union> set (own_paths object (Scratch_marker h))" using np by blast
qed

lemma listed_outside:
  assumes "good_object object" "marker_ok (Scratch_marker h)"
  shows "listed_paths object ps \<inter> (dirs_of object \<union> set (own_paths object (Scratch_marker h))) = {}"
  using mpul_outside(1) [OF assms plain_part_name] by (auto simp: listed_paths_def)

lemma object_mpul_apart:
  assumes "good_object object" "marker_ok (Scratch_marker h)"
  shows "mpul_apart object {obj_path object, meta_path object}"
  using mpul_outside [OF assms, of "''info''"]
  by (auto simp: mpul_apart_def own_paths_def plain_def)

section \<open>A completion\<close>

lemma complete_build_done:
  assumes "complete_build b sfx object i mpulinfo checksum csumc md5v csum w = (Inr out, w')"
    "placing object sfx w" "own_ok object sfx" "build_calm BUILD_CONCAT object w"
    "file_content (disk w) (scratch_path object sfx) = Some (Data d)"
  shows "\<exists>f t. look (disk w') (obj_path object) = (Some (File f), Some \<lparr>ino_content = Data d, ino_mtime = t\<rparr>)
    \<and> mo_ETag out = make_object_etag_from_md5 md5v \<and> (csumc \<noteq> None \<longrightarrow> slice csumc = slice csum)
    \<and> cleanup_needed w' = False"
proof -
  let ?F = "frame {meta_scratch object sfx} {scratch_path object sfx}"
  obtain w1 stat where c: "compare_checksums b object (make_scratch_object_name object sfx) md5v csum None csumc w = (Inr (), w1)"
    and u: "build_object b sfx object [] 0 BUILD_CONCAT None (Metainfo mpulinfo) checksum md5v csum
        (no_conditions\<lparr>some_match := mi_IfMatch i, none_match := mi_IfNoneMatch i\<rparr>) w1 = (Inr stat, w')"
    and out: "out = \<lparr>mo_ETag = make_object_etag_from_md5 md5v, mo_checksums = mi_checksums i\<rparr>"
    using assms(1) by (auto simp: complete_build_def concatenate_object_def runs)
  have "?F w w1" by (rule keepsD, rule keeps_compare, rule c)
  then have g: "placing object sfx w1"
    "look (disk w1) (scratch_path object sfx) = look (disk w) (scratch_path object sfx)"
    using assms(2) by (auto simp: frame_def same_look_def)
  have "same_rest w w1" by (rule keepsD [OF rest.fetching(15) c])
  then have "build_calm BUILD_CONCAT object w1" using assms(4) by (simp add: build_calm_def same_rest_def)
  then obtain f x where x: "look (disk w1) (scratch_path object sfx) = (Some (File f), Some x)"
    "look (disk w') (obj_path object) = (Some (File f), Some x)" "cleanup_needed w' = False"
    using build_object_done [OF u g(1) assms(3)] by blast
  have "file_content (disk w1) (scratch_path object sfx) = Some (Data d)"
    using file_content_look [OF g(2)] assms(5) by simp
  then have "ino_content x = Data d"
    using x(1) by (auto simp: look_def file_content_def split: option.splits node.splits)
  then have "x = \<lparr>ino_content = Data d, ino_mtime = ino_mtime x\<rparr>" by (cases x) simp
  then show ?thesis using x out compare_done [OF c] by (intro exI [of _ f] exI [of _ "ino_mtime x"]) simp
qed

lemma catalog_done:
  assumes "fetch_mpul_catalog b object w = (Inr catalog, w')" "sound (disk w)"
  shows "disk w' = disk w \<and> same_rest w w'
    \<and> (\<exists>c. file_content (disk w) (mpul_file object ''list'') = Some c \<and> decode_catalog b c = Some catalog)"
  using assms fetch_json_done [of object _ "decode_catalog b" w catalog w']
  by (auto simp: fetch_mpul_catalog_def Let_def runs mpul_file_def split: option.splits)

lemma ongoing_done:
  assumes "check_mpul_ongoing b object u False w = (Inr info, w')" "sound (disk w)"
  shows "disk w' = disk w \<and> same_rest w w' \<and> u = Some (Upload_id info)
    \<and> (\<exists>c. file_content (disk w) (mpul_file object ''info'') = Some c \<and> decode_info b c = Some info)"
proof -
  obtain v where v: "u = Some v" using assms(1) by (cases u) (auto simp: check_mpul_ongoing_def runs)
  then have f: "fetch_mpul_info b object False w = (Inr info, w')" "Upload_id info = v"
    using assms(1) by (auto simp: check_mpul_ongoing_def Let_def runs split: if_splits)
  show ?thesis
    using f v assms(2) fetch_json_done [of object _ "decode_info b" w info w']
    by (auto simp: fetch_mpul_info_def Let_def runs mpul_file_def split: option.splits if_splits)
qed

lemma complete_object_done:
  assumes "complete_object b sfx i object w = (Inr out, w')" "begins object sfx w" "sfx = Scratch_marker h"
    "good_object object" "marker_ok sfx" "mi_Parts i = Some ps"
    "calm ({obj_path object, meta_path object} \<union> listed_paths object ps) (waits w)"
  shows "\<exists>ds f t k csumc catalog c. list_all2 (holds_part b object (disk w)) ps ds
    \<and> look (disk w') (obj_path object) = (Some (File f), Some \<lparr>ino_content = Data (concat ds), ino_mtime = t\<rparr>)
    \<and> mo_ETag out = make_object_etag_from_md5 (md5_sum b (concat ds))
    \<and> (mi_MpuObjectSize i = None \<or> mi_MpuObjectSize i = Some (- 1) \<or> mi_MpuObjectSize i = Some (int (length (concat ds))))
    \<and> decode_checksum_union object (mi_checksums i) = ok (k, csumc)
    \<and> (csumc \<noteq> None \<and> k \<noteq> [] \<longrightarrow> slice csumc = digest_sum b k (concat ds))
    \<and> check_part_order (''/'' @ object) ps = ok ()
    \<and> file_content (disk w) (mpul_file object ''list'') = Some c \<and> decode_catalog b c = Some catalog
    \<and> check_parts b object catalog ps = ok ()"
proof -
  have sd: "sound (disk w)" using assms(2) by (simp add: begins_def)
  define sz where "sz = (case mi_MpuObjectSize i of None \<Rightarrow> - 1 | Some n \<Rightarrow> n)"
  obtain info w1 catalog w2 k csumc md5v csum w3 w4 where o: "check_mpul_ongoing b object (mi_UploadId i) False w = (Inr info, w1)"
    and po: "check_part_order (''/'' @ object) ps = ok ()"
    and fc: "fetch_mpul_catalog b object w1 = (Inr catalog, w2)"
    and cp: "check_parts b object catalog ps = ok ()"
    and dc: "decode_checksum_union object (mi_checksums i) = ok (k, csumc)"
    and cs: "concatenate_scratch b sfx object info ps k sz w2 = (Inr (md5v, csum), w3)"
    and cb: "complete_build b sfx object i info k csumc md5v csum (w3\<lparr>cleanup_needed := True\<rparr>) = (Inr out, w4)"
    and cl: "\<exists>r. cleanup_scratch (make_scratch_object_name object sfx) w4 = (r, w')"
    using assms(1,6) unfolding complete_object_def Let_def sz_def
    by (auto simp: runs split: if_splits prod.splits)
  note od = ongoing_done [OF o sd]
  have s1: "sound (disk w1)" using od sd by simp
  note cd = catalog_done [OF fc s1]
  have w2: "disk w2 = disk w" "open_inodes w2 = open_inodes w" "waits w2 = waits w"
    using od cd by (simp_all add: same_rest_def)
  have b2: "begins object sfx w2" using assms(2) begins_cong w2 by blast
  note own = own_ok_good [OF assms(4), of h, folded assms(3), OF assms(5)]
  note apart = own_dirs_apart [OF assms(4), of h, folded assms(3), OF assms(5)]
  note out = listed_outside [OF assms(4), of h ps, folded assms(3), OF assms(5)]
  have "scratch_path object sfx \<notin> listed_paths object ps" "dirs_of object \<inter> listed_paths object ps = {}"
    "calm (listed_paths object ps) (waits w2)"
    using out assms(7) w2 by (auto simp: own_paths_def calm_def)
  then obtain ds hash where x: "list_all2 (holds_part b object (disk w2)) ps ds" "md5v = md5_sum b (concat ds)"
    "csum = run_digest hash (concat ds)" "k = [] \<longrightarrow> hash = None" "k \<noteq> [] \<longrightarrow> hash = Some (digest_sum b k)"
    "sz = - 1 \<or> int (length (concat ds)) = sz" "file_content (disk w3) (scratch_path object sfx) = Some (Data (concat ds))"
    "placing object sfx w3" "waits w3 = waits w2" "open_inodes w3 = open_inodes w2"
    using concatenate_scratch_done [OF cs b2 own apart] by blast
  have g: "placing object sfx (w3\<lparr>cleanup_needed := True\<rparr>)" using x(8) by (simp add: guard_def)
  have "build_calm BUILD_CONCAT object (w3\<lparr>cleanup_needed := True\<rparr>)"
    using object_mpul_apart [OF assms(4), of h, folded assms(3), OF assms(5)] assms(2,7) x(9,10) w2
    by (auto simp: build_calm_def calm_def begins_def)
  then obtain f t where r: "look (disk w4) (obj_path object) = (Some (File f), Some \<lparr>ino_content = Data (concat ds), ino_mtime = t\<rparr>)"
    "mo_ETag out = make_object_etag_from_md5 md5v" "csumc \<noteq> None \<longrightarrow> slice csumc = slice csum" "cleanup_needed w4 = False"
    using complete_build_done [OF cb g own] x(7) by auto
  have w': "w' = w4" using cl r(4) by (auto simp: cleanup_scratch_def seqE_def getE_def retE_def)
  have "mi_MpuObjectSize i = None \<or> mi_MpuObjectSize i = Some (- 1) \<or> mi_MpuObjectSize i = Some (int (length (concat ds)))"
    using x(6) by (auto simp: sz_def split: option.splits)
  note size_ok = this
  have sum_ok: "csumc \<noteq> None \<and> k \<noteq> [] \<longrightarrow> slice csumc = digest_sum b k (concat ds)"
    using r(3) x(3,5) by (simp add: run_digest_def slice_def)
  obtain c where c: "file_content (disk w) (mpul_file object ''list'') = Some c" "decode_catalog b c = Some catalog"
    using cd od by auto
  show ?thesis
    unfolding w'
    by ((rule exI)+, intro conjI, rule x(1) [unfolded w2(1)], rule r(1), rule r(2) [unfolded x(2)], rule size_ok,
        rule dc, rule sum_ok, rule po, rule c(1), rule c(2), rule cp)
qed

section \<open>What a completion has checked\<close>

lemma parts_sorted_ok:
  assumes "parts_sorted False ps = (False, True)"
    "\<forall>p \<in> set ps. \<exists>n. PartNumber p = Some n \<and> 0 < n \<and> n < 2 ^ 31"
  shows "sorted_wrt (\<lambda>p q. the (PartNumber q) \<le> the (PartNumber p)) ps"
  using assms
proof (induction ps)
  case (Cons a qs)
  show ?case
  proof (cases qs)
    case (Cons c ps)
    obtain m n where mn: "PartNumber a = Some m" "0 < m" "m < 2 ^ 31" "PartNumber c = Some n" "0 < n" "n < 2 ^ 31"
      using Cons.prems(2) Cons by auto
    have i: "int32 (m - n) = m - n" using mn by (intro int32_id) auto
    then have le: "n \<le> m" and rest: "parts_sorted False qs = (False, True)"
      using Cons.prems(1) Cons mn(1,4) by (auto split: if_splits)
    have "sorted_wrt (\<lambda>p q. the (PartNumber q) \<le> the (PartNumber p)) qs"
      using Cons.IH rest Cons.prems(2) by simp
    then show ?thesis using le mn(1,4) Cons by fastforce
  qed simp
qed simp

lemma part_order_sorted:
  assumes "check_part_order location ps = ok ()"
    "\<forall>p \<in> set ps. \<exists>n. PartNumber p = Some n \<and> 0 < n \<and> n < 2 ^ 31"
  shows "sorted (map (\<lambda>p. the (PartNumber p)) ps)"
proof -
  have "parts_sorted False (rev ps) = (False, True)"
    using assms(1) by (auto simp: check_part_order_def Let_def split: prod.splits if_splits)
  then have "sorted_wrt (\<lambda>p q. the (PartNumber q) \<le> the (PartNumber p)) (rev ps)"
    using assms(2) by (intro parts_sorted_ok) auto
  then show ?thesis by (simp add: sorted_wrt_rev sorted_wrt_map)
qed

text \<open>What a part of the request has to be, against its entry of the catalog.\<close>

definition part_matches :: "bbs \<Rightarrow> string \<Rightarrow> mpul_catalog \<Rightarrow> completed_part \<Rightarrow> bool" where
  "part_matches b object catalog p \<longleftrightarrow>
     (case PartNumber p of
        None \<Rightarrow> False
      | Some n \<Rightarrow>
          1 \<le> n \<and> n \<le> int (length catalog)
          \<and> (let e = catalog ! nat (n - 1) in
             Part_ETag e \<noteq> [] \<and> fix_etag_quoting b (cp_ETag p) = Some (Part_ETag e)
             \<and> (case decode_checksum_union object (part_checksums p) of
                  Inr (k, Some c) \<Rightarrow>
                    k = Part_checksum e \<and> c = slice (or_zero None (decode_base64 object (Some (Part_csum e))))
                | _ \<Rightarrow> True)))"

lemma check_part_ok:
  assumes "check_part b object catalog p = ok ()" "\<And>n. PartNumber p = Some n \<Longrightarrow> - (2 ^ 31) < n \<and> n < 2 ^ 31"
  shows "part_matches b object catalog p"
proof -
  obtain n etag where n: "PartNumber p = Some n" "fix_etag_quoting b (cp_ETag p) = Some etag"
    using assms(1) by (auto simp: check_part_def Let_def split: option.splits)
  have k: "int32 (n - 1) = n - 1" using assms(2) [OF n(1)] by (intro int32_id) auto
  obtain k3 c3 where c: "or_zero ([], None) (decode_checksum_union object (part_checksums p)) = (k3, c3)"
    by (cases "or_zero ([], None) (decode_checksum_union object (part_checksums p))")
  show ?thesis
    using assms(1) n k c
    by (auto simp: check_part_def part_matches_def Let_def or_zero_def slice_def split: if_splits sum.splits option.splits)
qed

lemma check_parts_ok:
  "check_parts b object catalog ps = ok () \<longleftrightarrow> (\<forall>p \<in> set ps. check_part b object catalog p = ok ())"
  by (induction ps) (auto split: sum.splits)

section \<open>The action of a completion\<close>

definition complete_name :: "complete_input \<Rightarrow> string" where
  "complete_name i = path_join [the (mi_Bucket i), the (mi_Key i)]"

lemma run_complete:
  assumes "CompleteMultipartUpload b sfx i w = (Inr out, w')" "mi_Key i = Some key" "good_key key"
    "begins (complete_name i) sfx w"
  shows "\<exists>v. complete_object b sfx i (complete_name i) v = (Inr out, w') \<and> disk v = disk w \<and> waits v = waits w
    \<and> begins (complete_name i) sfx v \<and> good_object (complete_name i)"
proof -
  obtain object v where s: "check_usual_object_setup b (mi_Bucket i) (mi_Key i) w = (Inr object, v)"
    and c: "complete_object b sfx i object v = (Inr out, w')"
    using assms(1) by (auto simp: CompleteMultipartUpload_def runs)
  obtain bk where bk: "mi_Bucket i = Some bk" "check_bucket_naming bk" "object = path_join [bk, key]"
    "disk v = disk w" "waits v = waits w" "open_inodes v = open_inodes w"
    using run_object_setup [OF s] assms(2) by auto
  then have "object = complete_name i" "good_object object"
    using setup_object [OF bk(2) assms(3)] assms(2) by (simp_all add: complete_name_def)
  then show ?thesis using c bk assms(4) begins_cong [of v w] by auto
qed

text \<open>
  Claim C10.  A completion that is answered with success has built the object from its parts: the
  path of the object names a file that holds the contents of the listed part files, joined in the
  order of the request, and the answer is the MD5 of all of it as the ETag.  The other requests
  leave the object and the parts alone while it waits for the monitor.
\<close>

theorem complete_multipart_stores:
  assumes "CompleteMultipartUpload b (Scratch_marker h) i w = (Inr out, w')" "marker_ok (Scratch_marker h)"
    "mi_Key i = Some key" "good_key key" "mi_Parts i = Some ps" "begins (complete_name i) (Scratch_marker h) w"
    "calm ({obj_path (complete_name i), meta_path (complete_name i)} \<union> listed_paths (complete_name i) ps) (waits w)"
  shows "\<exists>ds f t. list_all2 (holds_part b (complete_name i) (disk w)) ps ds
    \<and> look (disk w') (obj_path (complete_name i)) = (Some (File f), Some \<lparr>ino_content = Data (concat ds), ino_mtime = t\<rparr>)
    \<and> mo_ETag out = make_object_etag_from_md5 (md5_sum b (concat ds))"
proof -
  obtain v where v: "complete_object b (Scratch_marker h) i (complete_name i) v = (Inr out, w')"
    "disk v = disk w" "waits v = waits w" "begins (complete_name i) (Scratch_marker h) v" "good_object (complete_name i)"
    using run_complete [OF assms(1,3,4,6)] by blast
  show ?thesis
    using complete_object_done [OF v(1,4) refl v(5) assms(2,5)] assms(7) unfolding v(2,3) by blast
qed

text \<open>
  Claim C11.  A completion that is answered with success was checked: the part numbers of the
  request are in order and each is in the catalog of the upload, with the ETag the request gives
  for it and, where the request gives a checksum of the part, with that checksum; the size the
  request announces is that of the joined data, and so is the checksum it gives of the whole.
\<close>

theorem complete_multipart_verifies:
  assumes "CompleteMultipartUpload b (Scratch_marker h) i w = (Inr out, w')" "marker_ok (Scratch_marker h)"
    "mi_Key i = Some key" "good_key key" "mi_Parts i = Some ps" "begins (complete_name i) (Scratch_marker h) w"
    "calm ({obj_path (complete_name i), meta_path (complete_name i)} \<union> listed_paths (complete_name i) ps) (waits w)"
    "\<forall>p \<in> set ps. \<forall>n. PartNumber p = Some n \<longrightarrow> - (2 ^ 31) < n \<and> n < 2 ^ 31"
  shows "\<exists>c catalog ds k csum. file_content (disk w) (mpul_file (complete_name i) ''list'') = Some c
    \<and> decode_catalog b c = Some catalog
    \<and> sorted (map (\<lambda>p. the (PartNumber p)) ps)
    \<and> list_all (part_matches b (complete_name i) catalog) ps
    \<and> list_all2 (holds_part b (complete_name i) (disk w)) ps ds
    \<and> (mi_MpuObjectSize i = None \<or> mi_MpuObjectSize i = Some (- 1) \<or> mi_MpuObjectSize i = Some (int (length (concat ds))))
    \<and> decode_checksum_union (complete_name i) (mi_checksums i) = ok (k, csum)
    \<and> (csum \<noteq> None \<and> k \<noteq> [] \<longrightarrow> slice csum = digest_sum b k (concat ds))"
proof -
  obtain v where v: "complete_object b (Scratch_marker h) i (complete_name i) v = (Inr out, w')"
    "disk v = disk w" "waits v = waits w" "begins (complete_name i) (Scratch_marker h) v" "good_object (complete_name i)"
    using run_complete [OF assms(1,3,4,6)] by blast
  obtain ds k csum catalog c where x: "list_all2 (holds_part b (complete_name i) (disk w)) ps ds"
    "mi_MpuObjectSize i = None \<or> mi_MpuObjectSize i = Some (- 1) \<or> mi_MpuObjectSize i = Some (int (length (concat ds)))"
    "decode_checksum_union (complete_name i) (mi_checksums i) = ok (k, csum)"
    "csum \<noteq> None \<and> k \<noteq> [] \<longrightarrow> slice csum = digest_sum b k (concat ds)"
    "check_part_order (''/'' @ complete_name i) ps = ok ()"
    "file_content (disk w) (mpul_file (complete_name i) ''list'') = Some c" "decode_catalog b c = Some catalog"
    "check_parts b (complete_name i) catalog ps = ok ()"
    using complete_object_done [OF v(1,4) refl v(5) assms(2,5)] assms(7) unfolding v(2,3) by blast
  have m: "part_matches b (complete_name i) catalog p" if "p \<in> set ps" for p
    by (rule check_part_ok) (use that x(8) assms(8) check_parts_ok in auto)
  have "\<exists>n. PartNumber p = Some n \<and> 0 < n \<and> n < 2 ^ 31" if "p \<in> set ps" for p
    using m [OF that] assms(8) that by (auto simp: part_matches_def split: option.splits)
  then have "sorted (map (\<lambda>p. the (PartNumber p)) ps)" by (intro part_order_sorted [OF x(5)]) blast
  then show ?thesis using x m by (auto simp: list_all_iff)
qed

section \<open>An upload in two parts, for the witnesses\<close>

definition example_info :: mpul_info where
  "example_info =
     \<lparr>Upload_id = ''u1'', Initiate_time = 5, Checksum_type = ''FULL_OBJECT'', Mpul_checksum = ''CRC32'',
      Metainfo = None, Mpul_format = Bbs_metafile_format\<rparr>"

definition example_part :: "string \<Rightarrow> mpul_part" where
  "example_part etag = empty_part\<lparr>Part_ETag := [dquote] @ etag @ [dquote], Part_size := 3\<rparr>"

definition mpul_fs :: fsys where
  "mpul_fs =
     \<lparr>tree = [([''bkt''], Dir), ([''bkt'', ''.x@mpul''], Dir), ([''bkt'', ''.x@mpul'', ''info''], File 0),
        ([''bkt'', ''.x@mpul'', ''list''], File 1), ([''bkt'', ''.x@mpul'', ''part00001''], File 2),
        ([''bkt'', ''.x@mpul'', ''part00002''], File 3)],
      inodes = [(0, \<lparr>ino_content = Json (Info example_info), ino_mtime = 5\<rparr>),
        (1, \<lparr>ino_content = Json (Catalog [example_part ''a'', example_part ''b'']), ino_mtime = 8\<rparr>),
        (2, \<lparr>ino_content = Data ''abc'', ino_mtime = 6\<rparr>), (3, \<lparr>ino_content = Data ''def'', ino_mtime = 7\<rparr>)],
      next_ino = 4, now = 1000\<rparr>"

definition mpul_world :: world where
  "mpul_world = example_world\<lparr>disk := mpul_fs\<rparr>"

definition example_completed :: "int \<Rightarrow> string \<Rightarrow> completed_part" where
  "example_completed n etag =
     \<lparr>PartNumber = Some n, cp_ETag = Some etag, cp_CRC32 = None, cp_CRC32C = None, cp_CRC64NVME = None,
      cp_SHA1 = None, cp_SHA256 = None\<rparr>"

definition example_complete :: "completed_part list \<Rightarrow> complete_input" where
  "example_complete ps =
     \<lparr>mi_Bucket = Some ''bkt'', mi_Key = Some ''x'', mi_UploadId = Some ''u1'', mi_checksums = no_checksums,
      mi_ExpectedBucketOwner = None, mi_IfMatch = None, mi_IfNoneMatch = None, mi_MpuObjectSize = Some 6,
      mi_Parts = Some ps\<rparr>"

abbreviation example_parts :: "completed_part list" where
  "example_parts \<equiv> [example_completed 1 ''a'', example_completed 2 ''b'']"

lemma mpul_world_simps [simp]:
  "disk mpul_world = mpul_fs" "waits mpul_world = []" "open_inodes mpul_world = []" "faults mpul_world = []"
  by (simp_all add: mpul_world_def example_world_def)

lemma mpul_begins: "begins ''bkt/x'' example_sfx mpul_world"
  unfolding begins_def
  by (intro conjI) (simp, code_simp, simp, simp, code_simp, simp, code_simp, simp)

lemma example_complete_simps:
  "complete_name (example_complete ps) = ''bkt/x''" "mi_Key (example_complete ps) = Some ''x''"
  "mi_Parts (example_complete ps) = Some ps"
  by (simp_all add: complete_name_def example_complete_def good_key_x)

lemma example_complete_run:
  "\<exists>out w'. CompleteMultipartUpload example_bbs example_sfx (example_complete example_parts) mpul_world = (Inr out, w')"
proof -
  have "case fst (CompleteMultipartUpload example_bbs example_sfx (example_complete example_parts) mpul_world) of
      Inr out \<Rightarrow> True | Inl _ \<Rightarrow> False" by code_simp
  then show ?thesis
    by (cases "CompleteMultipartUpload example_bbs example_sfx (example_complete example_parts) mpul_world")
       (auto split: sum.splits)
qed

lemma example_holds:
  "list_all2 (holds_part example_bbs ''bkt/x'' mpul_fs) example_parts ds \<Longrightarrow> ds = [''abc'', ''def'']"
proof -
  have c: "file_content mpul_fs (part_path ''bkt/x'' 1) = Some (Data ''abc'')"
    "file_content mpul_fs (part_path ''bkt/x'' 2) = Some (Data ''def'')"
    by code_simp+
  assume "list_all2 (holds_part example_bbs ''bkt/x'' mpul_fs) example_parts ds"
  then show ?thesis using c
    by (auto simp: list_all2_Cons1 holds_part_def example_completed_def content_bytes_def)
qed

theorem complete_multipart_stores_witness:
  "\<exists>out w' f t. CompleteMultipartUpload example_bbs example_sfx (example_complete example_parts) mpul_world = (Inr out, w')
     \<and> look (disk w') (obj_path ''bkt/x'') = (Some (File f), Some \<lparr>ino_content = Data ''abcdef'', ino_mtime = t\<rparr>)"
proof -
  obtain out w' where r: "CompleteMultipartUpload example_bbs example_sfx (example_complete example_parts) mpul_world = (Inr out, w')"
    using example_complete_run by blast
  have "\<exists>ds f t. list_all2 (holds_part example_bbs ''bkt/x'' mpul_fs) example_parts ds
    \<and> look (disk w') (obj_path ''bkt/x'') = (Some (File f), Some \<lparr>ino_content = Data (concat ds), ino_mtime = t\<rparr>)"
    using complete_multipart_stores [OF r example_sfx_ok example_complete_simps(2) good_key_x(1) example_complete_simps(3)]
      mpul_begins by (fastforce simp: example_complete_simps(1))
  then show ?thesis using r example_holds by fastforce
qed

theorem complete_multipart_verifies_witness:
  "\<exists>out w' c catalog. CompleteMultipartUpload example_bbs example_sfx (example_complete example_parts) mpul_world = (Inr out, w')
     \<and> file_content mpul_fs (mpul_file ''bkt/x'' ''list'') = Some c \<and> decode_catalog example_bbs c = Some catalog
     \<and> list_all (part_matches example_bbs ''bkt/x'' catalog) example_parts"
proof -
  obtain out w' where r: "CompleteMultipartUpload example_bbs example_sfx (example_complete example_parts) mpul_world = (Inr out, w')"
    using example_complete_run by blast
  have n: "\<forall>p \<in> set example_parts. \<forall>n. PartNumber p = Some n \<longrightarrow> - (2 ^ 31) < n \<and> n < 2 ^ 31"
    by (simp add: example_completed_def)
  show ?thesis
    using complete_multipart_verifies [OF r example_sfx_ok example_complete_simps(2) good_key_x(1) example_complete_simps(3) _ _ n]
      mpul_begins calm_Nil r unfolding example_complete_simps(1) mpul_world_simps by blast
qed

section \<open>The answer of a list of parts\<close>

lemma slice_parts_ok:
  assumes "slice_parts k n catalog = ok (ps, m)"
  shows "0 \<le> k \<and> ps = take (length ps) (drop (nat k) catalog)
    \<and> (n = - 1 \<longrightarrow> m = - 1 \<and> ps = drop (nat k) catalog) \<and> (m = - 1 \<longrightarrow> n = - 1)"
proof -
  define l where "l = int (length catalog)"
  define e where "e = (if n = - 1 then l else min (int32 (k + n)) l)"
  have se: "0 \<le> min k l" "min k l \<le> e" and ps: "ps = take (nat (e - min k l)) (drop (nat (min k l)) catalog)"
    and m: "m = (if n = - 1 then - 1 else e)"
    using assms by (auto simp: slice_parts_def Let_def l_def e_def split: if_splits)
  have k: "0 \<le> k" using se by (simp add: l_def)
  have d: "drop (nat (min k l)) catalog = drop (nat k) catalog"
    by (cases "k \<le> l") (auto simp: l_def min_def)
  have "n = - 1 \<longrightarrow> ps = drop (nat k) catalog"
    unfolding ps d using se k by (auto simp: e_def l_def min_def nat_le_iff le_nat_iff)
  moreover have "take (length (take x xs)) xs = take x xs" for x and xs :: mpul_catalog
    by (cases "x \<le> length xs") auto
  then have "ps = take (length ps) (drop (nat k) catalog)" using ps d by metis
  moreover have "(n = - 1 \<longrightarrow> m = - 1) \<and> (m = - 1 \<longrightarrow> n = - 1)" using m se(1,2) by (simp split: if_splits)
  ultimately show ?thesis using k by blast
qed

lemma sound_setup:
  assumes "check_usual_object_setup b bucket key w = (Inr object, v)"
  shows "disk v = disk w"
  using run_object_setup [OF assms] by blast

text \<open>
  A list of parts shows the catalog of the upload from the marker on, the whole rest when
  no count is given; the marker is not negative.  The numbers in the answer count from 1 whatever
  the marker is, and a list with a count is always marked as truncated.
\<close>

theorem list_parts_answer:
  assumes "ListParts b i w = (Inr out, w')" "sound (disk w)"
  shows "\<exists>bk key k c catalog. lq_Bucket i = Some bk \<and> lq_Key i = Some key \<and> parse_marker (lq_PartNumberMarker i) = ok k \<and> 0 \<le> k
    \<and> file_content (disk w) (mpul_file (path_join [bk, key]) ''list'') = Some c \<and> decode_catalog b c = Some catalog
    \<and> (\<forall>j < length (lo_Parts out). nat k + j < length catalog
         \<and> pt_PartNumber (lo_Parts out ! j) = int j + 1
         \<and> pt_ETag (lo_Parts out ! j) = Part_ETag (catalog ! (nat k + j))
         \<and> pt_Size (lo_Parts out ! j) = Part_size (catalog ! (nat k + j)))
    \<and> (lq_MaxParts i = None \<longrightarrow> length (lo_Parts out) = length catalog - nat k \<and> lo_IsTruncated out = None)
    \<and> (\<forall>n. lq_MaxParts i = Some n \<and> n \<noteq> - 1 \<longrightarrow> lo_IsTruncated out = Some True)"
proof -
  define n where "n = (case lq_MaxParts i of None \<Rightarrow> - 1 | Some n \<Rightarrow> n)"
  obtain object v info w1 k catalog w2 ps m where s: "check_usual_object_setup b (lq_Bucket i) (lq_Key i) w = (Inr object, v)"
    and o: "check_mpul_ongoing b object (lq_UploadId i) False v = (Inr info, w1)"
    and k: "parse_marker (lq_PartNumberMarker i) = ok k"
    and c: "fetch_mpul_catalog b object w1 = (Inr catalog, w2)"
    and sl: "slice_parts k n catalog = ok (ps, m)"
    and out: "out = \<lparr>lo_Parts = map (\<lambda>(k, e). list_part_of (Mpul_checksum info) k e) (enumerate 0 ps),
           lo_IsTruncated = (if m \<noteq> - 1 then Some True else None),
           lo_NextPartNumberMarker = (if m \<noteq> - 1 then Some (print_int m) else None),
           lo_ChecksumAlgorithm = Mpul_checksum info\<rparr>"
    using assms(1) unfolding ListParts_def Let_def n_def [symmetric]
    by (auto simp: runs split: prod.splits)
  obtain bk key where bk: "lq_Bucket i = Some bk" "lq_Key i = Some key" "object = path_join [bk, key]" "disk v = disk w"
    using run_object_setup [OF s] by blast
  note od = ongoing_done [OF o, unfolded bk(4), OF assms(2)]
  have s1: "sound (disk w1)" using od assms(2) by simp
  obtain cc where cc: "file_content (disk w) (mpul_file object ''list'') = Some cc" "decode_catalog b cc = Some catalog"
    using catalog_done [OF c s1] od by auto
  note sp = slice_parts_ok [OF sl]
  then have k0: "0 \<le> k" and ps: "ps = take (length ps) (drop (nat k) catalog)" by blast+
  have len: "length ps \<le> length catalog - nat k" using arg_cong [OF ps, of length] by simp
  have e: "nat k + j < length catalog \<and> ps ! j = catalog ! (nat k + j)" if "j < length ps" for j
  proof -
    have l: "nat k + j < length catalog" using len that by linarith
    then have "take (length ps) (drop (nat k) catalog) ! j = catalog ! (nat k + j)" using that by simp
    then show ?thesis using l ps by simp
  qed
  have j: "nat k + j < length catalog \<and> pt_PartNumber (lo_Parts out ! j) = int j + 1
         \<and> pt_ETag (lo_Parts out ! j) = Part_ETag (catalog ! (nat k + j))
         \<and> pt_Size (lo_Parts out ! j) = Part_size (catalog ! (nat k + j))" if "j < length (lo_Parts out)" for j
    using that e [of j] by (simp add: out list_part_of_def nth_enumerate_eq)
  have t: "lq_MaxParts i = None \<longrightarrow> length (lo_Parts out) = length catalog - nat k \<and> lo_IsTruncated out = None"
    using sp by (auto simp: n_def out)
  have u: "\<forall>x. lq_MaxParts i = Some x \<and> x \<noteq> - 1 \<longrightarrow> lo_IsTruncated out = Some True"
    using sp by (auto simp: n_def out)
  show ?thesis
    by ((rule exI)+, intro conjI, rule bk(1), rule bk(2), rule k, rule k0, rule cc(1) [unfolded bk(3)], rule cc(2),
        use j in blast, rule t, rule u)
qed

definition example_list_parts :: "string option \<Rightarrow> int option \<Rightarrow> list_parts_input" where
  "example_list_parts marker n =
     \<lparr>lq_Bucket = Some ''bkt'', lq_Key = Some ''x'', lq_UploadId = Some ''u1'', lq_ExpectedBucketOwner = None,
      lq_MaxParts = n, lq_PartNumberMarker = marker\<rparr>"

text \<open>A code equation that compares a number that is read on integers.\<close>

lemma parse_int_code [code]:
  "parse_int base bits s =
     (let (neg, body) =
        (case s of
           [] \<Rightarrow> (False, [])
         | c # cs \<Rightarrow> if c = CHR ''-'' then (True, cs)
                    else if c = CHR ''+'' then (False, cs) else (False, s))
      in if body = [] then None
         else case digits_val base 0 body of
                None \<Rightarrow> None
              | Some n \<Rightarrow>
                  if neg then (if int n \<le> 2 ^ (bits - 1) then Some (- int n) else None)
                  else if int n < 2 ^ (bits - 1) then Some (int n) else None)"
proof -
  have "int n \<le> 2 ^ (bits - 1) \<longleftrightarrow> n \<le> 2 ^ (bits - 1)" "int n < 2 ^ (bits - 1) \<longleftrightarrow> n < 2 ^ (bits - 1)" for n
    by (metis of_nat_le_iff of_nat_numeral of_nat_power) (metis of_nat_less_iff of_nat_numeral of_nat_power)
  then show ?thesis unfolding parse_int_def by presburger
qed

text \<open>The second part, listed from the marker 1, is shown as part 1.\<close>

theorem list_parts_answer_witness:
  "\<exists>out w' k. ListParts example_bbs (example_list_parts (Some ''1'') (Some 1)) mpul_world = (Inr out, w')
     \<and> map pt_PartNumber (lo_Parts out) = [1] \<and> map pt_ETag (lo_Parts out) = [[dquote] @ ''b'' @ [dquote]]
     \<and> lo_IsTruncated out = Some True \<and> parse_marker (Some ''1'') = ok k"
proof -
  define l where "l = ListParts example_bbs (example_list_parts (Some ''1'') (Some 1)) mpul_world"
  have "case fst (ListParts example_bbs (example_list_parts (Some ''1'') (Some 1)) mpul_world) of
      Inr out \<Rightarrow> map pt_PartNumber (lo_Parts out) = [1]
        \<and> map pt_ETag (lo_Parts out) = [[dquote] @ ''b'' @ [dquote]] | _ \<Rightarrow> False" by code_simp
  then have "\<exists>out. fst l = Inr out \<and> map pt_PartNumber (lo_Parts out) = [1]
      \<and> map pt_ETag (lo_Parts out) = [[dquote] @ ''b'' @ [dquote]]"
    unfolding l_def [symmetric] by (cases "fst l") auto
  then obtain out where out: "fst l = Inr out" "map pt_PartNumber (lo_Parts out) = [1]"
    "map pt_ETag (lo_Parts out) = [[dquote] @ ''b'' @ [dquote]]" by (elim exE conjE) (rule that)
  then have l: "ListParts example_bbs (example_list_parts (Some ''1'') (Some 1)) mpul_world = (Inr out, snd l)"
    unfolding l_def [symmetric] by (cases l) simp
  have "sound (disk mpul_world)" using mpul_begins by (simp add: begins_def)
  note u = list_parts_answer [OF l this]
  have "lq_MaxParts (example_list_parts (Some ''1'') (Some 1)) = Some 1"
    "lq_PartNumberMarker (example_list_parts (Some ''1'') (Some 1)) = Some ''1''"
    by (simp_all add: example_list_parts_def)
  note s = this
  obtain k where k: "parse_marker (Some ''1'') = ok k" using u unfolding s by (elim exE conjE) (rule that)
  have t: "lo_IsTruncated out = Some True"
  proof -
    have "\<forall>n. Some (1 :: int) = Some n \<and> n \<noteq> - 1 \<longrightarrow> lo_IsTruncated out = Some True"
      using u unfolding s by (elim exE conjE)
    then show ?thesis by simp
  qed
  show ?thesis
    by (rule exI [of _ out], rule exI [of _ "snd l"], rule exI [of _ k], intro conjI, rule l, rule out(2), rule out(3),
        rule t, rule k)
qed

end
