(* ===== verification/Copy_object.thy ===== *)
theory Copy_object
  imports Multipart
begin

text \<open>
  CopyObject and UploadPartCopy of v1/server/api-action.go: a copy of a whole object is a hard
  link to the file of the source, the copy of a range is a new file.
\<close>

section \<open>The actions\<close>

record copy_input =
  ki_Bucket :: "string option"
  ki_Key :: "string option"
  ki_CopySource :: "string option"
  ki_MetadataDirective :: string
  ki_TaggingDirective :: string
  ki_Metadata :: "(string \<times> string) list option"
  ki_Tagging :: "string option"
  ki_content :: meta_info
  ki_ChecksumAlgorithm :: string
  ki_ExpectedBucketOwner :: "string option"
  ki_conditions :: copy_conditions

record copy_output =
  ko_ETag :: string
  ko_LastModified :: time
  ko_checksums :: checksum_set

text \<open>
  The metainfo of the copy: a directive that is neither of the two takes nothing, and the content
  headers are those of the request in any case.
\<close>

definition copy_metainfo :: "bbs \<Rightarrow> string \<Rightarrow> copy_input \<Rightarrow> meta_info option \<Rightarrow> meta_info option result" where
  "copy_metainfo b object i source_metainfo =
     (case parse_tags b object (ki_Tagging i) of
        Inl e \<Rightarrow> Inl e
      | Inr tagging \<Rightarrow>
          (let headers = (if ki_MetadataDirective i = ''COPY''
                          then (case source_metainfo of Some m \<Rightarrow> Headers m | None \<Rightarrow> None)
                          else if ki_MetadataDirective i = ''REPLACE'' then ki_Metadata i else None);
               tags = (if ki_TaggingDirective i = ''COPY''
                       then (case source_metainfo of Some m \<Rightarrow> Tags m | None \<Rightarrow> None)
                       else if ki_TaggingDirective i = ''REPLACE'' then tagging else None)
           in ok (merge_metainfo_with_content_headers
                (Some (empty_meta\<lparr>Headers := headers, Tags := tags\<rparr>)) (ki_content i))))"

definition copy_checksum :: "string \<Rightarrow> meta_info option \<Rightarrow> string" where
  "copy_checksum checksum source_metainfo =
     (case source_metainfo of
        Some m \<Rightarrow> if checksum = [] then Checksum m else checksum
      | None \<Rightarrow> checksum)"

text \<open>The source of a copy with its status, its ETag and its metainfo.\<close>

definition copy_source_status ::
  "bbs \<Rightarrow> string \<Rightarrow> string option \<Rightarrow> (string \<times> string \<times> file_info \<times> string \<times> meta_info option) act" where
  "copy_source_status b object copysource =
     seqE (liftE (lookat_copy_source b object copysource)) (\<lambda>source.
     seqE (check_object_exists b source) (\<lambda>(entity, stat).
     seqE (fetch_object_etag b source entity) (\<lambda>(etag, metainfo).
     retE (source, entity, stat, etag, metainfo))))"

text \<open>The scratch file of the copy and its place: the same for an object and for a part.\<close>

definition copy_build ::
  "bbs \<Rightarrow> marker \<Rightarrow> string \<Rightarrow> string \<Rightarrow> int \<Rightarrow> string \<Rightarrow> string \<Rightarrow> (int \<times> int) option \<Rightarrow> meta_info option \<Rightarrow> string
   \<Rightarrow> copy_output act" where
  "copy_build b sfx object upload_id part source source_entity extent metainfo checksum =
     seqE (copy_scratch b sfx object source extent checksum) (\<lambda>(md5v, csum).
     seqE (modE (\<lambda>w. w\<lparr>cleanup_needed := True\<rparr>)) (\<lambda>_.
     deferE (cleanup_scratch (make_scratch_object_name object sfx))
       (seqE (copy_object b sfx object upload_id part source source_entity extent metainfo checksum md5v csum) (\<lambda>stat.
        retE \<lparr>ko_ETag = make_object_etag_from_md5 md5v, ko_LastModified = fi_mtime stat,
              ko_checksums = fill_checksum_union checksum csum\<rparr>))))"

definition copy_whole :: "bbs \<Rightarrow> marker \<Rightarrow> copy_input \<Rightarrow> string \<Rightarrow> copy_output act" where
  "copy_whole b sfx i object =
     seqE (liftE (check_options_unsupported b
            (no_options\<lparr>ExpectedBucketOwner := ki_ExpectedBucketOwner i\<rparr>))) (\<lambda>_.
     seqE (copy_source_status b object (ki_CopySource i)) (\<lambda>(source, entity, stat, etag, source_metainfo).
     seqE (liftE (copy_metainfo b object i source_metainfo)) (\<lambda>metainfo.
     let checksum = copy_checksum (ki_ChecksumAlgorithm i) source_metainfo in
     seqE (liftE (check_conditions etag (fi_mtime stat) (fi_size stat) Cond_read
       (no_conditions\<lparr>some_match := some_match (ki_conditions i), none_match := none_match (ki_conditions i),
          modified_after := modified_after (ki_conditions i),
          modified_before := modified_before (ki_conditions i)\<rparr>))) (\<lambda>_.
     copy_build b sfx object [] 0 source entity None metainfo checksum))))"

definition CopyObject :: "bbs \<Rightarrow> marker \<Rightarrow> copy_input \<Rightarrow> copy_output act" where
  "CopyObject b sfx i =
     seqE (check_usual_object_setup b (ki_Bucket i) (ki_Key i)) (copy_whole b sfx i)"

record part_copy_input =
  qi_Bucket :: "string option"
  qi_Key :: "string option"
  qi_CopySource :: "string option"
  qi_UploadId :: "string option"
  qi_PartNumber :: "int option"
  qi_CopySourceRange :: "string option"
  qi_ExpectedBucketOwner :: "string option"
  qi_conditions :: copy_conditions

definition copy_part :: "bbs \<Rightarrow> marker \<Rightarrow> part_copy_input \<Rightarrow> string \<Rightarrow> copy_output act" where
  "copy_part b sfx i object =
     seqE (liftE (check_options_unsupported b
            (no_options\<lparr>ExpectedBucketOwner := qi_ExpectedBucketOwner i\<rparr>))) (\<lambda>_.
     seqE (check_mpul_ongoing b object (qi_UploadId i) False) (\<lambda>mpulinfo.
     seqE (liftE (lookat_part_number object (qi_PartNumber i) True)) (\<lambda>part.
     seqE (copy_source_status b object (qi_CopySource i)) (\<lambda>(source, entity, stat, etag, _).
     seqE (liftE (check_conditions etag (fi_mtime stat) (fi_size stat) Cond_read
       (no_conditions\<lparr>some_match := some_match (qi_conditions i), none_match := none_match (qi_conditions i),
          modified_after := modified_after (qi_conditions i),
          modified_before := modified_before (qi_conditions i)\<rparr>))) (\<lambda>_.
     seqE (liftE (scan_range b object (qi_CopySourceRange i) (fi_size stat))) (\<lambda>extent.
     copy_build b sfx object (Upload_id mpulinfo) part source entity extent None (Mpul_checksum mpulinfo)))))))"

definition UploadPartCopy :: "bbs \<Rightarrow> marker \<Rightarrow> part_copy_input \<Rightarrow> copy_output act" where
  "UploadPartCopy b sfx i =
     seqE (check_usual_object_setup b (qi_Bucket i) (qi_Key i)) (copy_part b sfx i)"

section \<open>The link a copy starts from\<close>

lemma link_done:
  assumes "os_Link old new w = (Inr u, w')" "sound (disk w)" "comps new \<noteq> []"
  shows "look (disk w') (comps new) = look (disk w) (comps old) \<and> sound (disk w') \<and> same_rest w w'
    \<and> (\<forall>x. x \<noteq> comps new \<longrightarrow> look (disk w') x = look (disk w) x)"
proof -
  have d: "fs_link old new (disk w) = Inr (u, disk w')" "same_rest w w'"
    using syscall_done [OF assms(1) [unfolded os_Link_def]] by (simp_all add: same_rest_def)
  obtain p where p: "resolve (disk w) False old = Inr p"
    using d(1) by (auto simp: fs_link_def split: sum.splits)
  then have po: "p = comps old" using resolve_sound [OF assms(2)] by blast
  obtain n where n: "node_at (disk w) (comps old) = Some n" "disk w' = put_node (comps new) n (disk w)"
    using d(1) p resolve_sound [OF assms(2), of False new] unfolding po
    by (auto simp: fs_link_def split: option.splits node.splits sum.splits if_splits)
  have "sound_node (next_ino (disk w)) n"
    using n(1) assms(2) sound_ino sound_not_link by (cases n) (auto simp: sound_node_def)
  then show ?thesis using n d(2) assms(2,3)
    by (auto simp: sound_put look_put_node look_def split: option.splits node.splits)
qed

lemma csum2_done:
  assumes "calculate_csum2 b object k target None w = (Inr (md5v, csum, entity), w')" "sound (disk w)"
  shows "\<exists>i x. look (disk w) (obj_path target) = (Some (File i), Some x)
    \<and> md5v = md5_sum b (content_bytes b (ino_content x)) \<and> disk w' = disk w \<and> same_rest w w'"
proof -
  obtain h w1 stat w2 hash w3 d where o: "os_Open (make_path_of_object target No_marker) w = (Inr h, w1)"
    and st: "file_Stat b h w1 = (Inr stat, w2)" and ck: "checksum_algorithm b k w2 = (Inr hash, w3)"
    and cp: "copy_to_digests b h None w3 = (Inr d, w')" and md: "md5v = md5_sum b d"
    using assms(1) by (auto simp: calculate_csum2_def Let_def runs split: if_splits)
  have w3: "w3 = w2" using ck by (auto simp: checksum_algorithm_def runs split: if_splits)
  note od = open_done [OF o assms(2)]
  obtain n where n: "node_at (disk w) (obj_path target) = Some n"
    "h = (case n of File i \<Rightarrow> H_file i (make_path_of_object target No_marker) | _ \<Rightarrow> H_other (make_path_of_object target No_marker))"
    using od by blast
  have "disk w2 = disk w1" "same_rest w1 w2"
    using syscall_done [OF st [unfolded file_Stat_def]] by (auto simp: same_rest_def split: handle.splits)
  moreover have "\<exists>i p. h = H_file i p \<and> d = content_bytes b (ino_content (inode_at (disk w2) i)) \<and> disk w' = disk w2 \<and> same_rest w2 w'"
    using cp unfolding w3
    by (auto simp: copy_to_digests_def section_bytes_def split: sum.splits prod.splits option.splits dest!: read_done)
  ultimately obtain i p where i: "h = H_file i p" "d = content_bytes b (ino_content (inode_at (disk w) i))"
    "disk w' = disk w" "same_rest w w'"
    using od same_rest_trans by (metis (no_types, lifting))
  then have "n = File i" using n(2) by (cases n) auto
  then show ?thesis using n(1) i md by (auto simp: look_file)
qed

section \<open>A copy of a whole object\<close>

lemma link_as_scratch_done:
  assumes "link_file_as_scratch b object scratch source checksum w = (Inr (md5v, csum), w')" "sound (disk w)"
    "obj_path scratch \<noteq> []" "obj_path source \<noteq> obj_path scratch"
  shows "\<exists>i x. look (disk w) (obj_path source) = (Some (File i), Some x)
    \<and> look (disk w') (obj_path scratch) = (Some (File i), Some x)
    \<and> md5v = md5_sum b (content_bytes b (ino_content x)) \<and> sound (disk w') \<and> same_rest w w'
    \<and> (\<forall>p. p \<noteq> obj_path scratch \<longrightarrow> look (disk w') p = look (disk w) p)"
proof -
  let ?s = "make_path_of_object source No_marker" and ?t = "make_path_of_object scratch No_marker"
  obtain w1 w2 entity where w1: "same_rest w w1" "sound (disk w1)"
      "\<forall>p. p \<noteq> obj_path scratch \<longrightarrow> look (disk w1) p = look (disk w) p"
    and l: "os_Link ?s ?t w1 = (Inr (), w2)"
    and c: "calculate_csum2 b object checksum scratch None w2 = (Inr (md5v, csum, entity), w')"
  proof -
    obtain r w1 where r: "os_Remove ?t w = (r, w1)" by (cases "os_Remove ?t w")
    then have "sysE (os_Remove ?t) w = (Inr r, w1)" by (simp add: sysE_def)
    then have sr: "same_rest w w1" by (rule keepsD [OF rest.calls(6)])
    have fs: "sound (disk w1) \<and> (\<forall>p. p \<noteq> obj_path scratch \<longrightarrow> look (disk w1) p = look (disk w) p)"
    proof (cases r)
      case (Inl e)
      then have "disk w1 = disk w" using r syscall_error unfolding os_Remove_def by blast
      then show ?thesis using assms(2) by simp
    next
      case (Inr u)
      then show ?thesis using remove_done [OF r [unfolded Inr] assms(2)] assms(2)
        by (auto simp: sound_drop look_drop_node)
    qed
    have "sys_elseE (os_Link ?s ?t) (os_failE (''/'' @ object)) (\<lambda>_.
        seqE (calculate_csum2 b object checksum scratch None) (\<lambda>(md5v, crc1, _). retE (md5v, crc1))) w1
      = (Inr (md5v, csum), w')"
      using assms(1) r by (cases r) (auto simp: link_file_as_scratch_def Let_def run_sys_else split: if_splits
          simp del: append.simps append_Cons simp: run_simple)
    then show ?thesis using that sr fs by (auto simp: runs)
  qed
  note ld = link_done [OF l w1(2) assms(3)]
  have s2: "sound (disk w2)" using ld by blast
  obtain i x where x: "look (disk w2) (obj_path scratch) = (Some (File i), Some x)"
    "md5v = md5_sum b (content_bytes b (ino_content x))" "disk w' = disk w2" "same_rest w2 w'"
    using csum2_done [OF c s2] by blast
  have "look (disk w) (obj_path source) = (Some (File i), Some x)"
    using x(1) ld w1(3) assms(4) by simp
  then show ?thesis using x ld w1 s2 same_rest_trans by (intro exI [of _ i] exI [of _ x]) (auto 4 0)
qed

lemma copy_scratch_link_done:
  assumes "copy_scratch b sfx object source None checksum w = (Inr (md5v, csum), w')" "begins object sfx w"
    "own_ok object sfx" "dirs_of object \<inter> set (own_paths object sfx) = {}"
    "obj_path source \<notin> dirs_of object \<union> {scratch_path object sfx}" "calm {obj_path source} (waits w)"
  shows "\<exists>i x. look (disk w) (obj_path source) = (Some (File i), Some x)
    \<and> look (disk w') (scratch_path object sfx) = (Some (File i), Some x)
    \<and> md5v = md5_sum b (content_bytes b (ino_content x)) \<and> placing object sfx w' \<and> same_rest w w'"
proof -
  let ?P = "{obj_path source, meta_scratch object sfx}"
  obtain w1 where d: "make_intervening_directories b object w = (Inr (), w1)"
    and l: "link_file_as_scratch b object (make_scratch_object_name object sfx) source checksum w1 = (Inr (md5v, csum), w')"
    using assms(1) by (auto simp: copy_scratch_def Let_def runs)
  have r1: "same_rest w w1" by (rule keepsD, rule rest.directories, rule d)
  have g: "guard {} ?P w" using assms(2,6) by (auto simp: guard_def begins_def calm_def)
  have "frame {} ?P w w1"
    by (rule keepsD, rule keeps_intervening) (use assms(4,5) in \<open>auto simp: own_paths_def\<close>, rule d)
  then have g1: "guard {} ?P w1" "same_look ?P (disk w) (disk w1)" using g by (simp_all add: frame_def)
  have nn: "scratch_path object sfx \<noteq> []" "scratch_path object sfx \<noteq> meta_scratch object sfx"
    using assms(3) by (auto simp: own_ok_def own_paths_def)
  obtain i x where x: "look (disk w1) (obj_path source) = (Some (File i), Some x)"
    "look (disk w') (scratch_path object sfx) = (Some (File i), Some x)"
    "md5v = md5_sum b (content_bytes b (ino_content x))" "sound (disk w')" "same_rest w1 w'"
    "\<forall>p. p \<noteq> scratch_path object sfx \<longrightarrow> look (disk w') p = look (disk w1) p"
    using link_as_scratch_done [OF l guard_sound [OF g1(1)] nn(1)] assms(5) by blast
  have sr: "same_rest w w'" using r1 x(5) same_rest_trans by blast
  have "look (disk w') (meta_scratch object sfx) = look (disk w) (meta_scratch object sfx)"
    using x(6) nn(2) g1(2) by (simp add: same_look_def)
  then have "node_at (disk w') (meta_scratch object sfx) = None"
    using look_node assms(2) unfolding begins_def by metis
  then have "placing object sfx w'"
    using x(4) sr assms(2) by (auto simp: guard_def apart_def begins_def same_rest_def calm_def)
  then show ?thesis using x(1-3) g1(2) sr
    by (intro exI [of _ i] exI [of _ x]) (simp add: same_look_def)
qed

lemma copy_build_done:
  assumes "copy_build b sfx object [] 0 source entity None metainfo checksum w = (Inr out, w')" "begins object sfx w"
    "own_ok object sfx" "dirs_of object \<inter> set (own_paths object sfx) = {}"
    "obj_path source \<notin> dirs_of object \<union> {scratch_path object sfx}" "calm {obj_path source} (waits w)"
  shows "\<exists>i x. look (disk w) (obj_path source) = (Some (File i), Some x)
    \<and> look (disk w') (obj_path object) = (Some (File i), Some x)
    \<and> ko_ETag out = make_object_etag_from_md5 (md5_sum b (content_bytes b (ino_content x)))
    \<and> ko_LastModified out = ino_mtime x
    \<and> (\<forall>m. final_meta b metainfo (hash_entity_key b (look_info b i x)) (ko_ETag out)
           (int (length (content_bytes b (ino_content x)))) = Some m \<longrightarrow>
         file_content (disk w') (meta_path object) = Some (Json (stored_meta m)))"
proof -
  obtain md5v csum w1 stat w2 where cs: "copy_scratch b sfx object source None checksum w = (Inr (md5v, csum), w1)"
    and bo: "build_object b sfx object [] 0 BUILD_LINK None metainfo checksum md5v csum no_conditions
        (w1\<lparr>cleanup_needed := True\<rparr>) = (Inr stat, w2)"
    and out: "out = \<lparr>ko_ETag = make_object_etag_from_md5 md5v, ko_LastModified = fi_mtime stat,
              ko_checksums = fill_checksum_union checksum csum\<rparr>"
    and cl: "\<exists>r. cleanup_scratch (make_scratch_object_name object sfx) w2 = (r, w')"
    using assms(1) by (auto simp: copy_build_def copy_object_def Let_def runs split: prod.splits)
  obtain i x where x: "look (disk w) (obj_path source) = (Some (File i), Some x)"
    "look (disk w1) (scratch_path object sfx) = (Some (File i), Some x)"
    "md5v = md5_sum b (content_bytes b (ino_content x))" "placing object sfx w1"
    using copy_scratch_link_done [OF cs assms(2-6)] by blast
  have g: "placing object sfx (w1\<lparr>cleanup_needed := True\<rparr>)" using x(4) by (simp add: guard_def)
  have "build_calm BUILD_LINK object (w1\<lparr>cleanup_needed := True\<rparr>)" by (simp add: build_calm_def)
  note bd = build_object_done [OF bo g assms(3) this]
  have "look (disk w2) (obj_path object) = (Some (File i), Some x)" "stat = look_info b i x"
    "cleanup_needed w2 = False"
    "\<forall>m. final_meta b metainfo (hash_entity_key b stat) (make_object_etag_from_md5 md5v) (fi_size stat) = Some m \<longrightarrow>
         file_content (disk w2) (meta_path object) = Some (Json (stored_meta m))"
    using bd x(2) by auto
  moreover from this(3) have "w' = w2" using cl by (auto simp: cleanup_scratch_def seqE_def getE_def retE_def)
  ultimately show ?thesis
    using x(1,3) out by (intro exI [of _ i] exI [of _ x]) (simp add: look_info_def)
qed

lemma keeps_source_status [keeps_rules]: "keeps (frame C P) (copy_source_status b object c)"
  unfolding copy_source_status_def by (intro keeps_rules)

context quiet_relation
begin

lemma source_status [keeps_rules]: "keeps R (copy_source_status b object c)"
  unfolding copy_source_status_def by (intro keeps_rules)

end

lemma metainfo_done:
  assumes "fetch_object_metainfo b object entity w = (Inr (Some m), w')" "sound (disk w)"
  shows "\<exists>c. file_content (disk w) (meta_path object) = Some c \<and> decode_meta b c = Some m \<and> Entity_key m = entity"
  using assms fetch_json_done [of object "make_path_of_object object Meta_marker" "decode_meta b" w _ w']
  by (fastforce simp: fetch_object_metainfo_def Let_def runs split: option.splits if_splits)

text \<open>The metainfo of an object that is valid for its file.\<close>

definition valid_meta :: "bbs \<Rightarrow> fsys \<Rightarrow> string \<Rightarrow> nat \<Rightarrow> inode \<Rightarrow> meta_info option \<Rightarrow> bool" where
  "valid_meta b s object f x metainfo \<longleftrightarrow>
     (case metainfo of
        None \<Rightarrow> True
      | Some m \<Rightarrow> Entity_key m = hash_entity_key b (look_info b f x)
          \<and> (case file_content s (meta_path object) of Some c \<Rightarrow> decode_meta b c = Some m | None \<Rightarrow> False))"

lemma source_status_done:
  assumes "copy_source_status b object c w = (Inr (source, entity, stat, etag, metainfo), w')" "sound (disk w)"
    "look (disk w) (obj_path source) = (Some (File f), Some x)"
  shows "valid_meta b (disk w) source f x metainfo"
proof -
  obtain w1 where e: "check_object_exists b source w = (Inr (entity, stat), w1)"
    and t: "fetch_object_etag b source entity w1 = (Inr (etag, metainfo), w')"
    using assms(1) by (auto simp: copy_source_status_def runs)
  have "fetch_object_status b source False w = (Inr (entity, Some stat), w1)"
    using e by (auto simp: check_object_exists_def Let_def runs split: option.splits)
  then have s: "disk w1 = disk w" "entity = hash_entity_key b (look_info b f x)"
    using status_done [of b source False w entity stat w1] assms(2,3) by auto
  show ?thesis
  proof (cases metainfo)
    case (Some m)
    have "fetch_object_metainfo b source entity w1 = (Inr (Some m), w')"
      using t Some by (auto simp: fetch_object_etag_def Let_def runs split: option.splits)
    then show ?thesis using metainfo_done [of b source entity w1 m w'] assms(2) s Some
      by (auto simp: valid_meta_def)
  qed (simp add: valid_meta_def)
qed

definition copy_name :: "copy_input \<Rightarrow> string" where
  "copy_name i = path_join [the (ki_Bucket i), the (ki_Key i)]"

lemma copy_whole_done:
  assumes "copy_whole b sfx i object w = (Inr out, w')" "begins object sfx w"
    "own_ok object sfx" "dirs_of object \<inter> set (own_paths object sfx) = {}"
    "lookat_copy_source b object (ki_CopySource i) = ok source"
    "obj_path source \<notin> dirs_of object \<union> {scratch_path object sfx}" "calm {obj_path source} (waits w)"
  shows "\<exists>f x source_metainfo metainfo. look (disk w) (obj_path source) = (Some (File f), Some x)
    \<and> look (disk w') (obj_path object) = (Some (File f), Some x)
    \<and> ko_ETag out = make_object_etag_from_md5 (md5_sum b (content_bytes b (ino_content x)))
    \<and> ko_LastModified out = ino_mtime x
    \<and> valid_meta b (disk w) source f x source_metainfo \<and> copy_metainfo b object i source_metainfo = ok metainfo
    \<and> (\<forall>m. final_meta b metainfo (hash_entity_key b (look_info b f x)) (ko_ETag out)
           (int (length (content_bytes b (ino_content x)))) = Some m \<longrightarrow>
         file_content (disk w') (meta_path object) = Some (Json (stored_meta m)))"
proof -
  let ?P = "{obj_path source, scratch_path object sfx, meta_scratch object sfx}"
  obtain entity stat etag smeta w1 metainfo where
    s: "copy_source_status b object (ki_CopySource i) w = (Inr (source, entity, stat, etag, smeta), w1)"
    and m: "copy_metainfo b object i smeta = ok metainfo"
    and c: "copy_build b sfx object [] 0 source entity None metainfo (copy_checksum (ki_ChecksumAlgorithm i) smeta) w1 = (Inr out, w')"
    using assms(1,5) by (fastforce simp: copy_whole_def copy_source_status_def Let_def runs split: prod.splits)
  have r: "same_rest w w1" by (rule keepsD, rule rest.source_status, rule s)
  have g: "guard {} ?P w" using assms(2,7) by (auto simp: guard_def begins_def calm_def)
  have "frame {} ?P w w1" by (rule keepsD, rule keeps_source_status, rule s)
  then have g1: "guard {} ?P w1" "same_look ?P (disk w) (disk w1)" using g by (simp_all add: frame_def)
  have "node_at (disk w1) p = node_at (disk w) p" if "p \<in> ?P" for p
    using g1(2) that look_node unfolding same_look_def by blast
  then have b1: "begins object sfx w1"
    using assms(2) r guard_sound [OF g1(1)] by (simp add: begins_def same_rest_def)
  have "calm {obj_path source} (waits w1)" using assms(7) r by (simp add: same_rest_def)
  note cb = copy_build_done [OF c b1 assms(3,4,6) this]
  have "look (disk w1) (obj_path source) = look (disk w) (obj_path source)" using g1(2) by (simp add: same_look_def)
  then obtain f x where x: "look (disk w) (obj_path source) = (Some (File f), Some x)"
    "look (disk w') (obj_path object) = (Some (File f), Some x)"
    "ko_ETag out = make_object_etag_from_md5 (md5_sum b (content_bytes b (ino_content x)))"
    "ko_LastModified out = ino_mtime x"
    "\<forall>m. final_meta b metainfo (hash_entity_key b (look_info b f x)) (ko_ETag out)
           (int (length (content_bytes b (ino_content x)))) = Some m \<longrightarrow>
         file_content (disk w') (meta_path object) = Some (Json (stored_meta m))"
    using cb by metis
  have "sound (disk w)" using assms(2) by (simp add: begins_def)
  then have "valid_meta b (disk w) source f x smeta" by (rule source_status_done [OF s _ x(1)])
  then show ?thesis using x m by blast
qed

text \<open>
  Claim C18.  A copy that is answered with success has linked the source: the path of the object
  names the file the source named when the request began, with its content and its time, also when
  an object is copied onto itself; the answer is the MD5 of that content as the ETag, and the
  metainfo stored with the copy is the one the directives of the request select from the request
  and the valid metainfo of the source.
\<close>

theorem copy_object_copies:
  assumes "CopyObject b (Scratch_marker h) i w = (Inr out, w')" "marker_ok (Scratch_marker h)"
    "ki_Key i = Some key" "good_key key" "begins (copy_name i) (Scratch_marker h) w"
    "lookat_copy_source b (copy_name i) (ki_CopySource i) = ok source"
    "obj_path source \<notin> dirs_of (copy_name i) \<union> {scratch_path (copy_name i) (Scratch_marker h)}"
    "calm {obj_path source} (waits w)"
  shows "\<exists>f x source_metainfo metainfo. look (disk w) (obj_path source) = (Some (File f), Some x)
    \<and> look (disk w') (obj_path (copy_name i)) = (Some (File f), Some x)
    \<and> ko_ETag out = make_object_etag_from_md5 (md5_sum b (content_bytes b (ino_content x)))
    \<and> ko_LastModified out = ino_mtime x
    \<and> valid_meta b (disk w) source f x source_metainfo \<and> copy_metainfo b (copy_name i) i source_metainfo = ok metainfo
    \<and> (\<forall>m. final_meta b metainfo (hash_entity_key b (look_info b f x)) (ko_ETag out)
           (int (length (content_bytes b (ino_content x)))) = Some m \<longrightarrow>
         file_content (disk w') (meta_path (copy_name i)) = Some (Json (stored_meta m)))"
proof -
  obtain object v where s: "check_usual_object_setup b (ki_Bucket i) (ki_Key i) w = (Inr object, v)"
    and c: "copy_whole b (Scratch_marker h) i object v = (Inr out, w')"
    using assms(1) by (auto simp: CopyObject_def runs)
  obtain bk where bk: "ki_Bucket i = Some bk" "check_bucket_naming bk" "object = path_join [bk, key]"
    "disk v = disk w" "waits v = waits w" "open_inodes v = open_inodes w"
    using run_object_setup [OF s] assms(3) by auto
  then have o: "object = copy_name i" "good_object (copy_name i)"
    using setup_object [OF bk(2) assms(4)] assms(3) by (simp_all add: copy_name_def)
  have "begins (copy_name i) (Scratch_marker h) v" using assms(5) begins_cong bk(4-6) by blast
  then show ?thesis
    using copy_whole_done [OF c [unfolded o(1)] _ own_ok_good [OF o(2) assms(2)] own_dirs_apart [OF o(2) assms(2)] assms(6,7)]
      assms(8) unfolding bk(4,5) by blast
qed

definition example_copy :: "string \<Rightarrow> copy_input" where
  "example_copy key =
     \<lparr>ki_Bucket = Some ''bkt'', ki_Key = Some key, ki_CopySource = Some ''bkt/x'', ki_MetadataDirective = [],
      ki_TaggingDirective = [], ki_Metadata = None, ki_Tagging = None, ki_content = empty_meta,
      ki_ChecksumAlgorithm = [], ki_ExpectedBucketOwner = None, ki_conditions = no_conditions\<rparr>"

lemma example_copy_run:
  "\<exists>out w'. CopyObject example_bbs example_sfx (example_copy ''x'') object_world = (Inr out, w')"
proof -
  have "case fst (CopyObject example_bbs example_sfx (example_copy ''x'') object_world) of
      Inr out \<Rightarrow> True | Inl _ \<Rightarrow> False" by code_simp
  then show ?thesis
    by (cases "CopyObject example_bbs example_sfx (example_copy ''x'') object_world") (auto split: sum.splits)
qed

lemma example_copy_simps:
  "copy_name (example_copy ''x'') = ''bkt/x''" "ki_Key (example_copy ''x'') = Some ''x''"
  "lookat_copy_source example_bbs ''bkt/x'' (ki_CopySource (example_copy ''x'')) = ok ''bkt/x''"
  "obj_path ''bkt/x'' \<notin> dirs_of ''bkt/x'' \<union> {scratch_path ''bkt/x'' example_sfx}"
     apply (simp add: copy_name_def example_copy_def good_key_x)
    apply (simp add: example_copy_def)
   apply code_simp
  apply code_simp
  done

theorem copy_object_copies_witness:
  "\<exists>out w' f x. CopyObject example_bbs example_sfx (example_copy ''x'') object_world = (Inr out, w')
     \<and> look object_fs (obj_path ''bkt/x'') = (Some (File f), Some x)
     \<and> look (disk w') (obj_path ''bkt/x'') = (Some (File f), Some x)"
proof -
  obtain out w' where r: "CopyObject example_bbs example_sfx (example_copy ''x'') object_world = (Inr out, w')"
    using example_copy_run by blast
  show ?thesis
    using copy_object_copies [OF r example_sfx_ok example_copy_simps(2) good_key_x(1)]
      object_begins example_copy_simps(3,4) calm_Nil r unfolding example_copy_simps(1) object_world_simps by blast
qed

text \<open>
  The directives are absent in a request that says nothing about metadata: such a copy has neither
  the user's headers nor the tags of its source.
\<close>

lemma copy_without_directives:
  assumes "copy_metainfo b object i source_metainfo = ok (Some m)"
    "ki_MetadataDirective i = []" "ki_TaggingDirective i = []"
  shows "Headers m = None \<and> Tags m = None"
proof -
  have "merge_metainfo_with_content_headers (Some (empty_meta\<lparr>Headers := None, Tags := None\<rparr>)) (ki_content i) = Some m"
    using assms by (simp add: copy_metainfo_def Let_def split: sum.splits)
  then show ?thesis using merge_keeps_user_part by fastforce
qed

end
