(* ===== verification/Parts.thy ===== *)
theory Parts
  imports Copy_object
begin

text \<open>
  Uploading the parts of a multipart upload: where a part and its catalog entry are stored, and
  what the actions on an upload leave alone until it is completed.
\<close>

section \<open>A part in its place\<close>

text \<open>The paths one part is stored under, apart from the scratch names.\<close>

abbreviation list_path :: "string \<Rightarrow> path" where
  "list_path object \<equiv> mpul_file object ''list''"

abbreviation list_scratch :: "string \<Rightarrow> marker \<Rightarrow> path" where
  "list_scratch object sfx \<equiv> mpul_scratch object ''list'' sfx"

text \<open>What the serialized region for a part begins with.\<close>

definition part_ready :: "string \<Rightarrow> marker \<Rightarrow> nat \<Rightarrow> world \<Rightarrow> bool" where
  "part_ready object sfx n w \<longleftrightarrow> guard {list_scratch object sfx} {scratch_path object sfx, list_path object} w
     \<and> calm {list_scratch object sfx, mpul_file object (make_part_name n)} (waits w) \<and> open_inodes w = []"

text \<open>The paths of a part are different.\<close>

definition part_paths_ok :: "string \<Rightarrow> marker \<Rightarrow> nat \<Rightarrow> bool" where
  "part_paths_ok object sfx n \<longleftrightarrow>
     distinct [scratch_path object sfx, list_path object, list_scratch object sfx, mpul_file object (make_part_name n)]
     \<and> mpul_file object (make_part_name n) \<noteq> [] \<and> list_scratch object sfx \<noteq> []
     \<and> list_path object \<noteq> []
     \<and> obj_path (make_mpul_part_name object n) = mpul_file object (make_part_name n)"

lemma part_paths_good:
  assumes "good_object object" "marker_ok (Scratch_marker h)"
  shows "part_paths_ok object (Scratch_marker h) n"
proof -
  have pl: "plain ''list''" by (simp add: plain_def)
  have s: "length (scratch_path object (Scratch_marker h)) = length (mpul_path object)"
    using good_scratch_path [OF assms] mpul_dir [OF assms(1)] by simp
  have p: "make_part_name n \<noteq> ''list'' @ t" for t
    by (simp add: make_part_name_def)
  show ?thesis
    unfolding part_paths_ok_def part_file [OF assms(1)] part_target [OF assms(1)]
      good_mpul_file(1) [OF assms(1) pl] good_mpul_file(2) [OF assms(1) pl assms(2)]
    using s p [of "[]"] p [of "marker_text (Scratch_marker h)"] by auto
qed

lemma update_catalog_done:
  assumes "update_mpul_catalog b object n sfx e w = (Inr u, w')" "sound (disk w)"
    "list_path object \<noteq> []" "list_scratch object sfx \<noteq> []"
  shows "\<exists>c old. file_content (disk w) (list_path object) = Some c \<and> decode_catalog b c = Some old
    \<and> file_content (disk w') (list_path object) = Some (Json (Catalog (set_part n e old))) \<and> sound (disk w')"
proof -
  obtain old w1 where f: "fetch_mpul_catalog b object w = (Inr old, w1)"
    and s: "store_mpul_catalog b object sfx (set_part n e old) w1 = (Inr u, w')"
    using assms(1) by (auto simp: update_mpul_catalog_def runs split: if_splits)
  note c = catalog_done [OF f assms(2)]
  then have "sound (disk w1)" using assms(2) by simp
  then show ?thesis
    using c store_json_done [OF s [unfolded store_mpul_catalog_def Let_def]] assms(3,4)
    by (auto simp: mpul_file_def mpul_scratch_def)
qed

lemma place_part_done:
  assumes "place_scratch_file b sfx object (make_scratch_object_name object sfx) target None linking w = (Inr u, w')"
    "sound (disk w)" "obj_path target \<noteq> []" "obj_path target \<noteq> scratch_path object sfx"
  shows "look (disk w') (obj_path target) = look (disk w) (scratch_path object sfx) \<and> sound (disk w') \<and> same_rest w w'
    \<and> (\<forall>x. x \<noteq> obj_path target \<and> x \<noteq> scratch_path object sfx \<longrightarrow> look (disk w') x = look (disk w) x)"
proof -
  let ?p1 = "make_path_of_object (make_scratch_object_name object sfx) No_marker"
  let ?p2 = "make_path_of_object target No_marker"
  let ?rn = "sys_elseE (os_Rename ?p1 ?p2) (os_failE (''/'' @ object)) retE"
  have rn: "(if linking then
           sys_elseE (os_Stat b ?p2) (\<lambda>_. ?rn) (\<lambda>stat2.
           sys_elseE (os_Stat b ?p1) (os_failE (''/'' @ object)) (\<lambda>stat1.
           if fi_type stat1 = T_regular \<and> fi_type stat2 = T_regular \<and> fi_ino stat1 = fi_ino stat2
           then sys_elseE (os_Remove ?p2) (os_failE (''/'' @ object)) (\<lambda>_. ?rn) else ?rn)) else ?rn) w = (Inr u, w')"
    using assms(1) by (auto simp: place_scratch_file_def Let_def run_seq run_on_fail run_simple simp del: append.simps append_Cons)
  obtain v where v: "os_Rename ?p1 ?p2 v = (Inr (), w')" "same_rest w v" "sound (disk v)"
    "\<forall>x. x \<noteq> obj_path target \<longrightarrow> look (disk v) x = look (disk w) x"
  proof (cases linking)
    case True
    then show ?thesis using linked_rename_run [OF rn [unfolded if_P [OF True]] assms(2)] that by blast
  next
    case False
    then have "os_Rename ?p1 ?p2 w = (Inr (), w')" using rn by (auto simp: runs)
    then show ?thesis using that assms(2) by simp
  qed
  show ?thesis using rename_done [OF v(1,3) assms(3)] v(2,4) assms(4) same_rest_trans by metis
qed

lemma frame_guard:
  "frame C P w w' \<Longrightarrow> guard C P w \<Longrightarrow> guard C P w' \<and> same_look P (disk w) (disk w')"
  by (simp add: frame_def)

lemma looks_node: "look s p = look t q \<Longrightarrow> node_at s p = node_at t q"
  by (simp add: look_def)

lemma build_part_serialized_done:
  assumes "build_serialized b sfx object u (int n) op cs no_conditions t None e w = (Inr r, w')" "0 < n"
    "part_ready object sfx n w" "part_paths_ok object sfx n" "op \<noteq> BUILD_CONCAT"
  shows "look (disk w') (mpul_file object (make_part_name n)) = look (disk w) (scratch_path object sfx)
    \<and> (\<exists>c old. file_content (disk w) (list_path object) = Some c \<and> decode_catalog b c = Some old
       \<and> file_content (disk w') (list_path object) = Some (Json (Catalog (set_part n e old))))
    \<and> cleanup_needed w' = False"
proof -
  let ?C = "{list_scratch object sfx}" and ?P = "{scratch_path object sfx, list_path object}"
  let ?part = "mpul_file object (make_part_name n)"
  note pp = assms(4) [unfolded part_paths_ok_def]
  have g0: "guard ?C ?P w" using assms(3) by (simp add: part_ready_def)
  have run: "seqE (recheck_target b (''/'' @ object) (make_mpul_part_name object n) no_conditions t) (\<lambda>_.
      seqE (recheck_source b (''/'' @ object) op cs) (\<lambda>_.
      seqE (check_mpul_ongoing b object (Some u) True) (\<lambda>_.
      seqE (place_scratch_file b sfx object (make_scratch_object_name object sfx) (make_mpul_part_name object n) None
        (op = BUILD_LINK)) (\<lambda>_.
      seqE (modE (\<lambda>w. w\<lparr>cleanup_needed := False\<rparr>)) (\<lambda>_.
      update_mpul_catalog b object n sfx e))))) w = (Inr r, w')"
    using assms(1,2,5) by (simp add: build_serialized_def Let_def run_seq run_simple) blast
  obtain w1 w2 info w3 w4 where r1: "recheck_target b (''/'' @ object) (make_mpul_part_name object n) no_conditions t w = (Inr (), w1)"
    and r2: "recheck_source b (''/'' @ object) op cs w1 = (Inr (), w2)"
    and ck: "check_mpul_ongoing b object (Some u) True w2 = (Inr info, w3)"
    and pl: "place_scratch_file b sfx object (make_scratch_object_name object sfx) (make_mpul_part_name object n) None
        (op = BUILD_LINK) w3 = (Inr (), w4)"
    and up: "update_mpul_catalog b object n sfx e (w4\<lparr>cleanup_needed := False\<rparr>) = (Inr (), w')"
    using run by (simp add: run_seq run_simple del: append.simps append_Cons) blast
  have "frame ?C ?P w w1" by (rule keepsD, rule keeps_recheck, rule r1)
  moreover have "frame ?C ?P w1 w2" by (rule keepsD, rule keeps_recheck, rule r2)
  moreover have "frame ?C ?P w2 w3" by (rule keepsD, rule keeps_ongoing, rule ck)
  ultimately have "frame ?C ?P w w3" using frame.trans by blast
  then have g3: "guard ?C ?P w3" "same_look ?P (disk w) (disk w3)" using frame_guard g0 by blast+
  have sr3: "same_rest w w3"
    using keepsD [OF rest.fetching(18) r1] keepsD [OF rest.fetching(19) r2] keepsD [OF rest.fetching(9) ck]
    by (simp add: same_rest_def)
  have pt: "obj_path (make_mpul_part_name object n) = ?part" "?part \<noteq> []" "?part \<noteq> scratch_path object sfx"
    using pp by auto
  note pd = place_part_done [OF pl guard_sound [OF g3(1)], unfolded pt(1), OF pt(2,3)]
  let ?w4 = "w4\<lparr>cleanup_needed := False\<rparr>"
  have l4: "look (disk ?w4) ?part = look (disk w) (scratch_path object sfx)"
    "look (disk ?w4) (list_path object) = look (disk w) (list_path object)"
    "look (disk ?w4) (list_scratch object sfx) = look (disk w3) (list_scratch object sfx)"
  proof -
    have o: "look (disk w4) x = look (disk w3) x" if "x \<noteq> ?part" "x \<noteq> scratch_path object sfx" for x
      using pd that by blast
    have "list_path object \<noteq> ?part" "list_path object \<noteq> scratch_path object sfx"
      "list_scratch object sfx \<noteq> ?part" "list_scratch object sfx \<noteq> scratch_path object sfx"
      using pp by auto
    then show "look (disk ?w4) (list_scratch object sfx) = look (disk w3) (list_scratch object sfx)"
      "look (disk ?w4) (list_path object) = look (disk w) (list_path object)"
      using o g3(2) by (simp_all add: same_look_def)
    show "look (disk ?w4) ?part = look (disk w) (scratch_path object sfx)"
      using pd g3(2) by (simp add: same_look_def)
  qed
  have "apart (disk w3) (list_scratch object sfx) (scratch_path object sfx)"
    using g3(1) by (simp add: guard_def)
  then have ap: "apart (disk ?w4) (list_scratch object sfx) ?part"
    using look_node [OF l4(3)] looks_node [of "disk ?w4" ?part "disk w3" "scratch_path object sfx"] l4(1) g3(2)
    by (simp add: apart_def same_look_def)
  have "open_inodes w4 = []" "waits w4 = waits w" using pd sr3 assms(3) by (simp_all add: same_rest_def part_ready_def)
  then have g4: "guard ?C {?part} ?w4"
    using pd ap assms(3) by (auto simp: guard_def part_ready_def insert_commute)
  have "frame ?C {?part} ?w4 w'"
    by (rule keepsD, rule keeps_update_catalog) (use pp in auto, rule up)
  then have lp: "look (disk w') ?part = look (disk ?w4) ?part" using frame_guard g4 by (auto simp: same_look_def)
  have s4: "sound (disk ?w4)" using pd by simp
  obtain c old where c: "file_content (disk ?w4) (list_path object) = Some c" "decode_catalog b c = Some old"
    "file_content (disk w') (list_path object) = Some (Json (Catalog (set_part n e old)))"
    using update_catalog_done [OF up s4] pp by blast
  have "file_content (disk w) (list_path object) = Some c"
    using file_content_look [OF l4(2)] c(1) by simp
  moreover have "cleanup_needed w' = False"
    using keepsD [OF cleanup.storing(5) up] by (simp add: same_cleanup_def)
  ultimately show ?thesis using lp l4(1) c(2,3) by auto
qed

text \<open>The entry build_object makes for a part.\<close>

definition part_entry :: "bbs \<Rightarrow> nat \<Rightarrow> inode \<Rightarrow> string \<Rightarrow> string \<Rightarrow> bytes option \<Rightarrow> mpul_part" where
  "part_entry b f x etag checksum csum =
     (let stat = look_info b f x in
      \<lparr>Part_entity_key = hash_entity_key b stat, Part_ETag = etag, Part_size = fi_size stat,
       Part_mtime = fi_mtime stat, Part_checksum = checksum, Part_csum = base64_encode (slice csum)\<rparr>)"

lemma build_part_done:
  assumes "build_object b sfx object u (int n) op cs None checksum md5v csum no_conditions w = (Inr stat, w')" "0 < n"
    "part_ready object sfx n w" "part_paths_ok object sfx n" "op \<noteq> BUILD_CONCAT"
  shows "\<exists>f x. look (disk w) (scratch_path object sfx) = (Some (File f), Some x) \<and> stat = look_info b f x
    \<and> look (disk w') (mpul_file object (make_part_name n)) = (Some (File f), Some x)
    \<and> (\<exists>c old. file_content (disk w) (list_path object) = Some c \<and> decode_catalog b c = Some old
       \<and> file_content (disk w') (list_path object)
         = Some (Json (Catalog (set_part n (part_entry b f x (make_object_etag_from_md5 md5v) checksum csum) old))))
    \<and> cleanup_needed w' = False"
proof -
  let ?C = "{list_scratch object sfx}" and ?P = "{scratch_path object sfx, list_path object}"
  have g0: "guard ?C ?P w" using assms(3) by (simp add: part_ready_def)
  define etag where "etag = make_object_etag_from_md5 md5v"
  obtain entity w1 w2 where
    s: "fetch_object_status b (make_scratch_object_name object sfx) True w = (Inr (entity, Some stat), w1)"
    and z: "serializedE object (build_serialized b sfx object u (int n) op cs no_conditions ([], [], None) None
       \<lparr>Part_entity_key = entity, Part_ETag = etag, Part_size = fi_size stat,
                Part_mtime = fi_mtime stat, Part_checksum = checksum,
                Part_csum = base64_encode (slice csum)\<rparr>) w1 = (Inr (), w')"
    using assms(1,2) unfolding build_object_def Let_def fill_metainfo_def fetch_target_def etag_def
    by (auto simp: runs split: option.splits)
  obtain f x where x: "look (disk w) (scratch_path object sfx) = (Some (File f), Some x)" "stat = look_info b f x"
    "entity = hash_entity_key b stat" "disk w1 = disk w" "same_rest w w1"
    using status_done [OF s guard_sound [OF g0]] by blast
  have e: "part_entry b f x etag checksum csum = \<lparr>Part_entity_key = entity, Part_ETag = etag, Part_size = fi_size stat,
                Part_mtime = fi_mtime stat, Part_checksum = checksum, Part_csum = base64_encode (slice csum)\<rparr>"
    using x by (simp add: part_entry_def Let_def)
  obtain w3 w4 where a: "serialize_access object w1 = (Inr (), w3)"
    and bs: "build_serialized b sfx object u (int n) op cs no_conditions ([], [], None) None
       (part_entry b f x etag checksum csum) w3 = (Inr (), w4)"
    and re: "\<exists>q. release_access object w4 = (q, w')"
    using z unfolding e [symmetric] by (auto simp: serializedE_def runs)
  have g1: "guard ?C ?P w1" using g0 x(4,5) by (simp add: guard_def same_rest_def)
  have "frame ?C ?P w1 w3" by (rule keepsD, rule keeps_serialize, rule a)
  then have g3: "guard ?C ?P w3" "same_look ?P (disk w1) (disk w3)" using frame_guard g1 by blast+
  have "set (waits w3) \<subseteq> set (waits w1) \<and> open_inodes w3 = open_inodes w1"
    using a by (cases "waits w1") (auto simp: serialize_access_def Let_def split: wait.splits)
  then have "part_ready object sfx n w3"
    using g3(1) assms(3) x(5) calm_subset by (auto simp: part_ready_def same_rest_def)
  note d = build_part_serialized_done [OF bs assms(2) this assms(4,5)]
  have "look (disk w3) (scratch_path object sfx) = look (disk w) (scratch_path object sfx)"
    "file_content (disk w3) (list_path object) = file_content (disk w) (list_path object)"
    using g3(2) x(4) by (auto simp: same_look_def intro: file_content_look)
  moreover have "disk w' = disk w4" "cleanup_needed w' = cleanup_needed w4"
    using re by (auto simp: release_access_def split: if_splits)
  ultimately show ?thesis using d x(1,2) unfolding etag_def by auto
qed

section \<open>Uploading a part\<close>

definition part_object :: "part_input \<Rightarrow> string" where
  "part_object i = path_join [the (pa_Bucket i), the (pa_Key i)]"

definition part_announced :: "part_input \<Rightarrow> int" where
  "part_announced i = (case pa_ContentLength i of Some n \<Rightarrow> n | None \<Rightarrow> - 1)"

text \<open>The scratch name of the catalog is free, and the others leave the upload of this part alone.\<close>

definition begins_part :: "string \<Rightarrow> marker \<Rightarrow> nat \<Rightarrow> world \<Rightarrow> bool" where
  "begins_part object sfx n w \<longleftrightarrow> begins object sfx w \<and> node_at (disk w) (list_scratch object sfx) = None
     \<and> calm {list_scratch object sfx, list_path object, mpul_file object (make_part_name n)} (waits w)"

lemma trailer_run: "put_trailer object tc cs csum w = (Inr x, w') \<Longrightarrow> w' = w"
  by (auto simp: put_trailer_def runs split: if_splits prod.splits)

lemma begins_part_ready:
  assumes "begins_part object sfx n w" "frame {scratch_path object sfx} {list_scratch object sfx, list_path object} w v"
    "same_rest w v" "dirs_of object \<inter> {list_scratch object sfx, list_path object} = {}"
  shows "part_ready object sfx n v" "look (disk v) (list_path object) = look (disk w) (list_path object)"
proof -
  let ?C = "{scratch_path object sfx}" and ?P = "{list_scratch object sfx, list_path object}"
  have c: "calm {scratch_path object sfx, list_scratch object sfx, list_path object, mpul_file object (make_part_name n)} (waits w)"
    "open_inodes w = []" "sound (disk w)"
    using assms(1) by (auto simp: begins_part_def begins_def calm_def)
  have "calm ({scratch_path object sfx} \<union> ?P) (waits w)" using c(1) by (simp add: calm_def)
  then have g: "guard ?C ?P w"
    using assms(1) c(2) by (auto simp: guard_def begins_part_def begins_def apart_def)
  then have gv: "guard ?C ?P v" "same_look ?P (disk w) (disk v)" using frame_guard [OF assms(2)] by blast+
  then have "look (disk v) (list_scratch object sfx) = look (disk w) (list_scratch object sfx)"
    by (simp add: same_look_def)
  then have "node_at (disk v) (list_scratch object sfx) = None"
    using looks_node assms(1) unfolding begins_part_def by metis
  then show "part_ready object sfx n v"
    using c assms(3) guard_sound [OF gv(1)]
    by (auto simp: part_ready_def guard_def apart_def same_rest_def calm_def)
  show "look (disk v) (list_path object) = look (disk w) (list_path object)"
    using gv(2) by (simp add: same_look_def)
qed

lemma list_outside:
  assumes "good_object object" "marker_ok (Scratch_marker h)"
  shows "dirs_of object \<inter> {list_scratch object (Scratch_marker h), list_path object} = {}"
    "scratch_path object (Scratch_marker h) \<notin> {list_scratch object (Scratch_marker h), list_path object}"
proof -
  have l: "plain ''list''" by (simp add: plain_def)
  have p: "prefix (mpul_path object) x" if "x \<in> {list_scratch object (Scratch_marker h), list_path object}" for x
    using that good_mpul_file [OF assms(1) l] assms(2) by auto
  show "dirs_of object \<inter> {list_scratch object (Scratch_marker h), list_path object} = {}"
    "scratch_path object (Scratch_marker h) \<notin> {list_scratch object (Scratch_marker h), list_path object}"
    using p mpul_outside(2) [OF assms l] unfolding own_paths_def by auto
qed

lemma part_build_done:
  assumes "part_build b sfx object i u (int n) sz md5c tc checksum csum0 md5v csum w = (Inr out, w')" "0 < n"
    "part_ready object sfx n w" "part_paths_ok object sfx n"
  shows "\<exists>f x c old. look (disk w) (scratch_path object sfx) = (Some (File f), Some x)
    \<and> look (disk w') (mpul_file object (make_part_name n)) = (Some (File f), Some x)
    \<and> file_content (disk w) (list_path object) = Some c \<and> decode_catalog b c = Some old
    \<and> file_content (disk w') (list_path object)
      = Some (Json (Catalog (set_part n (part_entry b f x (make_object_etag_from_md5 md5v) checksum csum) old)))
    \<and> pr_ETag out = make_object_etag_from_md5 md5v \<and> (md5c \<noteq> None \<longrightarrow> md5c = Some md5v) \<and> cleanup_needed w' = False"
proof -
  let ?C = "{list_scratch object sfx}" and ?P = "{scratch_path object sfx, list_path object}"
  obtain cs2 csumc w0 w1 stat where t: "put_trailer object tc ((pa_checksums i)\<lparr>ChecksumType := ''FULL_OBJECT''\<rparr>) csum0 w = (Inr (cs2, csumc), w0)"
    and c0: "compare_checksums b object (make_scratch_object_name object sfx) md5v csum md5c csumc w0 = (Inr (), w1)"
    and u: "build_object b sfx object u (int n) BUILD_UPLOAD None None checksum md5v csum no_conditions w1 = (Inr stat, w')"
    and out: "pr_ETag out = make_object_etag_from_md5 md5v"
    using assms(1) by (auto simp: part_build_def upload_object_def Let_def runs split: prod.splits)
  note c = c0 [unfolded trailer_run [OF t]]
  have sr: "same_rest w w1" by (rule keepsD [OF rest.fetching(15) c])
  have "frame ?C ?P w w1" by (rule keepsD, rule keeps_compare, rule c)
  then have g: "guard ?C ?P w1" "same_look ?P (disk w) (disk w1)"
    using frame_guard assms(3) unfolding part_ready_def by blast+
  then have "part_ready object sfx n w1" using assms(3) sr by (simp add: part_ready_def same_rest_def)
  note d = build_part_done [OF u assms(2) this assms(4)]
  have l: "look (disk w1) (scratch_path object sfx) = look (disk w) (scratch_path object sfx)"
    "file_content (disk w1) (list_path object) = file_content (disk w) (list_path object)"
    using g(2) by (auto simp: same_look_def intro: file_content_look)
  show ?thesis using d out compare_done [OF c] unfolding l by auto
qed

lemma upload_part_done:
  assumes "upload_part b (Scratch_marker h) q i object w = (Inr out, w')" "good_object object"
    "marker_ok (Scratch_marker h)" "pa_PartNumber i = Some n" "begins_part object (Scratch_marker h) (nat n) w"
    "req_header w = rq_Header q"
  shows "\<exists>d f t c old e. 1 \<le> n \<and> n \<le> max_part_number \<and> payload_of b object q (part_announced i) = Some d
    \<and> look (disk w') (part_path object n) = (Some (File f), Some \<lparr>ino_content = Data d, ino_mtime = t\<rparr>)
    \<and> pr_ETag out = make_object_etag_from_md5 (md5_sum b d)
    \<and> (\<forall>m. pa_ContentMD5 i = Some m \<longrightarrow> base64_decode m = Some (md5_sum b d))
    \<and> file_content (disk w) (list_path object) = Some c \<and> decode_catalog b c = Some old
    \<and> file_content (disk w') (list_path object) = Some (Json (Catalog (set_part (nat n) e old)))
    \<and> Part_ETag e = pr_ETag out \<and> Part_size e = int (length d)"
proof -
  let ?s = "Scratch_marker h"
  note own = own_ok_good [OF assms(2,3)] and apart = own_dirs_apart [OF assms(2,3)] and lo = list_outside [OF assms(2,3)]
  have b: "begins object ?s w" using assms(5) by (simp add: begins_part_def)
  have sd: "sound (disk w)" using b by (simp add: begins_def)
  obtain info w1 part md5c tc k csum0 md5v csum w2 w3 where
    o: "check_mpul_ongoing b object (pa_UploadId i) False w = (Inr info, w1)"
    and pn: "lookat_part_number object (Some n) True = ok part"
    and md: "decode_base64 object (pa_ContentMD5 i) = ok md5c"
    and u: "upload_scratch b ?s object q (part_announced i) k w1 = (Inr (md5v, csum), w2)"
    and pb: "part_build b ?s object i (Upload_id info) part (part_announced i) md5c tc k csum0 md5v csum
        (w2\<lparr>cleanup_needed := True\<rparr>) = (Inr out, w3)"
    and cl: "\<exists>r. cleanup_scratch (make_scratch_object_name object ?s) w3 = (r, w')"
    using assms(1,4) by (auto simp: upload_part_def part_announced_def Let_def runs split: prod.splits)
  have n: "part = n" "1 \<le> n" "n \<le> max_part_number"
    using pn by (auto simp: lookat_part_number_def Let_def split: if_splits)
  note od = ongoing_done [OF o sd]
  have w1: "disk w1 = disk w" "open_inodes w1 = open_inodes w" "waits w1 = waits w"
    using od by (simp_all add: same_rest_def)
  have b1: "begins object ?s w1" using b begins_cong [of w1 w] w1 by blast
  obtain body len kind d h1 hash where x: "make_chunked_reader b object q (part_announced i) = ok (body, len, kind)"
    "read_body body = (d, End_eof, h1)" "len = - 1 \<or> int (length d) = len" "md5v = md5_sum b d"
    "file_content (disk w2) (scratch_path object ?s) = Some (Data d)" "open_inodes w2 = []" "waits w2 = waits w1"
    using upload_scratch_done [OF u b1 own apart] by blast
  have pl: "payload_of b object q (part_announced i) = Some d" using x by (simp add: payload_of_def)
  let ?w2 = "w2\<lparr>cleanup_needed := True\<rparr>"
  have "frame {scratch_path object ?s} {list_scratch object ?s, list_path object} w1 w2"
    by (rule keepsD, rule keeps_upload_scratch) (use lo apart in \<open>auto simp: own_paths_def\<close>, rule u)
  then have fr: "frame {scratch_path object ?s} {list_scratch object ?s, list_path object} w1 ?w2"
    by (simp add: frame_def guard_def)
  have bp: "begins_part object ?s (nat n) w1"
    using assms(5) b1 w1 by (simp add: begins_part_def)
  have "held ?w2 = held w1"
    using keepsD [OF held.scratches(3) u] by (simp add: same_held_def)
  then have sr: "same_rest w1 ?w2" using x(6,7) b1 by (simp add: same_rest_def begins_def)
  note rd = begins_part_ready [OF bp fr sr lo(1)]
  have nn: "part = int (nat n)" "0 < nat n" using n by auto
  obtain f y c old where y: "look (disk ?w2) (scratch_path object ?s) = (Some (File f), Some y)"
    "look (disk w3) (part_path object n) = (Some (File f), Some y)"
    "file_content (disk ?w2) (list_path object) = Some c" "decode_catalog b c = Some old"
    "file_content (disk w3) (list_path object)
      = Some (Json (Catalog (set_part (nat n) (part_entry b f y (make_object_etag_from_md5 md5v) k csum) old)))"
    "pr_ETag out = make_object_etag_from_md5 md5v" "md5c \<noteq> None \<longrightarrow> md5c = Some md5v" "cleanup_needed w3 = False"
    using part_build_done [OF pb [unfolded nn(1)] nn(2) rd(1) part_paths_good [OF assms(2,3)]] by blast
  have w': "w' = w3" using cl y(8) by (auto simp: cleanup_scratch_def seqE_def getE_def retE_def)
  have d: "ino_content y = Data d"
    using y(1) x(5) by (auto simp: look_file file_content_def)
  then have yy: "y = \<lparr>ino_content = Data d, ino_mtime = ino_mtime y\<rparr>" by (cases y) simp
  have y2: "look (disk w3) (part_path object n) = (Some (File f), Some \<lparr>ino_content = Data d, ino_mtime = ino_mtime y\<rparr>)"
    unfolding yy [symmetric] by (rule y(2))
  have c: "file_content (disk w) (list_path object) = Some c"
    using file_content_look [OF rd(2)] y(3) w1(1) by simp
  have m: "\<forall>m. pa_ContentMD5 i = Some m \<longrightarrow> base64_decode m = Some (md5_sum b d)"
    using md y(7) x(4) by (auto simp: decode_base64_def split: option.splits)
  have e: "Part_ETag (part_entry b f y (make_object_etag_from_md5 md5v) k csum) = pr_ETag out"
    "Part_size (part_entry b f y (make_object_etag_from_md5 md5v) k csum) = int (length d)"
    using y(6) d by (simp_all add: part_entry_def look_info_def content_bytes_def Let_def)
  show ?thesis
    unfolding w'
    by ((rule exI)+, intro conjI, rule n(2), rule n(3), rule pl, rule y2, rule y(6) [unfolded x(4)],
        rule m, rule c, rule y(4), rule y(5), rule e(1), rule e(2))
qed

text \<open>
  Claim C12.  A part that is answered with success is stored: the part file holds exactly the bytes
  the body of the request reads to, its number is between 1 and 10000, and the catalog of the upload
  is the one before with the entry of this part set, which has the MD5 of the bytes as its ETag and
  their number as its size; the answer is that ETag.
\<close>

theorem upload_part_stores:
  assumes "UploadPart b (Scratch_marker h) q i w = (Inr out, w')" "marker_ok (Scratch_marker h)"
    "pa_Key i = Some key" "good_key key" "pa_PartNumber i = Some n"
    "begins_part (part_object i) (Scratch_marker h) (nat n) w"
  shows "\<exists>d f t c old e. 1 \<le> n \<and> n \<le> max_part_number \<and> payload_of b (part_object i) q (part_announced i) = Some d
    \<and> look (disk w') (part_path (part_object i) n) = (Some (File f), Some \<lparr>ino_content = Data d, ino_mtime = t\<rparr>)
    \<and> pr_ETag out = make_object_etag_from_md5 (md5_sum b d)
    \<and> (\<forall>m. pa_ContentMD5 i = Some m \<longrightarrow> base64_decode m = Some (md5_sum b d))
    \<and> file_content (disk w) (list_path (part_object i)) = Some c \<and> decode_catalog b c = Some old
    \<and> file_content (disk w') (list_path (part_object i)) = Some (Json (Catalog (set_part (nat n) e old)))
    \<and> Part_ETag e = pr_ETag out \<and> Part_size e = int (length d)"
proof -
  let ?w = "w\<lparr>req_header := rq_Header q\<rparr>"
  obtain object v where s: "check_usual_object_setup b (pa_Bucket i) (pa_Key i) ?w = (Inr object, v)"
    and c: "upload_part b (Scratch_marker h) q i object v = (Inr out, w')"
    using assms(1) by (auto simp: UploadPart_def runs)
  obtain bk where bk: "pa_Bucket i = Some bk" "check_bucket_naming bk" "object = path_join [bk, key]"
    "disk v = disk w" "waits v = waits w" "open_inodes v = open_inodes w"
    using run_object_setup [OF s] assms(3) by auto
  then have o: "object = part_object i" "good_object (part_object i)"
    using setup_object [OF bk(2) assms(4)] assms(3) by (simp_all add: part_object_def)
  have "begins_part (part_object i) (Scratch_marker h) (nat n) v"
    using assms(6) begins_cong [OF bk(4,6,5)] bk(4,5) by (simp add: begins_part_def)
  moreover have "req_header v = rq_Header q" using keepsD [OF header.setups(1) s] by (simp add: same_header_def)
  ultimately show ?thesis
    using upload_part_done [OF c [unfolded o(1)] o(2) assms(2,5)] unfolding bk(4) by blast
qed

definition example_part_input :: "int \<Rightarrow> string \<Rightarrow> part_input" where
  "example_part_input n upload_id =
     \<lparr>pa_Bucket = Some ''bkt'', pa_Key = Some ''x'', pa_UploadId = Some upload_id, pa_PartNumber = Some n,
      pa_ExpectedBucketOwner = None, pa_ContentLength = Some 3, pa_ContentMD5 = None, pa_checksums = no_checksums\<rparr>"

abbreviation example_part_run :: "part_output result \<times> world" where
  "example_part_run \<equiv> UploadPart example_bbs example_sfx example_upload (example_part_input 3 ''u1'') mpul_world"

lemma example_part_run_ok: "\<exists>out w'. example_part_run = (Inr out, w')"
proof -
  have "case fst example_part_run of Inr out \<Rightarrow> True | Inl _ \<Rightarrow> False" by code_simp
  then show ?thesis by (cases example_part_run) (auto split: sum.splits)
qed

lemma example_part_simps:
  "part_object (example_part_input n u) = ''bkt/x''" "pa_Key (example_part_input n u) = Some ''x''"
  "pa_PartNumber (example_part_input n u) = Some n"
  by (simp_all add: part_object_def example_part_input_def good_key_x)

lemma example_part_begins: "begins_part ''bkt/x'' example_sfx n mpul_world"
  unfolding begins_part_def by (intro conjI, rule mpul_begins, simp, code_simp, simp)

lemma example_part_payload:
  "payload_of example_bbs ''bkt/x'' example_upload (part_announced (example_part_input 3 ''u1'')) = Some ''abc''"
  by code_simp

theorem upload_part_stores_witness:
  "\<exists>out w' f t. example_part_run = (Inr out, w')
     \<and> look (disk w') (part_path ''bkt/x'' 3) = (Some (File f), Some \<lparr>ino_content = Data ''abc'', ino_mtime = t\<rparr>)"
proof -
  obtain out w' where r: "example_part_run = (Inr out, w')" using example_part_run_ok by blast
  have "begins_part (part_object (example_part_input 3 ''u1'')) example_sfx (nat 3) mpul_world"
    using example_part_begins by (simp add: example_part_simps)
  note u = upload_part_stores [OF r example_sfx_ok example_part_simps(2) good_key_x(1) example_part_simps(3) this]
  show ?thesis using u r unfolding example_part_simps(1) example_part_payload by blast
qed

end
