(* ===== verification/Uploads.thy ===== *)
theory Uploads
  imports Parts
begin

text \<open>
  Multipart uploads as a state machine: the requests on an upload as steps between worlds, and what
  no sequence of them changes.
\<close>

section \<open>What the requests write\<close>

abbreviation info_path :: "string \<Rightarrow> path" where
  "info_path object \<equiv> mpul_file object ''info''"

abbreviation info_scratch :: "string \<Rightarrow> marker \<Rightarrow> path" where
  "info_scratch object sfx \<equiv> mpul_scratch object ''info'' sfx"

text \<open>The scratch names of a request on an upload; a copy of a whole object makes a link instead.\<close>

definition link_scratches :: "string \<Rightarrow> marker \<Rightarrow> path set" where
  "link_scratches object sfx = {meta_scratch object sfx, info_scratch object sfx, list_scratch object sfx}"

definition mpul_scratches :: "string \<Rightarrow> marker \<Rightarrow> path set" where
  "mpul_scratches object sfx = insert (scratch_path object sfx) (link_scratches object sfx)"

lemma mpul_facts:
  assumes "good_object object" "marker_ok (Scratch_marker h)"
  defines "sfx \<equiv> Scratch_marker h" and "C \<equiv> mpul_scratches object (Scratch_marker h)"
  shows "obj_path object \<notin> C" "meta_path object \<notin> C" "meta_path object \<noteq> obj_path object"
    "dirs_of object \<inter> {obj_path object} = {}" "dirs_of object \<inter> C = {}"
    "mpul_path object \<notin> insert (obj_path object) C" "info_path object \<notin> insert (obj_path object) C"
    "list_path object \<notin> insert (obj_path object) C"
    "obj_path (make_mpul_part_name object n) \<notin> insert (obj_path object) C"
    "\<not> prefix (mpul_path object) (obj_path object)"
    "scratch_path object sfx \<notin> link_scratches object sfx"
proof -
  have pl: "plain ''info''" "plain ''list''" by (simp_all add: plain_def)
  note info = good_mpul_file [OF assms(1) pl(1)] and list = good_mpul_file [OF assms(1) pl(2)]
  let ?O = "set (own_paths object (Scratch_marker h))" and ?D = "dirs_of object"
  have out: "mpul_path object @ t \<notin> ?D \<union> ?O" for t
    using mpul_outside(2) [OF assms(1,2) pl(1), of "mpul_path object @ t"] by auto
  have own: "obj_path object \<notin> {scratch_path object sfx, meta_scratch object sfx}"
    "meta_path object \<notin> {scratch_path object sfx, meta_scratch object sfx}" "meta_path object \<noteq> obj_path object"
    "scratch_path object sfx \<noteq> meta_scratch object sfx"
    using own_ok_good [OF assms(1,2)] by (auto simp: own_ok_def own_paths_def sfx_def)
  have d: "?D \<inter> ?O = {}" by (rule own_dirs_apart [OF assms(1,2)])
  have p: "make_part_name n \<noteq> ''info'' @ t" "make_part_name n \<noteq> ''list'' @ t" for t
    by (simp_all add: make_part_name_def)
  have C: "C = {scratch_path object sfx, meta_scratch object sfx, mpul_path object @ [''info'' @ marker_text sfx],
      mpul_path object @ [''list'' @ marker_text sfx]}"
    unfolding C_def mpul_scratches_def link_scratches_def sfx_def info(2) [OF assms(2)] list(2) [OF assms(2)] by auto
  have op: "mpul_path object @ t \<noteq> obj_path object" "mpul_path object @ t \<noteq> meta_path object"
    "mpul_path object @ t \<noteq> scratch_path object sfx" "mpul_path object @ t \<noteq> meta_scratch object sfx"
    "mpul_path object @ t \<notin> ?D" for t
    using out [of t] by (auto simp: own_paths_def sfx_def)
  show "obj_path object \<notin> C" "meta_path object \<notin> C" "meta_path object \<noteq> obj_path object"
    using own op by (auto simp: C dest: sym)
  show "?D \<inter> {obj_path object} = {}" using d by (auto simp: own_paths_def)
  show "?D \<inter> C = {}" using d op(5) by (auto simp: C own_paths_def sfx_def)
  show "mpul_path object \<notin> insert (obj_path object) C" using op [of "[]"] by (auto simp: C)
  show "info_path object \<notin> insert (obj_path object) C" "list_path object \<notin> insert (obj_path object) C"
    unfolding info(1) list(1) using op by (auto simp: C sfx_def)
  show "obj_path (make_mpul_part_name object n) \<notin> insert (obj_path object) C"
    unfolding part_target [OF assms(1)] part_file [OF assms(1)] using op p by (auto simp: C)
  show "\<not> prefix (mpul_path object) (obj_path object)" using op(1) unfolding prefix_def by metis
  show "scratch_path object sfx \<notin> link_scratches object sfx"
    unfolding link_scratches_def sfx_def info(2) [OF assms(2)] list(2) [OF assms(2)]
    using own(4) op(3) unfolding sfx_def by (auto dest: sym)
qed

section \<open>Frames of the requests\<close>

lemma keeps_create_mpul [keeps_rules]:
  assumes "dirs_of object \<inter> P = {}" "dirs_of object \<inter> C = {}" "mpul_path object \<notin> P" "mpul_path object \<notin> C"
    "info_path object \<notin> P" "info_path object \<notin> C" "info_scratch object sfx \<notin> P" "info_scratch object sfx \<in> C"
    "\<And>p. p \<in> P \<Longrightarrow> \<not> prefix (mpul_path object) p"
  shows "keeps (frame C P) (create_mpul_directory b object sfx info)"
  unfolding create_mpul_directory_def Let_def by (intro keeps_rules assms) (simp_all add: assms)

lemma keeps_build_part [keeps_rules]:
  assumes "part \<noteq> 0" "scratch_path object sfx \<notin> P" "obj_path (make_mpul_part_name object (nat part)) \<notin> P"
    "obj_path (make_mpul_part_name object (nat part)) \<notin> C" "meta_path object \<notin> P" "meta_path object \<notin> C"
    "meta_scratch object sfx \<notin> P" "meta_scratch object sfx \<in> C"
    "list_path object \<notin> P" "list_path object \<notin> C" "list_scratch object sfx \<notin> P" "list_scratch object sfx \<in> C"
    "op \<noteq> BUILD_CONCAT"
  shows "keeps (frame C P) (build_object b sfx object u part op cs metainfo checksum md5v csum conditions)"
proof -
  have s: "keeps (frame C P) (build_serialized b sfx object u part op cs conditions t m e)" for t m e
    unfolding build_serialized_def Let_def if_P [OF assms(1)] if_not_P [OF assms(13)] using assms
    by (intro keeps_rules) auto
  show ?thesis
    unfolding build_object_def Let_def by (intro keeps_rules s)
qed

abbreviation upload_frame :: "string \<Rightarrow> string \<Rightarrow> world \<Rightarrow> world \<Rightarrow> bool" where
  "upload_frame object h \<equiv> frame (mpul_scratches object (Scratch_marker h)) {obj_path object}"

abbreviation link_frame :: "string \<Rightarrow> string \<Rightarrow> world \<Rightarrow> world \<Rightarrow> bool" where
  "link_frame object h \<equiv> frame (link_scratches object (Scratch_marker h)) {obj_path object}"

lemma in_scratches [simp]:
  "meta_scratch object sfx \<in> mpul_scratches object sfx" "scratch_path object sfx \<in> mpul_scratches object sfx"
  "info_scratch object sfx \<in> mpul_scratches object sfx" "list_scratch object sfx \<in> mpul_scratches object sfx"
  "meta_scratch object sfx \<in> link_scratches object sfx"
  "info_scratch object sfx \<in> link_scratches object sfx" "list_scratch object sfx \<in> link_scratches object sfx"
  "x \<in> link_scratches object sfx \<Longrightarrow> x \<in> mpul_scratches object sfx"
  by (simp_all add: mpul_scratches_def link_scratches_def)

lemma outside_scratches:
  assumes "good_object object" "marker_ok (Scratch_marker h)" "x \<in> mpul_scratches object (Scratch_marker h)"
  shows "x \<notin> {obj_path object}"
  using mpul_facts(1) [OF assms(1,2)] assms(3) by auto

lemma keeps_create_upload:
  assumes "good_object object" "marker_ok (Scratch_marker h)"
  shows "keeps (upload_frame object h) (create_upload b (Scratch_marker h) object mpul)"
proof -
  note f = mpul_facts [OF assms] and out = outside_scratches [OF assms]
  show ?thesis
    unfolding create_upload_def
    by (intro keeps_rules) (use f out in \<open>auto simp del: marker_text.simps\<close>)
qed

lemma keeps_part_build:
  assumes "good_object object" "marker_ok (Scratch_marker h)" "part \<noteq> 0"
  shows "keeps (upload_frame object h) (part_build b (Scratch_marker h) object i u part sz md5c tc k csum0 md5v csum)"
proof -
  note f = mpul_facts [OF assms(1,2)] and out = outside_scratches [OF assms(1,2)]
  show ?thesis
    unfolding part_build_def upload_object_def Let_def
    by (intro keeps_rules keeps_build_part) (use f out assms(3) in \<open>auto simp del: marker_text.simps\<close>)
qed

lemma keeps_upload_part:
  assumes "good_object object" "marker_ok (Scratch_marker h)"
  shows "keeps (upload_frame object h) (upload_part b (Scratch_marker h) q i object)"
proof -
  note f = mpul_facts [OF assms] and out = outside_scratches [OF assms]
  have p: "keeps (upload_frame object h) (seqE (liftE (lookat_part_number object n True)) g)"
    if "\<And>part. part \<noteq> 0 \<Longrightarrow> keeps (upload_frame object h) (g part)" for n and g :: "int \<Rightarrow> part_output act"
    using that lookat_part_number_bounds [of object n True]
    by (cases "lookat_part_number object n True") (auto simp: keeps_def seqE_def liftE_def frame.refl)
  show ?thesis
    unfolding upload_part_def Let_def
    by (intro keeps_rules p keeps_part_build assms) (use f out in \<open>auto simp del: marker_text.simps\<close>)
qed

lemma keeps_copy_scratch:
  assumes "good_object object" "marker_ok (Scratch_marker h)"
  shows "keeps (upload_frame object h) (copy_scratch b (Scratch_marker h) object source (Some e) checksum)"
    and "keeps (link_frame object h) (copy_scratch b (Scratch_marker h) object source None checksum)"
proof -
  note f = mpul_facts [OF assms] and out = outside_scratches [OF assms]
  have d: "dirs_of object \<inter> link_scratches object (Scratch_marker h) = {}"
    using f(5) by (auto simp: mpul_scratches_def)
  show "keeps (upload_frame object h) (copy_scratch b (Scratch_marker h) object source (Some e) checksum)"
    unfolding copy_scratch_def Let_def option.case by (intro keeps_rules) (use f out in \<open>auto simp del: marker_text.simps\<close>)
  show "keeps (link_frame object h) (copy_scratch b (Scratch_marker h) object source None checksum)"
    unfolding copy_scratch_def Let_def option.case by (intro keeps_rules) (use f out d in \<open>auto simp del: marker_text.simps\<close>)
qed

lemma keeps_copy_build:
  assumes "good_object object" "marker_ok (Scratch_marker h)" "part \<noteq> 0"
  shows "keeps (upload_frame object h) (copy_build b (Scratch_marker h) object u part source entity (Some e) m k)"
    and "keeps (link_frame object h) (copy_build b (Scratch_marker h) object u part source entity None m k)"
proof -
  note f = mpul_facts [OF assms(1,2)] and out = outside_scratches [OF assms(1,2)]
  have o: "x \<notin> mpul_scratches object (Scratch_marker h) \<Longrightarrow> x \<notin> link_scratches object (Scratch_marker h)" for x
    by (auto simp: mpul_scratches_def)
  show "keeps (upload_frame object h) (copy_build b (Scratch_marker h) object u part source entity (Some e) m k)"
    unfolding copy_build_def copy_object_def Let_def prod.case
    by (intro keeps_rules keeps_copy_scratch assms) (use f out assms(3) in \<open>auto split: if_splits simp del: marker_text.simps\<close>)
  show "keeps (link_frame object h) (copy_build b (Scratch_marker h) object u part source entity None m k)"
    unfolding copy_build_def copy_object_def Let_def prod.case
    by (intro keeps_rules keeps_copy_scratch assms) (use f out o assms(3) in \<open>auto split: if_splits simp del: marker_text.simps\<close>)
qed

lemma scan_range_given: "scan_range b object (Some s) sz = ok x \<Longrightarrow> x \<noteq> None"
  by (auto simp: scan_range_def Let_def split: option.splits if_splits prod.splits)

text \<open>A value that is computed is known in what follows.\<close>

lemma keeps_lift:
  assumes "\<And>x. r = ok x \<Longrightarrow> keeps (frame C P) (g x)"
  shows "keeps (frame C P) (seqE (liftE r) g)"
  using assms by (cases r) (auto simp: keeps_def seqE_def liftE_def frame.refl)

lemma part_number_positive: "lookat_part_number object n True = ok part \<Longrightarrow> part \<noteq> 0"
  using lookat_part_number_bounds [of object n True part] by auto

lemma keeps_copy_part:
  assumes "good_object object" "marker_ok (Scratch_marker h)"
  shows "qi_CopySourceRange i \<noteq> None \<Longrightarrow> keeps (upload_frame object h) (copy_part b (Scratch_marker h) i object)"
    and "qi_CopySourceRange i = None \<Longrightarrow> keeps (link_frame object h) (copy_part b (Scratch_marker h) i object)"
proof -
  note f = mpul_facts [OF assms] and out = outside_scratches [OF assms]
  assume r: "qi_CopySourceRange i \<noteq> None"
  have b: "keeps (upload_frame object h) (copy_build b (Scratch_marker h) object u part source entity x m k)"
    if "part \<noteq> 0" "x \<noteq> None" for u part source entity x m k
    using keeps_copy_build(1) [OF assms that(1)] that(2) by auto
  have s: "x \<noteq> None" if "scan_range b object (qi_CopySourceRange i) sz = ok x" for sz x
    using that r scan_range_given by (cases "qi_CopySourceRange i") auto
  show "keeps (upload_frame object h) (copy_part b (Scratch_marker h) i object)"
    unfolding copy_part_def
    by (intro keeps_lift keeps_splits frame.seq frame.ret keeps_ongoing keeps_source_status b s)
      (assumption | erule part_number_positive)+
next
  assume r: "qi_CopySourceRange i = None"
  have b: "keeps (link_frame object h) (copy_build b (Scratch_marker h) object u part source entity x m k)"
    if "part \<noteq> 0" "scan_range b object (qi_CopySourceRange i) sz = ok x" for u part source entity sz x m k
    using keeps_copy_build(2) [OF assms that(1)] that(2) r by (simp add: scan_range_def)
  show "keeps (link_frame object h) (copy_part b (Scratch_marker h) i object)"
    unfolding copy_part_def
    by (intro keeps_lift keeps_splits frame.seq frame.ret keeps_ongoing keeps_source_status b)
      (assumption | erule part_number_positive)+
qed

lemma on_fail_complete:
  assumes "good_object object" "marker_ok (Scratch_marker h)"
  shows "on_fail (upload_frame object h) (complete_object b (Scratch_marker h) i object)"
proof -
  note f = mpul_facts [OF assms] and out = outside_scratches [OF assms]
  have c: "on_fail (upload_frame object h) (deferE (cleanup_scratch (make_scratch_object_name object (Scratch_marker h)))
      (complete_build b (Scratch_marker h) object i info k csumc md5v csum))" for info k csumc md5v csum
  proof -
    have u: "on_fail (upload_frame object h) (seqE (concatenate_object b (Scratch_marker h) object info md5v csum k cond)
        (\<lambda>_. retE x))" for cond and x :: complete_output
      unfolding concatenate_object_def
      by (rule frame.fail_seq_last, rule on_fail_build_object) (use f out in \<open>auto simp: retE_def simp del: marker_text.simps\<close>)
    have "on_fail (upload_frame object h) (complete_build b (Scratch_marker h) object i info k csumc md5v csum)"
      unfolding complete_build_def by (rule frame.fail_seq, rule keeps_compare, rule u)
    then show ?thesis by (rule frame.fail_defer [rotated]) (use keeps_cleanup_scratch out in simp)
  qed
  have k: "keeps (upload_frame object h) (concatenate_scratch b (Scratch_marker h) object info ps k n)" for info ps k n
    unfolding concatenate_scratch_def Let_def by (intro keeps_rules) (use f out in \<open>auto simp del: marker_text.simps\<close>)
  show ?thesis
    unfolding complete_object_def Let_def
    by (intro keeps_rules c k)
qed

section \<open>The requests as steps\<close>

text \<open>
  A request on the upload of an object begins with its scratch names free, and the others leave
  these names and the object alone while it waits.
\<close>

definition begins_mpul :: "string \<Rightarrow> marker \<Rightarrow> world \<Rightarrow> bool" where
  "begins_mpul object sfx w \<longleftrightarrow> sound (disk w) \<and> open_inodes w = []
     \<and> (\<forall>p \<in> mpul_scratches object sfx. node_at (disk w) p = None)
     \<and> calm (insert (obj_path object) (mpul_scratches object sfx)) (waits w)"

text \<open>A request names the object.\<close>

definition names_object :: "string \<Rightarrow> string option \<Rightarrow> string option \<Rightarrow> bool" where
  "names_object object bucket key \<longleftrightarrow>
     (case (bucket, key) of (Some bk, Some k) \<Rightarrow> good_key k \<and> object = path_join [bk, k] | _ \<Rightarrow> False)"

text \<open>
  One request on the upload, however it ends; a completion that succeeds is the one request that is
  not a step.
\<close>

inductive mpul_step :: "bbs \<Rightarrow> string \<Rightarrow> world \<Rightarrow> world \<Rightarrow> bool" for b object where
  create: "CreateMultipartUpload b (Scratch_marker h) uploadid ci w = (r, w') \<Longrightarrow>
     names_object object (ci_Bucket ci) (ci_Key ci) \<Longrightarrow> marker_ok (Scratch_marker h) \<Longrightarrow>
     begins_mpul object (Scratch_marker h) w \<Longrightarrow> mpul_step b object w w'"
| part: "UploadPart b (Scratch_marker h) q pa w = (r2, w') \<Longrightarrow>
     names_object object (pa_Bucket pa) (pa_Key pa) \<Longrightarrow> marker_ok (Scratch_marker h) \<Longrightarrow>
     begins_mpul object (Scratch_marker h) w \<Longrightarrow> mpul_step b object w w'"
| part_copy: "UploadPartCopy b (Scratch_marker h) qi w = (r3, w') \<Longrightarrow>
     names_object object (qi_Bucket qi) (qi_Key qi) \<Longrightarrow> marker_ok (Scratch_marker h) \<Longrightarrow>
     begins_mpul object (Scratch_marker h) w \<Longrightarrow> mpul_step b object w w'"
| parts: "ListParts b lq w = (r4, w') \<Longrightarrow>
     names_object object (lq_Bucket lq) (lq_Key lq) \<Longrightarrow> marker_ok (Scratch_marker h) \<Longrightarrow>
     begins_mpul object (Scratch_marker h) w \<Longrightarrow> mpul_step b object w w'"
| abort: "AbortMultipartUpload b ab w = (r5, w') \<Longrightarrow>
     names_object object (ab_Bucket ab) (ab_Key ab) \<Longrightarrow> marker_ok (Scratch_marker h) \<Longrightarrow>
     begins_mpul object (Scratch_marker h) w \<Longrightarrow> mpul_step b object w w'"
| complete_fails: "CompleteMultipartUpload b (Scratch_marker h) mi w = (failed e, w') \<Longrightarrow>
     names_object object (mi_Bucket mi) (mi_Key mi) \<Longrightarrow> marker_ok (Scratch_marker h) \<Longrightarrow>
     begins_mpul object (Scratch_marker h) w \<Longrightarrow> mpul_step b object w w'"

inductive_cases mpul_stepE: "mpul_step b object w w'"

lemma begins_mpul_guards:
  assumes "begins_mpul object sfx w"
  shows "guard (mpul_scratches object sfx) {obj_path object} w" "guard (link_scratches object sfx) {obj_path object} w"
proof -
  have "calm (link_scratches object sfx \<union> {obj_path object}) (waits w)"
    "calm (mpul_scratches object sfx \<union> {obj_path object}) (waits w)"
    using assms by (auto simp: begins_mpul_def calm_def)
  then show "guard (mpul_scratches object sfx) {obj_path object} w" "guard (link_scratches object sfx) {obj_path object} w"
    using assms by (auto simp: begins_mpul_def guard_def apart_def)
qed

lemma upload_frame_look:
  assumes "upload_frame object h w w' \<or> link_frame object h w w'" "begins_mpul object (Scratch_marker h) w"
  shows "look (disk w') (obj_path object) = look (disk w) (obj_path object)"
  using assms(1) begins_mpul_guards [OF assms(2)] frame_guard by (fastforce simp: same_look_def)

text \<open>The rest of an action on the named object.\<close>

lemma keeps_named:
  assumes "names_object object bucket key" "good_object object \<Longrightarrow> keeps (frame C P) (f object)"
  shows "keeps (frame C P) (seqE (check_usual_object_setup b bucket key) f)"
proof (rule keeps_after_setup)
  fix bk k assume "bucket = Some bk" "key = Some k" "check_bucket_naming bk"
  then show "keeps (frame C P) (f (path_join [bk, k]))"
    using assms setup_object [of bk k] by (auto simp: names_object_def)
qed

lemma on_fail_named:
  assumes "names_object object bucket key" "good_object object \<Longrightarrow> on_fail (frame C P) (f object)"
  shows "on_fail (frame C P) (seqE (check_usual_object_setup b bucket key) f)"
  unfolding on_fail_def
proof (intro allI impI)
  fix w e w' assume r: "seqE (check_usual_object_setup b bucket key) f w = (failed e, w')"
  obtain q w1 where s: "check_usual_object_setup b bucket key w = (q, w1)" by (cases "check_usual_object_setup b bucket key w")
  have k: "frame C P w w1" by (rule keepsD [OF keeps_object_setup s])
  show "frame C P w w'"
  proof (cases q)
    case (Inr name)
    then obtain bk k where "bucket = Some bk" "key = Some k" "check_bucket_naming bk" "name = path_join [bk, k]"
      using setup_result s by blast
    then have "name = object" "good_object object" using assms(1) setup_object by (auto simp: names_object_def)
    moreover have "f name w1 = (failed e, w')" using r s Inr by (simp add: seqE_def)
    ultimately have "frame C P w1 w'" using on_failD [OF assms(2)] by blast
    then show ?thesis using k frame.trans by blast
  qed (use r s k in \<open>simp add: seqE_def\<close>)
qed

lemma mpul_step_frame:
  assumes "mpul_step b object w w'"
  shows "look (disk w') (obj_path object) = look (disk w) (obj_path object)"
  using assms
proof (cases rule: mpul_step.cases)
  case (create h uploadid ci r)
  have "keeps (upload_frame object h) (CreateMultipartUpload b (Scratch_marker h) uploadid ci)"
    unfolding CreateMultipartUpload_def Let_def
    by (intro keeps_named [OF create(2)] keeps_rules keeps_create_upload create(3))
  then show ?thesis using keepsD create(1,4) upload_frame_look by blast
next
  case (part h q pa r2)
  have "keeps (upload_frame object h) (UploadPart b (Scratch_marker h) q pa)"
    unfolding UploadPart_def
    by (rule frame.seq, rule keeps_header, rule keeps_named [OF part(2)], rule keeps_upload_part) (use part(3) in simp_all)
  then show ?thesis using keepsD part(1,4) upload_frame_look by blast
next
  case (part_copy h qi r3)
  have "qi_CopySourceRange qi \<noteq> None \<Longrightarrow> keeps (upload_frame object h) (UploadPartCopy b (Scratch_marker h) qi)"
    "qi_CopySourceRange qi = None \<Longrightarrow> keeps (link_frame object h) (UploadPartCopy b (Scratch_marker h) qi)"
    unfolding UploadPartCopy_def using keeps_named [OF part_copy(2)] keeps_copy_part part_copy(3) by metis+
  then have "upload_frame object h w w' \<or> link_frame object h w w'" using keepsD part_copy(1) by blast
  then show ?thesis using upload_frame_look part_copy(4) by blast
next
  case (parts lq r4 h)
  have "keeps (upload_frame object h) (ListParts b lq)"
    unfolding ListParts_def Let_def by (intro keeps_named [OF parts(2)] keeps_rules)
  then show ?thesis using keepsD parts(1,4) upload_frame_look by blast
next
  case (abort ab r5 h)
  have "keeps (upload_frame object h) (AbortMultipartUpload b ab)"
    unfolding AbortMultipartUpload_def Let_def
  proof (rule keeps_named [OF abort(2)])
    assume g: "good_object object"
    show "keeps (upload_frame object h) (seqE (liftE (check_options_unsupported b
       (no_options\<lparr>ExpectedBucketOwner := ab_ExpectedBucketOwner ab\<rparr>))) (\<lambda>_.
     serializedE object
       (seqE (check_mpul_ongoing b object (ab_UploadId ab) True) (\<lambda>mpulinfo.
        if ab_IfMatchInitiatedTime ab \<noteq> None \<and> ab_IfMatchInitiatedTime ab \<noteq> Some (Initiate_time mpulinfo)
        then failE (s3_error PreconditionFailed [] (''/'' @ object))
        else ignoreE (discard_mpul_directory b object)))))"
      by (intro keeps_rules) (use mpul_facts [OF g abort(3)] in auto)
  qed
  then show ?thesis using keepsD abort(1,4) upload_frame_look by blast
next
  case (complete_fails h mi e)
  have "on_fail (upload_frame object h) (CompleteMultipartUpload b (Scratch_marker h) mi)"
    unfolding CompleteMultipartUpload_def
    by (rule on_fail_named [OF complete_fails(2)], rule on_fail_complete) (use complete_fails(3) in simp_all)
  then show ?thesis using on_failD complete_fails(1,4) upload_frame_look by blast
qed

text \<open>
  Claim C13.  An upload is invisible until it is completed: whatever requests on it follow each
  other, in any order and however they end - its creation, parts that are uploaded or copied, lists
  of the parts, its abortion, completions that fail - the path of the object names the same file
  with the same content as before.
\<close>

theorem upload_invisible:
  assumes "rtranclp (mpul_step b object) w w'"
  shows "look (disk w') (obj_path object) = look (disk w) (obj_path object)"
  using assms by (induction rule: rtranclp_induct) (simp_all add: mpul_step_frame)

lemma example_part_step:
  assumes "example_part_run = (r, w')"
  shows "mpul_step example_bbs ''bkt/x'' mpul_world w'"
proof (rule mpul_step.part [OF assms _ example_sfx_ok])
  show "names_object ''bkt/x'' (pa_Bucket (example_part_input 3 ''u1'')) (pa_Key (example_part_input 3 ''u1''))"
    by code_simp
  have "sound mpul_fs" by code_simp
  moreover have "\<forall>p \<in> mpul_scratches ''bkt/x'' example_sfx. node_at mpul_fs p = None" by code_simp
  ultimately show "begins_mpul ''bkt/x'' example_sfx mpul_world" by (simp add: begins_mpul_def)
qed

theorem upload_invisible_witness:
  "\<exists>r w'. example_part_run = (r, w') \<and> mpul_step example_bbs ''bkt/x'' mpul_world w'
     \<and> look (disk w') (obj_path ''bkt/x'') = look mpul_fs (obj_path ''bkt/x'')"
proof -
  obtain r w' where r: "example_part_run = (r, w')" by (cases example_part_run)
  then have s: "mpul_step example_bbs ''bkt/x'' mpul_world w'" by (rule example_part_step)
  show ?thesis using upload_invisible [OF r_into_rtranclp [of "mpul_step example_bbs ''bkt/x''", OF s]] r s by auto
qed

end
