(* ===== verification/Conditional.thy ===== *)
theory Conditional
  imports Copy_object Setup_ok
begin

text \<open>
  Conditional uploads: the conditions of a PutObject are checked in the serialized region, against
  the status of the object before it.
\<close>

lemma recheck_done:
  assumes "recheck_target b location target conditions (entity, etag, stat) w = (Inr u, w')"
    "conditions \<noteq> no_conditions"
  shows "\<exists>st. stat = Some st \<and> check_conditions etag (fi_mtime st) (fi_size st) Cond_write conditions = ok ()"
proof -
  obtain r w1 where t: "tryE (fetch_object_status b target True) w = (Inr r, w1)"
    using assms by (auto simp: recheck_target_def Let_def run_seq)
  obtain e3 s3 where e: "r = Inr (e3, s3) \<or> (\<exists>x. r = Inl x)" by (cases r) auto
  show ?thesis
    using assms t e
    by (cases stat; cases r) (auto simp: recheck_target_def Let_def seqE_def [of "tryE _"] run_simple split: if_splits)
qed

text \<open>
  The ETag of a target is the one of its metainfo or the MD5 of its content; it is empty only when it
  cannot be read.
\<close>

lemma same_disk_reading [keeps_rules]:
  "keeps same_disk (sysE (os_Open path))" "keeps same_disk (sysE (json_decode dec h))"
  by (auto simp: keeps_def sysE_def os_Open_def json_decode_def same_disk_def syscall_def fs_open_def Let_def
      split: list.splits option.splits sum.splits node.splits handle.splits)

lemma same_disk_metainfo: "keeps same_disk (fetch_object_metainfo b object entity)"
  unfolding fetch_object_metainfo_def fetch_json_data_def Let_def by (intro keeps_rules)

definition etag_of_object :: "bbs \<Rightarrow> fsys \<Rightarrow> string \<Rightarrow> nat \<Rightarrow> inode \<Rightarrow> string \<Rightarrow> bool" where
  "etag_of_object b s object f x etag \<longleftrightarrow>
     etag = make_object_etag_from_md5 (md5_sum b (content_bytes b (ino_content x)))
     \<or> (\<exists>m. current_meta b s object (hash_entity_key b (look_info b f x)) = Some m \<and> etag = ETag m)"

lemma fetch_etag_done:
  assumes "fetch_object_etag b object (hash_entity_key b (look_info b f x)) w = (Inr (etag, mi), w')" "sound (disk w)"
    "look (disk w) (obj_path object) = (Some (File f), Some x)"
  shows "etag_of_object b (disk w) object f x etag"
proof -
  let ?e = "hash_entity_key b (look_info b f x)"
  have d: "disk v = disk w" if "fetch_object_metainfo b object ?e w = (r, v)" for r v
    using keepsD [OF same_disk_metainfo that] by (simp add: same_disk_def)
  consider m where "mi = Some m" "etag = ETag m" "fetch_object_metainfo b object ?e w = (Inr (Some m), w')"
    | v r md5v csum k where "fetch_object_metainfo b object ?e w = (r, v)"
        "calculate_csum2 b object [] object None v = (Inr (md5v, csum, k), w')" "etag = make_object_etag_from_md5 md5v"
    using assms(1) by (auto simp: fetch_object_etag_def Let_def runs split: option.splits)
  then show ?thesis
  proof cases
    case 1
    then show ?thesis using current_meta_done [OF 1(3) assms(2)] by (simp add: etag_of_object_def)
  next
    case 2
    have "sound (disk v)" using d [OF 2(1)] assms(2) by simp
    from csum2_done [OF 2(2) this] d [OF 2(1)] assms(3) 2(3) show ?thesis by (auto simp: etag_of_object_def)
  qed
qed

lemma lstat_reach:
  assumes "os_Lstat b path w = (Inr st, w')" "sound (disk w)"
  shows "reach (disk w) (comps path)"
proof -
  have "fs_stat b False path (disk w) = Inr (st, disk w')"
    using syscall_done [OF assms(1) [unfolded os_Lstat_def]] by simp
  then obtain q where "resolve (disk w) False path = Inr q" by (auto simp: fs_stat_def split: sum.splits)
  then show ?thesis by (rule resolve_reach [OF assms(2)])
qed

lemma fetch_target_done:
  assumes "fetch_target b target conditions w = (Inr (entity, etag, Some st), w')" "conditions \<noteq> no_conditions" "sound (disk w)"
    "good_object target"
  shows "\<exists>f x. look (disk w) (obj_path target) = (Some (File f), Some x) \<and> st = look_info b f x
    \<and> (etag = [] \<or> etag_of_object b (disk w) target f x etag)
    \<and> (faults w = [] \<longrightarrow> etag = object_etag b (disk w) target f x)"
proof -
  obtain r w1 r2 where r: "tryE (fetch_object_status b target False) w = (Inr r, w1)"
    and e: "(case r of Inl _ \<Rightarrow> ([], None) | Inr x \<Rightarrow> x) = (entity, Some st)"
    and r2: "tryE (fetch_object_etag b target entity) w1 = (Inr r2, w')" "etag = (case r2 of Inl _ \<Rightarrow> [] | Inr (etag, _) \<Rightarrow> etag)"
  proof -
    obtain r w1 where r: "tryE (fetch_object_status b target False) w = (Inr r, w1)"
      using assms(1,2) by (auto simp: fetch_target_def Let_def run_seq)
    obtain e t where e: "(case r of Inl _ \<Rightarrow> ([], None) | Inr x \<Rightarrow> x) = (e, t)"
      by (cases "case r of Inl _ \<Rightarrow> ([], None) | Inr x \<Rightarrow> x")
    obtain q v where q: "tryE (fetch_object_etag b target e) w1 = (q, v)" by (cases "tryE (fetch_object_etag b target e) w1")
    then obtain r2 where "q = Inr r2" "v = w'" "e = entity" "t = Some st" "etag = (case r2 of Inl _ \<Rightarrow> [] | Inr (etag, _) \<Rightarrow> etag)"
      using assms(1,2) r e by (cases q) (auto simp: fetch_target_def Let_def seqE_def retE_def)
    then show ?thesis using that r e q by blast
  qed
  have s: "fetch_object_status b target False w = (Inr (entity, Some st), w1)"
    using r e by (cases r) (auto simp: run_try)
  obtain f x where fx: "look (disk w) (obj_path target) = (Some (File f), Some x)" "st = look_info b f x"
    "entity = hash_entity_key b st" "disk w1 = disk w"
    using status_done [OF s assms(3)] by blast
  have "etag = [] \<or> etag_of_object b (disk w) target f x etag"
  proof (cases r2)
    case (Inl a)
    then show ?thesis using r2(2) by simp
  next
    case (Inr p)
    then obtain mi where "fetch_object_etag b target entity w1 = (Inr (etag, mi), w')"
      using r2 by (cases p) (simp add: run_try)
    from fetch_etag_done [OF this [unfolded fx(2,3)]] assms(3) fx(1,4) show ?thesis by simp
  qed
  moreover have "etag = object_etag b (disk w) target f x" if "faults w = []"
  proof -
    have "\<exists>v. os_Lstat b (make_path_of_object target No_marker) w = (Inr st, v)"
      using s by (auto simp: fetch_object_status_def Let_def runs split: if_splits)
    then have o: "reach (disk w) (obj_path target)" using lstat_reach assms(3) by blast
    have rest: "at_rest target f x w"
      using that assms(3) fx(1) o no_slash_end [OF assms(4), of No_marker] by (simp add: at_rest_def)
    have "w1 = w" using s status_ok [OF rest] by simp
    moreover have "fetch_object_etag b target entity w = (Inr (object_etag b (disk w) target f x, current_meta b (disk w) target entity), w)"
      using etag_look [OF rest reach_meta [OF assms(4) o] no_slash_end [OF assms(4), of Meta_marker]] fx(2,3) by simp
    ultimately show ?thesis using r2 by (cases r2) (auto simp: run_try)
  qed
  ultimately show ?thesis using fx by blast
qed

lemma build_object_conditions:
  assumes "build_object b sfx object u 0 op cs metainfo checksum md5v csum conditions w = (Inr stat, w')"
    "conditions \<noteq> no_conditions" "sound (disk w)" "good_object object"
  shows "\<exists>f x etag. look (disk w) (obj_path object) = (Some (File f), Some x)
    \<and> check_conditions etag (ino_mtime x) (int (length (content_bytes b (ino_content x)))) Cond_write conditions = ok ()
    \<and> (etag = [] \<or> etag_of_object b (disk w) object f x etag)
    \<and> (faults w = [] \<longrightarrow> etag = object_etag b (disk w) object f x)"
proof -
  obtain entity etag st0 w1 m p w3 where f: "fetch_target b object conditions w = (Inr (entity, etag, st0), w1)"
    and z: "serializedE object (build_serialized b sfx object u 0 op cs conditions (entity, etag, st0) m p) w3 = (Inr (), w')"
    using assms(1) unfolding build_object_def Let_def
    by (auto simp: runs split: option.splits)
  obtain v v' where v: "recheck_target b (''/'' @ object) object conditions (entity, etag, st0) v = (Inr (), v')"
    using z by (auto simp: serializedE_def build_serialized_def Let_def run_seq run_defer)
  obtain st where st: "st0 = Some st" "check_conditions etag (fi_mtime st) (fi_size st) Cond_write conditions = ok ()"
    using recheck_done [OF v assms(2)] by blast
  obtain f x where "look (disk w) (obj_path object) = (Some (File f), Some x)" "st = look_info b f x"
    "etag = [] \<or> etag_of_object b (disk w) object f x etag" "faults w = [] \<longrightarrow> etag = object_etag b (disk w) object f x"
    using fetch_target_done [OF f [unfolded st(1)] assms(2,3,4)] by blast
  then show ?thesis using st(2) by (intro exI [of _ f] exI [of _ x] exI [of _ etag]) (simp add: look_info_def)
qed

lemma etag_frame:
  assumes "look t (meta_path object) = look s (meta_path object)"
  shows "object_etag b t object f x = object_etag b s object f x"
    "etag_of_object b t object f x etag = etag_of_object b s object f x etag"
  by (simp_all add: object_etag_def etag_of_object_def current_meta_def file_content_look [OF assms])

text \<open>What the upload has done when it comes to the conditions.\<close>

lemma put_reaches_build:
  assumes "PutObject b (Scratch_marker h) q i w = (Inr out, w')" "marker_ok (Scratch_marker h)"
    "pi_Key i = Some key" "good_key key" "begins (put_name i) (Scratch_marker h) w"
    "calm {obj_path (put_name i), meta_path (put_name i)} (waits w)"
  shows "\<exists>v k m md5v csum stat v'. build_object b (Scratch_marker h) (put_name i) [] 0 BUILD_UPLOAD None m k md5v csum
        (no_conditions\<lparr>some_match := pi_IfMatch i, none_match := pi_IfNoneMatch i\<rparr>) v = (Inr stat, v')
    \<and> sound (disk v) \<and> look (disk v) (obj_path (put_name i)) = look (disk w) (obj_path (put_name i))
    \<and> look (disk v) (meta_path (put_name i)) = look (disk w) (meta_path (put_name i)) \<and> no_new_faults w v"
proof -
  let ?s = "Scratch_marker h" and ?o = "put_name i" and ?P = "{obj_path (put_name i), meta_path (put_name i)}"
  note g = PutObject_done(1) [OF assms(1-5)]
  obtain v where s: "check_usual_object_setup b (pi_Bucket i) (pi_Key i) (w\<lparr>req_header := rq_Header q\<rparr>) = (Inr ?o, v)"
    and po: "put_object b ?s q i ?o v = (Inr out, w')"
    using assms(1) run_object_setup [of b "pi_Bucket i" "pi_Key i" "w\<lparr>req_header := rq_Header q\<rparr>"]
    by (fastforce simp: PutObject_def runs put_name_def)
  have v: "disk v = disk w" "waits v = waits w" "open_inodes v = open_inodes w" using run_object_setup [OF s] by auto
  obtain md5c tc k csum0 md5v csum w1 w2 where
    u: "upload_scratch b ?s ?o q (announced i) k v = (Inr (md5v, csum), w1)"
    and p: "put_build b ?s ?o i (announced i) md5c tc k csum0 md5v csum (w1\<lparr>cleanup_needed := True\<rparr>) = (Inr out, w2)"
    using po by (auto simp: put_object_def announced_def Let_def runs split: prod.splits)
  obtain cs2 csumc w3 w4 metainfo stat where t: "put_trailer ?o tc ((pi_checksums i)\<lparr>ChecksumType := ''FULL_OBJECT''\<rparr>) csum0
        (w1\<lparr>cleanup_needed := True\<rparr>) = (Inr (cs2, csumc), w3)"
    and cc: "compare_checksums b ?o (make_scratch_object_name ?o ?s) md5v csum md5c csumc w3 = (Inr (), w4)"
    and bo: "build_object b ?s ?o [] 0 BUILD_UPLOAD None metainfo k md5v csum
        (no_conditions\<lparr>some_match := pi_IfMatch i, none_match := pi_IfNoneMatch i\<rparr>) w4 = (Inr stat, w2)"
    using p by (auto simp: put_build_def Let_def runs upload_object_def split: prod.splits)
  let ?F = "own_frame ?o ?s ?P"
  have gv: "guard {scratch_path ?o ?s, meta_scratch ?o ?s} ?P v"
    using begins_guard [OF assms(5) subset_refl assms(6)] v by (simp add: guard_def del: marker_text.simps)
  have a: "dirs_of ?o \<inter> ?P = {}" "dirs_of ?o \<inter> {scratch_path ?o ?s, meta_scratch ?o ?s} = {}"
    "scratch_path ?o ?s \<notin> ?P" "scratch_path ?o ?s \<in> {scratch_path ?o ?s, meta_scratch ?o ?s}"
    using own_dirs_apart [OF g assms(2)] own_ok_good [OF g assms(2)] by (auto simp: own_paths_def own_ok_def)
  have f1: "?F v w1" by (rule keepsD, rule keeps_upload_scratch, (rule a)+) (rule u)
  have f2: "?F w1 (w1\<lparr>cleanup_needed := True\<rparr>)" by (simp add: frame_def guard_def same_look_def)
  have f3: "?F (w1\<lparr>cleanup_needed := True\<rparr>) w3" by (rule keepsD, rule keeps_put_trailer) (rule t)
  have f4: "?F w3 w4" by (rule keepsD, rule keeps_compare) (rule cc)
  have "?F v w4" using f1 f2 f3 f4 frame.trans by blast
  then have l: "sound (disk w4)" "look (disk w4) (obj_path ?o) = look (disk w) (obj_path ?o)"
    "look (disk w4) (meta_path ?o) = look (disk w) (meta_path ?o)"
    using gv v(1) by (auto simp: frame_def same_look_def guard_def)
  have "no_new_faults (w\<lparr>req_header := rq_Header q\<rparr>) v" by (rule keepsD [OF faultless.setups(1) s])
  moreover have "no_new_faults v w1" by (rule keepsD [OF faultless.scratches(3) u])
  moreover have "w3 = w1\<lparr>cleanup_needed := True\<rparr>" using t by (auto simp: put_trailer_def runs split: if_splits prod.splits)
  moreover have "no_new_faults w3 w4" by (rule keepsD [OF faultless.fetching(15) cc])
  ultimately have "no_new_faults w w4" by (simp add: no_new_faults_def)
  then show ?thesis using bo l by blast
qed

text \<open>
  Claim C7.  A conditional upload that is answered with success has found the object: its path named
  a file when the request began, and the conditions hold of the time and the size of that file and of its
  ETag: the one in its metainfo when that is valid, or else the MD5 of its bytes.  When a system call fails
  the metainfo may be passed over, and an ETag that cannot be read at all counts as empty.
  So no conditional request makes an object, with if-none-match neither; the server panics instead when there is none.
\<close>

theorem conditional_put_checks:
  assumes "PutObject b (Scratch_marker h) q i w = (Inr out, w')" "marker_ok (Scratch_marker h)"
    "pi_Key i = Some key" "good_key key" "begins (put_name i) (Scratch_marker h) w"
    "calm {obj_path (put_name i), meta_path (put_name i)} (waits w)" "pi_IfMatch i \<noteq> None \<or> pi_IfNoneMatch i \<noteq> None"
  shows "\<exists>f x etag. look (disk w) (obj_path (put_name i)) = (Some (File f), Some x)
    \<and> check_conditions etag (ino_mtime x) (int (length (content_bytes b (ino_content x)))) Cond_write
        (no_conditions\<lparr>some_match := pi_IfMatch i, none_match := pi_IfNoneMatch i\<rparr>) = ok ()
    \<and> (etag = object_etag b (disk w) (put_name i) f x
       \<or> faults w \<noteq> [] \<and> (etag = [] \<or> etag_of_object b (disk w) (put_name i) f x etag))"
proof -
  have "no_conditions\<lparr>some_match := pi_IfMatch i, none_match := pi_IfNoneMatch i\<rparr> \<noteq> no_conditions"
    using assms(7) by (auto simp: no_conditions_def)
  moreover obtain v k m md5v csum stat v' where v: "build_object b (Scratch_marker h) (put_name i) [] 0 BUILD_UPLOAD None m k md5v csum
        (no_conditions\<lparr>some_match := pi_IfMatch i, none_match := pi_IfNoneMatch i\<rparr>) v = (Inr stat, v')"
    "sound (disk v)" "look (disk v) (obj_path (put_name i)) = look (disk w) (obj_path (put_name i))"
    "look (disk v) (meta_path (put_name i)) = look (disk w) (meta_path (put_name i))" "no_new_faults w v"
    using put_reaches_build [OF assms(1-6)] by blast
  ultimately show ?thesis
    using build_object_conditions [OF v(1) _ v(2) PutObject_done(1) [OF assms(1-5)]] v(3,5)
    unfolding etag_frame [OF v(4)] no_new_faults_def by metis
qed

text \<open>An upload with if-none-match and a star, which S3 has for making an object that is not there, never succeeds.\<close>

lemma star_never_written:
  "check_conditions etag mtime n Cond_write (no_conditions\<lparr>none_match := Some ''*''\<rparr>) = ok () \<Longrightarrow> etag = []"
proof -
  assume c: "check_conditions etag mtime n Cond_write (no_conditions\<lparr>none_match := Some ''*''\<rparr>) = ok ()"
  have s: "Scan_rfc7232_etags ''*'' = Some [''*'']" by code_simp
  show "etag = []"
  proof (rule ccontr)
    assume "etag \<noteq> []"
    then show False using c s
      by (simp add: check_conditions_def no_conditions_def scan_etags_of_def check_some_match_def check_none_match_def
          condition_error_def match_etags_is_star_def Let_def split: if_splits)
  qed
qed

definition example_create :: put_input where
  "example_create = (example_put None)\<lparr>pi_IfNoneMatch := Some ''*''\<rparr>"

text \<open>The upload of a new object on the condition that there is none panics.\<close>

lemma conditional_create_panics:
  "fst (PutObject example_bbs example_sfx example_upload example_create example_world) = Inl Panic"
  by code_simp

definition example_replace :: put_input where
  "example_replace = (example_put None)\<lparr>pi_IfMatch := Some ''*''\<rparr>"

lemma example_replace_simps:
  "put_name example_replace = ''bkt/x''" "pi_Key example_replace = Some ''x''"
  "pi_IfMatch example_replace \<noteq> None \<or> pi_IfNoneMatch example_replace \<noteq> None"
  by (simp_all add: put_name_def example_replace_def example_put_def good_key_x)

lemma example_replace_run:
  "\<exists>out w'. PutObject example_bbs example_sfx example_upload example_replace object_world = (Inr out, w')"
proof -
  have "case fst (PutObject example_bbs example_sfx example_upload example_replace object_world) of
      Inr out \<Rightarrow> True | Inl _ \<Rightarrow> False" by code_simp
  then show ?thesis
    by (cases "PutObject example_bbs example_sfx example_upload example_replace object_world") (auto split: sum.splits)
qed

lemma object_world_calls: "waits object_world = []" "faults object_world = []"
  by code_simp+

text \<open>The object is there, and its ETag, the MD5 of its content, is what the star is compared with.\<close>

theorem conditional_put_checks_witness:
  "\<exists>out w' f x. PutObject example_bbs example_sfx example_upload example_replace object_world = (Inr out, w')
     \<and> look object_fs (obj_path ''bkt/x'') = (Some (File f), Some x)
     \<and> check_conditions (object_etag example_bbs object_fs ''bkt/x'' f x) (ino_mtime x)
         (int (length (content_bytes example_bbs (ino_content x)))) Cond_write (no_conditions\<lparr>some_match := Some ''*''\<rparr>) = ok ()"
proof -
  obtain out w' where r: "PutObject example_bbs example_sfx example_upload example_replace object_world = (Inr out, w')"
    using example_replace_run by blast
  have c: "calm {obj_path (put_name example_replace), meta_path (put_name example_replace)} (waits object_world)"
    by (simp add: object_world_calls)
  have i: "no_conditions\<lparr>some_match := pi_IfMatch example_replace, none_match := pi_IfNoneMatch example_replace\<rparr>
      = no_conditions\<lparr>some_match := Some ''*''\<rparr>"
    by (simp add: example_replace_def example_put_def no_conditions_def)
  from conditional_put_checks [OF r example_sfx_ok example_replace_simps(2) good_key_x(1) _ c example_replace_simps(3)]
    object_begins r show ?thesis
    unfolding example_replace_simps(1) object_world_simps object_world_calls i by blast
qed

end
