(* ===== verification/Http.thy ===== *)
theory Http
  imports Chunked Url
begin

text \<open>
  Requests and headers as Go's package net/http gives them to the server.  A header is a list
  of canonical keys with their values.
\<close>

section \<open>Headers\<close>

type_synonym header = "(string \<times> string list) list"

text \<open>http.CanonicalHeaderKey: a key with a character that is not of a token stays as it is.\<close>

definition CanonicalHeaderKey :: "string \<Rightarrow> string" where
  "CanonicalHeaderKey k = (if list_all token_char k then canonical_key k else k)"

definition header_Values :: "header \<Rightarrow> string \<Rightarrow> string list" where
  "header_Values h k = (case map_of h (CanonicalHeaderKey k) of None \<Rightarrow> [] | Some vs \<Rightarrow> vs)"

definition header_Get :: "header \<Rightarrow> string \<Rightarrow> string" where
  "header_Get h k = (case header_Values h k of [] \<Rightarrow> [] | v # _ \<Rightarrow> v)"

definition header_Set :: "string \<Rightarrow> string \<Rightarrow> header \<Rightarrow> header" where
  "header_Set k v h = set_header (CanonicalHeaderKey k) [v] h"

definition header_Add :: "string \<Rightarrow> string \<Rightarrow> header \<Rightarrow> header" where
  "header_Add k v h = set_header (CanonicalHeaderKey k) (header_Values h k @ [v]) h"

definition header_Del :: "string \<Rightarrow> header \<Rightarrow> header" where
  "header_Del k h = filter (\<lambda>(k', _). k' \<noteq> CanonicalHeaderKey k) h"

lemma map_of_filter_key:
  "map_of (filter (\<lambda>(k', _). P k') h) k = (if P k then map_of h k else None)"
  by (induction h) auto

lemma map_of_set_header: "map_of (set_header k v h) k' = (if k' = k then Some v else map_of h k')"
  by (auto simp: set_header_def map_of_filter_key [of "\<lambda>x. x \<noteq> k"])

lemma header_Values_Set:
  "header_Values (header_Set k v h) k' =
     (if CanonicalHeaderKey k' = CanonicalHeaderKey k then [v] else header_Values h k')"
  by (simp add: header_Values_def header_Set_def map_of_set_header)

lemma header_Get_Set [simp]: "header_Get (header_Set k v h) k = v"
  by (simp add: header_Get_def header_Values_Set)

lemma header_Values_Add:
  "header_Values (header_Add k v h) k' =
     (if CanonicalHeaderKey k' = CanonicalHeaderKey k then header_Values h k @ [v] else header_Values h k')"
  by (simp add: header_Values_def header_Add_def map_of_set_header)

lemma header_Values_Del:
  "header_Values (header_Del k h) k' =
     (if CanonicalHeaderKey k' = CanonicalHeaderKey k then [] else header_Values h k')"
  by (simp add: header_Values_def header_Del_def map_of_filter_key [of "\<lambda>x. x \<noteq> CanonicalHeaderKey k"])

section \<open>Requests\<close>

text \<open>
  The slots of http.Request the server reads.  Path is the decoded path of the URL and RawPath
  the text it came from when that is not the usual encoding.
\<close>

record request =
  rq_Method :: string
  rq_Path :: string
  rq_RawPath :: string
  rq_RawQuery :: string
  rq_Host :: string
  rq_message :: http_request

abbreviation rq_headers :: "request \<Rightarrow> header" where
  "rq_headers q \<equiv> rq_Header (rq_message q)"

definition with_headers :: "(header \<Rightarrow> header) \<Rightarrow> request \<Rightarrow> request" where
  "with_headers f q = q\<lparr>rq_message := (rq_message q)\<lparr>rq_Header := f (rq_headers q)\<rparr>\<rparr>"

text \<open>r.URL.Query(): an entry that does not decode is dropped.\<close>

fun query_of :: "string list \<Rightarrow> (string \<times> string list) list \<Rightarrow> (string \<times> string list) list" where
  "query_of [] m = m"
| "query_of (e # es) m = (case query_entry e m of None \<Rightarrow> query_of es m | Some m' \<Rightarrow> query_of es m')"

definition url_Query :: "request \<Rightarrow> (string \<times> string list) list" where
  "url_Query q = query_of (split_on (CHR ''&'') (rq_RawQuery q)) []"

definition query_Has :: "request \<Rightarrow> string \<Rightarrow> bool" where
  "query_Has q k \<longleftrightarrow> map_of (url_Query q) k \<noteq> None"

definition query_Get :: "request \<Rightarrow> string \<Rightarrow> string" where
  "query_Get q k = (case map_of (url_Query q) k of Some (v # _) \<Rightarrow> v | _ \<Rightarrow> [])"

section \<open>The path of a request\<close>

text \<open>The characters of a path that net/url leaves as they are.\<close>

definition path_char :: "char \<Rightarrow> bool" where
  "path_char c \<longleftrightarrow> unreserved c
     \<or> c \<in> {CHR ''$'', CHR ''&'', CHR ''+'', CHR '','', CHR ''/'', CHR '':'', CHR '';'', CHR ''='', CHR ''@''}"

definition path_escape :: "string \<Rightarrow> string" where
  "path_escape s =
     concat (map (\<lambda>c. if path_char c then [c]
                      else [CHR ''%'', upper_hex (of_char c div 16), upper_hex (of_char c mod 16)]) s)"

definition valid_encoded :: "string \<Rightarrow> bool" where
  "valid_encoded s =
     list_all (\<lambda>c. path_char c \<or> c \<in> {CHR ''!'', CHR 0x27, CHR ''('', CHR '')'', CHR ''*'', CHR ''['',
                 CHR '']'', CHR ''%''}) s"

text \<open>URL.EscapedPath.\<close>

definition EscapedPath :: "request \<Rightarrow> string" where
  "EscapedPath q =
     (if rq_RawPath q \<noteq> [] \<and> valid_encoded (rq_RawPath q) \<and> unescape False (rq_RawPath q) = Some (rq_Path q)
      then rq_RawPath q
      else if rq_Path q = ''*'' then ''*''
      else path_escape (rq_Path q))"

lemma unescape_append:
  "unescape m s = Some s' \<Longrightarrow> unescape m (s @ t) = map_option ((@) s') (unescape m t)"
proof (induction m s arbitrary: s' rule: unescape.induct)
  case (1 m)
  then show ?case by (cases "unescape m t") auto
next
  case (2 m c s)
  then show ?case
    by (cases "unescape m t") (auto split: if_splits list.splits option.splits)
qed

lemma path_escape_Cons: "path_escape (c # s) = path_escape [c] @ path_escape s"
  by (simp add: path_escape_def)

lemma unescape_path_escape1: "unescape False (path_escape [c]) = Some [c]"
proof -
  have u: "path_char c \<Longrightarrow> c \<noteq> CHR ''%''"
    by (auto simp: path_char_def unreserved_def is_lower_def is_digit_def)
  have lt: "(of_char c :: nat) div 16 < 16" "(of_char c :: nat) mod 16 < 16"
    using nat_of_char_less_256 [of c] by (simp_all add: less_mult_imp_div_less)
  have "char_of (16 * (of_char c div 16 :: nat) + of_char c mod 16) = c" by simp
  then show ?thesis using u hex_val_upper [OF lt(1)] hex_val_upper [OF lt(2)]
    by (auto simp: path_escape_def)
qed

lemma unescape_path_escape [simp]: "unescape False (path_escape s) = Some s"
proof (induction s)
  case Nil
  then show ?case by (simp add: path_escape_def)
next
  case (Cons c s)
  then show ?case
    unfolding path_escape_Cons [of c s] by (simp add: unescape_append [OF unescape_path_escape1])
qed

lemma unescape_EscapedPath: "unescape False (EscapedPath q) = Some (rq_Path q)"
  by (simp add: EscapedPath_def unescape_plain)

end
