(* ===== verification/Signing.thy ===== *)
theory Signing
  imports Http Gotime
begin

text \<open>
  The authorization of requests: pkg/awss3aide/aws-s3-signing.go.  The signer of the AWS SDK,
  SignHTTP, is an argument: for a key pair, a request, a hash, a service, a region and a date
  it returns the header with the authorization set, or None for an error.
\<close>

section \<open>The Authorization header\<close>

record authorization_s3v4 =
  Credential :: "string list"
  SignedHeaders :: "string list"
  Signature :: string

definition required_headers :: "string list" where
  "required_headers = [''Host'', ''X-Amz-Content-Sha256'', ''X-Amz-Date'']"

definition aws_s3v4_authorization :: string where
  "aws_s3v4_authorization = ''AWS4-HMAC-SHA256''"

definition check_all_digits :: "string \<Rightarrow> bool" where
  "check_all_digits s \<longleftrightarrow> s \<noteq> [] \<and> list_all is_digit s"

text \<open>The loop that collects the entries: those that are not of the form key=value are skipped.\<close>

fun auth_entries :: "string list \<Rightarrow> (string \<times> string) list" where
  "auth_entries [] = []"
| "auth_entries (s1 # ss) =
     (case cut_at (CHR ''='') (trim_space s1) of
        Some (k, v) \<Rightarrow> if 0 < length k \<and> 0 < length v then (k, v) # auth_entries ss else auth_entries ss
      | None \<Rightarrow> auth_entries ss)"

definition scan_credential :: "string \<Rightarrow> string list option" where
  "scan_credential v =
     (let cred = split_on slash v in
      if length cred \<noteq> 5 then None
      else if \<not> (length (cred ! 1) = 8 \<and> check_all_digits (cred ! 1)) then None
      else if cred ! 3 \<noteq> ''s3'' then None
      else if cred ! 4 \<noteq> ''aws4_request'' then None
      else Some cred)"

definition scan_signed_headers :: "string \<Rightarrow> string list option" where
  "scan_signed_headers v =
     (let headers = map CanonicalHeaderKey (split_on (CHR '';'') v) in
      if list_all (\<lambda>h2. h2 \<in> set headers) required_headers then Some headers else None)"

text \<open>The loop over the entries, with the three variables it sets; a repeated entry overwrites.\<close>

type_synonym auth_slots = "string list option \<times> string list option \<times> string"

fun scan_auth_slots :: "(string \<times> string) list \<Rightarrow> auth_slots \<Rightarrow> auth_slots option" where
  "scan_auth_slots [] x = Some x"
| "scan_auth_slots ((k, v) # kvs) (credential, signedheaders, signature) =
     (if k = ''Credential'' then
        (case scan_credential v of
           None \<Rightarrow> None
         | Some c \<Rightarrow> scan_auth_slots kvs (Some c, signedheaders, signature))
      else if k = ''SignedHeaders'' then
        (case scan_signed_headers v of
           None \<Rightarrow> None
         | Some h \<Rightarrow> scan_auth_slots kvs (credential, Some h, signature))
      else if k = ''Signature'' then scan_auth_slots kvs (credential, signedheaders, v)
      else None)"

definition Scan_aws_authorization :: "string \<Rightarrow> authorization_s3v4 option" where
  "Scan_aws_authorization auth =
     (if \<not> has_prefix auth aws_s3v4_authorization then None
      else (let auth3 = trim_space (trim_prefix auth aws_s3v4_authorization);
                entries = auth_entries (split_on (CHR '','') auth3)
            in if length entries \<noteq> 3 then None
               else case scan_auth_slots entries (None, None, []) of
                      Some (Some c, Some h, s) \<Rightarrow>
                        if s = [] then None
                        else Some \<lparr>Credential = c, SignedHeaders = h, Signature = s\<rparr>
                    | _ \<Rightarrow> None))"

section \<open>Checking a request\<close>

datatype sign_error =
  E_no_auth | E_bad_auth | E_bad_date | E_outdated_date | E_wrong_key | E_cannot_sign | E_bad_sign

definition empty_payload_hash_sha256 :: string where
  "empty_payload_hash_sha256 =
     ''e3b0c44298fc1c149afbf4c8996fb92427ae41e4649b934ca495991b7852b855''"

definition aws_s3_region_default :: string where
  "aws_s3_region_default = ''us-east-1''"

definition excluded_headers :: "string list" where
  "excluded_headers = [''Amz-Sdk-Invocation-Id'', ''Amz-Sdk-Request'']"

type_synonym keypair = "string \<times> string"

type_synonym signer = "keypair \<Rightarrow> request \<Rightarrow> string \<Rightarrow> string \<Rightarrow> string \<Rightarrow> time \<Rightarrow> header option"

text \<open>The copy of the request that is signed: only the signed headers are kept.\<close>

definition signed_copy :: "authorization_s3v4 \<Rightarrow> request \<Rightarrow> request" where
  "signed_copy auth rqst1 =
     (let rqst2 = with_headers (filter (\<lambda>(k, v). k \<in> set (SignedHeaders auth))) rqst1;
          rqst3 = (if ''Content-Length'' \<notin> set (SignedHeaders auth)
                   then rqst2\<lparr>rq_message := (rq_message rqst2)\<lparr>rq_ContentLength := - 1\<rparr>\<rparr> else rqst2)
      in if rq_Host rqst3 = [] then rqst3\<lparr>rq_Host := header_Get (rq_headers rqst1) ''X-Forwarded-Host''\<rparr>
         else rqst3)"

text \<open>Time.Sub saturates, and so does Duration.Abs.\<close>

definition time_Sub :: "time \<Rightarrow> time \<Rightarrow> int" where
  "time_Sub t u = max (- (2 ^ 63)) (min (2 ^ 63 - 1) (t - u))"

definition duration_Abs :: "int \<Rightarrow> int" where
  "duration_Abs d = (if d = - (2 ^ 63) then 2 ^ 63 - 1 else \<bar>d\<bar>)"

text \<open>The hash announced in the header.\<close>

definition payload_hash :: "request \<Rightarrow> string" where
  "payload_hash q =
     (let hash = header_Get (rq_headers q) ''X-Amz-Content-Sha256''
      in if hash = [] then empty_payload_hash_sha256 else hash)"

definition check_signature ::
  "signer \<Rightarrow> request \<Rightarrow> keypair \<Rightarrow> authorization_s3v4 \<Rightarrow> time \<Rightarrow> sign_error option" where
  "check_signature sign rqst1 keypair auth_passed date =
     (let rqst2 = signed_copy auth_passed rqst1 in
      case sign keypair rqst2 (payload_hash rqst2) (Credential auth_passed ! 3) (Credential auth_passed ! 2) date of
        None \<Rightarrow> Some E_cannot_sign
      | Some h \<Rightarrow>
          (case Scan_aws_authorization (header_Get h ''Authorization'') of
             None \<Rightarrow> Some E_bad_auth
           | Some auth_forged \<Rightarrow>
               if Signature auth_passed = Signature auth_forged then None else Some E_bad_sign))"

text \<open>The access key found, empty when there is none, and the reason of a failure.\<close>

definition Check_credential ::
  "signer \<Rightarrow> time \<Rightarrow> request \<Rightarrow> keypair \<Rightarrow> int \<Rightarrow> string \<times> sign_error option" where
  "Check_credential sign now rqst1 keypair timewindow =
     (let header1 = header_Get (rq_headers rqst1) ''Authorization'' in
      if header1 = [] then ([], Some E_no_auth)
      else case Scan_aws_authorization header1 of
        None \<Rightarrow> ([], Some E_bad_auth)
      | Some auth_passed \<Rightarrow>
          (let access_key = Credential auth_passed ! 0 in
           if access_key \<noteq> fst keypair then (access_key, Some E_wrong_key)
           else case parse_x_amz_date (header_Get (rq_headers rqst1) ''X-Amz-Date'') of
             None \<Rightarrow> (access_key, Some E_bad_date)
           | Some date \<Rightarrow>
               if \<not> duration_Abs (time_Sub now date) \<le> timewindow then (access_key, Some E_outdated_date)
               else (access_key, check_signature sign rqst1 keypair auth_passed date)))"

text \<open>The client side: the request with its authorization replaced, or None for an error.\<close>

definition Sign_by_credential ::
  "signer \<Rightarrow> time \<Rightarrow> request \<Rightarrow> string \<Rightarrow> keypair \<Rightarrow> request option" where
  "Sign_by_credential sign now r host keypair =
     (let r2 = (with_headers (fold header_Del excluded_headers) r)\<lparr>rq_Host := host\<rparr>
      in map_option (\<lambda>h. with_headers (\<lambda>_. h) r2)
           (sign keypair r2 (payload_hash r2) ''s3'' aws_s3_region_default now))"

text \<open>Not used by the server: the date with its separators.\<close>

definition adjust_x_amz_date :: "string \<Rightarrow> string" where
  "adjust_x_amz_date d =
     (if length d \<noteq> 16 then []
      else take 4 d @ ''-'' @ take 2 (drop 4 d) @ ''-'' @ take 5 (drop 6 d) @ '':''
           @ take 2 (drop 11 d) @ '':'' @ drop 13 d)"

section \<open>Printing and scanning\<close>

definition print_authorization :: "authorization_s3v4 \<Rightarrow> string" where
  "print_authorization a =
     aws_s3v4_authorization @ CHR '' '' # join_with (CHR '','')
       [''Credential='' @ join_with slash (Credential a),
        '' SignedHeaders='' @ join_with (CHR '';'') (SignedHeaders a),
        '' Signature='' @ Signature a]"

definition auth_char :: "char \<Rightarrow> bool" where
  "auth_char c \<longleftrightarrow> graphic c \<and> c \<notin> {slash, CHR '','', CHR '';''}"

text \<open>Slots that can be printed and told apart again.\<close>

definition auth_text_ok :: "authorization_s3v4 \<Rightarrow> bool" where
  "auth_text_ok a \<longleftrightarrow>
     length (Credential a) = 5 \<and> list_all (list_all auth_char) (Credential a)
     \<and> length (Credential a ! 1) = 8 \<and> list_all is_digit (Credential a ! 1)
     \<and> Credential a ! 3 = ''s3'' \<and> Credential a ! 4 = ''aws4_request''
     \<and> SignedHeaders a \<noteq> [] \<and> list_all (\<lambda>h. list_all auth_char h \<and> h \<noteq> []) (SignedHeaders a)
     \<and> Signature a \<noteq> [] \<and> list_all auth_char (Signature a)"

definition auth_ok :: "authorization_s3v4 \<Rightarrow> bool" where
  "auth_ok a \<longleftrightarrow>
     auth_text_ok a \<and> list_all (\<lambda>h. CanonicalHeaderKey h = h) (SignedHeaders a)
     \<and> set required_headers \<subseteq> set (SignedHeaders a)"

lemma auth_char_graphic: "auth_char c \<Longrightarrow> graphic c"
  by (simp add: auth_char_def)

lemma auth_char_not: "\<not> auth_char (CHR '','')" "\<not> auth_char slash" "\<not> auth_char (CHR '';'')"
  by (simp_all add: auth_char_def)

lemma join_auth_char:
  assumes "list_all (list_all auth_char) ps" "x \<in> set (join_with c ps)"
  shows "x = c \<or> auth_char x"
proof -
  have "x \<in> insert c (\<Union>p \<in> set ps. set p)" by (rule subsetD [OF set_join_with assms(2)])
  then show ?thesis using assms(1) by (auto simp: list_all_iff)
qed

lemma join_no_comma:
  assumes "list_all (list_all auth_char) ps" "c \<noteq> CHR '',''"
  shows "CHR '','' \<notin> set (join_with c ps)"
  using join_auth_char [OF assms(1), of "CHR '',''" c] assms(2) auth_char_not(1) by fast

lemma trim_runes_space: "trim_runes space_runes (CHR '' '' # s) = trim_runes space_runes s"
proof -
  have "find (\<lambda>p. p \<noteq> [] \<and> prefix p (CHR '' '' # s)) space_runes = Some [CHR '' '']"
    by (simp add: space_runes_def)
  then show ?thesis by (subst trim_runes.simps) simp
qed

lemma trim_space_space: "trim_space (CHR '' '' # s) = trim_space s"
  by (simp add: trim_space_def trim_runes_space)

text \<open>One entry of the header, with or without a space before it.\<close>

lemma auth_entries_entry:
  assumes "k \<noteq> []" "\<forall>c \<in> set k. graphic c \<and> c \<noteq> CHR ''=''" "v \<noteq> []" "graphic (last v)"
  shows "auth_entries ((k @ CHR ''='' # v) # es) = (k, v) # auth_entries es"
    "auth_entries ((CHR '' '' # k @ CHR ''='' # v) # es) = (k, v) # auth_entries es"
proof -
  have "trim_space (k @ CHR ''='' # v) = k @ CHR ''='' # v"
    using assms by (intro trim_space_keep) (auto simp: hd_append)
  moreover have "cut_at (CHR ''='') (k @ CHR ''='' # v) = Some (k, v)"
    using assms(2) by (intro cut_at_append) auto
  ultimately show "auth_entries ((k @ CHR ''='' # v) # es) = (k, v) # auth_entries es"
    "auth_entries ((CHR '' '' # k @ CHR ''='' # v) # es) = (k, v) # auth_entries es"
    using assms(1,3) by (simp_all add: trim_space_space)
qed

lemma join_with_last:
  "ps \<noteq> [] \<Longrightarrow> last ps \<noteq> [] \<Longrightarrow> join_with c ps \<noteq> [] \<and> last (join_with c ps) = last (last ps)"
  by (induction c ps rule: join_with.induct) (auto split: if_splits)

lemma last_graphic: "list_all auth_char s \<Longrightarrow> s \<noteq> [] \<Longrightarrow> graphic (last s)"
  by (auto simp: list_all_iff auth_char_def)

lemma scan_credential_join:
  assumes "auth_text_ok a"
  shows "scan_credential (join_with slash (Credential a)) = Some (Credential a)"
proof -
  have "\<forall>p \<in> set (Credential a). slash \<notin> set p"
    using assms auth_char_not(2) by (auto simp: auth_text_ok_def list_all_iff)
  then have "split_on slash (join_with slash (Credential a)) = Credential a"
    using assms by (intro split_join) (auto simp: auth_text_ok_def)
  moreover have "Credential a ! 1 \<noteq> []" using assms by (auto simp: auth_text_ok_def)
  ultimately show ?thesis using assms by (simp add: scan_credential_def auth_text_ok_def check_all_digits_def)
qed

lemma scan_signed_headers_join:
  assumes "auth_text_ok a"
  shows "scan_signed_headers (join_with (CHR '';'') (SignedHeaders a)) =
    (if set required_headers \<subseteq> set (map CanonicalHeaderKey (SignedHeaders a))
     then Some (map CanonicalHeaderKey (SignedHeaders a)) else None)"
proof -
  have "\<forall>p \<in> set (SignedHeaders a). CHR '';'' \<notin> set p" "SignedHeaders a \<noteq> []"
    using assms auth_char_not(3) by (auto simp: auth_text_ok_def list_all_iff)
  then have "split_on (CHR '';'') (join_with (CHR '';'') (SignedHeaders a)) = SignedHeaders a"
    by (intro split_join) auto
  then show ?thesis by (auto simp: scan_signed_headers_def list_all_iff)
qed

lemma auth_ok_parts:
  assumes "auth_text_ok a"
  shows "join_with slash (Credential a) \<noteq> [] \<and> graphic (last (join_with slash (Credential a)))"
    "join_with (CHR '';'') (SignedHeaders a) \<noteq> [] \<and> graphic (last (join_with (CHR '';'') (SignedHeaders a)))"
proof -
  have "Credential a \<noteq> []" using assms by (auto simp: auth_text_ok_def)
  moreover from this have "last (Credential a) = ''aws4_request''"
    using assms by (simp add: auth_text_ok_def last_conv_nth)
  ultimately have c: "Credential a \<noteq> []" "last (Credential a) = ''aws4_request''" by simp_all
  then show "join_with slash (Credential a) \<noteq> [] \<and> graphic (last (join_with slash (Credential a)))"
    using join_with_last [of "Credential a" slash] by (simp add: graphic_def)
  have h: "SignedHeaders a \<noteq> []" using assms by (simp add: auth_text_ok_def)
  then have "last (SignedHeaders a) \<in> set (SignedHeaders a)" by simp
  then have l: "last (SignedHeaders a) \<noteq> []" "list_all auth_char (last (SignedHeaders a))"
    using assms by (auto simp: auth_text_ok_def list_all_iff)
  then show "join_with (CHR '';'') (SignedHeaders a) \<noteq> [] \<and> graphic (last (join_with (CHR '';'') (SignedHeaders a)))"
    using join_with_last [OF h l(1)] last_graphic [OF l(2,1)] by simp
qed

lemma print_entries:
  assumes "auth_text_ok a"
  defines "es \<equiv> [''Credential='' @ join_with slash (Credential a),
     '' SignedHeaders='' @ join_with (CHR '';'') (SignedHeaders a), '' Signature='' @ Signature a]"
  shows "split_on (CHR '','') (join_with (CHR '','') es) = es"
    "auth_entries es = [(''Credential'', join_with slash (Credential a)),
       (''SignedHeaders'', join_with (CHR '';'') (SignedHeaders a)), (''Signature'', Signature a)]"
proof -
  have l: "list_all (list_all auth_char) (Credential a)" "list_all (list_all auth_char) (SignedHeaders a)"
    using assms(1) by (auto simp: auth_text_ok_def list_all_iff)
  have "CHR '','' \<notin> set (Signature a)"
    using assms(1) auth_char_not(1) by (auto simp: auth_text_ok_def list_all_iff)
  then show "split_on (CHR '','') (join_with (CHR '','') es) = es"
    using join_no_comma [OF l(1)] join_no_comma [OF l(2)] unfolding es_def
    by (intro split_join) auto
  have s: "Signature a \<noteq> []" "graphic (last (Signature a))"
    using assms(1) last_graphic by (auto simp: auth_text_ok_def)
  show "auth_entries es = [(''Credential'', join_with slash (Credential a)),
       (''SignedHeaders'', join_with (CHR '';'') (SignedHeaders a)), (''Signature'', Signature a)]"
    using auth_entries_entry(1) [of "''Credential''" "join_with slash (Credential a)"]
      auth_entries_entry(2) [of "''SignedHeaders''" "join_with (CHR '';'') (SignedHeaders a)"]
      auth_entries_entry(2) [of "''Signature''" "Signature a" "[]"] auth_ok_parts [OF assms(1)] s
    unfolding es_def by (simp add: graphic_def)
qed

lemma scan_print_authorization:
  assumes "auth_text_ok a"
  shows "Scan_aws_authorization (print_authorization a) =
    (if set required_headers \<subseteq> set (map CanonicalHeaderKey (SignedHeaders a))
     then Some (a\<lparr>SignedHeaders := map CanonicalHeaderKey (SignedHeaders a)\<rparr>) else None)"
proof -
  let ?es = "[''Credential='' @ join_with slash (Credential a),
     '' SignedHeaders='' @ join_with (CHR '';'') (SignedHeaders a), '' Signature='' @ Signature a]"
  let ?t = "join_with (CHR '','') ?es"
  have s: "Signature a \<noteq> []" "graphic (last (Signature a))"
    using assms last_graphic by (auto simp: auth_text_ok_def)
  then have "hd ?t = CHR ''C''" "graphic (last ?t)" by simp_all
  then have "trim_space ?t = ?t" by (intro trim_space_keep) (simp add: graphic_def)
  moreover have "has_prefix (print_authorization a) aws_s3v4_authorization"
    "trim_prefix (print_authorization a) aws_s3v4_authorization = CHR '' '' # ?t"
    by (simp_all add: print_authorization_def go_str del: join_with.simps)
  ultimately show ?thesis
    using print_entries [OF assms] scan_credential_join [OF assms] scan_signed_headers_join [OF assms] s
    by (simp add: Scan_aws_authorization_def trim_space_space del: join_with.simps)
qed

lemma scan_print_canonical:
  assumes "auth_ok a"
  shows "Scan_aws_authorization (print_authorization a) = Some a"
proof -
  have "map CanonicalHeaderKey (SignedHeaders a) = SignedHeaders a"
    using assms by (intro map_idI) (auto simp: auth_ok_def list_all_iff)
  then show ?thesis using assms by (simp add: scan_print_authorization auth_ok_def)
qed

text \<open>Scanning a printed authorization gives it back.\<close>

theorem authorization_roundtrip:
  "auth_ok a \<Longrightarrow> Scan_aws_authorization (print_authorization a) = Some a"
  by (rule scan_print_canonical)

definition example_authorization :: authorization_s3v4 where
  "example_authorization =
     \<lparr>Credential = [''key'', ''20240511'', ''us-east-1'', ''s3'', ''aws4_request''],
      SignedHeaders = [''Host'', ''X-Amz-Content-Sha256'', ''X-Amz-Date''], Signature = ''abc''\<rparr>"

lemma example_authorization_ok: "auth_ok example_authorization"
  by code_simp

theorem authorization_roundtrip_witness:
  "Scan_aws_authorization (print_authorization example_authorization) = Some example_authorization"
  by (rule authorization_roundtrip) (rule example_authorization_ok)

section \<open>What is accepted\<close>

lemma check_signature_ok:
  "check_signature sign q kp auth date = None \<longleftrightarrow>
     (\<exists>h forged. sign kp (signed_copy auth q) (payload_hash (signed_copy auth q))
          (Credential auth ! 3) (Credential auth ! 2) date = Some h
        \<and> Scan_aws_authorization (header_Get h ''Authorization'') = Some forged
        \<and> Signature forged = Signature auth)"
  by (auto simp: check_signature_def Let_def split: option.splits)

lemma Scan_empty [simp]: "Scan_aws_authorization [] = None"
  by (simp add: Scan_aws_authorization_def go_str aws_s3v4_authorization_def)

lemma Check_credential_iff:
  "Check_credential sign now q kp window = (key, None) \<longleftrightarrow>
     key = fst kp
     \<and> (\<exists>auth date. Scan_aws_authorization (header_Get (rq_headers q) ''Authorization'') = Some auth
          \<and> Credential auth ! 0 = fst kp
          \<and> parse_x_amz_date (header_Get (rq_headers q) ''X-Amz-Date'') = Some date
          \<and> duration_Abs (time_Sub now date) \<le> window
          \<and> check_signature sign q kp auth date = None)"
  by (cases "header_Get (rq_headers q) ''Authorization'' = []")
    (auto simp: Check_credential_def Let_def split: option.splits)

text \<open>What a scanned authorization looks like.\<close>

definition auth_form :: "authorization_s3v4 \<Rightarrow> bool" where
  "auth_form a \<longleftrightarrow>
     length (Credential a) = 5 \<and> length (Credential a ! 1) = 8 \<and> list_all is_digit (Credential a ! 1)
     \<and> Credential a ! 3 = ''s3'' \<and> Credential a ! 4 = ''aws4_request''
     \<and> set required_headers \<subseteq> set (SignedHeaders a) \<and> Signature a \<noteq> []"

lemma scan_auth_slots_form:
  assumes "scan_auth_slots kvs (c0, h0, s0) = Some (c, h, s)"
    "\<forall>x. c0 = Some x \<longrightarrow> (\<exists>v. scan_credential v = Some x)"
    "\<forall>x. h0 = Some x \<longrightarrow> (\<exists>v. scan_signed_headers v = Some x)"
  shows "(\<forall>x. c = Some x \<longrightarrow> (\<exists>v. scan_credential v = Some x))
    \<and> (\<forall>x. h = Some x \<longrightarrow> (\<exists>v. scan_signed_headers v = Some x))"
  using assms
proof (induction kvs "(c0, h0, s0)" arbitrary: c0 h0 s0 rule: scan_auth_slots.induct)
  case 1
  then show ?case by simp
next
  case (2 k v kvs credential signedheaders signature)
  then show ?case by (auto split: if_splits option.splits)
qed

lemma Scan_form: "Scan_aws_authorization s = Some a \<Longrightarrow> auth_form a"
proof -
  assume "Scan_aws_authorization s = Some a"
  then obtain es where e: "scan_auth_slots es (None, None, []) = Some (Some (Credential a), Some (SignedHeaders a), Signature a)"
    and s: "Signature a \<noteq> []"
    by (auto simp: Scan_aws_authorization_def Let_def split: if_splits option.splits)
  from scan_auth_slots_form [OF e] obtain v u where
    "scan_credential v = Some (Credential a)" "scan_signed_headers u = Some (SignedHeaders a)"
    by auto
  then show "auth_form a"
    using s by (auto simp: auth_form_def scan_credential_def scan_signed_headers_def
        check_all_digits_def Let_def list_all_iff simp flip: set_map split: if_splits)
qed

text \<open>
  A request is accepted exactly when its Authorization header has the documented form
  with the key of the server, its date is within the window, and the signature is the one the
  signer makes, with the secret of the server, of the request cut to its signed headers; these
  hold the host, the hash of the payload and the date.
\<close>

theorem check_credential_accepts:
  "(\<exists>key. Check_credential sign now q (access, secret) window = (key, None)) \<longleftrightarrow>
     (\<exists>auth date h forged.
        Scan_aws_authorization (header_Get (rq_headers q) ''Authorization'') = Some auth
        \<and> auth_form auth \<and> Credential auth ! 0 = access
        \<and> parse_x_amz_date (header_Get (rq_headers q) ''X-Amz-Date'') = Some date
        \<and> duration_Abs (time_Sub now date) \<le> window
        \<and> sign (access, secret) (signed_copy auth q) (payload_hash (signed_copy auth q)) ''s3''
             (Credential auth ! 2) date = Some h
        \<and> Scan_aws_authorization (header_Get h ''Authorization'') = Some forged
        \<and> Signature forged = Signature auth)"
proof -
  have "Credential auth ! 3 = ''s3''" "auth_form auth"
    if "Scan_aws_authorization t = Some auth" for auth t
    using Scan_form [OF that] by (simp_all add: auth_form_def)
  then show ?thesis
    unfolding Check_credential_iff check_signature_ok by (simp cong: conj_cong)
qed

text \<open>A header that is not signed has no part in the decision.\<close>

lemma filter_set_header:
  "\<not> P k \<Longrightarrow> filter (\<lambda>(k', v). P k') (set_header k v h) = filter (\<lambda>(k', v). P k') h"
  by (auto simp: set_header_def intro!: filter_cong)

lemma Check_credential_unsigned:
  assumes "Scan_aws_authorization (header_Get (rq_headers q) ''Authorization'') = Some auth"
    "CanonicalHeaderKey k \<notin> set (SignedHeaders auth)"
    "CanonicalHeaderKey k \<notin> {CanonicalHeaderKey ''Authorization'', CanonicalHeaderKey ''X-Amz-Date'',
       CanonicalHeaderKey ''X-Forwarded-Host''}"
  shows "Check_credential sign now (with_headers (header_Add k v) q) kp window
    = Check_credential sign now q kp window"
proof -
  have g: "header_Get (header_Add k v h) k' = header_Get h k'"
    if "CanonicalHeaderKey k' \<noteq> CanonicalHeaderKey k" for k' h
    using that by (simp add: header_Get_def header_Values_Add)
  have "filter (\<lambda>(k', v). k' \<in> set (SignedHeaders auth)) (header_Add k v (rq_headers q))
      = filter (\<lambda>(k', v). k' \<in> set (SignedHeaders auth)) (rq_headers q)"
    unfolding header_Add_def using assms(2) by (rule filter_set_header)
  moreover have "header_Get (header_Add k v (rq_headers q)) ''Authorization'' = header_Get (rq_headers q) ''Authorization''"
    "header_Get (header_Add k v (rq_headers q)) ''X-Amz-Date'' = header_Get (rq_headers q) ''X-Amz-Date''"
    "header_Get (header_Add k v (rq_headers q)) ''X-Forwarded-Host'' = header_Get (rq_headers q) ''X-Forwarded-Host''"
    using assms(3) by (auto intro!: g)
  moreover have "check_signature sign (with_headers (header_Add k v) q) kp auth date
      = check_signature sign q kp auth date" for date
    using calculation by (simp add: check_signature_def signed_copy_def with_headers_def Let_def)
  ultimately show ?thesis
    using assms(1) by (simp add: Check_credential_def with_headers_def Let_def split: option.split)
qed

section \<open>A client and the server\<close>

text \<open>The header of a request: every key once, a token in its canonical form.\<close>

definition header_wf :: "header \<Rightarrow> bool" where
  "header_wf h \<longleftrightarrow> distinct (map fst h)
     \<and> list_all (\<lambda>(k, _). k \<noteq> [] \<and> list_all token_char k \<and> CanonicalHeaderKey k = k) h"

text \<open>A date that the text of X-Amz-Date gives back to the second, such as one of the years of four digits.\<close>

definition x_amz_date_ok :: "time \<Rightarrow> bool" where
  "x_amz_date_ok t \<longleftrightarrow> parse_x_amz_date (format_x_amz_date t) = Some (seconds t * 1000000000)"

text \<open>
  Two requests that agree on what is signed with these headers; the length of the content counts
  only when its header is signed.
\<close>

definition same_signed :: "string list \<Rightarrow> request \<Rightarrow> request \<Rightarrow> bool" where
  "same_signed names q q' \<longleftrightarrow>
     rq_Method q' = rq_Method q \<and> rq_Path q' = rq_Path q \<and> rq_RawPath q' = rq_RawPath q
     \<and> rq_RawQuery q' = rq_RawQuery q \<and> rq_Host q' = rq_Host q
     \<and> (''Content-Length'' \<in> set names \<longrightarrow>
          rq_ContentLength (rq_message q') = rq_ContentLength (rq_message q))
     \<and> (\<forall>k \<in> set names. map_of (rq_headers q') k = map_of (rq_headers q) k)"

definition nothing_else_to_sign :: "string list \<Rightarrow> request \<Rightarrow> bool" where
  "nothing_else_to_sign names q \<longleftrightarrow>
     fst ` set (rq_headers q) \<subseteq> set names
     \<and> (''Content-Length'' \<in> set names \<or> rq_ContentLength (rq_message q) \<le> 0)"

text \<open>
  What is documented of SignHTTP, for the service s3 and a request of a well-formed header: it sets the headers
  X-Amz-Date and Authorization, and no other; the authorization has the key given, the date, the
  region and the service, and the names of the signed headers: Host and X-Amz-Date, and the header
  X-Amz-Content-Sha256 when the request has it, for it is not added.  Signing again a request
  that agrees on what was signed and has nothing else to sign gives the same authorization.
\<close>

definition signer_ok :: "signer \<Rightarrow> bool" where
  "signer_ok sign \<longleftrightarrow>
     (\<forall>access secret q hash region date h.
        header_wf (rq_headers q) \<and> list_all auth_char access \<and> list_all auth_char region \<and> x_amz_date_ok date
        \<and> sign (access, secret) q hash ''s3'' region date = Some h \<longrightarrow>
        header_wf h
        \<and> (\<forall>k. k \<noteq> ''Authorization'' \<longrightarrow> k \<noteq> ''X-Amz-Date'' \<longrightarrow> map_of h k = map_of (rq_headers q) k)
        \<and> header_Get h ''X-Amz-Date'' = format_x_amz_date date
        \<and> (\<exists>a names. header_Get h ''Authorization'' = print_authorization a
             \<and> Credential a = [access, take 8 (format_x_amz_date date), region, ''s3'', ''aws4_request'']
             \<and> list_all (\<lambda>k. k \<noteq> [] \<and> list_all token_char k) (SignedHeaders a)
             \<and> Signature a \<noteq> [] \<and> list_all auth_char (Signature a)
             \<and> names = map CanonicalHeaderKey (SignedHeaders a)
             \<and> ''Host'' \<in> set names \<and> ''X-Amz-Date'' \<in> set names
             \<and> (''X-Amz-Content-Sha256'' \<in> set names \<longleftrightarrow> map_of (rq_headers q) ''X-Amz-Content-Sha256'' \<noteq> None)
             \<and> (\<forall>q'. header_wf (rq_headers q') \<longrightarrow> same_signed names (with_headers (\<lambda>_. h) q) q'
                   \<longrightarrow> nothing_else_to_sign names q' \<longrightarrow>
                  (\<exists>h'. sign (access, secret) q' hash ''s3'' region (seconds date * 1000000000) = Some h'
                     \<and> header_Get h' ''Authorization'' = header_Get h ''Authorization''))))"

lemma signer_okD:
  assumes "signer_ok sign" "header_wf (rq_headers q)" "list_all auth_char access" "list_all auth_char region"
    "x_amz_date_ok date" "sign (access, secret) q hash ''s3'' region date = Some h"
  obtains a where "header_wf h"
    "\<And>k. k \<noteq> ''Authorization'' \<Longrightarrow> k \<noteq> ''X-Amz-Date'' \<Longrightarrow> map_of h k = map_of (rq_headers q) k"
    "header_Get h ''X-Amz-Date'' = format_x_amz_date date"
    "header_Get h ''Authorization'' = print_authorization a"
    "Credential a = [access, take 8 (format_x_amz_date date), region, ''s3'', ''aws4_request'']"
    "list_all (\<lambda>k. k \<noteq> [] \<and> list_all token_char k) (SignedHeaders a)"
    "Signature a \<noteq> []" "list_all auth_char (Signature a)"
    "''Host'' \<in> set (map CanonicalHeaderKey (SignedHeaders a))"
    "''X-Amz-Date'' \<in> set (map CanonicalHeaderKey (SignedHeaders a))"
    "''X-Amz-Content-Sha256'' \<in> set (map CanonicalHeaderKey (SignedHeaders a))
       \<longleftrightarrow> map_of (rq_headers q) ''X-Amz-Content-Sha256'' \<noteq> None"
    "\<And>q'. header_wf (rq_headers q')
       \<Longrightarrow> same_signed (map CanonicalHeaderKey (SignedHeaders a)) (with_headers (\<lambda>_. h) q) q'
       \<Longrightarrow> nothing_else_to_sign (map CanonicalHeaderKey (SignedHeaders a)) q'
       \<Longrightarrow> \<exists>h'. sign (access, secret) q' hash ''s3'' region (seconds date * 1000000000) = Some h'
            \<and> header_Get h' ''Authorization'' = header_Get h ''Authorization''"
proof -
  note s = assms(1) [unfolded signer_ok_def, rule_format, OF conjI [OF assms(2) conjI [OF assms(3)
      conjI [OF assms(4) conjI [OF assms(5,6)]]]]]
  note s1 = s [THEN conjunct1] and t = s [THEN conjunct2]
  note s2 = t [THEN conjunct1] and t = t [THEN conjunct2]
  note s3 = t [THEN conjunct1]
  obtain a names where t: "header_Get h ''Authorization'' = print_authorization a
       \<and> Credential a = [access, take 8 (format_x_amz_date date), region, ''s3'', ''aws4_request'']
       \<and> list_all (\<lambda>k. k \<noteq> [] \<and> list_all token_char k) (SignedHeaders a)
       \<and> Signature a \<noteq> [] \<and> list_all auth_char (Signature a)"
    and names: "names = map CanonicalHeaderKey (SignedHeaders a)"
    and u: "''Host'' \<in> set names" "''X-Amz-Date'' \<in> set names"
      "''X-Amz-Content-Sha256'' \<in> set names \<longleftrightarrow> map_of (rq_headers q) ''X-Amz-Content-Sha256'' \<noteq> None"
    and again: "\<forall>q'. header_wf (rq_headers q') \<longrightarrow> same_signed names (with_headers (\<lambda>_. h) q) q'
       \<longrightarrow> nothing_else_to_sign names q' \<longrightarrow>
          (\<exists>h'. sign (access, secret) q' hash ''s3'' region (seconds date * 1000000000) = Some h'
             \<and> header_Get h' ''Authorization'' = header_Get h ''Authorization'')"
    using t [THEN conjunct2] by (elim exE conjE) (rule that; (intro conjI)?; assumption)
  show ?thesis
    by (rule that [OF s1 s2 [rule_format] s3 t [THEN conjunct1] t [THEN conjunct2, THEN conjunct1]
          t [THEN conjunct2, THEN conjunct2, THEN conjunct1]
          t [THEN conjunct2, THEN conjunct2, THEN conjunct2, THEN conjunct1]
          t [THEN conjunct2, THEN conjunct2, THEN conjunct2, THEN conjunct2]
          u [unfolded names] again [unfolded names, rule_format]])
qed

text \<open>The date of the credential.\<close>

lemma get_year_digits: "get_year s = Some (y, r) \<Longrightarrow> 4 \<le> length s \<and> list_all is_digit (take 4 s) \<and> r = drop 4 s"
  by (auto simp: get_year_def split: if_splits)

lemma getnum_digits:
  assumes "getnum True s = Some (n, r)"
  shows "2 \<le> length s \<and> list_all is_digit (take 2 s) \<and> r = drop 2 s"
proof (cases s)
  case (Cons c t)
  then show ?thesis using assms by (cases t) (auto simp: getnum_def split: if_splits)
qed (use assms in \<open>simp add: getnum_def\<close>)

lemma x_amz_date_day:
  assumes "parse_x_amz_date s = Some t"
  shows "length (take 8 s) = 8 \<and> list_all is_digit (take 8 s)"
proof -
  obtain y m d s1 s2 s3 where "get_year s = Some (y, s1)" "getnum True s1 = Some (m, s2)" "getnum True s2 = Some (d, s3)"
    using assms by (auto simp: parse_x_amz_date_def bind_eq_Some_conv)
  note get_year_digits [OF this(1)] getnum_digits [OF this(2)] getnum_digits [OF this(3)]
  moreover have "take 8 s = take 4 s @ take 2 (drop 4 s) @ take 2 (drop 2 (drop 4 s))"
    by (simp add: take_add [of 4 4 s, simplified] take_add [of 2 2 "drop 4 s", simplified])
  ultimately show ?thesis by simp
qed

lemma token_auth_char: "token_char c \<Longrightarrow> auth_char c"
  by (auto simp: token_char_def auth_char_def)

text \<open>The copy that is signed again.\<close>

lemma header_wf_filter: "header_wf h \<Longrightarrow> header_wf (filter P h)"
  by (auto simp: header_wf_def list_all_iff distinct_map intro: inj_on_subset)

lemma header_wf_set:
  "header_wf h \<Longrightarrow> k \<noteq> [] \<Longrightarrow> list_all token_char k \<Longrightarrow> CanonicalHeaderKey k = k \<Longrightarrow> header_wf (set_header k v h)"
  using header_wf_filter [of h "\<lambda>(k', _). k' \<noteq> k"] by (auto simp: header_wf_def set_header_def)

lemma signed_copy_slots [simp]:
  "rq_headers (signed_copy auth q) = filter (\<lambda>(k, v). k \<in> set (SignedHeaders auth)) (rq_headers q)"
  by (simp add: signed_copy_def with_headers_def Let_def)

lemma payload_hash_signed:
  assumes "''X-Amz-Content-Sha256'' \<in> set (SignedHeaders auth)"
  shows "payload_hash (signed_copy auth q) = payload_hash q"
proof -
  have "CanonicalHeaderKey ''X-Amz-Content-Sha256'' = ''X-Amz-Content-Sha256''" by code_simp
  then have "header_Get (rq_headers (signed_copy auth q)) ''X-Amz-Content-Sha256''
      = header_Get (rq_headers q) ''X-Amz-Content-Sha256''"
    using assms by (simp add: header_Get_def header_Values_def
        map_of_filter_key [of "\<lambda>k. k \<in> set (SignedHeaders auth)"])
  then show ?thesis by (simp add: payload_hash_def Let_def)
qed

lemma same_signed_copy:
  assumes "rq_Host q \<noteq> []"
  shows "same_signed (SignedHeaders auth) q (signed_copy auth q)"
  using assms
  by (auto simp: same_signed_def signed_copy_def with_headers_def Let_def
      map_of_filter_key [of "\<lambda>k. k \<in> set (SignedHeaders auth)"])

lemma signed_copy_nothing_else: "nothing_else_to_sign (SignedHeaders auth) (signed_copy auth q)"
  by (auto simp: nothing_else_to_sign_def signed_copy_def with_headers_def Let_def)

lemma canonical_signed [simp]:
  "CanonicalHeaderKey ''Authorization'' = ''Authorization''"
  "CanonicalHeaderKey ''X-Amz-Date'' = ''X-Amz-Date''"
  "CanonicalHeaderKey ''X-Amz-Content-Sha256'' = ''X-Amz-Content-Sha256''"
  "CanonicalHeaderKey ''X-Forwarded-Host'' = ''X-Forwarded-Host''"
  by code_simp+

text \<open>Dropping the excluded headers.\<close>

lemma excluded_wf: "header_wf h \<Longrightarrow> header_wf (fold header_Del excluded_headers h)"
  by (simp add: excluded_headers_def header_Del_def header_wf_filter)

lemma excluded_keeps_hash:
  "map_of (fold header_Del excluded_headers h) ''X-Amz-Content-Sha256'' = map_of h ''X-Amz-Content-Sha256''"
proof -
  have "map_of (header_Del k h) k' = map_of h k'" if "CanonicalHeaderKey k \<noteq> k'" for k k' h
    using that by (auto simp: header_Del_def map_of_filter_key [of "\<lambda>x. x \<noteq> CanonicalHeaderKey k"])
  moreover have "CanonicalHeaderKey ''Amz-Sdk-Invocation-Id'' \<noteq> ''X-Amz-Content-Sha256''"
    "CanonicalHeaderKey ''Amz-Sdk-Request'' \<noteq> ''X-Amz-Content-Sha256''" by code_simp+
  ultimately show ?thesis by (simp add: excluded_headers_def)
qed

lemma print_authorization_nonempty: "print_authorization a \<noteq> []"
  by (simp add: print_authorization_def)

lemma signed_decided:
  assumes "signer_ok sign" "header_wf (rq_headers q)" "list_all auth_char access" "host \<noteq> []" "x_amz_date_ok sent"
    "Sign_by_credential sign sent q host (access, secret) = Some q'"
    "duration_Abs (time_Sub now (seconds sent * 1000000000)) \<le> window"
  shows "Check_credential sign now q' (access, secret) window =
    (if map_of (rq_headers q) ''X-Amz-Content-Sha256'' \<noteq> None then (access, None) else ([], Some E_bad_auth))"
proof -
  let ?r = "(with_headers (fold header_Del excluded_headers) q)\<lparr>rq_Host := host\<rparr>"
  obtain h where h: "sign (access, secret) ?r (payload_hash ?r) ''s3'' aws_s3_region_default sent = Some h"
    and q': "q' = with_headers (\<lambda>_. h) ?r"
    using assms(6) by (auto simp: Sign_by_credential_def Let_def)
  have r: "header_wf (rq_headers ?r)" using assms(2) by (simp add: with_headers_def excluded_wf)
  have region: "list_all auth_char aws_s3_region_default" by code_simp
  obtain a where a: "header_wf h"
    "\<And>k. k \<noteq> ''Authorization'' \<Longrightarrow> k \<noteq> ''X-Amz-Date'' \<Longrightarrow> map_of h k = map_of (rq_headers ?r) k"
    "header_Get h ''X-Amz-Date'' = format_x_amz_date sent"
    "header_Get h ''Authorization'' = print_authorization a"
    "Credential a = [access, take 8 (format_x_amz_date sent), aws_s3_region_default, ''s3'', ''aws4_request'']"
    "list_all (\<lambda>k. k \<noteq> [] \<and> list_all token_char k) (SignedHeaders a)"
    "Signature a \<noteq> []" "list_all auth_char (Signature a)"
    and names: "''Host'' \<in> set (map CanonicalHeaderKey (SignedHeaders a))"
    "''X-Amz-Date'' \<in> set (map CanonicalHeaderKey (SignedHeaders a))"
    "''X-Amz-Content-Sha256'' \<in> set (map CanonicalHeaderKey (SignedHeaders a))
       \<longleftrightarrow> map_of (rq_headers ?r) ''X-Amz-Content-Sha256'' \<noteq> None"
    and again: "\<And>q1. header_wf (rq_headers q1)
       \<Longrightarrow> same_signed (map CanonicalHeaderKey (SignedHeaders a)) (with_headers (\<lambda>_. h) ?r) q1
       \<Longrightarrow> nothing_else_to_sign (map CanonicalHeaderKey (SignedHeaders a)) q1
       \<Longrightarrow> \<exists>h'. sign (access, secret) q1 (payload_hash ?r) ''s3'' aws_s3_region_default (seconds sent * 1000000000) = Some h'
            \<and> header_Get h' ''Authorization'' = header_Get h ''Authorization''"
    by (rule signer_okD [OF assms(1) r assms(3) region assms(5) h]) (rule that)
  have "length (take 8 (format_x_amz_date sent)) = 8 \<and> list_all is_digit (take 8 (format_x_amz_date sent))"
    using assms(5) by (intro x_amz_date_day) (simp add: x_amz_date_ok_def)
  moreover have "list_all auth_char (take 8 (format_x_amz_date sent))"
    using calculation by (auto simp: list_all_iff auth_char_def graphic_digit is_digit_def graphic_def)
  moreover have "SignedHeaders a \<noteq> []" using names(1) by auto
  moreover have "list_all auth_char ''s3''" "list_all auth_char ''aws4_request''" by code_simp+
  moreover have "list_all (\<lambda>k. list_all auth_char k \<and> k \<noteq> []) (SignedHeaders a)"
    using a(6) by (auto simp: list_all_iff token_auth_char)
  ultimately have "auth_text_ok a" unfolding auth_text_ok_def a(5) using a(7,8) assms(3) region by simp
  note scan = scan_print_authorization [OF this]
  have hash: "map_of (rq_headers ?r) ''X-Amz-Content-Sha256'' = map_of (rq_headers q) ''X-Amz-Content-Sha256''"
    by (simp add: with_headers_def excluded_keeps_hash)
  have hq: "rq_headers q' = h" by (simp add: q' with_headers_def)
  show ?thesis
  proof (cases "map_of (rq_headers q) ''X-Amz-Content-Sha256'' = None")
    case True
    then have "\<not> set required_headers \<subseteq> set (map CanonicalHeaderKey (SignedHeaders a))"
      using names(3) unfolding hash by (simp add: required_headers_def)
    then show ?thesis
      using True a(4) scan print_authorization_nonempty [of a] by (simp add: Check_credential_def hq)
  next
    case False
    let ?a = "a\<lparr>SignedHeaders := map CanonicalHeaderKey (SignedHeaders a)\<rparr>"
    have s: "Scan_aws_authorization (header_Get h ''Authorization'') = Some ?a"
      using names False scan unfolding hash a(4) by (simp add: required_headers_def)
    have "header_Get h ''X-Amz-Content-Sha256'' = header_Get (rq_headers ?r) ''X-Amz-Content-Sha256''"
      by (simp add: header_Get_def header_Values_def a(2))
    then have p: "payload_hash (signed_copy ?a q') = payload_hash ?r"
      using names(3) False unfolding hash
      by (subst payload_hash_signed) (simp_all add: payload_hash_def hq)
    have "\<exists>h'. sign (access, secret) (signed_copy ?a q') (payload_hash ?r) ''s3'' aws_s3_region_default
            (seconds sent * 1000000000) = Some h' \<and> header_Get h' ''Authorization'' = header_Get h ''Authorization''"
    proof (rule again)
      show "header_wf (rq_headers (signed_copy ?a q'))" using a(1) by (simp add: hq header_wf_filter)
      show "same_signed (map CanonicalHeaderKey (SignedHeaders a)) (with_headers (\<lambda>_. h) ?r) (signed_copy ?a q')"
        using same_signed_copy [of q' ?a] assms(4) by (simp add: q' with_headers_def)
      show "nothing_else_to_sign (map CanonicalHeaderKey (SignedHeaders a)) (signed_copy ?a q')"
        using signed_copy_nothing_else [of ?a q'] by simp
    qed
    then have "check_signature sign q' (access, secret) ?a (seconds sent * 1000000000) = None"
      using s unfolding check_signature_ok p by (auto simp: a(5))
    then have "Check_credential sign now q' (access, secret) window = (access, None)"
      using s assms(5,7) a(3) unfolding Check_credential_iff hq by (auto simp: a(5) x_amz_date_ok_def)
    then show ?thesis using False by simp
  qed
qed

text \<open>
  Claim C35.  A request the client side signs, and that arrives within the window, is accepted by the
  server with the same key pair when it has the header X-Amz-Content-Sha256; without that header, which the
  client side does not add, it is signed and then refused as bad-auth.
\<close>

theorem signed_request_passes:
  assumes "signer_ok sign" "header_wf (rq_headers q)" "list_all auth_char access" "host \<noteq> []" "x_amz_date_ok sent"
    "Sign_by_credential sign sent q host (access, secret) = Some q'"
    "duration_Abs (time_Sub now (seconds sent * 1000000000)) \<le> window"
  shows "Check_credential sign now q' (access, secret) window =
    (if map_of (rq_headers q) ''X-Amz-Content-Sha256'' \<noteq> None then (access, None) else ([], Some E_bad_auth))"
  using assms by (rule signed_decided)

text \<open>A signer for the witnesses; its signature is no more than a length.\<close>

definition example_auth_of :: "string \<Rightarrow> request \<Rightarrow> string \<Rightarrow> string \<Rightarrow> time \<Rightarrow> authorization_s3v4" where
  "example_auth_of access q hash region date =
     \<lparr>Credential = [access, take 8 (format_x_amz_date date), region, ''s3'', ''aws4_request''],
      SignedHeaders = (if map_of (rq_headers q) ''X-Amz-Content-Sha256'' \<noteq> None then required_headers
                       else [''Host'', ''X-Amz-Date'']),
      Signature = print_nat 10 (length (rq_Method q @ rq_Path q @ rq_Host q @ hash))\<rparr>"

definition example_sign :: signer where
  "example_sign kp q hash service region date =
     Some (set_header ''Authorization'' [print_authorization (example_auth_of (fst kp) q hash region date)]
       (set_header ''X-Amz-Date'' [format_x_amz_date date] (rq_headers q)))"

lemma seconds_seconds [simp]: "seconds (seconds t * 1000000000) = seconds t"
  by (simp add: seconds_def)

lemma format_x_amz_date_seconds [simp]: "format_x_amz_date (seconds t * 1000000000) = format_x_amz_date t"
  by (simp add: format_x_amz_date_def)

lemma auth_char_digit: "is_digit c \<Longrightarrow> auth_char c"
  by (auto simp: auth_char_def graphic_digit is_digit_def)

lemma canonical_host [simp]: "CanonicalHeaderKey ''Host'' = ''Host''"
  by code_simp

lemma signed_tokens:
  "list_all token_char ''Host''" "list_all token_char ''X-Amz-Date''" "list_all token_char ''X-Amz-Content-Sha256''"
  "list_all token_char ''Authorization''"
  by code_simp+

lemma example_sign_ok: "signer_ok example_sign"
  unfolding signer_ok_def
proof (intro allI impI, elim conjE)
  fix access secret :: string and q hash region date h
  let ?a = "example_auth_of access q hash region date" and ?names = "SignedHeaders (example_auth_of access q hash region date)"
  assume wf: "header_wf (rq_headers q)" and "example_sign (access, secret) q hash ''s3'' region date = Some h"
  then have h: "h = set_header ''Authorization'' [print_authorization ?a]
        (set_header ''X-Amz-Date'' [format_x_amz_date date] (rq_headers q))"
    by (simp add: example_sign_def)
  have n: "map CanonicalHeaderKey ?names = ?names" by (simp add: example_auth_of_def required_headers_def)
  have "header_wf h" unfolding h by (intro header_wf_set wf signed_tokens) simp_all
  moreover have "\<forall>k. k \<noteq> ''Authorization'' \<longrightarrow> k \<noteq> ''X-Amz-Date'' \<longrightarrow> map_of h k = map_of (rq_headers q) k"
    by (simp add: h map_of_set_header)
  moreover have g: "header_Get h ''X-Amz-Date'' = format_x_amz_date date" "header_Get h ''Authorization'' = print_authorization ?a"
    by (simp_all add: h header_Get_def header_Values_def map_of_set_header)
  moreover have "list_all (\<lambda>k. k \<noteq> [] \<and> list_all token_char k) ?names"
    using signed_tokens by (simp add: example_auth_of_def required_headers_def)
  moreover have "Signature ?a \<noteq> []" by (simp add: example_auth_of_def)
  moreover have "list_all is_digit (Signature ?a)"
    using print_nat_digits [of 10] by (auto simp: example_auth_of_def list_all_iff)
  then have "list_all auth_char (Signature ?a)" using auth_char_digit by (simp add: list_all_iff)
  moreover have "''Host'' \<in> set ?names" "''X-Amz-Date'' \<in> set ?names"
    and sha: "''X-Amz-Content-Sha256'' \<in> set ?names \<longleftrightarrow> map_of (rq_headers q) ''X-Amz-Content-Sha256'' \<noteq> None"
    by (simp_all add: example_auth_of_def required_headers_def)
  moreover have "\<exists>h'. example_sign (access, secret) q' hash ''s3'' region (seconds date * 1000000000) = Some h'
      \<and> header_Get h' ''Authorization'' = header_Get h ''Authorization''"
    if q': "same_signed ?names (with_headers (\<lambda>_. h) q) q'" "nothing_else_to_sign ?names q'" for q'
  proof -
    have "map_of (rq_headers q') ''X-Amz-Content-Sha256'' \<noteq> None
        \<longleftrightarrow> map_of (rq_headers q) ''X-Amz-Content-Sha256'' \<noteq> None"
    proof (cases "''X-Amz-Content-Sha256'' \<in> set ?names")
      case True
      then have "map_of (rq_headers q') ''X-Amz-Content-Sha256'' = map_of h ''X-Amz-Content-Sha256''"
        using q'(1) by (simp add: same_signed_def with_headers_def)
      then show ?thesis by (simp add: h map_of_set_header)
    next
      case False
      then have "''X-Amz-Content-Sha256'' \<notin> fst ` set (rq_headers q')"
        using q'(2) by (auto simp: nothing_else_to_sign_def)
      then show ?thesis using False sha by (simp add: map_of_eq_None_iff)
    qed
    then have "example_auth_of access q' hash region (seconds date * 1000000000) = ?a"
      using q'(1) by (simp add: example_auth_of_def same_signed_def with_headers_def)
    then show ?thesis using g(2) by (simp add: example_sign_def header_Get_def header_Values_def map_of_set_header)
  qed
  ultimately show "header_wf h
      \<and> (\<forall>k. k \<noteq> ''Authorization'' \<longrightarrow> k \<noteq> ''X-Amz-Date'' \<longrightarrow> map_of h k = map_of (rq_headers q) k)
      \<and> header_Get h ''X-Amz-Date'' = format_x_amz_date date
      \<and> (\<exists>a names. header_Get h ''Authorization'' = print_authorization a
           \<and> Credential a = [access, take 8 (format_x_amz_date date), region, ''s3'', ''aws4_request'']
           \<and> list_all (\<lambda>k. k \<noteq> [] \<and> list_all token_char k) (SignedHeaders a)
           \<and> Signature a \<noteq> [] \<and> list_all auth_char (Signature a)
           \<and> names = map CanonicalHeaderKey (SignedHeaders a)
           \<and> ''Host'' \<in> set names \<and> ''X-Amz-Date'' \<in> set names
           \<and> (''X-Amz-Content-Sha256'' \<in> set names \<longleftrightarrow> map_of (rq_headers q) ''X-Amz-Content-Sha256'' \<noteq> None)
           \<and> (\<forall>q'. header_wf (rq_headers q') \<longrightarrow> same_signed names (with_headers (\<lambda>_. h) q) q'
                 \<longrightarrow> nothing_else_to_sign names q' \<longrightarrow>
                (\<exists>h'. example_sign (access, secret) q' hash ''s3'' region (seconds date * 1000000000) = Some h'
                   \<and> header_Get h' ''Authorization'' = header_Get h ''Authorization'')))"
    using n by (intro conjI exI [of _ ?a] exI [of _ ?names]) (simp_all add: example_auth_of_def)
qed

definition example_get_request :: request where
  "example_get_request =
     \<lparr>rq_Method = ''GET'', rq_Path = ''/bkt/a'', rq_RawPath = [], rq_RawQuery = [], rq_Host = [],
      rq_message = \<lparr>rq_ContentLength = 0, rq_TransferEncoding = [], rq_Trailer = False,
        rq_Header = [(''X-Amz-Content-Sha256'', [''UNSIGNED-PAYLOAD''])],
        rq_body = \<lparr>buffered = [], segs = [], ending = None\<rparr>\<rparr>\<rparr>"

lemma example_signs:
  "\<not> Option.is_none (Sign_by_credential example_sign 1369353600000000000 example_get_request ''h'' (''key'', ''pw''))"
  by code_simp

lemma example_date_ok: "x_amz_date_ok 1369353600000000000"
  by code_simp

lemma example_get_wf: "header_wf (rq_headers example_get_request)" "header_wf []" "list_all auth_char ''key''"
  by code_simp+

text \<open>The request is accepted; the same request without the hash of its payload is refused.\<close>

theorem signed_request_passes_witness:
  "\<exists>q' p'. Sign_by_credential example_sign 1369353600000000000 example_get_request ''h'' (''key'', ''pw'') = Some q'
     \<and> Check_credential example_sign 1369353601500000000 q' (''key'', ''pw'') 15000000000 = (''key'', None)
     \<and> Sign_by_credential example_sign 1369353600000000000 (with_headers (\<lambda>_. []) example_get_request) ''h'' (''key'', ''pw'') = Some p'
     \<and> Check_credential example_sign 1369353601500000000 p' (''key'', ''pw'') 15000000000 = ([], Some E_bad_auth)"
proof -
  obtain q' where q': "Sign_by_credential example_sign 1369353600000000000 example_get_request ''h'' (''key'', ''pw'') = Some q'"
    using example_signs by (auto simp: Option.is_none_def)
  obtain p' where p': "Sign_by_credential example_sign 1369353600000000000 (with_headers (\<lambda>_. []) example_get_request) ''h''
      (''key'', ''pw'') = Some p'"
    by (auto simp: Sign_by_credential_def example_sign_def Let_def)
  have w: "duration_Abs (time_Sub 1369353601500000000 (seconds 1369353600000000000 * 1000000000)) \<le> 15000000000"
    by (simp add: seconds_def time_Sub_def duration_Abs_def)
  have "header_wf (rq_headers (with_headers (\<lambda>_. []) example_get_request))"
    using example_get_wf(2) by (simp add: with_headers_def)
  from signed_request_passes [OF example_sign_ok this example_get_wf(3) _ example_date_ok p' w]
    signed_request_passes [OF example_sign_ok example_get_wf(1,3) _ example_date_ok q' w]
  show ?thesis using q' p' by (simp add: with_headers_def example_get_request_def)
qed

end
