(* ===== verification/Xml.thy ===== *)
theory Xml
  imports Http Gotime Copying Deleting
begin

text \<open>
  XML bodies: h_decode_body and the import functions of v1/server/marshaler.go.  A document is the
  tree of its elements and character data; attributes, name spaces and comments are left out.  The
  decoder of encoding/xml turns a text into a tree and is a parameter; how its Unmarshal fills the
  structures of the server from the tree is defined here.
\<close>

section \<open>Times in XML\<close>

text \<open>
  The text of a time in XML: RFC 3339 with the fraction of the second without its final
  zeros, in the zone of the server.  Reading is strict: two digits for the hour, no comma.
\<close>

definition fraction_text :: "int \<Rightarrow> string" where
  "fraction_text ns =
     (if ns = 0 then []
      else CHR ''.'' # trim_right_by (\<lambda>c. c = CHR ''0'') (pad_zero 9 (print_nat 10 (nat ns))))"

definition format_rfc3339 :: "time \<Rightarrow> string" where
  "format_rfc3339 t =
     (let (y, m, d) = civil (seconds t div 86400)
      in four y @ ''-'' @ two m @ ''-'' @ two d @ ''T'' @ clock_text (seconds t mod 86400)
         @ fraction_text (t mod 1000000000) @ ''Z'')"

definition get_offset :: "string \<Rightarrow> (int \<times> string) option" where
  "get_offset s =
     (case s of
        [] \<Rightarrow> None
      | c # r \<Rightarrow>
          if c = CHR ''Z'' then Some (0, r)
          else if c \<noteq> CHR ''+'' \<and> c \<noteq> CHR ''-'' then None
          else do {
            (h, r) \<leftarrow> getnum True r;
            r \<leftarrow> skip_char (CHR '':'') r;
            (m, r) \<leftarrow> getnum True r;
            if 24 \<le> h \<or> 60 \<le> m then None
            else Some ((if c = CHR ''-'' then - 1 else 1) * (h * 3600 + m * 60), r)
          })"

definition parse_rfc3339 :: "string \<Rightarrow> time option" where
  "parse_rfc3339 s = do {
     (y, s) \<leftarrow> get_year s;
     s \<leftarrow> skip_char (CHR ''-'') s;
     (m, s) \<leftarrow> getnum True s;
     s \<leftarrow> skip_char (CHR ''-'') s;
     (d, s) \<leftarrow> getnum True s;
     s \<leftarrow> skip_char (CHR ''T'') s;
     (c, ns, r) \<leftarrow> get_clock (skip_char (CHR '':'')) s;
     (off, r) \<leftarrow> get_offset r;
     if r \<noteq> [] \<or> getnum True s = None \<or> CHR '','' \<in> set s then None else map_option (\<lambda>t. t - off * 1000000000) (date_of y m d c ns)
   }"

lemma rfc3339_example:
  "parse_rfc3339 ''2013-05-24T01:00:00.5+01:00'' = Some 1369353600500000000"
  "format_rfc3339 1369353600000000000 = ''2013-05-24T00:00:00Z''"
  by code_simp+

section \<open>Trees\<close>

datatype xml = Elem string "xml list" | Chars string

fun named :: "string \<Rightarrow> xml \<Rightarrow> bool" where
  "named n (Elem m ks) \<longleftrightarrow> m = n"
| "named n (Chars s) \<longleftrightarrow> False"

fun kids :: "xml \<Rightarrow> xml list" where
  "kids (Elem n ks) = ks"
| "kids (Chars s) = []"

definition sons :: "string \<Rightarrow> xml \<Rightarrow> xml list" where
  "sons n x = filter (named n) (kids x)"

text \<open>The character data directly inside an element.\<close>

definition text_of :: "xml \<Rightarrow> string" where
  "text_of x = concat (map (\<lambda>k. case k of Chars s \<Rightarrow> s | Elem _ _ \<Rightarrow> []) (kids x))"

section \<open>Reading the structures\<close>

text \<open>
  A pointer to a text is nil when its element is missing; of several elements the last counts.  A
  value that does not parse is an error wherever it stands.
\<close>

datatype body_error = Body_EOF | Body_malformed | Body_base64 | Body_md5

definition string_slot :: "string \<Rightarrow> xml \<Rightarrow> string option" where
  "string_slot n x = (case rev (sons n x) of [] \<Rightarrow> None | k # _ \<Rightarrow> Some (text_of k))"

fun last_value :: "(string \<Rightarrow> 'a option) \<Rightarrow> xml list \<Rightarrow> 'a option \<Rightarrow> 'a option option" where
  "last_value f [] v = Some v"
| "last_value f (k # ks) v = (case f (text_of k) of None \<Rightarrow> None | Some x \<Rightarrow> last_value f ks (Some x))"

definition value_slot :: "(string \<Rightarrow> 'a option) \<Rightarrow> string \<Rightarrow> xml \<Rightarrow> 'a option option" where
  "value_slot f n x = last_value f (sons n x) None"

definition int_value :: "nat \<Rightarrow> string \<Rightarrow> int option" where
  "int_value bits s = (if s = [] then Some 0 else parse_int 10 bits (trim_space s))"

text \<open>strconv.ParseBool.\<close>

definition parse_bool :: "string \<Rightarrow> bool option" where
  "parse_bool s =
     (if s \<in> set [''1'', ''t'', ''T'', ''TRUE'', ''true'', ''True''] then Some True
      else if s \<in> set [''0'', ''f'', ''F'', ''FALSE'', ''false'', ''False''] then Some False
      else None)"

definition bool_value :: "string \<Rightarrow> bool option" where
  "bool_value s = (if s = [] then Some False else parse_bool (trim_space s))"

fun all_of :: "('a \<Rightarrow> 'b option) \<Rightarrow> 'a list \<Rightarrow> 'b list option" where
  "all_of f [] = Some []"
| "all_of f (x # xs) =
     (case f x of None \<Rightarrow> None | Some y \<Rightarrow> map_option ((#) y) (all_of f xs))"

text \<open>types.CompletedPart, types.ObjectIdentifier and types.Tag.\<close>

definition completed_part_of :: "xml \<Rightarrow> completed_part option" where
  "completed_part_of x =
     map_option (\<lambda>n. \<lparr>PartNumber = n, cp_ETag = string_slot ''ETag'' x,
         cp_CRC32 = string_slot ''ChecksumCRC32'' x, cp_CRC32C = string_slot ''ChecksumCRC32C'' x,
         cp_CRC64NVME = string_slot ''ChecksumCRC64NVME'' x, cp_SHA1 = string_slot ''ChecksumSHA1'' x,
         cp_SHA256 = string_slot ''ChecksumSHA256'' x\<rparr>)
       (value_slot (int_value 32) ''PartNumber'' x)"

definition object_identifier_of :: "xml \<Rightarrow> object_identifier option" where
  "object_identifier_of x =
     (case (value_slot parse_rfc3339 ''LastModifiedTime'' x, value_slot (int_value 64) ''Size'' x) of
        (Some t, Some n) \<Rightarrow>
          Some \<lparr>oi_Key = string_slot ''Key'' x, oi_ETag = string_slot ''ETag'' x, oi_LastModifiedTime = t,
                oi_Size = n, oi_VersionId = string_slot ''VersionId'' x\<rparr>
      | _ \<Rightarrow> None)"

definition tag_of :: "xml \<Rightarrow> tag" where
  "tag_of x = (string_slot ''Key'' x, string_slot ''Value'' x)"

text \<open>
  The structures of the bodies with the import functions: the root has the name given by
  XMLName, and the elements of a slice are collected.  Of CreateBucketConfiguration the actions
  read nothing.
\<close>

datatype payload =
    Parts_payload "completed_part list"
  | Bucket_payload
  | Delete_payload "object_identifier list" "bool option"
  | Tags_payload "tag list"

definition import_CompletedMultipartUpload :: "xml \<Rightarrow> payload option" where
  "import_CompletedMultipartUpload x =
     (if \<not> named ''CompleteMultipartUpload'' x then None
      else map_option Parts_payload (all_of completed_part_of (sons ''Part'' x)))"

definition import_CreateBucketConfiguration :: "xml \<Rightarrow> payload option" where
  "import_CreateBucketConfiguration x =
     (if \<not> named ''CreateBucketConfiguration'' x then None else Some Bucket_payload)"

definition import_Delete :: "xml \<Rightarrow> payload option" where
  "import_Delete x =
     (if \<not> named ''Delete'' x then None
      else case (all_of object_identifier_of (sons ''Object'' x), value_slot bool_value ''Quiet'' x) of
             (Some os, Some quiet) \<Rightarrow> Some (Delete_payload os quiet)
           | _ \<Rightarrow> None)"

definition import_Tagging :: "xml \<Rightarrow> payload option" where
  "import_Tagging x =
     (if \<not> named ''Tagging'' x then None
      else Some (Tags_payload (map tag_of (concat (map (sons ''Tag'') (sons ''TagSet'' x))))))"

section \<open>Reading a body\<close>

text \<open>
  What the decoder makes of a stream: the tree of the first element, or why there is none, and the
  number of bytes it has taken from the stream.
\<close>

type_synonym xml_decoder = "stream \<Rightarrow> (body_error + xml) \<times> nat"

text \<open>The body, cut at the limit of the configuration as io.LimitedReader does.\<close>

definition limited_body :: "bbs \<Rightarrow> http_request \<Rightarrow> stream" where
  "limited_body b q =
     (let n = nat (byte_size (Xml_parameter_size_limit (config b))); d = bufio_all (rq_body q) in
      if n \<le> length d then (take n d, None) else (d, ending (rq_body q)))"

definition h_decode_body ::
  "bbs \<Rightarrow> xml_decoder \<Rightarrow> (xml \<Rightarrow> payload option) \<Rightarrow> http_request \<Rightarrow> body_error + payload" where
  "h_decode_body b decoder import q =
     (let body = limited_body b q in
      case decoder body of
        (Inl e, _) \<Rightarrow> Inl e
      | (Inr x, n) \<Rightarrow>
          (case import x of
             None \<Rightarrow> Inl Body_malformed
           | Some p \<Rightarrow>
               (let md5c = md5_sum b (take n (fst body)); s = header_Get (rq_Header q) ''Content-MD5'' in
                if s = [] then Inr p
                else case base64_decode s of
                       None \<Rightarrow> Inl Body_base64
                     | Some md5h \<Rightarrow> if md5c \<noteq> md5h then Inl Body_md5 else Inr p)))"

end
