(* ===== verification/Slots.thy ===== *)
theory Slots
  imports Xml
begin

text \<open>
  The parameters and the answers of the actions, as v1/server/handler.go and marshaler.go have
  them: for every action the slots of its input with the place of the request each comes from and
  how its text is read, the slots of its output that become headers, and the elements of the XML
  documents.  These tables are the statements of the generated handlers, in their order; what a
  statement does is defined in Handlers.
\<close>

section \<open>Values and slots\<close>

text \<open>
  The value of a slot.  An enumeration is the text of its constant; the constants of the SDK are
  the texts they are read from.  A structure is the list of its slots that are set.
\<close>

datatype slot_value =
    V_text string
  | V_enum string
  | V_int int
  | V_bool bool
  | V_date time
  | V_enums "string list"
  | V_map "(string \<times> string) list"
  | V_payload payload
  | V_list "slot_value list"
  | V_struct "(string \<times> slot_value) list"

datatype input_error =
    Bad_enum string string
  | Bad_date string
  | Bad_number string
  | Bad_truth string
  | Bad_body body_error

datatype slot_kind =
    K_text
  | K_enum "string \<Rightarrow> input_error + string"
  | K_date
  | K_int64
  | K_int32
  | K_bool

text \<open>
  A slot of an input: its name, and the wildcard, header or parameter it comes from.  Meta_slot is
  the map of the user metadata, Enums_slot a header with a list, Length_slot the content length,
  Body_slot the body as a stream, Payload_slot the body as a document.
\<close>

datatype slot =
    Path_slot string string
  | Header_slot string string slot_kind
  | Query_slot string string slot_kind
  | Meta_slot string string
  | Enums_slot string string "string \<Rightarrow> input_error + string"
  | Length_slot string
  | Body_slot string
  | Payload_slot string "xml \<Rightarrow> payload option"

text \<open>A slot of an output that is a header, and the map of the user metadata.\<close>

datatype head_slot = Head string string | Head_map string

text \<open>An element of a document, and one with another element around it.\<close>

datatype tag_slot = Tag string string | Tag_affix string string string

section \<open>Enumerations\<close>

definition intern :: "string \<Rightarrow> string list \<Rightarrow> string \<Rightarrow> input_error + string" where
  "intern enum names s = (if s \<in> set names then Inr s else Inl (Bad_enum enum s))"

definition intern_BucketCannedACL :: "string \<Rightarrow> input_error + string" where
  "intern_BucketCannedACL =
     intern ''types.BucketCannedACL''
       [''private'', ''public-read'', ''public-read-write'', ''authenticated-read'']"

definition intern_BucketLocationConstraint :: "string \<Rightarrow> input_error + string" where
  "intern_BucketLocationConstraint =
     intern ''types.BucketLocationConstraint''
       [''af-south-1'', ''ap-east-1'', ''ap-northeast-1'', ''ap-northeast-2'', ''ap-northeast-3'',
        ''ap-south-1'', ''ap-south-2'', ''ap-southeast-1'', ''ap-southeast-2'', ''ap-southeast-3'',
        ''ap-southeast-4'', ''ap-southeast-5'', ''ca-central-1'', ''cn-north-1'',
        ''cn-northwest-1'', ''EU'', ''eu-central-1'', ''eu-central-2'', ''eu-north-1'',
        ''eu-south-1'', ''eu-south-2'', ''eu-west-1'', ''eu-west-2'', ''eu-west-3'',
        ''il-central-1'', ''me-central-1'', ''me-south-1'', ''sa-east-1'', ''us-east-2'',
        ''us-gov-east-1'', ''us-gov-west-1'', ''us-west-1'', ''us-west-2'']"

definition intern_BucketType :: "string \<Rightarrow> input_error + string" where
  "intern_BucketType =
     intern ''types.BucketType''
       [''Directory'']"

definition intern_ChecksumAlgorithm :: "string \<Rightarrow> input_error + string" where
  "intern_ChecksumAlgorithm =
     intern ''types.ChecksumAlgorithm''
       [''CRC32'', ''CRC32C'', ''SHA1'', ''SHA256'', ''CRC64NVME'']"

definition intern_ChecksumMode :: "string \<Rightarrow> input_error + string" where
  "intern_ChecksumMode =
     intern ''types.ChecksumMode''
       [''ENABLED'']"

definition intern_ChecksumType :: "string \<Rightarrow> input_error + string" where
  "intern_ChecksumType =
     intern ''types.ChecksumType''
       [''COMPOSITE'', ''FULL_OBJECT'']"

definition intern_DataRedundancy :: "string \<Rightarrow> input_error + string" where
  "intern_DataRedundancy =
     intern ''types.DataRedundancy''
       [''SingleAvailabilityZone'', ''SingleLocalZone'']"

definition intern_EncodingType :: "string \<Rightarrow> input_error + string" where
  "intern_EncodingType =
     intern ''types.EncodingType''
       [''url'']"

definition intern_LocationType :: "string \<Rightarrow> input_error + string" where
  "intern_LocationType =
     intern ''types.LocationType''
       [''AvailabilityZone'', ''LocalZone'']"

definition intern_MetadataDirective :: "string \<Rightarrow> input_error + string" where
  "intern_MetadataDirective =
     intern ''types.MetadataDirective''
       [''COPY'', ''REPLACE'']"

definition intern_ObjectAttributes :: "string \<Rightarrow> input_error + string" where
  "intern_ObjectAttributes =
     intern ''types.ObjectAttributes''
       [''ETag'', ''Checksum'', ''ObjectParts'', ''StorageClass'', ''ObjectSize'']"

definition intern_ObjectCannedACL :: "string \<Rightarrow> input_error + string" where
  "intern_ObjectCannedACL =
     intern ''types.ObjectCannedACL''
       [''private'', ''public-read'', ''public-read-write'', ''authenticated-read'',
        ''aws-exec-read'', ''bucket-owner-read'', ''bucket-owner-full-control'']"

definition intern_ObjectLockLegalHoldStatus :: "string \<Rightarrow> input_error + string" where
  "intern_ObjectLockLegalHoldStatus =
     intern ''types.ObjectLockLegalHoldStatus''
       [''ON'', ''OFF'']"

definition intern_ObjectLockMode :: "string \<Rightarrow> input_error + string" where
  "intern_ObjectLockMode =
     intern ''types.ObjectLockMode''
       [''GOVERNANCE'', ''COMPLIANCE'']"

definition intern_ObjectOwnership :: "string \<Rightarrow> input_error + string" where
  "intern_ObjectOwnership =
     intern ''types.ObjectOwnership''
       [''BucketOwnerPreferred'', ''ObjectWriter'', ''BucketOwnerEnforced'']"

definition intern_OptionalObjectAttributes :: "string \<Rightarrow> input_error + string" where
  "intern_OptionalObjectAttributes =
     intern ''types.OptionalObjectAttributes''
       [''RestoreStatus'']"

definition intern_RequestPayer :: "string \<Rightarrow> input_error + string" where
  "intern_RequestPayer =
     intern ''types.RequestPayer''
       [''requester'']"

definition intern_ServerSideEncryption :: "string \<Rightarrow> input_error + string" where
  "intern_ServerSideEncryption =
     intern ''types.ServerSideEncryption''
       [''AES256'', ''aws:fsx'', ''aws:kms'', ''aws:kms:dsse'']"

definition intern_StorageClass :: "string \<Rightarrow> input_error + string" where
  "intern_StorageClass =
     intern ''types.StorageClass''
       [''STANDARD'', ''REDUCED_REDUNDANCY'', ''STANDARD_IA'', ''ONEZONE_IA'',
        ''INTELLIGENT_TIERING'', ''GLACIER'', ''DEEP_ARCHIVE'', ''OUTPOSTS'', ''GLACIER_IR'',
        ''SNOW'', ''EXPRESS_ONEZONE'', ''FSX_OPENZFS'']"

definition intern_TaggingDirective :: "string \<Rightarrow> input_error + string" where
  "intern_TaggingDirective =
     intern ''types.TaggingDirective''
       [''COPY'', ''REPLACE'']"

section \<open>The inputs\<close>

definition slots_AbortMultipartUpload :: "slot list" where
  "slots_AbortMultipartUpload =
     [Path_slot ''Bucket'' ''bucket'',
      Path_slot ''Key'' ''key'',
      Query_slot ''UploadId'' ''uploadId'' K_text,
      Header_slot ''RequestPayer'' ''x-amz-request-payer'' (K_enum intern_RequestPayer),
      Header_slot ''ExpectedBucketOwner'' ''x-amz-expected-bucket-owner'' K_text,
      Header_slot ''IfMatchInitiatedTime'' ''x-amz-if-match-initiated-time'' K_date]"

definition slots_CompleteMultipartUpload :: "slot list" where
  "slots_CompleteMultipartUpload =
     [Path_slot ''Bucket'' ''bucket'',
      Path_slot ''Key'' ''key'',
      Query_slot ''UploadId'' ''uploadId'' K_text,
      Header_slot ''ChecksumCRC32'' ''x-amz-checksum-crc32'' K_text,
      Header_slot ''ChecksumCRC32C'' ''x-amz-checksum-crc32c'' K_text,
      Header_slot ''ChecksumCRC64NVME'' ''x-amz-checksum-crc64nvme'' K_text,
      Header_slot ''ChecksumSHA1'' ''x-amz-checksum-sha1'' K_text,
      Header_slot ''ChecksumSHA256'' ''x-amz-checksum-sha256'' K_text,
      Header_slot ''ChecksumType'' ''x-amz-checksum-type'' (K_enum intern_ChecksumType),
      Header_slot ''MpuObjectSize'' ''x-amz-mp-object-size'' K_int64,
      Header_slot ''RequestPayer'' ''x-amz-request-payer'' (K_enum intern_RequestPayer),
      Header_slot ''ExpectedBucketOwner'' ''x-amz-expected-bucket-owner'' K_text,
      Header_slot ''IfMatch'' ''If-Match'' K_text,
      Header_slot ''IfNoneMatch'' ''If-None-Match'' K_text,
      Header_slot ''SSECustomerAlgorithm'' ''x-amz-server-side-encryption-customer-algorithm'' K_text,
      Header_slot ''SSECustomerKey'' ''x-amz-server-side-encryption-customer-key'' K_text,
      Header_slot ''SSECustomerKeyMD5'' ''x-amz-server-side-encryption-customer-key-MD5'' K_text,
      Payload_slot ''MultipartUpload'' import_CompletedMultipartUpload]"

definition slots_CopyObject :: "slot list" where
  "slots_CopyObject =
     [Header_slot ''ACL'' ''x-amz-acl'' (K_enum intern_ObjectCannedACL),
      Path_slot ''Bucket'' ''bucket'',
      Header_slot ''CacheControl'' ''Cache-Control'' K_text,
      Header_slot ''ChecksumAlgorithm'' ''x-amz-checksum-algorithm'' (K_enum intern_ChecksumAlgorithm),
      Header_slot ''ContentDisposition'' ''Content-Disposition'' K_text,
      Header_slot ''ContentEncoding'' ''Content-Encoding'' K_text,
      Header_slot ''ContentLanguage'' ''Content-Language'' K_text,
      Header_slot ''ContentType'' ''Content-Type'' K_text,
      Header_slot ''CopySource'' ''x-amz-copy-source'' K_text,
      Header_slot ''CopySourceIfMatch'' ''x-amz-copy-source-if-match'' K_text,
      Header_slot ''CopySourceIfModifiedSince'' ''x-amz-copy-source-if-modified-since'' K_date,
      Header_slot ''CopySourceIfNoneMatch'' ''x-amz-copy-source-if-none-match'' K_text,
      Header_slot ''CopySourceIfUnmodifiedSince'' ''x-amz-copy-source-if-unmodified-since'' K_date,
      Header_slot ''Expires'' ''Expires'' K_date,
      Header_slot ''GrantFullControl'' ''x-amz-grant-full-control'' K_text,
      Header_slot ''GrantRead'' ''x-amz-grant-read'' K_text,
      Header_slot ''GrantReadACP'' ''x-amz-grant-read-acp'' K_text,
      Header_slot ''GrantWriteACP'' ''x-amz-grant-write-acp'' K_text,
      Path_slot ''Key'' ''key'',
      Meta_slot ''Metadata'' ''x-amz-meta-'',
      Header_slot ''MetadataDirective'' ''x-amz-metadata-directive'' (K_enum intern_MetadataDirective),
      Header_slot ''TaggingDirective'' ''x-amz-tagging-directive'' (K_enum intern_TaggingDirective),
      Header_slot ''ServerSideEncryption'' ''x-amz-server-side-encryption'' (K_enum intern_ServerSideEncryption),
      Header_slot ''StorageClass'' ''x-amz-storage-class'' (K_enum intern_StorageClass),
      Header_slot ''WebsiteRedirectLocation'' ''x-amz-website-redirect-location'' K_text,
      Header_slot ''SSECustomerAlgorithm'' ''x-amz-server-side-encryption-customer-algorithm'' K_text,
      Header_slot ''SSECustomerKey'' ''x-amz-server-side-encryption-customer-key'' K_text,
      Header_slot ''SSECustomerKeyMD5'' ''x-amz-server-side-encryption-customer-key-MD5'' K_text,
      Header_slot ''SSEKMSKeyId'' ''x-amz-server-side-encryption-aws-kms-key-id'' K_text,
      Header_slot ''SSEKMSEncryptionContext'' ''x-amz-server-side-encryption-context'' K_text,
      Header_slot ''BucketKeyEnabled'' ''x-amz-server-side-encryption-bucket-key-enabled'' K_bool,
      Header_slot ''CopySourceSSECustomerAlgorithm'' ''x-amz-copy-source-server-side-encryption-customer-algorithm'' K_text,
      Header_slot ''CopySourceSSECustomerKey'' ''x-amz-copy-source-server-side-encryption-customer-key'' K_text,
      Header_slot ''CopySourceSSECustomerKeyMD5'' ''x-amz-copy-source-server-side-encryption-customer-key-MD5'' K_text,
      Header_slot ''RequestPayer'' ''x-amz-request-payer'' (K_enum intern_RequestPayer),
      Header_slot ''Tagging'' ''x-amz-tagging'' K_text,
      Header_slot ''ObjectLockMode'' ''x-amz-object-lock-mode'' (K_enum intern_ObjectLockMode),
      Header_slot ''ObjectLockRetainUntilDate'' ''x-amz-object-lock-retain-until-date'' K_date,
      Header_slot ''ObjectLockLegalHoldStatus'' ''x-amz-object-lock-legal-hold'' (K_enum intern_ObjectLockLegalHoldStatus),
      Header_slot ''ExpectedBucketOwner'' ''x-amz-expected-bucket-owner'' K_text,
      Header_slot ''ExpectedSourceBucketOwner'' ''x-amz-source-expected-bucket-owner'' K_text]"

definition slots_CreateBucket :: "slot list" where
  "slots_CreateBucket =
     [Header_slot ''ACL'' ''x-amz-acl'' (K_enum intern_BucketCannedACL),
      Path_slot ''Bucket'' ''bucket'',
      Header_slot ''GrantFullControl'' ''x-amz-grant-full-control'' K_text,
      Header_slot ''GrantRead'' ''x-amz-grant-read'' K_text,
      Header_slot ''GrantReadACP'' ''x-amz-grant-read-acp'' K_text,
      Header_slot ''GrantWrite'' ''x-amz-grant-write'' K_text,
      Header_slot ''GrantWriteACP'' ''x-amz-grant-write-acp'' K_text,
      Header_slot ''ObjectLockEnabledForBucket'' ''x-amz-bucket-object-lock-enabled'' K_bool,
      Header_slot ''ObjectOwnership'' ''x-amz-object-ownership'' (K_enum intern_ObjectOwnership),
      Payload_slot ''CreateBucketConfiguration'' import_CreateBucketConfiguration]"

definition slots_CreateMultipartUpload :: "slot list" where
  "slots_CreateMultipartUpload =
     [Header_slot ''ACL'' ''x-amz-acl'' (K_enum intern_ObjectCannedACL),
      Path_slot ''Bucket'' ''bucket'',
      Header_slot ''CacheControl'' ''Cache-Control'' K_text,
      Header_slot ''ContentDisposition'' ''Content-Disposition'' K_text,
      Header_slot ''ContentEncoding'' ''Content-Encoding'' K_text,
      Header_slot ''ContentLanguage'' ''Content-Language'' K_text,
      Header_slot ''ContentType'' ''Content-Type'' K_text,
      Header_slot ''Expires'' ''Expires'' K_date,
      Header_slot ''GrantFullControl'' ''x-amz-grant-full-control'' K_text,
      Header_slot ''GrantRead'' ''x-amz-grant-read'' K_text,
      Header_slot ''GrantReadACP'' ''x-amz-grant-read-acp'' K_text,
      Header_slot ''GrantWriteACP'' ''x-amz-grant-write-acp'' K_text,
      Path_slot ''Key'' ''key'',
      Meta_slot ''Metadata'' ''x-amz-meta-'',
      Header_slot ''ServerSideEncryption'' ''x-amz-server-side-encryption'' (K_enum intern_ServerSideEncryption),
      Header_slot ''StorageClass'' ''x-amz-storage-class'' (K_enum intern_StorageClass),
      Header_slot ''WebsiteRedirectLocation'' ''x-amz-website-redirect-location'' K_text,
      Header_slot ''SSECustomerAlgorithm'' ''x-amz-server-side-encryption-customer-algorithm'' K_text,
      Header_slot ''SSECustomerKey'' ''x-amz-server-side-encryption-customer-key'' K_text,
      Header_slot ''SSECustomerKeyMD5'' ''x-amz-server-side-encryption-customer-key-MD5'' K_text,
      Header_slot ''SSEKMSKeyId'' ''x-amz-server-side-encryption-aws-kms-key-id'' K_text,
      Header_slot ''SSEKMSEncryptionContext'' ''x-amz-server-side-encryption-context'' K_text,
      Header_slot ''BucketKeyEnabled'' ''x-amz-server-side-encryption-bucket-key-enabled'' K_bool,
      Header_slot ''RequestPayer'' ''x-amz-request-payer'' (K_enum intern_RequestPayer),
      Header_slot ''Tagging'' ''x-amz-tagging'' K_text,
      Header_slot ''ObjectLockMode'' ''x-amz-object-lock-mode'' (K_enum intern_ObjectLockMode),
      Header_slot ''ObjectLockRetainUntilDate'' ''x-amz-object-lock-retain-until-date'' K_date,
      Header_slot ''ObjectLockLegalHoldStatus'' ''x-amz-object-lock-legal-hold'' (K_enum intern_ObjectLockLegalHoldStatus),
      Header_slot ''ExpectedBucketOwner'' ''x-amz-expected-bucket-owner'' K_text,
      Header_slot ''ChecksumAlgorithm'' ''x-amz-checksum-algorithm'' (K_enum intern_ChecksumAlgorithm),
      Header_slot ''ChecksumType'' ''x-amz-checksum-type'' (K_enum intern_ChecksumType)]"

definition slots_DeleteBucket :: "slot list" where
  "slots_DeleteBucket =
     [Path_slot ''Bucket'' ''bucket'',
      Header_slot ''ExpectedBucketOwner'' ''x-amz-expected-bucket-owner'' K_text]"

definition slots_DeleteObject :: "slot list" where
  "slots_DeleteObject =
     [Path_slot ''Bucket'' ''bucket'',
      Path_slot ''Key'' ''key'',
      Header_slot ''MFA'' ''x-amz-mfa'' K_text,
      Query_slot ''VersionId'' ''versionId'' K_text,
      Header_slot ''RequestPayer'' ''x-amz-request-payer'' (K_enum intern_RequestPayer),
      Header_slot ''BypassGovernanceRetention'' ''x-amz-bypass-governance-retention'' K_bool,
      Header_slot ''ExpectedBucketOwner'' ''x-amz-expected-bucket-owner'' K_text,
      Header_slot ''IfMatch'' ''If-Match'' K_text,
      Header_slot ''IfMatchLastModifiedTime'' ''x-amz-if-match-last-modified-time'' K_date,
      Header_slot ''IfMatchSize'' ''x-amz-if-match-size'' K_int64]"

definition slots_DeleteObjects :: "slot list" where
  "slots_DeleteObjects =
     [Path_slot ''Bucket'' ''bucket'',
      Header_slot ''MFA'' ''x-amz-mfa'' K_text,
      Header_slot ''RequestPayer'' ''x-amz-request-payer'' (K_enum intern_RequestPayer),
      Header_slot ''BypassGovernanceRetention'' ''x-amz-bypass-governance-retention'' K_bool,
      Header_slot ''ExpectedBucketOwner'' ''x-amz-expected-bucket-owner'' K_text,
      Header_slot ''ChecksumAlgorithm'' ''x-amz-sdk-checksum-algorithm'' (K_enum intern_ChecksumAlgorithm),
      Payload_slot ''Delete'' import_Delete]"

definition slots_DeleteObjectTagging :: "slot list" where
  "slots_DeleteObjectTagging =
     [Path_slot ''Bucket'' ''bucket'',
      Path_slot ''Key'' ''key'',
      Query_slot ''VersionId'' ''versionId'' K_text,
      Header_slot ''ExpectedBucketOwner'' ''x-amz-expected-bucket-owner'' K_text]"

definition slots_GetObject :: "slot list" where
  "slots_GetObject =
     [Path_slot ''Bucket'' ''bucket'',
      Header_slot ''IfMatch'' ''If-Match'' K_text,
      Header_slot ''IfModifiedSince'' ''If-Modified-Since'' K_date,
      Header_slot ''IfNoneMatch'' ''If-None-Match'' K_text,
      Header_slot ''IfUnmodifiedSince'' ''If-Unmodified-Since'' K_date,
      Path_slot ''Key'' ''key'',
      Header_slot ''Range'' ''Range'' K_text,
      Query_slot ''ResponseCacheControl'' ''response-cache-control'' K_text,
      Query_slot ''ResponseContentDisposition'' ''response-content-disposition'' K_text,
      Query_slot ''ResponseContentEncoding'' ''response-content-encoding'' K_text,
      Query_slot ''ResponseContentLanguage'' ''response-content-language'' K_text,
      Query_slot ''ResponseContentType'' ''response-content-type'' K_text,
      Query_slot ''ResponseExpires'' ''response-expires'' K_date,
      Query_slot ''VersionId'' ''versionId'' K_text,
      Header_slot ''SSECustomerAlgorithm'' ''x-amz-server-side-encryption-customer-algorithm'' K_text,
      Header_slot ''SSECustomerKey'' ''x-amz-server-side-encryption-customer-key'' K_text,
      Header_slot ''SSECustomerKeyMD5'' ''x-amz-server-side-encryption-customer-key-MD5'' K_text,
      Header_slot ''RequestPayer'' ''x-amz-request-payer'' (K_enum intern_RequestPayer),
      Query_slot ''PartNumber'' ''partNumber'' K_int32,
      Header_slot ''ExpectedBucketOwner'' ''x-amz-expected-bucket-owner'' K_text,
      Header_slot ''ChecksumMode'' ''x-amz-checksum-mode'' (K_enum intern_ChecksumMode)]"

definition slots_GetObjectAttributes :: "slot list" where
  "slots_GetObjectAttributes =
     [Path_slot ''Bucket'' ''bucket'',
      Path_slot ''Key'' ''key'',
      Query_slot ''VersionId'' ''versionId'' K_text,
      Header_slot ''MaxParts'' ''x-amz-max-parts'' K_int32,
      Header_slot ''PartNumberMarker'' ''x-amz-part-number-marker'' K_text,
      Header_slot ''SSECustomerAlgorithm'' ''x-amz-server-side-encryption-customer-algorithm'' K_text,
      Header_slot ''SSECustomerKey'' ''x-amz-server-side-encryption-customer-key'' K_text,
      Header_slot ''SSECustomerKeyMD5'' ''x-amz-server-side-encryption-customer-key-MD5'' K_text,
      Header_slot ''RequestPayer'' ''x-amz-request-payer'' (K_enum intern_RequestPayer),
      Header_slot ''ExpectedBucketOwner'' ''x-amz-expected-bucket-owner'' K_text,
      Enums_slot ''ObjectAttributes'' ''x-amz-object-attributes'' intern_ObjectAttributes]"

definition slots_GetObjectTagging :: "slot list" where
  "slots_GetObjectTagging =
     [Path_slot ''Bucket'' ''bucket'',
      Path_slot ''Key'' ''key'',
      Query_slot ''VersionId'' ''versionId'' K_text,
      Header_slot ''ExpectedBucketOwner'' ''x-amz-expected-bucket-owner'' K_text,
      Header_slot ''RequestPayer'' ''x-amz-request-payer'' (K_enum intern_RequestPayer)]"

definition slots_HeadBucket :: "slot list" where
  "slots_HeadBucket =
     [Path_slot ''Bucket'' ''bucket'',
      Header_slot ''ExpectedBucketOwner'' ''x-amz-expected-bucket-owner'' K_text]"

definition slots_HeadObject :: "slot list" where
  "slots_HeadObject =
     [Path_slot ''Bucket'' ''bucket'',
      Header_slot ''IfMatch'' ''If-Match'' K_text,
      Header_slot ''IfModifiedSince'' ''If-Modified-Since'' K_date,
      Header_slot ''IfNoneMatch'' ''If-None-Match'' K_text,
      Header_slot ''IfUnmodifiedSince'' ''If-Unmodified-Since'' K_date,
      Path_slot ''Key'' ''key'',
      Header_slot ''Range'' ''Range'' K_text,
      Query_slot ''ResponseCacheControl'' ''response-cache-control'' K_text,
      Query_slot ''ResponseContentDisposition'' ''response-content-disposition'' K_text,
      Query_slot ''ResponseContentEncoding'' ''response-content-encoding'' K_text,
      Query_slot ''ResponseContentLanguage'' ''response-content-language'' K_text,
      Query_slot ''ResponseContentType'' ''response-content-type'' K_text,
      Query_slot ''ResponseExpires'' ''response-expires'' K_date,
      Query_slot ''VersionId'' ''versionId'' K_text,
      Header_slot ''SSECustomerAlgorithm'' ''x-amz-server-side-encryption-customer-algorithm'' K_text,
      Header_slot ''SSECustomerKey'' ''x-amz-server-side-encryption-customer-key'' K_text,
      Header_slot ''SSECustomerKeyMD5'' ''x-amz-server-side-encryption-customer-key-MD5'' K_text,
      Header_slot ''RequestPayer'' ''x-amz-request-payer'' (K_enum intern_RequestPayer),
      Query_slot ''PartNumber'' ''partNumber'' K_int32,
      Header_slot ''ExpectedBucketOwner'' ''x-amz-expected-bucket-owner'' K_text,
      Header_slot ''ChecksumMode'' ''x-amz-checksum-mode'' (K_enum intern_ChecksumMode)]"

definition slots_ListBuckets :: "slot list" where
  "slots_ListBuckets =
     [Query_slot ''MaxBuckets'' ''max-buckets'' K_int32,
      Query_slot ''ContinuationToken'' ''continuation-token'' K_text,
      Query_slot ''Prefix'' ''prefix'' K_text,
      Query_slot ''BucketRegion'' ''bucket-region'' K_text]"

definition slots_ListMultipartUploads :: "slot list" where
  "slots_ListMultipartUploads =
     [Path_slot ''Bucket'' ''bucket'',
      Query_slot ''Delimiter'' ''delimiter'' K_text,
      Query_slot ''EncodingType'' ''encoding-type'' (K_enum intern_EncodingType),
      Query_slot ''KeyMarker'' ''key-marker'' K_text,
      Query_slot ''MaxUploads'' ''max-uploads'' K_int32,
      Query_slot ''Prefix'' ''prefix'' K_text,
      Query_slot ''UploadIdMarker'' ''upload-id-marker'' K_text,
      Header_slot ''ExpectedBucketOwner'' ''x-amz-expected-bucket-owner'' K_text,
      Header_slot ''RequestPayer'' ''x-amz-request-payer'' (K_enum intern_RequestPayer)]"

definition slots_ListObjects :: "slot list" where
  "slots_ListObjects =
     [Path_slot ''Bucket'' ''bucket'',
      Query_slot ''Delimiter'' ''delimiter'' K_text,
      Query_slot ''EncodingType'' ''encoding-type'' (K_enum intern_EncodingType),
      Query_slot ''Marker'' ''marker'' K_text,
      Query_slot ''MaxKeys'' ''max-keys'' K_int32,
      Query_slot ''Prefix'' ''prefix'' K_text,
      Header_slot ''RequestPayer'' ''x-amz-request-payer'' (K_enum intern_RequestPayer),
      Header_slot ''ExpectedBucketOwner'' ''x-amz-expected-bucket-owner'' K_text,
      Enums_slot ''OptionalObjectAttributes'' ''x-amz-optional-object-attributes'' intern_OptionalObjectAttributes]"

definition slots_ListObjectsV2 :: "slot list" where
  "slots_ListObjectsV2 =
     [Path_slot ''Bucket'' ''bucket'',
      Query_slot ''Delimiter'' ''delimiter'' K_text,
      Query_slot ''EncodingType'' ''encoding-type'' (K_enum intern_EncodingType),
      Query_slot ''MaxKeys'' ''max-keys'' K_int32,
      Query_slot ''Prefix'' ''prefix'' K_text,
      Query_slot ''ContinuationToken'' ''continuation-token'' K_text,
      Query_slot ''FetchOwner'' ''fetch-owner'' K_bool,
      Query_slot ''StartAfter'' ''start-after'' K_text,
      Header_slot ''RequestPayer'' ''x-amz-request-payer'' (K_enum intern_RequestPayer),
      Header_slot ''ExpectedBucketOwner'' ''x-amz-expected-bucket-owner'' K_text,
      Enums_slot ''OptionalObjectAttributes'' ''x-amz-optional-object-attributes'' intern_OptionalObjectAttributes]"

definition slots_ListParts :: "slot list" where
  "slots_ListParts =
     [Path_slot ''Bucket'' ''bucket'',
      Path_slot ''Key'' ''key'',
      Query_slot ''MaxParts'' ''max-parts'' K_int32,
      Query_slot ''PartNumberMarker'' ''part-number-marker'' K_text,
      Query_slot ''UploadId'' ''uploadId'' K_text,
      Header_slot ''RequestPayer'' ''x-amz-request-payer'' (K_enum intern_RequestPayer),
      Header_slot ''ExpectedBucketOwner'' ''x-amz-expected-bucket-owner'' K_text,
      Header_slot ''SSECustomerAlgorithm'' ''x-amz-server-side-encryption-customer-algorithm'' K_text,
      Header_slot ''SSECustomerKey'' ''x-amz-server-side-encryption-customer-key'' K_text,
      Header_slot ''SSECustomerKeyMD5'' ''x-amz-server-side-encryption-customer-key-MD5'' K_text]"

definition slots_PutObject :: "slot list" where
  "slots_PutObject =
     [Header_slot ''ACL'' ''x-amz-acl'' (K_enum intern_ObjectCannedACL),
      Path_slot ''Bucket'' ''bucket'',
      Header_slot ''CacheControl'' ''Cache-Control'' K_text,
      Header_slot ''ContentDisposition'' ''Content-Disposition'' K_text,
      Header_slot ''ContentEncoding'' ''Content-Encoding'' K_text,
      Header_slot ''ContentLanguage'' ''Content-Language'' K_text,
      Length_slot ''ContentLength'',
      Header_slot ''ContentMD5'' ''Content-MD5'' K_text,
      Header_slot ''ContentType'' ''Content-Type'' K_text,
      Header_slot ''ChecksumAlgorithm'' ''x-amz-sdk-checksum-algorithm'' (K_enum intern_ChecksumAlgorithm),
      Header_slot ''ChecksumCRC32'' ''x-amz-checksum-crc32'' K_text,
      Header_slot ''ChecksumCRC32C'' ''x-amz-checksum-crc32c'' K_text,
      Header_slot ''ChecksumCRC64NVME'' ''x-amz-checksum-crc64nvme'' K_text,
      Header_slot ''ChecksumSHA1'' ''x-amz-checksum-sha1'' K_text,
      Header_slot ''ChecksumSHA256'' ''x-amz-checksum-sha256'' K_text,
      Header_slot ''Expires'' ''Expires'' K_date,
      Header_slot ''IfMatch'' ''If-Match'' K_text,
      Header_slot ''IfNoneMatch'' ''If-None-Match'' K_text,
      Header_slot ''GrantFullControl'' ''x-amz-grant-full-control'' K_text,
      Header_slot ''GrantRead'' ''x-amz-grant-read'' K_text,
      Header_slot ''GrantReadACP'' ''x-amz-grant-read-acp'' K_text,
      Header_slot ''GrantWriteACP'' ''x-amz-grant-write-acp'' K_text,
      Path_slot ''Key'' ''key'',
      Header_slot ''WriteOffsetBytes'' ''x-amz-write-offset-bytes'' K_int64,
      Meta_slot ''Metadata'' ''x-amz-meta-'',
      Header_slot ''ServerSideEncryption'' ''x-amz-server-side-encryption'' (K_enum intern_ServerSideEncryption),
      Header_slot ''StorageClass'' ''x-amz-storage-class'' (K_enum intern_StorageClass),
      Header_slot ''WebsiteRedirectLocation'' ''x-amz-website-redirect-location'' K_text,
      Header_slot ''SSECustomerAlgorithm'' ''x-amz-server-side-encryption-customer-algorithm'' K_text,
      Header_slot ''SSECustomerKey'' ''x-amz-server-side-encryption-customer-key'' K_text,
      Header_slot ''SSECustomerKeyMD5'' ''x-amz-server-side-encryption-customer-key-MD5'' K_text,
      Header_slot ''SSEKMSKeyId'' ''x-amz-server-side-encryption-aws-kms-key-id'' K_text,
      Header_slot ''SSEKMSEncryptionContext'' ''x-amz-server-side-encryption-context'' K_text,
      Header_slot ''BucketKeyEnabled'' ''x-amz-server-side-encryption-bucket-key-enabled'' K_bool,
      Header_slot ''RequestPayer'' ''x-amz-request-payer'' (K_enum intern_RequestPayer),
      Header_slot ''Tagging'' ''x-amz-tagging'' K_text,
      Header_slot ''ObjectLockMode'' ''x-amz-object-lock-mode'' (K_enum intern_ObjectLockMode),
      Header_slot ''ObjectLockRetainUntilDate'' ''x-amz-object-lock-retain-until-date'' K_date,
      Header_slot ''ObjectLockLegalHoldStatus'' ''x-amz-object-lock-legal-hold'' (K_enum intern_ObjectLockLegalHoldStatus),
      Header_slot ''ExpectedBucketOwner'' ''x-amz-expected-bucket-owner'' K_text,
      Body_slot ''Body'']"

definition slots_PutObjectTagging :: "slot list" where
  "slots_PutObjectTagging =
     [Path_slot ''Bucket'' ''bucket'',
      Path_slot ''Key'' ''key'',
      Query_slot ''VersionId'' ''versionId'' K_text,
      Header_slot ''ContentMD5'' ''Content-MD5'' K_text,
      Header_slot ''ChecksumAlgorithm'' ''x-amz-sdk-checksum-algorithm'' (K_enum intern_ChecksumAlgorithm),
      Header_slot ''ExpectedBucketOwner'' ''x-amz-expected-bucket-owner'' K_text,
      Header_slot ''RequestPayer'' ''x-amz-request-payer'' (K_enum intern_RequestPayer),
      Payload_slot ''Tagging'' import_Tagging]"

definition slots_UploadPart :: "slot list" where
  "slots_UploadPart =
     [Path_slot ''Bucket'' ''bucket'',
      Length_slot ''ContentLength'',
      Header_slot ''ContentMD5'' ''Content-MD5'' K_text,
      Header_slot ''ChecksumAlgorithm'' ''x-amz-sdk-checksum-algorithm'' (K_enum intern_ChecksumAlgorithm),
      Header_slot ''ChecksumCRC32'' ''x-amz-checksum-crc32'' K_text,
      Header_slot ''ChecksumCRC32C'' ''x-amz-checksum-crc32c'' K_text,
      Header_slot ''ChecksumCRC64NVME'' ''x-amz-checksum-crc64nvme'' K_text,
      Header_slot ''ChecksumSHA1'' ''x-amz-checksum-sha1'' K_text,
      Header_slot ''ChecksumSHA256'' ''x-amz-checksum-sha256'' K_text,
      Path_slot ''Key'' ''key'',
      Query_slot ''PartNumber'' ''partNumber'' K_int32,
      Query_slot ''UploadId'' ''uploadId'' K_text,
      Header_slot ''SSECustomerAlgorithm'' ''x-amz-server-side-encryption-customer-algorithm'' K_text,
      Header_slot ''SSECustomerKey'' ''x-amz-server-side-encryption-customer-key'' K_text,
      Header_slot ''SSECustomerKeyMD5'' ''x-amz-server-side-encryption-customer-key-MD5'' K_text,
      Header_slot ''RequestPayer'' ''x-amz-request-payer'' (K_enum intern_RequestPayer),
      Header_slot ''ExpectedBucketOwner'' ''x-amz-expected-bucket-owner'' K_text,
      Body_slot ''Body'']"

definition slots_UploadPartCopy :: "slot list" where
  "slots_UploadPartCopy =
     [Path_slot ''Bucket'' ''bucket'',
      Header_slot ''CopySource'' ''x-amz-copy-source'' K_text,
      Header_slot ''CopySourceIfMatch'' ''x-amz-copy-source-if-match'' K_text,
      Header_slot ''CopySourceIfModifiedSince'' ''x-amz-copy-source-if-modified-since'' K_date,
      Header_slot ''CopySourceIfNoneMatch'' ''x-amz-copy-source-if-none-match'' K_text,
      Header_slot ''CopySourceIfUnmodifiedSince'' ''x-amz-copy-source-if-unmodified-since'' K_date,
      Header_slot ''CopySourceRange'' ''x-amz-copy-source-range'' K_text,
      Path_slot ''Key'' ''key'',
      Query_slot ''PartNumber'' ''partNumber'' K_int32,
      Query_slot ''UploadId'' ''uploadId'' K_text,
      Header_slot ''SSECustomerAlgorithm'' ''x-amz-server-side-encryption-customer-algorithm'' K_text,
      Header_slot ''SSECustomerKey'' ''x-amz-server-side-encryption-customer-key'' K_text,
      Header_slot ''SSECustomerKeyMD5'' ''x-amz-server-side-encryption-customer-key-MD5'' K_text,
      Header_slot ''CopySourceSSECustomerAlgorithm'' ''x-amz-copy-source-server-side-encryption-customer-algorithm'' K_text,
      Header_slot ''CopySourceSSECustomerKey'' ''x-amz-copy-source-server-side-encryption-customer-key'' K_text,
      Header_slot ''CopySourceSSECustomerKeyMD5'' ''x-amz-copy-source-server-side-encryption-customer-key-MD5'' K_text,
      Header_slot ''RequestPayer'' ''x-amz-request-payer'' (K_enum intern_RequestPayer),
      Header_slot ''ExpectedBucketOwner'' ''x-amz-expected-bucket-owner'' K_text,
      Header_slot ''ExpectedSourceBucketOwner'' ''x-amz-source-expected-bucket-owner'' K_text]"

section \<open>The headers of the answers\<close>

definition heads_AbortMultipartUpload :: "head_slot list" where
  "heads_AbortMultipartUpload =
     [Head ''RequestCharged'' ''x-amz-request-charged'']"

definition heads_CompleteMultipartUpload :: "head_slot list" where
  "heads_CompleteMultipartUpload =
     [Head ''Expiration'' ''x-amz-expiration'',
      Head ''ServerSideEncryption'' ''x-amz-server-side-encryption'',
      Head ''VersionId'' ''x-amz-version-id'',
      Head ''SSEKMSKeyId'' ''x-amz-server-side-encryption-aws-kms-key-id'',
      Head ''BucketKeyEnabled'' ''x-amz-server-side-encryption-bucket-key-enabled'',
      Head ''RequestCharged'' ''x-amz-request-charged'']"

definition heads_CopyObject :: "head_slot list" where
  "heads_CopyObject =
     [Head ''Expiration'' ''x-amz-expiration'',
      Head ''CopySourceVersionId'' ''x-amz-copy-source-version-id'',
      Head ''VersionId'' ''x-amz-version-id'',
      Head ''ServerSideEncryption'' ''x-amz-server-side-encryption'',
      Head ''SSECustomerAlgorithm'' ''x-amz-server-side-encryption-customer-algorithm'',
      Head ''SSECustomerKeyMD5'' ''x-amz-server-side-encryption-customer-key-MD5'',
      Head ''SSEKMSKeyId'' ''x-amz-server-side-encryption-aws-kms-key-id'',
      Head ''SSEKMSEncryptionContext'' ''x-amz-server-side-encryption-context'',
      Head ''BucketKeyEnabled'' ''x-amz-server-side-encryption-bucket-key-enabled'',
      Head ''RequestCharged'' ''x-amz-request-charged'']"

definition heads_CreateBucket :: "head_slot list" where
  "heads_CreateBucket =
     [Head ''Location'' ''Location'',
      Head ''BucketArn'' ''x-amz-bucket-arn'']"

definition heads_CreateMultipartUpload :: "head_slot list" where
  "heads_CreateMultipartUpload =
     [Head ''AbortDate'' ''x-amz-abort-date'',
      Head ''AbortRuleId'' ''x-amz-abort-rule-id'',
      Head ''ServerSideEncryption'' ''x-amz-server-side-encryption'',
      Head ''SSECustomerAlgorithm'' ''x-amz-server-side-encryption-customer-algorithm'',
      Head ''SSECustomerKeyMD5'' ''x-amz-server-side-encryption-customer-key-MD5'',
      Head ''SSEKMSKeyId'' ''x-amz-server-side-encryption-aws-kms-key-id'',
      Head ''SSEKMSEncryptionContext'' ''x-amz-server-side-encryption-context'',
      Head ''BucketKeyEnabled'' ''x-amz-server-side-encryption-bucket-key-enabled'',
      Head ''RequestCharged'' ''x-amz-request-charged'',
      Head ''ChecksumAlgorithm'' ''x-amz-checksum-algorithm'',
      Head ''ChecksumType'' ''x-amz-checksum-type'']"

definition heads_DeleteObject :: "head_slot list" where
  "heads_DeleteObject =
     [Head ''DeleteMarker'' ''x-amz-delete-marker'',
      Head ''VersionId'' ''x-amz-version-id'',
      Head ''RequestCharged'' ''x-amz-request-charged'']"

definition heads_DeleteObjects :: "head_slot list" where
  "heads_DeleteObjects =
     [Head ''RequestCharged'' ''x-amz-request-charged'']"

definition heads_DeleteObjectTagging :: "head_slot list" where
  "heads_DeleteObjectTagging =
     [Head ''VersionId'' ''x-amz-version-id'']"

definition heads_GetObject :: "head_slot list" where
  "heads_GetObject =
     [Head ''DeleteMarker'' ''x-amz-delete-marker'',
      Head ''AcceptRanges'' ''accept-ranges'',
      Head ''Expiration'' ''x-amz-expiration'',
      Head ''Restore'' ''x-amz-restore'',
      Head ''LastModified'' ''Last-Modified'',
      Head ''ContentLength'' ''Content-Length'',
      Head ''ETag'' ''ETag'',
      Head ''ChecksumCRC32'' ''x-amz-checksum-crc32'',
      Head ''ChecksumCRC32C'' ''x-amz-checksum-crc32c'',
      Head ''ChecksumCRC64NVME'' ''x-amz-checksum-crc64nvme'',
      Head ''ChecksumSHA1'' ''x-amz-checksum-sha1'',
      Head ''ChecksumSHA256'' ''x-amz-checksum-sha256'',
      Head ''ChecksumType'' ''x-amz-checksum-type'',
      Head ''MissingMeta'' ''x-amz-missing-meta'',
      Head ''VersionId'' ''x-amz-version-id'',
      Head ''CacheControl'' ''Cache-Control'',
      Head ''ContentDisposition'' ''Content-Disposition'',
      Head ''ContentEncoding'' ''Content-Encoding'',
      Head ''ContentLanguage'' ''Content-Language'',
      Head ''ContentRange'' ''Content-Range'',
      Head ''ContentType'' ''Content-Type'',
      Head ''Expires'' ''Expires'',
      Head ''WebsiteRedirectLocation'' ''x-amz-website-redirect-location'',
      Head ''ServerSideEncryption'' ''x-amz-server-side-encryption'',
      Head_map ''Metadata'',
      Head ''SSECustomerAlgorithm'' ''x-amz-server-side-encryption-customer-algorithm'',
      Head ''SSECustomerKeyMD5'' ''x-amz-server-side-encryption-customer-key-MD5'',
      Head ''SSEKMSKeyId'' ''x-amz-server-side-encryption-aws-kms-key-id'',
      Head ''BucketKeyEnabled'' ''x-amz-server-side-encryption-bucket-key-enabled'',
      Head ''StorageClass'' ''x-amz-storage-class'',
      Head ''RequestCharged'' ''x-amz-request-charged'',
      Head ''ReplicationStatus'' ''x-amz-replication-status'',
      Head ''PartsCount'' ''x-amz-mp-parts-count'',
      Head ''TagCount'' ''x-amz-tagging-count'',
      Head ''ObjectLockMode'' ''x-amz-object-lock-mode'',
      Head ''ObjectLockRetainUntilDate'' ''x-amz-object-lock-retain-until-date'',
      Head ''ObjectLockLegalHoldStatus'' ''x-amz-object-lock-legal-hold'']"

definition heads_GetObjectAttributes :: "head_slot list" where
  "heads_GetObjectAttributes =
     [Head ''DeleteMarker'' ''x-amz-delete-marker'',
      Head ''LastModified'' ''Last-Modified'',
      Head ''VersionId'' ''x-amz-version-id'',
      Head ''RequestCharged'' ''x-amz-request-charged'']"

definition heads_GetObjectTagging :: "head_slot list" where
  "heads_GetObjectTagging =
     [Head ''VersionId'' ''x-amz-version-id'']"

definition heads_HeadBucket :: "head_slot list" where
  "heads_HeadBucket =
     [Head ''BucketArn'' ''x-amz-bucket-arn'',
      Head ''BucketLocationType'' ''x-amz-bucket-location-type'',
      Head ''BucketLocationName'' ''x-amz-bucket-location-name'',
      Head ''BucketRegion'' ''x-amz-bucket-region'',
      Head ''AccessPointAlias'' ''x-amz-access-point-alias'']"

definition heads_HeadObject :: "head_slot list" where
  "heads_HeadObject =
     [Head ''DeleteMarker'' ''x-amz-delete-marker'',
      Head ''AcceptRanges'' ''accept-ranges'',
      Head ''Expiration'' ''x-amz-expiration'',
      Head ''Restore'' ''x-amz-restore'',
      Head ''ArchiveStatus'' ''x-amz-archive-status'',
      Head ''LastModified'' ''Last-Modified'',
      Head ''ContentLength'' ''Content-Length'',
      Head ''ChecksumCRC32'' ''x-amz-checksum-crc32'',
      Head ''ChecksumCRC32C'' ''x-amz-checksum-crc32c'',
      Head ''ChecksumCRC64NVME'' ''x-amz-checksum-crc64nvme'',
      Head ''ChecksumSHA1'' ''x-amz-checksum-sha1'',
      Head ''ChecksumSHA256'' ''x-amz-checksum-sha256'',
      Head ''ChecksumType'' ''x-amz-checksum-type'',
      Head ''ETag'' ''ETag'',
      Head ''MissingMeta'' ''x-amz-missing-meta'',
      Head ''VersionId'' ''x-amz-version-id'',
      Head ''CacheControl'' ''Cache-Control'',
      Head ''ContentDisposition'' ''Content-Disposition'',
      Head ''ContentEncoding'' ''Content-Encoding'',
      Head ''ContentLanguage'' ''Content-Language'',
      Head ''ContentType'' ''Content-Type'',
      Head ''ContentRange'' ''Content-Range'',
      Head ''Expires'' ''Expires'',
      Head ''WebsiteRedirectLocation'' ''x-amz-website-redirect-location'',
      Head ''ServerSideEncryption'' ''x-amz-server-side-encryption'',
      Head_map ''Metadata'',
      Head ''SSECustomerAlgorithm'' ''x-amz-server-side-encryption-customer-algorithm'',
      Head ''SSECustomerKeyMD5'' ''x-amz-server-side-encryption-customer-key-MD5'',
      Head ''SSEKMSKeyId'' ''x-amz-server-side-encryption-aws-kms-key-id'',
      Head ''BucketKeyEnabled'' ''x-amz-server-side-encryption-bucket-key-enabled'',
      Head ''StorageClass'' ''x-amz-storage-class'',
      Head ''RequestCharged'' ''x-amz-request-charged'',
      Head ''ReplicationStatus'' ''x-amz-replication-status'',
      Head ''PartsCount'' ''x-amz-mp-parts-count'',
      Head ''TagCount'' ''x-amz-tagging-count'',
      Head ''ObjectLockMode'' ''x-amz-object-lock-mode'',
      Head ''ObjectLockRetainUntilDate'' ''x-amz-object-lock-retain-until-date'',
      Head ''ObjectLockLegalHoldStatus'' ''x-amz-object-lock-legal-hold'']"

definition heads_ListMultipartUploads :: "head_slot list" where
  "heads_ListMultipartUploads =
     [Head ''RequestCharged'' ''x-amz-request-charged'']"

definition heads_ListObjects :: "head_slot list" where
  "heads_ListObjects =
     [Head ''RequestCharged'' ''x-amz-request-charged'']"

definition heads_ListObjectsV2 :: "head_slot list" where
  "heads_ListObjectsV2 =
     [Head ''RequestCharged'' ''x-amz-request-charged'']"

definition heads_ListParts :: "head_slot list" where
  "heads_ListParts =
     [Head ''AbortDate'' ''x-amz-abort-date'',
      Head ''AbortRuleId'' ''x-amz-abort-rule-id'',
      Head ''RequestCharged'' ''x-amz-request-charged'']"

definition heads_PutObject :: "head_slot list" where
  "heads_PutObject =
     [Head ''Expiration'' ''x-amz-expiration'',
      Head ''ETag'' ''ETag'',
      Head ''ChecksumCRC32'' ''x-amz-checksum-crc32'',
      Head ''ChecksumCRC32C'' ''x-amz-checksum-crc32c'',
      Head ''ChecksumCRC64NVME'' ''x-amz-checksum-crc64nvme'',
      Head ''ChecksumSHA1'' ''x-amz-checksum-sha1'',
      Head ''ChecksumSHA256'' ''x-amz-checksum-sha256'',
      Head ''ChecksumType'' ''x-amz-checksum-type'',
      Head ''ServerSideEncryption'' ''x-amz-server-side-encryption'',
      Head ''VersionId'' ''x-amz-version-id'',
      Head ''SSECustomerAlgorithm'' ''x-amz-server-side-encryption-customer-algorithm'',
      Head ''SSECustomerKeyMD5'' ''x-amz-server-side-encryption-customer-key-MD5'',
      Head ''SSEKMSKeyId'' ''x-amz-server-side-encryption-aws-kms-key-id'',
      Head ''SSEKMSEncryptionContext'' ''x-amz-server-side-encryption-context'',
      Head ''BucketKeyEnabled'' ''x-amz-server-side-encryption-bucket-key-enabled'',
      Head ''Size'' ''x-amz-object-size'',
      Head ''RequestCharged'' ''x-amz-request-charged'']"

definition heads_PutObjectTagging :: "head_slot list" where
  "heads_PutObjectTagging =
     [Head ''VersionId'' ''x-amz-version-id'']"

definition heads_UploadPart :: "head_slot list" where
  "heads_UploadPart =
     [Head ''ServerSideEncryption'' ''x-amz-server-side-encryption'',
      Head ''ETag'' ''ETag'',
      Head ''ChecksumCRC32'' ''x-amz-checksum-crc32'',
      Head ''ChecksumCRC32C'' ''x-amz-checksum-crc32c'',
      Head ''ChecksumCRC64NVME'' ''x-amz-checksum-crc64nvme'',
      Head ''ChecksumSHA1'' ''x-amz-checksum-sha1'',
      Head ''ChecksumSHA256'' ''x-amz-checksum-sha256'',
      Head ''SSECustomerAlgorithm'' ''x-amz-server-side-encryption-customer-algorithm'',
      Head ''SSECustomerKeyMD5'' ''x-amz-server-side-encryption-customer-key-MD5'',
      Head ''SSEKMSKeyId'' ''x-amz-server-side-encryption-aws-kms-key-id'',
      Head ''BucketKeyEnabled'' ''x-amz-server-side-encryption-bucket-key-enabled'',
      Head ''RequestCharged'' ''x-amz-request-charged'']"

definition heads_UploadPartCopy :: "head_slot list" where
  "heads_UploadPartCopy =
     [Head ''CopySourceVersionId'' ''x-amz-copy-source-version-id'',
      Head ''ServerSideEncryption'' ''x-amz-server-side-encryption'',
      Head ''SSECustomerAlgorithm'' ''x-amz-server-side-encryption-customer-algorithm'',
      Head ''SSECustomerKeyMD5'' ''x-amz-server-side-encryption-customer-key-MD5'',
      Head ''SSEKMSKeyId'' ''x-amz-server-side-encryption-aws-kms-key-id'',
      Head ''BucketKeyEnabled'' ''x-amz-server-side-encryption-bucket-key-enabled'',
      Head ''RequestCharged'' ''x-amz-request-charged'']"

section \<open>The documents of the answers\<close>

definition tags_CompleteMultipartUpload :: "tag_slot list" where
  "tags_CompleteMultipartUpload =
     [Tag ''Location'' ''Location'',
      Tag ''Bucket'' ''Bucket'',
      Tag ''Key'' ''Key'',
      Tag ''ETag'' ''ETag'',
      Tag ''ChecksumCRC32'' ''ChecksumCRC32'',
      Tag ''ChecksumCRC32C'' ''ChecksumCRC32C'',
      Tag ''ChecksumCRC64NVME'' ''ChecksumCRC64NVME'',
      Tag ''ChecksumSHA1'' ''ChecksumSHA1'',
      Tag ''ChecksumSHA256'' ''ChecksumSHA256'',
      Tag ''ChecksumType'' ''ChecksumType'']"

definition tags_CreateMultipartUpload :: "tag_slot list" where
  "tags_CreateMultipartUpload =
     [Tag ''Bucket'' ''Bucket'',
      Tag ''Key'' ''Key'',
      Tag ''UploadId'' ''UploadId'']"

definition tags_DeleteObjects :: "tag_slot list" where
  "tags_DeleteObjects =
     [Tag ''Deleted'' ''Deleted'',
      Tag ''Errors'' ''Error'']"

definition tags_GetObjectAttributes :: "tag_slot list" where
  "tags_GetObjectAttributes =
     [Tag ''ETag'' ''ETag'',
      Tag ''Checksum'' ''Checksum'',
      Tag ''ObjectParts'' ''ObjectParts'',
      Tag ''StorageClass'' ''StorageClass'',
      Tag ''ObjectSize'' ''ObjectSize'']"

definition tags_GetObjectTagging :: "tag_slot list" where
  "tags_GetObjectTagging =
     [Tag_affix ''TagSet'' ''TagSet'' ''Tag'']"

definition tags_ListBuckets :: "tag_slot list" where
  "tags_ListBuckets =
     [Tag_affix ''Buckets'' ''Buckets'' ''Bucket'',
      Tag ''Owner'' ''Owner'',
      Tag ''ContinuationToken'' ''ContinuationToken'',
      Tag ''Prefix'' ''Prefix'']"

definition tags_ListMultipartUploads :: "tag_slot list" where
  "tags_ListMultipartUploads =
     [Tag ''Bucket'' ''Bucket'',
      Tag ''KeyMarker'' ''KeyMarker'',
      Tag ''UploadIdMarker'' ''UploadIdMarker'',
      Tag ''NextKeyMarker'' ''NextKeyMarker'',
      Tag ''Prefix'' ''Prefix'',
      Tag ''Delimiter'' ''Delimiter'',
      Tag ''NextUploadIdMarker'' ''NextUploadIdMarker'',
      Tag ''MaxUploads'' ''MaxUploads'',
      Tag ''IsTruncated'' ''IsTruncated'',
      Tag ''Uploads'' ''Upload'',
      Tag ''CommonPrefixes'' ''CommonPrefixes'',
      Tag ''EncodingType'' ''EncodingType'']"

definition tags_ListObjects :: "tag_slot list" where
  "tags_ListObjects =
     [Tag ''IsTruncated'' ''IsTruncated'',
      Tag ''Marker'' ''Marker'',
      Tag ''NextMarker'' ''NextMarker'',
      Tag ''Contents'' ''Contents'',
      Tag ''Name'' ''Name'',
      Tag ''Prefix'' ''Prefix'',
      Tag ''Delimiter'' ''Delimiter'',
      Tag ''MaxKeys'' ''MaxKeys'',
      Tag ''CommonPrefixes'' ''CommonPrefixes'',
      Tag ''EncodingType'' ''EncodingType'']"

definition tags_ListObjectsV2 :: "tag_slot list" where
  "tags_ListObjectsV2 =
     [Tag ''IsTruncated'' ''IsTruncated'',
      Tag ''Contents'' ''Contents'',
      Tag ''Name'' ''Name'',
      Tag ''Prefix'' ''Prefix'',
      Tag ''Delimiter'' ''Delimiter'',
      Tag ''MaxKeys'' ''MaxKeys'',
      Tag ''CommonPrefixes'' ''CommonPrefixes'',
      Tag ''EncodingType'' ''EncodingType'',
      Tag ''KeyCount'' ''KeyCount'',
      Tag ''ContinuationToken'' ''ContinuationToken'',
      Tag ''NextContinuationToken'' ''NextContinuationToken'',
      Tag ''StartAfter'' ''StartAfter'']"

definition tags_ListParts :: "tag_slot list" where
  "tags_ListParts =
     [Tag ''Bucket'' ''Bucket'',
      Tag ''Key'' ''Key'',
      Tag ''UploadId'' ''UploadId'',
      Tag ''PartNumberMarker'' ''PartNumberMarker'',
      Tag ''NextPartNumberMarker'' ''NextPartNumberMarker'',
      Tag ''MaxParts'' ''MaxParts'',
      Tag ''IsTruncated'' ''IsTruncated'',
      Tag ''Parts'' ''Part'',
      Tag ''Initiator'' ''Initiator'',
      Tag ''Owner'' ''Owner'',
      Tag ''StorageClass'' ''StorageClass'',
      Tag ''ChecksumAlgorithm'' ''ChecksumAlgorithm'',
      Tag ''ChecksumType'' ''ChecksumType'']"

end
