(* ===== verification/Decoding.thy ===== *)
theory Decoding
  imports Slots Signing
begin

text \<open>
  What the statements of the handlers do: how the slots of an input are read from a request, and
  how an output becomes headers and a document.  The library is what the server is given by other
  code: the XML decoder, the texts of errors, and the signer of the SDK.
\<close>

record library =
  xml_decode :: xml_decoder
  error_text :: "input_error \<Rightarrow> string"
  sign_http :: signer
  creation_time :: "file_info \<Rightarrow> time"
  site_address :: "string \<Rightarrow> string option"

section \<open>Reading the input\<close>

type_synonym inputs = "(string \<times> slot_value) list"

type_synonym input_errors = "(string \<times> input_error) list"

fun decode_kind :: "slot_kind \<Rightarrow> string \<Rightarrow> input_error + slot_value" where
  "decode_kind K_text s = Inr (V_text s)"
| "decode_kind (K_enum f) s = (case f s of Inl e \<Rightarrow> Inl e | Inr x \<Rightarrow> Inr (V_enum x))"
| "decode_kind K_date s = (case parse_rfc1123 s of None \<Rightarrow> Inl (Bad_date s) | Some t \<Rightarrow> Inr (V_date t))"
| "decode_kind K_int64 s = (case parse_int 10 64 s of None \<Rightarrow> Inl (Bad_number s) | Some n \<Rightarrow> Inr (V_int n))"
| "decode_kind K_int32 s = (case parse_int 10 32 s of None \<Rightarrow> Inl (Bad_number s) | Some n \<Rightarrow> Inr (V_int n))"
| "decode_kind K_bool s = (case parse_bool s of None \<Rightarrow> Inl (Bad_truth s) | Some x \<Rightarrow> Inr (V_bool x))"

text \<open>The errors are a map: a later error with the same key replaces the earlier one.\<close>

definition put_error :: "string \<Rightarrow> input_error \<Rightarrow> input_errors \<Rightarrow> input_errors" where
  "put_error k e errs = (k, e) # filter (\<lambda>(k', _). k' \<noteq> k) errs"

definition put_slot ::
  "string \<Rightarrow> string \<Rightarrow> input_error + slot_value \<Rightarrow> inputs \<times> input_errors \<Rightarrow> inputs \<times> input_errors" where
  "put_slot f k r x =
     (case (r, x) of
        (Inl e, (i, errs)) \<Rightarrow> (i, put_error k e errs)
      | (Inr v, (i, errs)) \<Rightarrow> ((f, v) # i, errs))"

text \<open>The loops over a header that is a list: the names that are known, and an error for the others.\<close>

definition enum_texts :: "string list \<Rightarrow> string list" where
  "enum_texts rhs = map trim_blank (concat (map (split_on (CHR '','')) rhs))"

fun read_enums ::
  "(string \<Rightarrow> input_error + string) \<Rightarrow> string list \<Rightarrow> string list \<times> input_error option" where
  "read_enums f [] = ([], None)"
| "read_enums f (s # ss) =
     (let (bin, e) = read_enums f ss in
      case f s of
        Inl e1 \<Rightarrow> (bin, if e = None then Some e1 else e)
      | Inr x \<Rightarrow> (x # bin, e))"

text \<open>
  One statement.  The map of the user metadata is nil when the loop assigns to it, which panics; the
  loop meets at least the header itself.
\<close>

fun decode_slot ::
  "bbs \<Rightarrow> library \<Rightarrow> (string \<times> string) list \<Rightarrow> request \<Rightarrow> slot \<Rightarrow> inputs \<times> input_errors
   \<Rightarrow> (inputs \<times> input_errors) result" where
  "decode_slot b l pv q (Path_slot f k) (i, errs) =
     (case map_of pv k of
        Some x \<Rightarrow> if x \<noteq> [] then ok ((f, V_text x) # i, errs) else ok (i, errs)
      | None \<Rightarrow> ok (i, errs))"
| "decode_slot b l pv q (Header_slot f k kind) x =
     (if length (header_Values (rq_headers q) k) \<noteq> 0
      then ok (put_slot f k (decode_kind kind (header_Get (rq_headers q) k)) x) else ok x)"
| "decode_slot b l pv q (Query_slot f k kind) x =
     (if query_Has q k then ok (put_slot f k (decode_kind kind (query_Get q k)) x) else ok x)"
| "decode_slot b l pv q (Meta_slot f k) (i, errs) =
     (if length (header_Values (rq_headers q) k) \<noteq> 0
      then (if list_ex (\<lambda>(k', _). has_prefix k' (CanonicalHeaderKey k)) (rq_headers q) then Inl Panic
            else ok (i, errs))
      else ok (i, errs))"
| "decode_slot b l pv q (Enums_slot f k g) (i, errs) =
     (if length (header_Values (rq_headers q) k) \<noteq> 0
      then (let (bin, e) = read_enums g (enum_texts (header_Values (rq_headers q) k))
            in ok ((f, V_enums bin) # i, case e of None \<Rightarrow> errs | Some e1 \<Rightarrow> put_error k e1 errs))
      else ok (i, errs))"
| "decode_slot b l pv q (Length_slot f) (i, errs) =
     ok ((f, V_int (rq_ContentLength (rq_message q))) # i, errs)"
| "decode_slot b l pv q (Body_slot f) x = ok x"
| "decode_slot b l pv q (Payload_slot f import) (i, errs) =
     (case h_decode_body b (xml_decode l) import (rq_message q) of
        Inl e \<Rightarrow> if e = Body_EOF then ok (i, errs) else ok (i, put_error ''_payload_'' (Bad_body e) errs)
      | Inr p \<Rightarrow> ok ((f, V_payload p) # i, errs))"

fun decode_slots ::
  "bbs \<Rightarrow> library \<Rightarrow> (string \<times> string) list \<Rightarrow> request \<Rightarrow> slot list \<Rightarrow> inputs \<times> input_errors
   \<Rightarrow> (inputs \<times> input_errors) result" where
  "decode_slots b l pv q [] x = ok x"
| "decode_slots b l pv q (s # ss) x =
     (case decode_slot b l pv q s x of Inl e \<Rightarrow> Inl e | Inr y \<Rightarrow> decode_slots b l pv q ss y)"

text \<open>The slots of the input record, nil or the zero value when they are not set.\<close>

definition in_text :: "inputs \<Rightarrow> string \<Rightarrow> string option" where
  "in_text i f = (case map_of i f of Some (V_text s) \<Rightarrow> Some s | _ \<Rightarrow> None)"

definition in_enum :: "inputs \<Rightarrow> string \<Rightarrow> string" where
  "in_enum i f = (case map_of i f of Some (V_enum s) \<Rightarrow> s | _ \<Rightarrow> [])"

definition in_date :: "inputs \<Rightarrow> string \<Rightarrow> time option" where
  "in_date i f = (case map_of i f of Some (V_date t) \<Rightarrow> Some t | _ \<Rightarrow> None)"

definition in_int :: "inputs \<Rightarrow> string \<Rightarrow> int option" where
  "in_int i f = (case map_of i f of Some (V_int n) \<Rightarrow> Some n | _ \<Rightarrow> None)"

definition in_bool :: "inputs \<Rightarrow> string \<Rightarrow> bool option" where
  "in_bool i f = (case map_of i f of Some (V_bool x) \<Rightarrow> Some x | _ \<Rightarrow> None)"

definition in_enums :: "inputs \<Rightarrow> string \<Rightarrow> string list" where
  "in_enums i f = (case map_of i f of Some (V_enums xs) \<Rightarrow> xs | _ \<Rightarrow> [])"

definition in_map :: "inputs \<Rightarrow> string \<Rightarrow> (string \<times> string) list option" where
  "in_map i f = (case map_of i f of Some (V_map m) \<Rightarrow> Some m | _ \<Rightarrow> None)"

section \<open>Writing the answer\<close>

text \<open>An output is given as the slots the action has set.\<close>

type_synonym outputs = "(string \<times> slot_value) list"

fun print_slot :: "slot_value \<Rightarrow> string" where
  "print_slot (V_text s) = s"
| "print_slot (V_enum s) = s"
| "print_slot (V_int n) = print_int n"
| "print_slot (V_bool x) = (if x then ''true'' else ''false'')"
| "print_slot (V_date t) = format_rfc1123 ''GMT'' t"
| "print_slot _ = []"

text \<open>A pointer that is not nil, or an enumeration that is not empty.\<close>

definition slot_set :: "outputs \<Rightarrow> string \<Rightarrow> slot_value option" where
  "slot_set o1 f = (case map_of o1 f of Some (V_enum []) \<Rightarrow> None | r \<Rightarrow> r)"

fun add_head :: "outputs \<Rightarrow> head_slot \<Rightarrow> header \<Rightarrow> header" where
  "add_head o1 (Head f k) h =
     (case slot_set o1 f of None \<Rightarrow> h | Some v \<Rightarrow> header_Add k (print_slot v) h)"
| "add_head o1 (Head_map f) h =
     (case map_of o1 f of Some (V_map m) \<Rightarrow> fold (\<lambda>(k, v). header_Add k v) m h | _ \<Rightarrow> h)"

definition add_heads :: "head_slot list \<Rightarrow> outputs \<Rightarrow> header \<Rightarrow> header" where
  "add_heads hs o1 h = fold (add_head o1) hs h"

text \<open>
  EncodeElement: a slice gives an element for each of its members, a structure the elements of its
  slots.
\<close>

fun encode_element :: "string \<Rightarrow> slot_value \<Rightarrow> xml list" where
  "encode_element tag (V_text s) = [Elem tag [Chars s]]"
| "encode_element tag (V_enum s) = [Elem tag [Chars s]]"
| "encode_element tag (V_int n) = [Elem tag [Chars (print_int n)]]"
| "encode_element tag (V_bool x) = [Elem tag [Chars (if x then ''true'' else ''false'')]]"
| "encode_element tag (V_date t) = [Elem tag [Chars (format_rfc3339 t)]]"
| "encode_element tag (V_enums xs) = map (\<lambda>s. Elem tag [Chars s]) xs"
| "encode_element tag (V_list vs) = concat (map (encode_element tag) vs)"
| "encode_element tag (V_struct fs) = [Elem tag (concat (map (\<lambda>(f, v). encode_element f v) fs))]"
| "encode_element tag (V_map m) = []"
| "encode_element tag (V_payload p) = []"

definition encode_slot :: "outputs \<Rightarrow> string \<Rightarrow> string \<Rightarrow> xml list" where
  "encode_slot o1 f tag = (case slot_set o1 f of None \<Rightarrow> [] | Some v \<Rightarrow> encode_element tag v)"

fun marshal_tag :: "outputs \<Rightarrow> tag_slot \<Rightarrow> xml list" where
  "marshal_tag o1 (Tag f tag) = encode_slot o1 f tag"
| "marshal_tag o1 (Tag_affix f tag2 tag) = [Elem tag2 (encode_slot o1 f tag)]"

definition marshal :: "string \<Rightarrow> tag_slot list \<Rightarrow> outputs \<Rightarrow> xml" where
  "marshal root tags o1 = Elem root (concat (map (marshal_tag o1) tags))"

section \<open>Answers\<close>

datatype reply_body = No_body | Error_body aws_error | Xml_body "xml list" | Data_body bytes | Text_body string

record reply =
  rp_status :: int
  rp_header :: header
  rp_body :: reply_body

text \<open>The answer to an error; a status that is not of three digits panics.\<close>

definition reply_of_response :: "response \<Rightarrow> reply" where
  "reply_of_response r =
     \<lparr>rp_status = status r, rp_header = map (\<lambda>(k, v). (CanonicalHeaderKey k, [v])) (resp_headers r),
      rp_body = (case resp_body r of None \<Rightarrow> No_body | Some e \<Rightarrow> Error_body e)\<rparr>"

definition respond_error :: "string \<Rightarrow> aws_error \<Rightarrow> reply act" where
  "respond_error rid e =
     (case respond_on_action_error rid [] e of None \<Rightarrow> panicE | Some r \<Rightarrow> retE (reply_of_response r))"

text \<open>respond_on_input_error answers with the first error in the order the map is visited.\<close>

definition respond_on_input_error :: "bbs \<Rightarrow> library \<Rightarrow> string \<Rightarrow> input_errors \<Rightarrow> reply act" where
  "respond_on_input_error b l rid m =
     (if length m = 0 then fatalE
      else (let e = (case map_order b (map fst m) of [] \<Rightarrow> None | k # _ \<Rightarrow> map_of m k)
            in respond_error rid (s3_error InvalidArgument
                 (case e of None \<Rightarrow> [] | Some e1 \<Rightarrow> error_text l e1) [])))"

text \<open>
  A handler: the input is read, the action is called, and its output is answered.  A function of
  this form is what every handler of handler.go is.
\<close>

definition handle ::
  "bbs \<Rightarrow> library \<Rightarrow> string \<Rightarrow> slot list \<Rightarrow> (inputs \<Rightarrow> 'a act) \<Rightarrow> (inputs \<Rightarrow> 'a \<Rightarrow> reply act)
   \<Rightarrow> (string \<times> string) list \<Rightarrow> request \<Rightarrow> reply act" where
  "handle b l rid slots action answer pv q =
     seqE (liftE (decode_slots b l pv q slots ([], []))) (\<lambda>(i, input_errors).
     if length input_errors > 0 then respond_on_input_error b l rid input_errors
     else try_elseE (action i) (respond_error rid) (answer i))"

definition answer_status :: "int \<Rightarrow> head_slot list \<Rightarrow> outputs \<Rightarrow> reply act" where
  "answer_status st hds o1 =
     retE \<lparr>rp_status = st, rp_header = add_heads hds o1 [], rp_body = No_body\<rparr>"

definition answer_xml :: "head_slot list \<Rightarrow> outputs \<Rightarrow> xml list \<Rightarrow> reply act" where
  "answer_xml hds o1 doc =
     retE \<lparr>rp_status = 200, rp_header = header_Set ''Content-Type'' ''application/xml'' (add_heads hds o1 []),
           rp_body = Xml_body doc\<rparr>"

section \<open>What is read\<close>

text \<open>The value and the error of one slot, without the state of the handler.\<close>

fun slot_name :: "slot \<Rightarrow> string" where
  "slot_name (Path_slot f k) = f"
| "slot_name (Header_slot f k kind) = f"
| "slot_name (Query_slot f k kind) = f"
| "slot_name (Meta_slot f k) = f"
| "slot_name (Enums_slot f k g) = f"
| "slot_name (Length_slot f) = f"
| "slot_name (Body_slot f) = f"
| "slot_name (Payload_slot f import) = f"

definition right :: "'a + 'b \<Rightarrow> 'b option" where
  "right r = (case r of Inl _ \<Rightarrow> None | Inr v \<Rightarrow> Some v)"

definition left :: "'a + 'b \<Rightarrow> 'a option" where
  "left r = (case r of Inl e \<Rightarrow> Some e | Inr _ \<Rightarrow> None)"

fun slot_result :: "bbs \<Rightarrow> library \<Rightarrow> (string \<times> string) list \<Rightarrow> request \<Rightarrow> slot \<Rightarrow> slot_value option" where
  "slot_result b l pv q (Path_slot f k) =
     (case map_of pv k of None \<Rightarrow> None | Some x \<Rightarrow> if x \<noteq> [] then Some (V_text x) else None)"
| "slot_result b l pv q (Header_slot f k kind) =
     (if header_Values (rq_headers q) k = [] then None else right (decode_kind kind (header_Get (rq_headers q) k)))"
| "slot_result b l pv q (Query_slot f k kind) =
     (if query_Has q k then right (decode_kind kind (query_Get q k)) else None)"
| "slot_result b l pv q (Meta_slot f k) = None"
| "slot_result b l pv q (Enums_slot f k g) =
     (if header_Values (rq_headers q) k = [] then None
      else Some (V_enums (fst (read_enums g (enum_texts (header_Values (rq_headers q) k))))))"
| "slot_result b l pv q (Length_slot f) = Some (V_int (rq_ContentLength (rq_message q)))"
| "slot_result b l pv q (Body_slot f) = None"
| "slot_result b l pv q (Payload_slot f import) =
     map_option V_payload (right (h_decode_body b (xml_decode l) import (rq_message q)))"

fun slot_error :: "bbs \<Rightarrow> library \<Rightarrow> request \<Rightarrow> slot \<Rightarrow> input_error option" where
  "slot_error b l q (Header_slot f k kind) =
     (if header_Values (rq_headers q) k = [] then None else left (decode_kind kind (header_Get (rq_headers q) k)))"
| "slot_error b l q (Query_slot f k kind) =
     (if query_Has q k then left (decode_kind kind (query_Get q k)) else None)"
| "slot_error b l q (Enums_slot f k g) =
     (if header_Values (rq_headers q) k = [] then None
      else snd (read_enums g (enum_texts (header_Values (rq_headers q) k))))"
| "slot_error b l q (Payload_slot f import) =
     (case h_decode_body b (xml_decode l) import (rq_message q) of
        Inl e \<Rightarrow> if e = Body_EOF then None else Some (Bad_body e) | Inr p \<Rightarrow> None)"
| "slot_error b l q _ = None"

text \<open>The header that makes the handler panic.\<close>

fun slot_panics :: "request \<Rightarrow> slot \<Rightarrow> bool" where
  "slot_panics q (Meta_slot f k) =
     (header_Values (rq_headers q) k \<noteq> [] \<and> list_ex (\<lambda>(k', _). has_prefix k' (CanonicalHeaderKey k)) (rq_headers q))"
| "slot_panics q _ = False"

definition slot_inputs :: "bbs \<Rightarrow> library \<Rightarrow> (string \<times> string) list \<Rightarrow> request \<Rightarrow> slot \<Rightarrow> inputs" where
  "slot_inputs b l pv q s = (case slot_result b l pv q s of None \<Rightarrow> [] | Some v \<Rightarrow> [(slot_name s, v)])"

lemma put_error_not_empty [simp]: "put_error k e errs \<noteq> []"
  by (simp add: put_error_def)

lemma decode_slot_reads:
  "decode_slot b l pv q s (i, errs) =
     (if slot_panics q s then Inl Panic
      else ok (slot_inputs b l pv q s @ i,
               snd (projr (decode_slot b l pv q s (i, errs)))))"
  by (cases s) (auto simp: slot_inputs_def put_slot_def right_def split: option.split sum.split prod.splits)

lemma decode_slot_errs:
  "decode_slot b l pv q s (i, errs) = ok (i', errs') \<Longrightarrow> errs' = [] \<longleftrightarrow> errs = [] \<and> slot_error b l q s = None"
  by (cases s) (auto simp: put_slot_def left_def split: option.splits sum.splits prod.splits if_splits)

lemma decode_slots_read:
  "decode_slots b l pv q ss (i, errs) = ok (i', errs') \<Longrightarrow>
     i' = rev (concat (map (slot_inputs b l pv q) ss)) @ i
     \<and> (errs' = [] \<longleftrightarrow> errs = [] \<and> (\<forall>s \<in> set ss. slot_error b l q s = None))"
proof (induction ss arbitrary: i errs)
  case Nil
  then show ?case by simp
next
  case (Cons s ss)
  obtain j e where s: "decode_slot b l pv q s (i, errs) = ok (j, e)"
    using Cons.prems by (cases "decode_slot b l pv q s (i, errs)") auto
  have "j = slot_inputs b l pv q s @ i"
    using decode_slot_reads [of b l pv q s i errs] unfolding s by (simp split: if_splits)
  moreover have "rev (slot_inputs b l pv q s) = slot_inputs b l pv q s"
    by (simp add: slot_inputs_def split: option.split)
  ultimately show ?case
    using Cons.IH [of j e] Cons.prems s decode_slot_errs [OF s] by auto
qed

lemma decode_slots_ends:
  "(\<exists>x. decode_slots b l pv q ss (i, errs) = ok x) \<longleftrightarrow> (\<forall>s \<in> set ss. \<not> slot_panics q s)"
proof (induction ss arbitrary: i errs)
  case (Cons s ss)
  show ?case
  proof (cases "slot_panics q s")
    case True
    then show ?thesis using decode_slot_reads [of b l pv q s i errs] by simp
  next
    case False
    then obtain j e where "decode_slot b l pv q s (i, errs) = ok (j, e)"
      using decode_slot_reads [of b l pv q s i errs] by auto
    then show ?thesis using Cons.IH [of j e] False by simp
  qed
qed simp

lemma slot_inputs_names: "fst ` set (slot_inputs b l pv q s) \<subseteq> {slot_name s}"
  by (auto simp: slot_inputs_def split: option.splits)

lemma map_of_slot_inputs:
  "distinct (map slot_name ss) \<Longrightarrow> s \<in> set ss \<Longrightarrow>
     map_of (rev (concat (map (slot_inputs b l pv q) ss))) (slot_name s) = slot_result b l pv q s"
proof (induction ss)
  case (Cons t ts)
  have rest: "map_of (rev (concat (map (slot_inputs b l pv q) us))) f = None" if "f \<notin> slot_name ` set us" for us f
    using that slot_inputs_names [of b l pv q] by (fastforce simp: map_of_eq_None_iff)
  have one: "map_of (rev (slot_inputs b l pv q t)) f = (if f = slot_name t then slot_result b l pv q t else None)" for f
    by (simp add: slot_inputs_def split: option.split)
  show ?case
  proof (cases "s = t")
    case True
    then show ?thesis using Cons.prems rest [of "slot_name t" ts] one by (simp add: map_add_def)
  next
    case False
    then have "s \<in> set ts" using Cons.prems by simp
    moreover have "slot_name t \<notin> slot_name ` set ts" using Cons.prems by simp
    ultimately have "s \<in> set ts" "slot_name s \<noteq> slot_name t" by (auto simp: image_iff)
    then show ?thesis using Cons one by (auto simp: map_add_def split: option.split)
  qed
qed simp

text \<open>What a slot holds after the reading, when the slots have different names.\<close>

lemma decoded_slot:
  assumes "decode_slots b l pv q ss ([], []) = ok (i, errs)" "distinct (map slot_name ss)" "s \<in> set ss"
  shows "map_of i (slot_name s) = slot_result b l pv q s"
  using decode_slots_read [OF assms(1)] map_of_slot_inputs [OF assms(2,3)] by simp

end
