(* ===== verification/Handlers.thy ===== *)
theory Handlers
  imports Decoding Put_object Get_object Copy_object Multipart Lists Buckets Tagging Deleting
begin

text \<open>
  The handlers of v1/server/handler.go: each reads its input, calls its action and answers with
  the output.  An input slot the model of an action has no place for is not read by it: its check
  only refuses the options that are in its record.
\<close>

text \<open>What the context of a request carries, and the id an upload that is created gets.\<close>

record request_context =
  cx_rid :: string
  cx_suffix :: marker
  cx_uploadid :: string

section \<open>From slots to records\<close>

definition content_of :: "inputs \<Rightarrow> meta_info" where
  "content_of i =
     empty_meta\<lparr>CacheControl := in_text i ''CacheControl'', ContentDisposition := in_text i ''ContentDisposition'',
       ContentEncoding := in_text i ''ContentEncoding'', ContentLanguage := in_text i ''ContentLanguage'',
       ContentType := in_text i ''ContentType'', Expires := in_date i ''Expires''\<rparr>"

definition response_of :: "inputs \<Rightarrow> meta_info" where
  "response_of i =
     empty_meta\<lparr>CacheControl := in_text i ''ResponseCacheControl'',
       ContentDisposition := in_text i ''ResponseContentDisposition'',
       ContentEncoding := in_text i ''ResponseContentEncoding'',
       ContentLanguage := in_text i ''ResponseContentLanguage'',
       ContentType := in_text i ''ResponseContentType'', Expires := in_date i ''ResponseExpires''\<rparr>"

definition checksums_of :: "inputs \<Rightarrow> checksum_set" where
  "checksums_of i =
     \<lparr>ChecksumType = in_enum i ''ChecksumType'', ChecksumCRC32 = in_text i ''ChecksumCRC32'',
      ChecksumCRC32C = in_text i ''ChecksumCRC32C'', ChecksumCRC64NVME = in_text i ''ChecksumCRC64NVME'',
      ChecksumSHA1 = in_text i ''ChecksumSHA1'', ChecksumSHA256 = in_text i ''ChecksumSHA256''\<rparr>"

definition copy_conditions_of :: "inputs \<Rightarrow> copy_conditions" where
  "copy_conditions_of i =
     no_conditions\<lparr>some_match := in_text i ''CopySourceIfMatch'', none_match := in_text i ''CopySourceIfNoneMatch'',
       modified_after := in_date i ''CopySourceIfModifiedSince'',
       modified_before := in_date i ''CopySourceIfUnmodifiedSince''\<rparr>"

definition get_input_of :: "inputs \<Rightarrow> get_input" where
  "get_input_of i =
     \<lparr>gi_Bucket = in_text i ''Bucket'', gi_Key = in_text i ''Key'',
      gi_ExpectedBucketOwner = in_text i ''ExpectedBucketOwner'', gi_VersionId = in_text i ''VersionId'',
      gi_Range = in_text i ''Range'', gi_PartNumber = in_int i ''PartNumber'',
      gi_IfMatch = in_text i ''IfMatch'', gi_IfNoneMatch = in_text i ''IfNoneMatch'',
      gi_IfModifiedSince = in_date i ''IfModifiedSince'', gi_IfUnmodifiedSince = in_date i ''IfUnmodifiedSince'',
      gi_ChecksumMode = in_enum i ''ChecksumMode'', gi_response = response_of i\<rparr>"

definition put_input_of :: "inputs \<Rightarrow> put_input" where
  "put_input_of i =
     \<lparr>pi_Bucket = in_text i ''Bucket'', pi_Key = in_text i ''Key'',
      pi_ExpectedBucketOwner = in_text i ''ExpectedBucketOwner'', pi_ContentLength = in_int i ''ContentLength'',
      pi_ContentMD5 = in_text i ''ContentMD5'', pi_checksums = checksums_of i,
      pi_Metadata = in_map i ''Metadata'', pi_Tagging = in_text i ''Tagging'', pi_content = content_of i,
      pi_IfMatch = in_text i ''IfMatch'', pi_IfNoneMatch = in_text i ''IfNoneMatch''\<rparr>"

definition bucket_input_of :: "inputs \<Rightarrow> bucket_input" where
  "bucket_input_of i =
     \<lparr>bi_Bucket = in_text i ''Bucket'', bi_ExpectedBucketOwner = in_text i ''ExpectedBucketOwner''\<rparr>"

definition list_objects_input_of :: "inputs \<Rightarrow> list_objects_input" where
  "list_objects_input_of i =
     \<lparr>li_Bucket = in_text i ''Bucket'', li_Delimiter = in_text i ''Delimiter'',
      li_EncodingType = in_enum i ''EncodingType'', li_ExpectedBucketOwner = in_text i ''ExpectedBucketOwner'',
      li_Marker = in_text i ''Marker'', li_MaxKeys = in_int i ''MaxKeys'', li_Prefix = in_text i ''Prefix'',
      li_ContinuationToken = in_text i ''ContinuationToken'', li_FetchOwner = in_bool i ''FetchOwner'',
      li_StartAfter = in_text i ''StartAfter''\<rparr>"

section \<open>From records to slots\<close>

definition slot_of :: "string \<Rightarrow> ('a \<Rightarrow> slot_value) \<Rightarrow> 'a option \<Rightarrow> outputs" where
  "slot_of f c x = (case x of None \<Rightarrow> [] | Some y \<Rightarrow> [(f, c y)])"

definition five_checksums :: "checksum_set \<Rightarrow> outputs" where
  "five_checksums c =
     slot_of ''ChecksumCRC32'' V_text (ChecksumCRC32 c) @ slot_of ''ChecksumCRC32C'' V_text (ChecksumCRC32C c)
     @ slot_of ''ChecksumCRC64NVME'' V_text (ChecksumCRC64NVME c)
     @ slot_of ''ChecksumSHA1'' V_text (ChecksumSHA1 c) @ slot_of ''ChecksumSHA256'' V_text (ChecksumSHA256 c)"

definition checksum_outputs :: "checksum_set \<Rightarrow> outputs" where
  "checksum_outputs c = five_checksums c @ [(''ChecksumType'', V_enum (ChecksumType c))]"

definition get_outputs :: "get_output \<Rightarrow> outputs" where
  "get_outputs g =
     [(''ContentLength'', V_int (go_ContentLength g))]
     @ slot_of ''ContentRange'' V_text (go_ContentRange g)
     @ [(''LastModified'', V_date (go_LastModified g)), (''ETag'', V_text (go_ETag g))]
     @ (case go_checksums g of None \<Rightarrow> [] | Some c \<Rightarrow> checksum_outputs c)
     @ slot_of ''Metadata'' V_map (go_Metadata g) @ slot_of ''TagCount'' V_int (go_TagCount g)
     @ [(''StorageClass'', V_enum ''STANDARD'')] @ slot_of ''AcceptRanges'' V_text (go_AcceptRanges g)
     @ slot_of ''CacheControl'' V_text (CacheControl (go_response g))
     @ slot_of ''ContentDisposition'' V_text (ContentDisposition (go_response g))
     @ slot_of ''ContentEncoding'' V_text (ContentEncoding (go_response g))
     @ slot_of ''ContentLanguage'' V_text (ContentLanguage (go_response g))
     @ slot_of ''ContentType'' V_text (ContentType (go_response g))
     @ slot_of ''ExpiresString'' V_text (map_option (format_rfc1123 ''GMT'') (Expires (go_response g)))"

text \<open>The slots that repeat the input.\<close>

definition echo_text :: "inputs \<Rightarrow> string list \<Rightarrow> outputs" where
  "echo_text i fs = concat (map (\<lambda>f. slot_of f V_text (in_text i f)) fs)"

definition echo_int :: "inputs \<Rightarrow> string list \<Rightarrow> outputs" where
  "echo_int i fs = concat (map (\<lambda>f. slot_of f V_int (in_int i f)) fs)"

definition echo_encoding :: "inputs \<Rightarrow> outputs" where
  "echo_encoding i = [(''EncodingType'', V_enum (in_enum i ''EncodingType''))]"

text \<open>
  The structures of the SDK, in the order of their slots: an enumeration that is empty gives an
  empty element, a pointer that is nil none.
\<close>

definition copy_result :: "copy_output \<Rightarrow> slot_value" where
  "copy_result r =
     V_struct (checksum_outputs (ko_checksums r)
       @ [(''ETag'', V_text (ko_ETag r)), (''LastModified'', V_date (ko_LastModified r))])"

definition part_copy_result :: "copy_output \<Rightarrow> slot_value" where
  "part_copy_result r =
     V_struct (five_checksums (ko_checksums r)
       @ [(''ETag'', V_text (ko_ETag r)), (''LastModified'', V_date (ko_LastModified r))])"

definition list_object_value :: "list_object \<Rightarrow> slot_value" where
  "list_object_value x =
     V_struct [(''ChecksumType'', V_enum []), (''ETag'', V_text (lo_ETag x)), (''Key'', V_text (lo_Key x)),
       (''LastModified'', V_date (lo_LastModified x)), (''Size'', V_int (lo_Size x)),
       (''StorageClass'', V_enum ''STANDARD'')]"

definition prefix_value :: "string \<Rightarrow> slot_value" where
  "prefix_value p = V_struct [(''Prefix'', V_text p)]"

definition upload_value :: "mpul_entry \<Rightarrow> slot_value" where
  "upload_value x =
     V_struct [(''ChecksumAlgorithm'', V_enum (me_ChecksumAlgorithm x)), (''ChecksumType'', V_enum (me_ChecksumType x)),
       (''Initiated'', V_date (me_Initiated x)), (''Key'', V_text (me_Key x)),
       (''StorageClass'', V_enum ''STANDARD''), (''UploadId'', V_text (me_UploadId x))]"

definition part_value :: "list_part \<Rightarrow> slot_value" where
  "part_value p =
     V_struct (five_checksums (pt_checksums p)
       @ [(''ETag'', V_text (pt_ETag p)), (''LastModified'', V_date (pt_LastModified p)),
          (''PartNumber'', V_int (pt_PartNumber p)), (''Size'', V_int (pt_Size p))])"

definition tag_value_of :: "tag \<Rightarrow> slot_value" where
  "tag_value_of t = V_struct (slot_of ''Key'' V_text (fst t) @ slot_of ''Value'' V_text (snd t))"

definition deleted_value :: "string option \<Rightarrow> slot_value" where
  "deleted_value k = V_struct (slot_of ''Key'' V_text k)"

definition delete_error_value :: "string option \<times> string \<times> string \<Rightarrow> slot_value" where
  "delete_error_value e =
     V_struct ([(''Code'', V_text (fst (snd e)))] @ slot_of ''Key'' V_text (fst e)
       @ [(''Message'', V_text (snd (snd e)))])"

text \<open>A slice that has no members has no elements, whether it is nil or not.\<close>

definition list_slot :: "string \<Rightarrow> ('a \<Rightarrow> slot_value) \<Rightarrow> 'a list \<Rightarrow> outputs" where
  "list_slot f c xs = [(f, V_list (map c xs))]"

section \<open>Objects\<close>

definition h_PutObject ::
  "bbs \<Rightarrow> library \<Rightarrow> request_context \<Rightarrow> (string \<times> string) list \<Rightarrow> request \<Rightarrow> reply act" where
  "h_PutObject b l cx pv q =
     handle b l (cx_rid cx) slots_PutObject
       (\<lambda>i. PutObject b (cx_suffix cx) (rq_message q) (put_input_of i))
       (\<lambda>i r. answer_status 200 heads_PutObject
          ([(''ETag'', V_text (po_ETag r)), (''Size'', V_int (po_Size r))] @ checksum_outputs (po_checksums r))) pv q"

text \<open>
  The status and the headers have been sent when the content is read: an error of the reading
  ends the answer early.
\<close>

definition answer_stream :: "bbs \<Rightarrow> head_slot list \<Rightarrow> get_output \<Rightarrow> reply act" where
  "answer_stream b hds g w =
     (let h = header_Set ''Content-Type'' ''binary/octet-stream'' (add_heads hds (get_outputs g) []) in
      case go_Body g of
        None \<Rightarrow> (Inl Panic, w)
      | Some (f, extent) \<Rightarrow>
          (case file_read b f w of
             (Inl _, w1) \<Rightarrow> (ok \<lparr>rp_status = 200, rp_header = h, rp_body = Data_body []\<rparr>, w1)
           | (Inr (d, _), w1) \<Rightarrow>
               (ok \<lparr>rp_status = 200, rp_header = h, rp_body = Data_body (section_bytes extent d)\<rparr>, w1)))"

definition h_GetObject ::
  "bbs \<Rightarrow> library \<Rightarrow> request_context \<Rightarrow> (string \<times> string) list \<Rightarrow> request \<Rightarrow> reply act" where
  "h_GetObject b l cx pv q =
     handle b l (cx_rid cx) slots_GetObject (\<lambda>i. GetObject b (cx_suffix cx) (get_input_of i))
       (\<lambda>i g. answer_stream b heads_GetObject g) pv q"

definition h_HeadObject ::
  "bbs \<Rightarrow> library \<Rightarrow> request_context \<Rightarrow> (string \<times> string) list \<Rightarrow> request \<Rightarrow> reply act" where
  "h_HeadObject b l cx pv q =
     handle b l (cx_rid cx) slots_HeadObject (\<lambda>i. HeadObject b (cx_suffix cx) (get_input_of i))
       (\<lambda>i g. answer_status 200 heads_HeadObject (get_outputs g @ [(''PartsCount'', V_int 1)])) pv q"

definition h_GetObjectAttributes ::
  "bbs \<Rightarrow> library \<Rightarrow> request_context \<Rightarrow> (string \<times> string) list \<Rightarrow> request \<Rightarrow> reply act" where
  "h_GetObjectAttributes b l cx pv q =
     handle b l (cx_rid cx) slots_GetObjectAttributes
       (\<lambda>i. GetObjectAttributes b (get_input_of i) (in_enums i ''ObjectAttributes''))
       (\<lambda>i r. let o1 = slot_of ''ETag'' V_text (ao_ETag r)
              @ slot_of ''Checksum'' (\<lambda>c. V_struct (checksum_outputs c)) (ao_Checksum r)
              @ slot_of ''StorageClass'' V_enum (ao_StorageClass r) @ slot_of ''ObjectSize'' V_int (ao_ObjectSize r)
              @ [(''LastModified'', V_date (ao_LastModified r))]
         in answer_xml heads_GetObjectAttributes o1 [marshal ''GetObjectAttributesResponse'' tags_GetObjectAttributes o1])
       pv q"

definition h_DeleteObject ::
  "bbs \<Rightarrow> library \<Rightarrow> request_context \<Rightarrow> (string \<times> string) list \<Rightarrow> request \<Rightarrow> reply act" where
  "h_DeleteObject b l cx pv q =
     handle b l (cx_rid cx) slots_DeleteObject
       (\<lambda>i. DeleteObject b (cx_suffix cx)
          \<lparr>di_Bucket = in_text i ''Bucket'', di_Key = in_text i ''Key'',
           di_ExpectedBucketOwner = in_text i ''ExpectedBucketOwner'', di_MFA = in_text i ''MFA'',
           di_VersionId = in_text i ''VersionId'', di_IfMatch = in_text i ''IfMatch'',
           di_IfMatchLastModifiedTime = in_date i ''IfMatchLastModifiedTime'',
           di_IfMatchSize = in_int i ''IfMatchSize''\<rparr>)
       (\<lambda>i _. answer_status 204 heads_DeleteObject []) pv q"

definition h_DeleteObjects ::
  "bbs \<Rightarrow> library \<Rightarrow> request_context \<Rightarrow> (string \<times> string) list \<Rightarrow> request \<Rightarrow> reply act" where
  "h_DeleteObjects b l cx pv q =
     handle b l (cx_rid cx) slots_DeleteObjects
       (\<lambda>i. DeleteObjects b (cx_suffix cx)
          \<lparr>dl_Bucket = in_text i ''Bucket'',
           dl_Delete = (case map_of i ''Delete'' of
              Some (V_payload (Delete_payload os quiet)) \<Rightarrow> Some (os, quiet) | _ \<Rightarrow> None),
           dl_ExpectedBucketOwner = in_text i ''ExpectedBucketOwner'', dl_MFA = in_text i ''MFA''\<rparr>)
       (\<lambda>i r. let o1 = list_slot ''Deleted'' deleted_value (Deleted r) @ list_slot ''Errors'' delete_error_value (Errors r)
         in answer_xml heads_DeleteObjects o1 [marshal ''DeleteResult'' tags_DeleteObjects o1]) pv q"

definition h_CopyObject ::
  "bbs \<Rightarrow> library \<Rightarrow> request_context \<Rightarrow> (string \<times> string) list \<Rightarrow> request \<Rightarrow> reply act" where
  "h_CopyObject b l cx pv q =
     handle b l (cx_rid cx) slots_CopyObject
       (\<lambda>i. CopyObject b (cx_suffix cx)
          \<lparr>ki_Bucket = in_text i ''Bucket'', ki_Key = in_text i ''Key'', ki_CopySource = in_text i ''CopySource'',
           ki_MetadataDirective = in_enum i ''MetadataDirective'', ki_TaggingDirective = in_enum i ''TaggingDirective'',
           ki_Metadata = in_map i ''Metadata'', ki_Tagging = in_text i ''Tagging'', ki_content = content_of i,
           ki_ChecksumAlgorithm = in_enum i ''ChecksumAlgorithm'',
           ki_ExpectedBucketOwner = in_text i ''ExpectedBucketOwner'', ki_conditions = copy_conditions_of i\<rparr>)
       (\<lambda>i r. answer_xml heads_CopyObject [] (encode_element ''CopyObjectResult'' (copy_result r))) pv q"

section \<open>Tags\<close>

definition h_GetObjectTagging ::
  "bbs \<Rightarrow> library \<Rightarrow> request_context \<Rightarrow> (string \<times> string) list \<Rightarrow> request \<Rightarrow> reply act" where
  "h_GetObjectTagging b l cx pv q =
     handle b l (cx_rid cx) slots_GetObjectTagging (\<lambda>i. GetObjectTagging b (get_input_of i))
       (\<lambda>i ts. let o1 = list_slot ''TagSet'' tag_value_of ts
         in answer_xml heads_GetObjectTagging o1 [marshal ''Tagging'' tags_GetObjectTagging o1]) pv q"

definition h_PutObjectTagging ::
  "bbs \<Rightarrow> library \<Rightarrow> request_context \<Rightarrow> (string \<times> string) list \<Rightarrow> request \<Rightarrow> reply act" where
  "h_PutObjectTagging b l cx pv q =
     handle b l (cx_rid cx) slots_PutObjectTagging
       (\<lambda>i. PutObjectTagging b (cx_suffix cx)
          \<lparr>ti_Bucket = in_text i ''Bucket'', ti_Key = in_text i ''Key'',
           ti_ExpectedBucketOwner = in_text i ''ExpectedBucketOwner'', ti_VersionId = in_text i ''VersionId'',
           ti_Tagging = (case map_of i ''Tagging'' of Some (V_payload (Tags_payload ts)) \<Rightarrow> Some ts | _ \<Rightarrow> None)\<rparr>)
       (\<lambda>i _. answer_status 200 heads_PutObjectTagging []) pv q"

definition h_DeleteObjectTagging ::
  "bbs \<Rightarrow> library \<Rightarrow> request_context \<Rightarrow> (string \<times> string) list \<Rightarrow> request \<Rightarrow> reply act" where
  "h_DeleteObjectTagging b l cx pv q =
     handle b l (cx_rid cx) slots_DeleteObjectTagging
       (\<lambda>i. DeleteObjectTagging b (cx_suffix cx)
          \<lparr>ui_Bucket = in_text i ''Bucket'', ui_Key = in_text i ''Key'',
           ui_ExpectedBucketOwner = in_text i ''ExpectedBucketOwner'', ui_VersionId = in_text i ''VersionId''\<rparr>)
       (\<lambda>i _. answer_status 204 heads_DeleteObjectTagging []) pv q"

section \<open>Buckets\<close>

definition h_CreateBucket ::
  "bbs \<Rightarrow> library \<Rightarrow> request_context \<Rightarrow> (string \<times> string) list \<Rightarrow> request \<Rightarrow> reply act" where
  "h_CreateBucket b l cx pv q =
     handle b l (cx_rid cx) slots_CreateBucket (\<lambda>i. CreateBucket b (bucket_input_of i))
       (\<lambda>i location. answer_status 200 heads_CreateBucket [(''Location'', V_text location)]) pv q"

definition h_DeleteBucket ::
  "bbs \<Rightarrow> library \<Rightarrow> request_context \<Rightarrow> (string \<times> string) list \<Rightarrow> request \<Rightarrow> reply act" where
  "h_DeleteBucket b l cx pv q =
     handle b l (cx_rid cx) slots_DeleteBucket (\<lambda>i. DeleteBucket b (bucket_input_of i))
       (\<lambda>i _. answer_status 204 [] []) pv q"

definition h_HeadBucket ::
  "bbs \<Rightarrow> library \<Rightarrow> request_context \<Rightarrow> (string \<times> string) list \<Rightarrow> request \<Rightarrow> reply act" where
  "h_HeadBucket b l cx pv q =
     handle b l (cx_rid cx) slots_HeadBucket (\<lambda>i. HeadBucket b (bucket_input_of i))
       (\<lambda>i _. answer_status 200 heads_HeadBucket []) pv q"

definition h_ListBuckets ::
  "bbs \<Rightarrow> library \<Rightarrow> request_context \<Rightarrow> (string \<times> string) list \<Rightarrow> request \<Rightarrow> reply act" where
  "h_ListBuckets b l cx pv q =
     handle b l (cx_rid cx) slots_ListBuckets
       (\<lambda>i. ListBuckets b
          \<lparr>lb_ContinuationToken = in_text i ''ContinuationToken'', lb_MaxBuckets = in_int i ''MaxBuckets'',
           lb_Prefix = in_text i ''Prefix''\<rparr>)
       (\<lambda>i (buckets, token).
          let o1 = list_slot ''Buckets'' (\<lambda>(name, stat).
                V_struct [(''CreationDate'', V_date (creation_time l stat)), (''Name'', V_text name)]) buckets
              @ slot_of ''ContinuationToken'' V_text token @ echo_text i [''Prefix'']
          in answer_xml [] o1 [marshal ''ListAllMyBucketsResult'' tags_ListBuckets o1]) pv q"

definition list_outputs :: "list_objects_output \<Rightarrow> outputs" where
  "list_outputs r =
     list_slot ''Contents'' list_object_value (lp_Contents r)
     @ list_slot ''CommonPrefixes'' prefix_value (lp_CommonPrefixes r)
     @ [(''IsTruncated'', V_bool (lp_IsTruncated r)), (''Name'', V_text (lp_Name r))]
     @ slot_of ''NextMarker'' V_text (lp_NextMarker r) @ slot_of ''KeyCount'' V_int (lp_KeyCount r)
     @ slot_of ''NextContinuationToken'' V_text (lp_NextContinuationToken r)"

definition h_ListObjects ::
  "bbs \<Rightarrow> library \<Rightarrow> request_context \<Rightarrow> (string \<times> string) list \<Rightarrow> request \<Rightarrow> reply act" where
  "h_ListObjects b l cx pv q =
     handle b l (cx_rid cx) slots_ListObjects (\<lambda>i. ListObjects b (list_objects_input_of i))
       (\<lambda>i r. let o1 = list_outputs r @ echo_text i [''Delimiter'', ''Marker'', ''Prefix'']
              @ echo_int i [''MaxKeys''] @ echo_encoding i
         in answer_xml heads_ListObjects o1 [marshal ''ListBucketResult'' tags_ListObjects o1]) pv q"

definition h_ListObjectsV2 ::
  "bbs \<Rightarrow> library \<Rightarrow> request_context \<Rightarrow> (string \<times> string) list \<Rightarrow> request \<Rightarrow> reply act" where
  "h_ListObjectsV2 b l cx pv q =
     handle b l (cx_rid cx) slots_ListObjectsV2 (\<lambda>i. ListObjectsV2 b (list_objects_input_of i))
       (\<lambda>i r. let o1 = list_outputs r @ echo_text i [''ContinuationToken'', ''Delimiter'', ''Prefix'', ''StartAfter'']
              @ echo_int i [''MaxKeys''] @ echo_encoding i
         in answer_xml heads_ListObjectsV2 o1 [marshal ''ListBucketResult'' tags_ListObjectsV2 o1]) pv q"

definition h_ListMultipartUploads ::
  "bbs \<Rightarrow> library \<Rightarrow> request_context \<Rightarrow> (string \<times> string) list \<Rightarrow> request \<Rightarrow> reply act" where
  "h_ListMultipartUploads b l cx pv q =
     handle b l (cx_rid cx) slots_ListMultipartUploads
       (\<lambda>i. ListMultipartUploads b
          \<lparr>lu_Bucket = in_text i ''Bucket'', lu_Delimiter = in_text i ''Delimiter'',
           lu_EncodingType = in_enum i ''EncodingType'', lu_ExpectedBucketOwner = in_text i ''ExpectedBucketOwner'',
           lu_KeyMarker = in_text i ''KeyMarker'', lu_MaxUploads = in_int i ''MaxUploads'',
           lu_Prefix = in_text i ''Prefix''\<rparr>)
       (\<lambda>i r. let o1 = list_slot ''Uploads'' upload_value (lv_Uploads r)
              @ list_slot ''CommonPrefixes'' prefix_value (lv_CommonPrefixes r)
              @ [(''IsTruncated'', V_bool (lv_IsTruncated r)), (''KeyMarker'', V_text (lv_KeyMarker r))]
              @ slot_of ''NextKeyMarker'' V_text (lv_NextKeyMarker r)
              @ echo_text i [''Bucket'', ''Delimiter'', ''Prefix'', ''UploadIdMarker'']
              @ echo_int i [''MaxUploads''] @ echo_encoding i
         in answer_xml heads_ListMultipartUploads o1 [marshal ''ListMultipartUploadsResult'' tags_ListMultipartUploads o1])
       pv q"

section \<open>Multipart uploads\<close>

definition h_CreateMultipartUpload ::
  "bbs \<Rightarrow> library \<Rightarrow> request_context \<Rightarrow> (string \<times> string) list \<Rightarrow> request \<Rightarrow> reply act" where
  "h_CreateMultipartUpload b l cx pv q =
     handle b l (cx_rid cx) slots_CreateMultipartUpload
       (\<lambda>i. CreateMultipartUpload b (cx_suffix cx) (cx_uploadid cx)
          \<lparr>ci_Bucket = in_text i ''Bucket'', ci_Key = in_text i ''Key'', ci_StorageClass = in_enum i ''StorageClass'',
           ci_Metadata = in_map i ''Metadata'', ci_Tagging = in_text i ''Tagging'', ci_content = content_of i,
           ci_ChecksumType = in_enum i ''ChecksumType'', ci_ChecksumAlgorithm = in_enum i ''ChecksumAlgorithm''\<rparr>)
       (\<lambda>i r. let o1 = echo_text i [''Bucket'', ''Key'']
              @ [(''UploadId'', V_text (cm_UploadId r)), (''ChecksumType'', V_enum (cm_ChecksumType r)),
                 (''ChecksumAlgorithm'', V_enum (cm_ChecksumAlgorithm r))]
         in answer_xml heads_CreateMultipartUpload o1
              [marshal ''InitiateMultipartUploadResult'' tags_CreateMultipartUpload o1]) pv q"

definition h_AbortMultipartUpload ::
  "bbs \<Rightarrow> library \<Rightarrow> request_context \<Rightarrow> (string \<times> string) list \<Rightarrow> request \<Rightarrow> reply act" where
  "h_AbortMultipartUpload b l cx pv q =
     handle b l (cx_rid cx) slots_AbortMultipartUpload
       (\<lambda>i. AbortMultipartUpload b
          \<lparr>ab_Bucket = in_text i ''Bucket'', ab_Key = in_text i ''Key'', ab_UploadId = in_text i ''UploadId'',
           ab_ExpectedBucketOwner = in_text i ''ExpectedBucketOwner'',
           ab_IfMatchInitiatedTime = in_date i ''IfMatchInitiatedTime''\<rparr>)
       (\<lambda>i _. answer_status 204 heads_AbortMultipartUpload []) pv q"

definition h_UploadPart ::
  "bbs \<Rightarrow> library \<Rightarrow> request_context \<Rightarrow> (string \<times> string) list \<Rightarrow> request \<Rightarrow> reply act" where
  "h_UploadPart b l cx pv q =
     handle b l (cx_rid cx) slots_UploadPart
       (\<lambda>i. UploadPart b (cx_suffix cx) (rq_message q)
          \<lparr>pa_Bucket = in_text i ''Bucket'', pa_Key = in_text i ''Key'', pa_UploadId = in_text i ''UploadId'',
           pa_PartNumber = in_int i ''PartNumber'', pa_ExpectedBucketOwner = in_text i ''ExpectedBucketOwner'',
           pa_ContentLength = in_int i ''ContentLength'', pa_ContentMD5 = in_text i ''ContentMD5'',
           pa_checksums = checksums_of i\<rparr>)
       (\<lambda>i r. answer_status 200 heads_UploadPart
          ((''ETag'', V_text (pr_ETag r)) # five_checksums (pr_checksums r))) pv q"

definition h_UploadPartCopy ::
  "bbs \<Rightarrow> library \<Rightarrow> request_context \<Rightarrow> (string \<times> string) list \<Rightarrow> request \<Rightarrow> reply act" where
  "h_UploadPartCopy b l cx pv q =
     handle b l (cx_rid cx) slots_UploadPartCopy
       (\<lambda>i. UploadPartCopy b (cx_suffix cx)
          \<lparr>qi_Bucket = in_text i ''Bucket'', qi_Key = in_text i ''Key'', qi_CopySource = in_text i ''CopySource'',
           qi_UploadId = in_text i ''UploadId'', qi_PartNumber = in_int i ''PartNumber'',
           qi_CopySourceRange = in_text i ''CopySourceRange'',
           qi_ExpectedBucketOwner = in_text i ''ExpectedBucketOwner'', qi_conditions = copy_conditions_of i\<rparr>)
       (\<lambda>i r. answer_xml heads_UploadPartCopy [] (encode_element ''CopyPartResult'' (part_copy_result r))) pv q"

definition h_CompleteMultipartUpload ::
  "bbs \<Rightarrow> library \<Rightarrow> request_context \<Rightarrow> (string \<times> string) list \<Rightarrow> request \<Rightarrow> reply act" where
  "h_CompleteMultipartUpload b l cx pv q =
     handle b l (cx_rid cx) slots_CompleteMultipartUpload
       (\<lambda>i. CompleteMultipartUpload b (cx_suffix cx)
          \<lparr>mi_Bucket = in_text i ''Bucket'', mi_Key = in_text i ''Key'', mi_UploadId = in_text i ''UploadId'',
           mi_checksums = checksums_of i, mi_ExpectedBucketOwner = in_text i ''ExpectedBucketOwner'',
           mi_IfMatch = in_text i ''IfMatch'', mi_IfNoneMatch = in_text i ''IfNoneMatch'',
           mi_MpuObjectSize = in_int i ''MpuObjectSize'',
           mi_Parts = (case map_of i ''MultipartUpload'' of
              Some (V_payload (Parts_payload ps)) \<Rightarrow> Some ps | _ \<Rightarrow> None)\<rparr>)
       (\<lambda>i r.
          let location = ''/'' @ path_join [or_empty (in_text i ''Bucket''), or_empty (in_text i ''Key'')];
              address = (case site_address l location of None \<Rightarrow> location | Some a \<Rightarrow> a);
              o1 = [(''ETag'', V_text (mo_ETag r)), (''Location'', V_text address)]
                @ checksum_outputs (mo_checksums r) @ echo_text i [''Bucket'', ''Key'']
          in answer_xml heads_CompleteMultipartUpload o1
               [marshal ''CompleteMultipartUploadResult'' tags_CompleteMultipartUpload o1]) pv q"

definition h_ListParts ::
  "bbs \<Rightarrow> library \<Rightarrow> request_context \<Rightarrow> (string \<times> string) list \<Rightarrow> request \<Rightarrow> reply act" where
  "h_ListParts b l cx pv q =
     handle b l (cx_rid cx) slots_ListParts
       (\<lambda>i. ListParts b
          \<lparr>lq_Bucket = in_text i ''Bucket'', lq_Key = in_text i ''Key'', lq_UploadId = in_text i ''UploadId'',
           lq_ExpectedBucketOwner = in_text i ''ExpectedBucketOwner'', lq_MaxParts = in_int i ''MaxParts'',
           lq_PartNumberMarker = in_text i ''PartNumberMarker''\<rparr>)
       (\<lambda>i r. let o1 = echo_text i [''Bucket'', ''Key'', ''PartNumberMarker'', ''UploadId'']
              @ echo_int i [''MaxParts'']
              @ slot_of ''IsTruncated'' V_bool (lo_IsTruncated r)
              @ slot_of ''NextPartNumberMarker'' V_text (lo_NextPartNumberMarker r)
              @ [(''ChecksumAlgorithm'', V_enum (lo_ChecksumAlgorithm r)), (''ChecksumType'', V_enum ''FULL_OBJECT''),
                 (''StorageClass'', V_enum ''STANDARD'')]
              @ list_slot ''Parts'' part_value (lo_Parts r)
         in answer_xml heads_ListParts o1 [marshal ''ListPartsResult'' tags_ListParts o1]) pv q"

section \<open>The types of the inputs\<close>

definition action_slots :: "(string \<times> slot list) list" where
  "action_slots =
     [(''AbortMultipartUpload'', slots_AbortMultipartUpload),
      (''CompleteMultipartUpload'', slots_CompleteMultipartUpload),
      (''CopyObject'', slots_CopyObject),
      (''CreateBucket'', slots_CreateBucket),
      (''CreateMultipartUpload'', slots_CreateMultipartUpload),
      (''DeleteBucket'', slots_DeleteBucket),
      (''DeleteObject'', slots_DeleteObject),
      (''DeleteObjects'', slots_DeleteObjects),
      (''DeleteObjectTagging'', slots_DeleteObjectTagging),
      (''GetObject'', slots_GetObject),
      (''GetObjectAttributes'', slots_GetObjectAttributes),
      (''GetObjectTagging'', slots_GetObjectTagging),
      (''HeadBucket'', slots_HeadBucket),
      (''HeadObject'', slots_HeadObject),
      (''ListBuckets'', slots_ListBuckets),
      (''ListMultipartUploads'', slots_ListMultipartUploads),
      (''ListObjects'', slots_ListObjects),
      (''ListObjectsV2'', slots_ListObjectsV2),
      (''ListParts'', slots_ListParts),
      (''PutObject'', slots_PutObject),
      (''PutObjectTagging'', slots_PutObjectTagging),
      (''UploadPart'', slots_UploadPart),
      (''UploadPartCopy'', slots_UploadPartCopy)]"

text \<open>The values a slot can have: those of its kind, and of a number those of its width.\<close>

fun kind_fits :: "slot_kind \<Rightarrow> slot_value \<Rightarrow> bool" where
  "kind_fits K_text (V_text s) \<longleftrightarrow> True"
| "kind_fits (K_enum f) (V_enum s) \<longleftrightarrow> f s = Inr s"
| "kind_fits K_date (V_date t) \<longleftrightarrow> True"
| "kind_fits K_int64 (V_int n) \<longleftrightarrow> - (2 ^ 63) \<le> n \<and> n < 2 ^ 63"
| "kind_fits K_int32 (V_int n) \<longleftrightarrow> - (2 ^ 31) \<le> n \<and> n < 2 ^ 31"
| "kind_fits K_bool (V_bool x) \<longleftrightarrow> True"
| "kind_fits _ _ \<longleftrightarrow> False"

fun slot_fits :: "request \<Rightarrow> slot \<Rightarrow> slot_value \<Rightarrow> bool" where
  "slot_fits q (Path_slot f k) (V_text s) \<longleftrightarrow> s \<noteq> []"
| "slot_fits q (Header_slot f k kind) v \<longleftrightarrow> kind_fits kind v"
| "slot_fits q (Query_slot f k kind) v \<longleftrightarrow> kind_fits kind v"
| "slot_fits q (Enums_slot f k g) (V_enums xs) \<longleftrightarrow> list_all (\<lambda>x. g x = Inr x) xs"
| "slot_fits q (Length_slot f) (V_int n) \<longleftrightarrow> n = rq_ContentLength (rq_message q)"
| "slot_fits q (Payload_slot f import) (V_payload p) \<longleftrightarrow> True"
| "slot_fits _ _ _ \<longleftrightarrow> False"

text \<open>An enumeration gives the text it is read from.\<close>

definition interns :: "(string \<Rightarrow> input_error + string) \<Rightarrow> bool" where
  "interns f \<longleftrightarrow> (\<forall>s x. f s = Inr x \<longrightarrow> f x = Inr x)"

lemma intern_interns [simp]: "interns (intern enum names)"
  by (simp add: interns_def intern_def)

fun slot_ok :: "slot \<Rightarrow> bool" where
  "slot_ok (Header_slot f k (K_enum g)) = interns g"
| "slot_ok (Query_slot f k (K_enum g)) = interns g"
| "slot_ok (Enums_slot f k g) = interns g"
| "slot_ok _ = True"

lemmas interns_simps =
  intern_BucketCannedACL_def intern_BucketLocationConstraint_def intern_BucketType_def
  intern_ChecksumAlgorithm_def intern_ChecksumMode_def intern_ChecksumType_def
  intern_DataRedundancy_def intern_EncodingType_def intern_LocationType_def
  intern_MetadataDirective_def intern_ObjectAttributes_def intern_ObjectCannedACL_def
  intern_ObjectLockLegalHoldStatus_def intern_ObjectLockMode_def intern_ObjectOwnership_def
  intern_OptionalObjectAttributes_def intern_RequestPayer_def intern_ServerSideEncryption_def
  intern_StorageClass_def intern_TaggingDirective_def

lemmas slots_defs =
  slots_AbortMultipartUpload_def slots_CompleteMultipartUpload_def slots_CopyObject_def
  slots_CreateBucket_def slots_CreateMultipartUpload_def slots_DeleteBucket_def
  slots_DeleteObject_def slots_DeleteObjects_def slots_DeleteObjectTagging_def slots_GetObject_def
  slots_GetObjectAttributes_def slots_GetObjectTagging_def slots_HeadBucket_def slots_HeadObject_def
  slots_ListBuckets_def slots_ListMultipartUploads_def slots_ListObjects_def slots_ListObjectsV2_def
  slots_ListParts_def slots_PutObject_def slots_PutObjectTagging_def slots_UploadPart_def
  slots_UploadPartCopy_def

lemma slots_ok: "list_all (\<lambda>(a, ss). list_all slot_ok ss) action_slots"
  by (simp add: action_slots_def slots_defs interns_simps)

lemma slots_distinct: "list_all (\<lambda>(a, ss). distinct (map slot_name ss)) action_slots"
  by code_simp

lemma decode_kind_fits:
  "decode_kind kind s = Inr v \<Longrightarrow> (\<And>f. kind = K_enum f \<Longrightarrow> interns f) \<Longrightarrow> kind_fits kind v"
  by (cases kind) (auto simp: interns_def dest: parse_int_bounds split: sum.splits option.splits)

lemma read_enums_fit: "interns g \<Longrightarrow> list_all (\<lambda>x. g x = Inr x) (fst (read_enums g ss))"
  by (induction ss) (auto simp: interns_def Let_def split: prod.split sum.split)

lemma slot_result_fits:
  assumes "slot_ok s" "slot_result b l pv q s = Some v"
  shows "slot_fits q s v"
proof (cases s)
  case (Header_slot f k kind)
  then show ?thesis using assms
    by (cases kind) (auto simp: right_def split: if_splits sum.splits option.splits
        intro: decode_kind_fits dest: parse_int_bounds simp: interns_def)
next
  case (Query_slot f k kind)
  then show ?thesis using assms
    by (cases kind) (auto simp: right_def split: if_splits sum.splits option.splits
        intro: decode_kind_fits dest: parse_int_bounds simp: interns_def)
next
  case (Enums_slot f k g)
  then show ?thesis using assms read_enums_fit by (auto split: if_splits)
qed (use assms in \<open>auto split: if_splits option.splits\<close>)

text \<open>
  Claim C15.  What a handler hands to its action has its types: every slot that is set is a slot of
  the action, holds a value of its kind, a number within its width, a name its enumeration knows,
  and a bucket or key that is not empty, whatever the request is.
\<close>

theorem decoded_slots_typed:
  assumes "(action, slots) \<in> set action_slots" "decode_slots b l pv q slots ([], []) = ok (i, errs)"
    "map_of i f = Some v"
  shows "\<exists>s \<in> set slots. slot_name s = f \<and> slot_fits q s v"
proof -
  have ok: "list_all slot_ok slots" using slots_ok assms(1) by (auto simp: list_all_iff)
  have "(f, v) \<in> set (rev (concat (map (slot_inputs b l pv q) slots)))"
    using map_of_SomeD [OF assms(3)] decode_slots_read [OF assms(2)] by simp
  then obtain s where s: "s \<in> set slots" "slot_name s = f" "slot_result b l pv q s = Some v"
    by (auto simp: slot_inputs_def split: option.splits)
  then show ?thesis using slot_result_fits [OF _ s(3)] ok by (auto simp: list_all_iff)
qed

definition example_library :: library where
  "example_library =
     \<lparr>xml_decode = (\<lambda>_. (Inl Body_EOF, 0)), error_text = (\<lambda>_. ''bad parameter''), sign_http = example_sign,
      creation_time = fi_mtime, site_address = (\<lambda>_. None)\<rparr>"

definition example_values :: "(string \<times> string) list" where
  "example_values = [(''bucket'', ''bkt''), (''key'', ''a'')]"

lemma example_decoded:
  "\<exists>i errs. decode_slots example_bbs example_library example_values example_get_request slots_GetObject ([], [])
       = ok (i, errs) \<and> map_of i ''Key'' = Some (V_text ''a'')"
proof -
  have p: "\<forall>t \<in> set slots_GetObject. \<not> slot_panics example_get_request t" by (simp add: slots_GetObject_def)
  then obtain i errs where d: "decode_slots example_bbs example_library example_values example_get_request
      slots_GetObject ([], []) = ok (i, errs)"
    using decode_slots_ends by (metis surj_pair)
  have k: "Path_slot ''Key'' ''key'' \<in> set slots_GetObject" "distinct (map slot_name slots_GetObject)"
    using slots_distinct by (simp add: slots_GetObject_def, simp add: action_slots_def)
  show ?thesis using d decoded_slot [OF d k(2,1)] by (simp add: example_values_def)
qed

theorem decoded_slots_typed_witness:
  "\<exists>s \<in> set slots_GetObject. slot_name s = ''Key'' \<and> slot_fits example_get_request s (V_text ''a'')"
proof -
  obtain i errs where "decode_slots example_bbs example_library example_values example_get_request slots_GetObject
      ([], []) = ok (i, errs)" "map_of i ''Key'' = Some (V_text ''a'')"
    using example_decoded by blast
  moreover have "(''GetObject'', slots_GetObject) \<in> set action_slots" by (simp add: action_slots_def)
  ultimately show ?thesis using decoded_slots_typed by blast
qed

text \<open>
  Claim C16.  A request with a parameter that does not read, in any slot of the action, is answered
  with the status 400, the action is not called, and nothing is changed.
\<close>

theorem bad_input_refused:
  assumes "s \<in> set slots" "slot_error b l q s \<noteq> None" "\<forall>t \<in> set slots. \<not> slot_panics q t"
  shows "\<exists>r. handle b l rid slots action answer pv q w = (Inr r, w) \<and> rp_status r = 400"
proof -
  obtain i errs where d: "decode_slots b l pv q slots ([], []) = ok (i, errs)"
    using decode_slots_ends [of b l pv q slots "[]" "[]"] assms(3) by auto
  then have "errs \<noteq> []" using decode_slots_read [OF d] assms(1,2) by auto
  moreover have "error_entry InvalidArgument = (400, ''Invalid Argument'')" by code_simp
  ultimately show ?thesis
    by (auto simp: handle_def stepping liftE_def d respond_on_input_error_def Let_def respond_error_def
        respond_on_action_error_def reply_of_response_def valid_status_def)
qed


text \<open>A GetObject whose part number is no number.\<close>

definition bad_request :: request where
  "bad_request = example_get_request\<lparr>rq_RawQuery := ''partNumber=x''\<rparr>"

theorem bad_input_refused_witness:
  "\<forall>w. \<exists>r. h_GetObject example_bbs example_library \<lparr>cx_rid = ''1'', cx_suffix = example_sfx, cx_uploadid = []\<rparr>
         example_values bad_request w = (Inr r, w) \<and> rp_status r = 400"
proof -
  have "Query_slot ''PartNumber'' ''partNumber'' K_int32 \<in> set slots_GetObject" by (simp add: slots_GetObject_def)
  moreover have "slot_error example_bbs example_library bad_request (Query_slot ''PartNumber'' ''partNumber'' K_int32) \<noteq> None"
    by code_simp
  moreover have "\<forall>t \<in> set slots_GetObject. \<not> slot_panics bad_request t" by (simp add: slots_GetObject_def)
  ultimately show ?thesis unfolding h_GetObject_def by (intro allI bad_input_refused)
qed

end
