(* ===== verification/Dispatch.thy ===== *)
theory Dispatch
  imports Handlers
begin

text \<open>
  The dispatcher of v1/server/dispatcher.go: the patterns it registers, how net/http's ServeMux
  finds the pattern of a request, and the functions that choose the handler.
\<close>

section \<open>Patterns\<close>

text \<open>
  A segment of a pattern: a text, a wildcard, or a wildcard for the rest.  The segment of an end
  marker is the text of a slash.
\<close>

datatype segment = Literal string | Single string | Multi string

datatype route =
    Object_get | Bucket_get | Root_get | Object_put | Bucket_put | Object_post | Bucket_post
  | Object_delete | Bucket_delete | Server_control

type_synonym pattern = "segment list \<times> route"

text \<open>register_dispatcher, with the pattern server.go registers before it: by method.\<close>

definition patterns :: "bbs_configuration \<Rightarrow> string \<Rightarrow> pattern list" where
  "patterns c method =
     (if method = ''GET''
      then [([Single ''bucket'', Multi ''key''], Object_get), ([Single ''bucket''], Bucket_get),
            ([Literal ''/''], Root_get)]
      else if method = ''PUT''
      then [([Single ''bucket'', Multi ''key''], Object_put), ([Single ''bucket''], Bucket_put)]
      else if method = ''POST''
      then [([Literal (Server_control_name c), Single ''command''], Server_control),
            ([Single ''bucket'', Multi ''key''], Object_post), ([Single ''bucket''], Bucket_post)]
      else if method = ''DELETE''
      then [([Single ''bucket'', Multi ''key''], Object_delete), ([Single ''bucket''], Bucket_delete)]
      else [])"

definition methods :: "string list" where
  "methods = [''DELETE'', ''GET'', ''POST'', ''PUT'']"

section \<open>Matching\<close>

definition path_unescape :: "string \<Rightarrow> string" where
  "path_unescape s = (case unescape False s of None \<Rightarrow> s | Some t \<Rightarrow> t)"

text \<open>The first segment of a path that begins with a slash, and the rest.\<close>

definition first_segment :: "string \<Rightarrow> string \<times> string" where
  "first_segment path =
     (if path = ''/'' then (''/'', [])
      else let p = tl path in
           (path_unescape (takeWhile (\<lambda>c. c \<noteq> slash) p), dropWhile (\<lambda>c. c \<noteq> slash) p))"

text \<open>The patterns that go on with a segment, as the children of a node of the routing tree.\<close>

fun literal_child :: "string \<Rightarrow> (segment list \<times> pattern) list \<Rightarrow> (segment list \<times> pattern) list" where
  "literal_child s [] = []"
| "literal_child s ((Literal t # gs, p) # ns) =
     (if t = s then (gs, p) # literal_child s ns else literal_child s ns)"
| "literal_child s (n # ns) = literal_child s ns"

fun single_child :: "(segment list \<times> pattern) list \<Rightarrow> (segment list \<times> pattern) list" where
  "single_child [] = []"
| "single_child ((Single n # gs, p) # ns) = (gs, p) # single_child ns"
| "single_child (n # ns) = single_child ns"

fun multi_child :: "(segment list \<times> pattern) list \<Rightarrow> pattern option" where
  "multi_child [] = None"
| "multi_child ((Multi n # gs, p) # ns) = Some p"
| "multi_child (n # ns) = multi_child ns"

fun leaf :: "(segment list \<times> pattern) list \<Rightarrow> pattern option" where
  "leaf [] = None"
| "leaf (([], p) # ns) = Some p"
| "leaf (n # ns) = leaf ns"

lemma first_segment_shorter: "path \<noteq> [] \<Longrightarrow> length (snd (first_segment path)) < length path"
  using length_dropWhile_le [of "\<lambda>c. c \<noteq> slash" "tl path"]
  by (cases path) (auto simp: first_segment_def Let_def)

text \<open>
  routingNode.matchPath: a text before a wildcard before a wildcard for the rest, going back when
  the more specific child does not match.
\<close>

function match_path ::
  "(segment list \<times> pattern) list \<Rightarrow> string \<Rightarrow> string list \<Rightarrow> (pattern \<times> string list) option" where
  "match_path ns path ms =
     (if ns = [] then None
      else if path = [] then map_option (\<lambda>p. (p, ms)) (leaf ns)
      else let (seg, rest) = first_segment path in
        (case match_path (literal_child seg ns) rest ms of
           Some r \<Rightarrow> Some r
         | None \<Rightarrow>
             (case (if seg \<noteq> ''/'' then match_path (single_child ns) rest (ms @ [seg]) else None) of
                Some r \<Rightarrow> Some r
              | None \<Rightarrow> map_option (\<lambda>p. (p, ms @ [path_unescape (tl path)])) (multi_child ns))))"
  by pat_completeness auto

termination
proof (relation "measure (\<lambda>(ns, path, ms). length path)", goal_cases)
  case 1
  then show ?case by simp
next
  case (2 ns path ms x seg rest)
  then show ?case using first_segment_shorter [of path] by (metis case_prod_conv in_measure snd_conv)
next
  case (3 ns path ms x seg rest)
  then show ?case using first_segment_shorter [of path] by (metis case_prod_conv in_measure snd_conv)
qed

declare match_path.simps [simp del]

definition nodes_of :: "pattern list \<Rightarrow> (segment list \<times> pattern) list" where
  "nodes_of ps = map (\<lambda>p. (fst p, p)) ps"

text \<open>routingNode.matchMethodAndPath: a HEAD can go to a pattern of GET.\<close>

definition match_method :: "bbs_configuration \<Rightarrow> string \<Rightarrow> string \<Rightarrow> (pattern \<times> string list) option" where
  "match_method c method path =
     (case match_path (nodes_of (patterns c method)) path [] of
        Some r \<Rightarrow> Some r
      | None \<Rightarrow> if method = ''HEAD'' then match_path (nodes_of (patterns c ''GET'')) path [] else None)"

section \<open>Finding the handler\<close>

definition cleanPath :: "string \<Rightarrow> string" where
  "cleanPath p =
     (if p = [] then ''/''
      else let p1 = (if hd p \<noteq> slash then slash # p else p); np = path_clean p1 in
           if last p1 = slash \<and> np \<noteq> ''/'' then np @ ''/'' else np)"

definition is_multi :: "segment \<Rightarrow> bool" where
  "is_multi s = (case s of Multi _ \<Rightarrow> True | _ \<Rightarrow> False)"

definition exact_match :: "(pattern \<times> string list) option \<Rightarrow> string \<Rightarrow> bool" where
  "exact_match n path =
     (case n of
        None \<Rightarrow> False
      | Some ((gs, _), _) \<Rightarrow>
          if \<not> is_multi (last gs) then True
          else if path \<noteq> [] \<and> last path \<noteq> slash then False
          else length gs = length (filter (\<lambda>c. c = slash) path))"

datatype found =
    Redirected string
  | Found route "(string \<times> string) list"
  | Not_allowed "string list"
  | Not_found

text \<open>The text of a URL that has a path and a query only.\<close>

definition url_text :: "string \<Rightarrow> string \<Rightarrow> string" where
  "url_text path query =
     (if path = ''*'' then ''*'' else path_escape path) @ (if query = [] then [] else CHR ''?'' # query)"

definition segment_names :: "segment list \<Rightarrow> string list" where
  "segment_names gs =
     concat (map (\<lambda>s. case s of Literal _ \<Rightarrow> [] | Single n \<Rightarrow> [n] | Multi n \<Rightarrow> [n]) gs)"

definition allowed_methods :: "bbs_configuration \<Rightarrow> string \<Rightarrow> string list" where
  "allowed_methods c path =
     (let matches = (\<lambda>m. match_path (nodes_of (patterns c m)) path [] \<noteq> None
                        \<or> match_path (nodes_of (patterns c m)) (path @ ''/'') [] \<noteq> None)
      in concat (map (\<lambda>m. if matches m then (if m = ''GET'' then [''GET'', ''HEAD''] else [m]) else []) methods))"

text \<open>ServeMux.findHandler.  There are no patterns with a host.\<close>

definition find_handler :: "bbs_configuration \<Rightarrow> request \<Rightarrow> found" where
  "find_handler c q =
     (let escaped = EscapedPath q; connect = (rq_Method q = ''CONNECT'');
          path = (if connect then escaped else cleanPath escaped);
          n = match_method c (rq_Method q) path;
          path2 = path @ ''/'';
          slash_redirect = (\<not> exact_match n path \<and> \<not> (path \<noteq> [] \<and> last path = slash)
            \<and> exact_match (match_method c (rq_Method q) path2) path2)
      in if slash_redirect then Redirected (url_text (cleanPath (rq_Path q) @ ''/'') (rq_RawQuery q))
         else if \<not> connect \<and> path \<noteq> escaped then Redirected (url_text path (rq_RawQuery q))
         else case n of
           Some ((gs, r), ms) \<Rightarrow> Found r (zip (segment_names gs) ms)
         | None \<Rightarrow> (let ms = allowed_methods c path in if ms = [] then Not_found else Not_allowed ms))"

section \<open>The dispatcher\<close>

text \<open>http.Error: the headers of the answer, and the text with a line end.\<close>

definition error_reply :: "int \<Rightarrow> string \<Rightarrow> header \<Rightarrow> reply" where
  "error_reply st msg h =
     \<lparr>rp_status = st,
      rp_header = header_Set ''X-Content-Type-Options'' ''nosniff''
        (header_Set ''Content-Type'' ''text/plain; charset=utf-8'' h),
      rp_body = Text_body (msg @ [CHR 0x0A])\<rparr>"

definition not_found_reply :: reply where
  "not_found_reply = error_reply 404 ''404 page not found'' []"

definition has_header :: "request \<Rightarrow> string \<Rightarrow> bool" where
  "has_header q k = (length (header_Values (rq_headers q) k) \<noteq> 0)"

type_synonym handler =
  "bbs \<Rightarrow> library \<Rightarrow> request_context \<Rightarrow> (string \<times> string) list \<Rightarrow> request \<Rightarrow> reply act"

text \<open>The functions of register_dispatcher, in its order: each chooses a handler, or none.\<close>

definition choose_handler :: "route \<Rightarrow> request \<Rightarrow> handler option" where
  "choose_handler r q =
     (let get = (rq_Method q = ''GET''); head = (rq_Method q = ''HEAD'');
          attributes = query_Has q ''attributes''; tagging = query_Has q ''tagging'';
          uploadid = query_Has q ''uploadId''; uploads = query_Has q ''uploads'';
          partnumber = query_Has q ''partNumber''; copy_source = has_header q ''x-amz-copy-source''
      in case r of
        Object_get \<Rightarrow>
          if get \<and> attributes \<and> has_header q ''x-amz-object-attributes'' then Some h_GetObjectAttributes
          else if get \<and> uploadid then Some h_ListParts
          else if get \<and> tagging then Some h_GetObjectTagging
          else if head then Some h_HeadObject
          else if get then Some h_GetObject
          else None
      | Bucket_get \<Rightarrow>
          if get \<and> query_Get q ''list-type'' = ''2'' then Some h_ListObjectsV2
          else if get \<and> uploads then Some h_ListMultipartUploads
          else if get then Some h_ListObjects
          else if head then Some h_HeadBucket
          else None
      | Root_get \<Rightarrow> if get then Some h_ListBuckets else None
      | Object_put \<Rightarrow>
          if partnumber \<and> uploadid \<and> copy_source then Some h_UploadPartCopy
          else if partnumber \<and> uploadid then Some h_UploadPart
          else if tagging then Some h_PutObjectTagging
          else if copy_source then Some h_CopyObject
          else Some h_PutObject
      | Bucket_put \<Rightarrow> Some h_CreateBucket
      | Object_post \<Rightarrow>
          if uploads then Some h_CreateMultipartUpload
          else if uploadid then Some h_CompleteMultipartUpload
          else None
      | Bucket_post \<Rightarrow> if query_Has q ''delete'' then Some h_DeleteObjects else None
      | Object_delete \<Rightarrow>
          if tagging then Some h_DeleteObjectTagging
          else if uploadid then Some h_AbortMultipartUpload
          else Some h_DeleteObject
      | Bucket_delete \<Rightarrow> Some h_DeleteBucket
      | Server_control \<Rightarrow> None)"

text \<open>
  server_control answers at once; the shutdown and the dump of the statistics it starts are not
  modelled.
\<close>

definition server_control :: reply where
  "server_control = \<lparr>rp_status = 200, rp_header = [], rp_body = No_body\<rparr>"

fun comma_list :: "string list \<Rightarrow> string" where
  "comma_list [] = []"
| "comma_list [m] = m"
| "comma_list (m # ms) = m @ '', '' @ comma_list ms"

definition dispatch :: "bbs \<Rightarrow> library \<Rightarrow> request_context \<Rightarrow> request \<Rightarrow> reply act" where
  "dispatch b l cx q =
     (if rq_Path q = ''*'' then retE \<lparr>rp_status = 400, rp_header = [], rp_body = No_body\<rparr>
      else case find_handler (config b) q of
        Redirected u \<Rightarrow> retE \<lparr>rp_status = 301, rp_header = header_Set ''Location'' u [], rp_body = No_body\<rparr>
      | Not_found \<Rightarrow> retE not_found_reply
      | Not_allowed ms \<Rightarrow>
          retE (error_reply 405 ''Method Not Allowed'' (header_Set ''Allow'' (comma_list ms) []))
      | Found Server_control pv \<Rightarrow> retE server_control
      | Found r pv \<Rightarrow>
          (case choose_handler r q of None \<Rightarrow> retE not_found_reply | Some h \<Rightarrow> h b l cx pv q))"

end
