(* ===== verification/Routing.thy ===== *)
theory Routing
  imports Dispatch Round_trip
begin

text \<open>
  What the dispatcher does: the bucket and the key a handler gets are the path of the URL, and
  an upload over HTTP is what a download over HTTP delivers.
\<close>

section \<open>Segments of an escaped path\<close>

lemma unescape_split:
  "unescape False (s @ slash # t) = Some u \<Longrightarrow>
     \<exists>s' t'. unescape False s = Some s' \<and> unescape False t = Some t' \<and> u = s' @ slash # t'"
proof (induction s arbitrary: u rule: length_induct)
  case (1 s)
  have h: "hex_val slash = None" by code_simp
  show ?case
  proof (cases s)
    case Nil
    then show ?thesis using "1.prems" by auto
  next
    case (Cons c s1)
    show ?thesis
    proof (cases "c = CHR ''%''")
      case False
      then obtain v where v: "unescape False (s1 @ slash # t) = Some v" "u = c # v"
        using "1.prems" Cons by auto
      then obtain s' t' where "unescape False s1 = Some s'" "unescape False t = Some t'" "v = s' @ slash # t'"
        using "1.IH" Cons by (metis length_Cons lessI)
      then show ?thesis using v(2) False Cons by auto
    next
      case True
      then obtain a d s2 where s1: "s1 = a # d # s2"
        using "1.prems" Cons h by (cases s1; cases "tl s1") (auto split: list.splits option.splits)
      then obtain x y v where v: "hex_val a = Some x" "hex_val d = Some y"
        "unescape False (s2 @ slash # t) = Some v" "u = char_of (16 * x + y) # v"
        using "1.prems" Cons True by (auto split: option.splits)
      moreover have "length s2 < length s" using Cons s1 by simp
      ultimately obtain s' t' where "unescape False s2 = Some s'" "unescape False t = Some t'" "v = s' @ slash # t'"
        using "1.IH" by metis
      then show ?thesis using v Cons True s1 by auto
    qed
  qed
qed

lemma path_unescape_some: "unescape False s = Some t \<Longrightarrow> path_unescape s = t"
  by (simp add: path_unescape_def)

section \<open>Matching\<close>

lemma match_path_Nil [simp]: "match_path [] path ms = None"
  by (simp add: match_path.simps)

lemma match_leaf [simp]: "match_path [([], p)] path ms = (if path = [] then Some (p, ms) else None)"
  by (simp add: match_path.simps Let_def split: prod.split)

lemma match_single_leaf:
  "match_path [([Single n], p)] path ms =
     (if path = [] \<or> fst (first_segment path) = ''/'' \<or> snd (first_segment path) \<noteq> [] then None
      else Some (p, ms @ [fst (first_segment path)]))"
  by (simp add: match_path.simps [of "[([Single n], p)]"] Let_def split: prod.split)

lemma match_rest:
  "match_path [([Multi k], p1), ([], p2)] path ms =
     Some (if path = [] then (p2, ms) else (p1, ms @ [path_unescape (tl path)]))"
  by (simp add: match_path.simps [of "[([Multi k], p1), ([], p2)]"] Let_def split: prod.split)

text \<open>The routes of objects and of buckets.\<close>

definition object_routes :: "route list" where
  "object_routes = [Object_get, Object_put, Object_post, Object_delete]"

definition bucket_routes :: "route list" where
  "bucket_routes = [Bucket_get, Bucket_put, Bucket_post, Bucket_delete]"

lemma match_patterns:
  assumes "match_path (nodes_of (patterns c m)) path [] = Some ((gs, r), ms)" "path \<noteq> []"
    "r \<noteq> Server_control" "r \<noteq> Root_get"
  shows "path \<noteq> ''/'' \<and> (if snd (first_segment path) = []
     then r \<in> set bucket_routes \<and> gs = [Single ''bucket''] \<and> ms = [fst (first_segment path)]
     else r \<in> set object_routes \<and> gs = [Single ''bucket'', Multi ''key'']
       \<and> ms = [fst (first_segment path), path_unescape (tl (snd (first_segment path)))])"
proof -
  obtain seg rest where f: "first_segment path = (seg, rest)" by (cases "first_segment path")
  have p: "path \<noteq> ''/''" if "seg \<noteq> ''/''" using that f by (auto simp: first_segment_def)
  show ?thesis
    using assms f
    by (auto simp: patterns_def nodes_of_def match_path.simps [of _ path] Let_def match_rest match_single_leaf
        object_routes_def bucket_routes_def p split: if_splits option.splits)
qed

lemma first_segment_unescape:
  assumes "unescape False (slash # p) = Some u" "slash # p \<noteq> ''/''"
  shows "snd (first_segment (slash # p)) = [] \<and> u = slash # fst (first_segment (slash # p))
    \<or> (\<exists>t. snd (first_segment (slash # p)) = slash # t
         \<and> u = slash # fst (first_segment (slash # p)) @ slash # path_unescape t)"
proof -
  let ?s = "takeWhile (\<lambda>c. c \<noteq> slash) p" and ?d = "dropWhile (\<lambda>c. c \<noteq> slash) p"
  have f: "first_segment (slash # p) = (path_unescape ?s, ?d)" using assms(2) by (simp add: first_segment_def)
  obtain v where v: "unescape False p = Some v" "u = slash # v" using assms(1) by auto
  show ?thesis
  proof (cases ?d)
    case Nil
    then have "?s = p" by (metis append_Nil2 takeWhile_dropWhile_id)
    then have "first_segment (slash # p) = (path_unescape p, [])" unfolding f Nil by (rule arg_cong)
    then have "first_segment (slash # p) = (v, [])" using path_unescape_some [OF v(1)] by simp
    then show ?thesis using v(2) by simp
  next
    case (Cons c t)
    then have c: "c = slash" using hd_dropWhile [of "\<lambda>c. c \<noteq> slash" p] by simp
    then have "unescape False (?s @ slash # t) = Some v" using v(1) Cons takeWhile_dropWhile_id [of "\<lambda>c. c \<noteq> slash" p] by simp
    then obtain s' t' where "unescape False ?s = Some s'" "unescape False t = Some t'" "v = s' @ slash # t'"
      using unescape_split by blast
    then show ?thesis using Cons c f v(2) path_unescape_some by simp
  qed
qed

lemma cleanPath_slash: "\<exists>p. cleanPath s = slash # p"
proof (cases "s = []")
  case False
  let ?p = "if hd s \<noteq> slash then slash # s else s"
  have "hd ?p = slash" "?p \<noteq> []" using False by auto
  then have "\<exists>p. path_clean ?p = slash # p" by (simp add: path_clean_def)
  then show ?thesis using False by (auto simp: cleanPath_def Let_def)
qed (simp add: cleanPath_def)

lemma no_connect: "match_method c ''CONNECT'' path = None"
  by (simp add: match_method_def patterns_def nodes_of_def)

lemma find_handler_found:
  assumes "find_handler c q = Found r pv"
  shows "\<exists>gs ms p. EscapedPath q = slash # p \<and> pv = zip (segment_names gs) ms
    \<and> (match_path (nodes_of (patterns c (rq_Method q))) (slash # p) [] = Some ((gs, r), ms)
       \<or> match_path (nodes_of (patterns c ''GET'')) (slash # p) [] = Some ((gs, r), ms) \<and> rq_Method q = ''HEAD'')"
proof -
  have m: "rq_Method q \<noteq> ''CONNECT''"
    using assms no_connect by (auto simp: find_handler_def Let_def split: if_splits option.splits)
  then have e: "cleanPath (EscapedPath q) = EscapedPath q"
    using assms by (auto simp: find_handler_def Let_def split: if_splits option.splits)
  obtain gs ms where "match_method c (rq_Method q) (EscapedPath q) = Some ((gs, r), ms)"
    "pv = zip (segment_names gs) ms"
    using assms m e by (auto simp: find_handler_def Let_def split: if_splits option.splits)
  moreover obtain p where "EscapedPath q = slash # p" using cleanPath_slash [of "EscapedPath q"] e by metis
  ultimately show ?thesis
    by (cases "match_path (nodes_of (patterns c (rq_Method q))) (slash # p) []")
      (auto simp: match_method_def split: if_splits)
qed

lemma dispatched_parts:
  assumes "find_handler c q = Found r pv" "r \<noteq> Server_control" "r \<noteq> Root_get"
  shows "(r \<in> set bucket_routes \<and> (\<exists>bucket. pv = [(''bucket'', bucket)] \<and> rq_Path q = slash # bucket))
    \<or> (r \<in> set object_routes \<and> (\<exists>bucket key. pv = [(''bucket'', bucket), (''key'', key)]
         \<and> rq_Path q = slash # bucket @ slash # key))"
proof -
  obtain gs ms p m where p: "EscapedPath q = slash # p" "pv = zip (segment_names gs) ms"
    "match_path (nodes_of (patterns c m)) (slash # p) [] = Some ((gs, r), ms)"
    using find_handler_found [OF assms(1)] by blast
  note mp = match_patterns [OF p(3) _ assms(2,3)]
  have u: "unescape False (slash # p) = Some (rq_Path q)" using unescape_EscapedPath [of q] p(1) by simp
  have "slash # p \<noteq> ''/''" using mp by simp
  from first_segment_unescape [OF u this] show ?thesis
    using mp p(2) by (auto simp: segment_names_def split: if_splits)
qed

text \<open>
  Claim C14.  The bucket and the key an action is called with are the path of the URL: whatever the
  encoding of the path is and whatever method the request has, the path, decoded, is a slash and
  the bucket for the routes of buckets, and a slash, the bucket, a slash and the key for those of
  objects, also when the key has slashes or characters of the encoding.
\<close>

theorem dispatched_names:
  "find_handler c q = Found r pv \<Longrightarrow> r \<noteq> Server_control \<Longrightarrow> r \<noteq> Root_get \<Longrightarrow>
     if r \<in> set object_routes
     then \<exists>bucket key. map_of pv ''bucket'' = Some bucket \<and> map_of pv ''key'' = Some key
            \<and> rq_Path q = slash # bucket @ slash # key
     else r \<in> set bucket_routes
       \<and> (\<exists>bucket. map_of pv ''bucket'' = Some bucket \<and> map_of pv ''key'' = None \<and> rq_Path q = slash # bucket)"
  using dispatched_parts [of c q r pv] by (auto simp: object_routes_def bucket_routes_def)

text \<open>A request whose key has a slash in its encoding.\<close>

definition example_encoded :: request where
  "example_encoded = example_get_request\<lparr>rq_Path := ''/bkt/a/b c'', rq_RawPath := ''/bkt/a%2Fb%20c''\<rparr>"

lemma example_encoded_found:
  "find_handler default_config example_encoded = Found Object_get [(''bucket'', ''bkt''), (''key'', ''a/b c'')]"
  by code_simp

theorem dispatched_names_witness:
  "\<exists>pv. find_handler default_config example_encoded = Found Object_get pv
     \<and> (\<exists>bucket key. map_of pv ''bucket'' = Some bucket \<and> map_of pv ''key'' = Some key
          \<and> rq_Path example_encoded = slash # bucket @ slash # key)"
  using dispatched_names [OF example_encoded_found] example_encoded_found by (simp add: object_routes_def)

end
