(* ===== verification/Exchange.thy ===== *)
theory Exchange
  imports Routing
begin

text \<open>
  Requests that are answered with success: a handler that answers with 200 has called its action,
  and what a PUT over HTTP has stored, a GET over HTTP delivers.
\<close>

section \<open>Answers of errors\<close>

lemma error_statuses:
  "list_all (\<lambda>(c, s, m). s = - 1 \<or> 300 \<le> s \<and> s < 600) Aws_s3_error_to_message"
  by code_simp

lemma error_entry_status: "error_entry c = (s, m) \<Longrightarrow> 0 < s \<Longrightarrow> 300 \<le> s \<and> s < 600"
  using error_statuses
  by (auto simp: error_entry_def list_all_iff dest!: map_of_SomeD split: option.splits)

lemma respond_error_status:
  "respond_error rid e w = (Inr r, w') \<Longrightarrow> 300 \<le> rp_status r \<and> rp_status r < 600"
  using error_entry_status [of "Code e"]
  by (auto simp: respond_error_def respond_on_action_error_def Let_def reply_of_response_def valid_status_def
      panicE_def retE_def split: prod.splits if_splits)

text \<open>A handler that answers with a status below 300 has read its input and its action has succeeded.\<close>

lemma handle_succeeds:
  assumes "handle b l rid slots action answer pv q w = (Inr r, w')" "rp_status r < 300"
  shows "\<exists>i x w1. decode_slots b l pv q slots ([], []) = ok (i, []) \<and> action i w = (Inr x, w1)
    \<and> answer i x w1 = (Inr r, w')"
proof -
  obtain i errs where d: "decode_slots b l pv q slots ([], []) = ok (i, errs)"
    using assms(1) by (auto simp: handle_def runs liftE_def)
  have "errs = []"
    using assms respond_error_status
    by (fastforce simp: handle_def runs liftE_def d respond_on_input_error_def fatalE_def Let_def split: if_splits)
  then obtain x where x: "(if True then try_elseE (action i) (respond_error rid) (answer i) w else x) = (Inr r, w')"
    using assms(1) by (auto simp: handle_def runs liftE_def d)
  then have "try_elseE (action i) (respond_error rid) (answer i) w = (Inr r, w')" by simp
  then show ?thesis using d \<open>errs = []\<close> assms(2) respond_error_status [of rid _ _ r w']
    by (force simp: run_try_else)
qed

section \<open>Upload and download\<close>

lemma action_distinct: "(a, ss) \<in> set action_slots \<Longrightarrow> distinct (map slot_name ss)"
  using slots_distinct by (auto simp: list_all_iff)

lemma put_input_decoded:
  assumes "decode_slots b l [(''bucket'', bucket), (''key'', key)] q slots_PutObject ([], []) = ok (i, errs)"
  shows "pi_Bucket (put_input_of i) = (if bucket \<noteq> [] then Some bucket else None)"
    "pi_Key (put_input_of i) = (if key \<noteq> [] then Some key else None)"
    "pi_ContentLength (put_input_of i) = Some (rq_ContentLength (rq_message q))"
    "pi_Metadata (put_input_of i) = None"
proof -
  have dis: "distinct (map slot_name slots_PutObject)"
    by (rule action_distinct [of "''PutObject''"]) (simp add: action_slots_def)
  note at = decoded_slot [OF assms dis]
  have s: "Path_slot ''Bucket'' ''bucket'' \<in> set slots_PutObject" "Path_slot ''Key'' ''key'' \<in> set slots_PutObject"
    "Length_slot ''ContentLength'' \<in> set slots_PutObject" "Meta_slot ''Metadata'' ''x-amz-meta-'' \<in> set slots_PutObject"
    by (simp_all add: slots_PutObject_def)
  show "pi_Bucket (put_input_of i) = (if bucket \<noteq> [] then Some bucket else None)"
    "pi_Key (put_input_of i) = (if key \<noteq> [] then Some key else None)"
    "pi_ContentLength (put_input_of i) = Some (rq_ContentLength (rq_message q))"
    "pi_Metadata (put_input_of i) = None"
    using at [OF s(1)] at [OF s(2)] at [OF s(3)] at [OF s(4)]
    by (simp_all add: put_input_of_def in_text_def in_int_def in_map_def)
qed

text \<open>A request for the whole object: no query, and none of the headers GetObject reads.\<close>

definition plain_request :: "request \<Rightarrow> bool" where
  "plain_request g \<longleftrightarrow> rq_Method g = ''GET'' \<and> rq_RawQuery g = []
     \<and> list_all (\<lambda>s. case s of Header_slot f k kind \<Rightarrow> header_Values (rq_headers g) k = [] | _ \<Rightarrow> True) slots_GetObject"

lemma plain_query [simp]: "rq_RawQuery g = [] \<Longrightarrow> query_Has g k = False"
  by (simp add: query_Has_def url_Query_def query_entry_def)

lemma plain_inputs:
  assumes "plain_request g" "bucket \<noteq> []" "key \<noteq> []"
  shows "decode_slots b l [(''bucket'', bucket), (''key'', key)] g slots_GetObject ([], [])
    = ok ([(''Key'', V_text key), (''Bucket'', V_text bucket)], [])"
proof -
  let ?pv = "[(''bucket'', bucket), (''key'', key)]"
  have g: "rq_RawQuery g = []" using assms(1) by (simp add: plain_request_def)
  have "\<forall>s \<in> set slots_GetObject. \<not> slot_panics g s" by (simp add: slots_GetObject_def)
  then obtain i errs where d: "decode_slots b l ?pv g slots_GetObject ([], []) = ok (i, errs)"
    using decode_slots_ends [of b l ?pv g slots_GetObject "[]" "[]"] by auto
  have "concat (map (slot_inputs b l ?pv g) slots_GetObject) = [(''Bucket'', V_text bucket), (''Key'', V_text key)]"
    "\<forall>s \<in> set slots_GetObject. slot_error b l g s = None"
    using assms g by (simp_all add: plain_request_def slots_GetObject_def slot_inputs_def)
  then show ?thesis using decode_slots_read [OF d] d by simp
qed

lemma plain_input_of:
  "get_input_of [(''Key'', V_text key), (''Bucket'', V_text bucket)] = plain_get bucket key"
  by (simp add: get_input_of_def plain_get_def in_text_def in_date_def in_int_def in_enum_def response_of_def empty_meta_def)

lemma dispatch_found:
  assumes "find_handler (config b) q = Found r pv" "choose_handler r q = Some h" "r \<noteq> Server_control" "r \<noteq> Root_get"
  shows "dispatch b l cx q = h b l cx pv q"
proof -
  have "rq_Path q \<noteq> ''*''" using dispatched_parts [OF assms(1,3,4)] by auto
  then show ?thesis using assms by (cases r) (simp_all add: dispatch_def)
qed

text \<open>The requests that PutObject handles.\<close>

definition puts_object :: "bbs \<Rightarrow> request \<Rightarrow> string \<Rightarrow> string \<Rightarrow> bool" where
  "puts_object b q bucket key \<longleftrightarrow>
     find_handler (config b) q = Found Object_put [(''bucket'', bucket), (''key'', key)]
     \<and> \<not> (query_Has q ''partNumber'' \<and> query_Has q ''uploadId'') \<and> \<not> query_Has q ''tagging''
     \<and> \<not> has_header q ''x-amz-copy-source''"

lemma dispatch_put:
  assumes "puts_object b q bucket key"
  shows "dispatch b l cx q = h_PutObject b l cx [(''bucket'', bucket), (''key'', key)] q"
proof -
  have "choose_handler Object_put q = Some h_PutObject"
    using assms by (auto simp: puts_object_def choose_handler_def)
  then show ?thesis using assms by (intro dispatch_found) (auto simp: puts_object_def)
qed

lemma put_answered:
  assumes "puts_object b q bucket key" "dispatch b l cx q w = (Inr r, w')" "rp_status r < 300"
  shows "\<exists>i out. PutObject b (cx_suffix cx) (rq_message q) i w = (Inr out, w')
    \<and> pi_Bucket i = Some bucket \<and> pi_Key i = Some key
    \<and> pi_ContentLength i = Some (rq_ContentLength (rq_message q)) \<and> pi_Metadata i = None"
proof -
  obtain i out w1 where d: "decode_slots b l [(''bucket'', bucket), (''key'', key)] q slots_PutObject ([], []) = ok (i, [])"
    and out: "PutObject b (cx_suffix cx) (rq_message q) (put_input_of i) w = (Inr out, w1)" "w' = w1"
    using handle_succeeds [OF assms(2) [unfolded dispatch_put [OF assms(1)] h_PutObject_def] assms(3)]
    by (auto simp: answer_status_def retE_def)
  note i = put_input_decoded [OF d]
  have "pi_Bucket (put_input_of i) \<noteq> None \<and> pi_Key (put_input_of i) \<noteq> None"
    using out(1) by (auto simp: PutObject_def check_usual_object_setup_def runs failE_def split: option.splits)
  then have "bucket \<noteq> []" "key \<noteq> []" using i(1,2) by auto
  then show ?thesis using out i by auto
qed

text \<open>
  Claim C3.  What is uploaded with a PUT is what a GET of the same path delivers, from the parsing
  of the requests to the answer: when the PUT is answered with a success, its body reads to a
  payload, chunked or not, and a GET without conditions that follows it, when no system call
  fails, is answered with 200 and exactly that payload.  The content type is always
  binary/octet-stream, whatever the PUT said.
\<close>

theorem http_put_get:
  assumes "puts_object b q bucket key" "dispatch b l cx q w = (Inr r, w')" "rp_status r < 300"
    "cx_suffix cx = Scratch_marker h" "marker_ok (Scratch_marker h)" "good_key key"
    "begins (path_join [bucket, key]) (Scratch_marker h) w"
    "plain_request g" "find_handler (config b) g = Found Object_get [(''bucket'', bucket), (''key'', key)]"
    "disk v = disk w'" "faults v = []"
  shows "\<exists>d r'. payload_of b (path_join [bucket, key]) (rq_message q) (rq_ContentLength (rq_message q)) = Some d
    \<and> dispatch b l cx' g v = (Inr r', v) \<and> rp_status r' = 200 \<and> rp_body r' = Data_body d
    \<and> header_Get (rp_header r') ''Content-Type'' = ''binary/octet-stream''"
proof -
  obtain i out where i: "PutObject b (Scratch_marker h) (rq_message q) i w = (Inr out, w')"
    "pi_Bucket i = Some bucket" "pi_Key i = Some key" "pi_ContentLength i = Some (rq_ContentLength (rq_message q))"
    using put_answered [OF assms(1-3)] assms(4) by auto
  have n: "put_name i = path_join [bucket, key]" "announced i = rq_ContentLength (rq_message q)"
    using i by (simp_all add: put_name_def announced_def)
  obtain d o1 f where d: "payload_of b (put_name i) (rq_message q) (announced i) = Some d"
    "GetObject b (cx_suffix cx') (plain_get bucket key) v = (Inr o1, v)" "go_Body o1 = Some (f, None)"
    "file_read b f v = (Inr (d, None), v)"
    using put_get_arrives [OF i(1) assms(5) i(2,3) assms(6) assms(7) [folded n(1)] assms(10,11)] by blast
  have ne: "bucket \<noteq> []" "key \<noteq> []"
  proof -
    show "key \<noteq> []" using assms(6) by (auto simp: good_key_def plain_def)
    show "bucket \<noteq> []" using run_put_setup(1) [OF i(1-3)] by (auto simp: check_bucket_naming_def)
  qed
  have "choose_handler Object_get g = Some h_GetObject"
    using assms(8) by (simp add: choose_handler_def plain_request_def)
  then have "dispatch b l cx' g = h_GetObject b l cx' [(''bucket'', bucket), (''key'', key)] g"
    using assms(9) by (intro dispatch_found) auto
  then show ?thesis
    using d n plain_inputs [OF assms(8) ne, of b l]
    by (simp add: h_GetObject_def handle_def stepping liftE_def plain_input_of try_elseE_def tryE_def
        answer_stream_def Let_def section_bytes_def)
qed

section \<open>An example\<close>

definition example_put_request :: request where
  "example_put_request =
     example_get_request\<lparr>rq_Method := ''PUT'', rq_Path := ''/bkt/x'', rq_message := example_upload\<rparr>"

definition example_get_back :: request where
  "example_get_back = example_get_request\<lparr>rq_Path := ''/bkt/x''\<rparr>"

definition example_context :: request_context where
  "example_context = \<lparr>cx_rid = ''1'', cx_suffix = example_sfx, cx_uploadid = []\<rparr>"

abbreviation example_dispatch :: "request \<Rightarrow> world \<Rightarrow> reply result \<times> world" where
  "example_dispatch q w \<equiv> dispatch example_bbs example_library example_context q w"

lemma example_puts: "puts_object example_bbs example_put_request ''bkt'' ''x''"
  unfolding puts_object_def by code_simp

lemma example_get_found:
  "find_handler (config example_bbs) example_get_back = Found Object_get [(''bucket'', ''bkt''), (''key'', ''x'')]"
  by code_simp

lemma example_plain: "plain_request example_get_back"
  by code_simp

lemma example_put_slots:
  "rq_Header example_upload = []" "rq_RawQuery example_put_request = []"
  "rq_message example_put_request = example_upload" "rq_ContentLength example_upload = 3"
  by (simp_all add: example_put_request_def example_upload_def example_get_request_def)

definition example_put_slots :: inputs where
  "example_put_slots = [(''Key'', V_text ''x''), (''ContentLength'', V_int 3), (''Bucket'', V_text ''bkt'')]"

lemma example_put_decoded:
  "decode_slots example_bbs example_library [(''bucket'', ''bkt''), (''key'', ''x'')] example_put_request slots_PutObject
     ([], []) = ok (example_put_slots, [])"
proof -
  let ?pv = "[(''bucket'', ''bkt''), (''key'', ''x'')]" and ?q = example_put_request
  have h: "header_Values [] k = []" for k by (simp add: header_Values_def)
  have "\<forall>s \<in> set slots_PutObject. \<not> slot_panics ?q s" by (simp add: slots_PutObject_def h example_put_slots)
  then obtain i errs where d: "decode_slots example_bbs example_library ?pv ?q slots_PutObject ([], []) = ok (i, errs)"
    using decode_slots_ends [of example_bbs example_library ?pv ?q slots_PutObject "[]" "[]"] by auto
  have "concat (map (slot_inputs example_bbs example_library ?pv ?q) slots_PutObject)
      = [(''Bucket'', V_text ''bkt''), (''ContentLength'', V_int 3), (''Key'', V_text ''x'')]"
    "\<forall>s \<in> set slots_PutObject. slot_error example_bbs example_library ?q s = None"
    by (simp_all add: slots_PutObject_def slot_inputs_def h example_put_slots)
  then show ?thesis using decode_slots_read [OF d] d by (simp add: example_put_slots_def)
qed

lemma example_put_runs:
  "\<exists>out w'. PutObject example_bbs example_sfx example_upload (put_input_of example_put_slots) example_world = (Inr out, w')"
proof -
  have "case fst (PutObject example_bbs example_sfx example_upload (put_input_of example_put_slots) example_world) of
    Inr out \<Rightarrow> True | Inl _ \<Rightarrow> False" by code_simp
  then show ?thesis
    by (cases "PutObject example_bbs example_sfx example_upload (put_input_of example_put_slots) example_world")
      (auto split: sum.splits)
qed

lemma example_dispatch_ok:
  "\<exists>r w'. example_dispatch example_put_request example_world = (Inr r, w') \<and> rp_status r < 300"
proof -
  obtain out w' where "PutObject example_bbs (cx_suffix example_context) (rq_message example_put_request)
      (put_input_of example_put_slots) example_world = (Inr out, w')"
    using example_put_runs by (auto simp: example_context_def example_put_slots)
  then show ?thesis
    unfolding dispatch_put [OF example_puts] h_PutObject_def
    by (simp add: handle_def stepping liftE_def example_put_decoded try_elseE_def tryE_def answer_status_def)
qed

theorem http_put_get_witness:
  "\<exists>r w' d r'. example_dispatch example_put_request example_world = (Inr r, w')
     \<and> example_dispatch example_get_back (w'\<lparr>faults := []\<rparr>) = (Inr r', w'\<lparr>faults := []\<rparr>)
     \<and> rp_status r' = 200 \<and> rp_body r' = Data_body d"
proof -
  obtain r w' where r: "example_dispatch example_put_request example_world = (Inr r, w')" "rp_status r < 300"
    using example_dispatch_ok by blast
  have s: "cx_suffix example_context = example_sfx" by (simp add: example_context_def)
  have "path_join [''bkt'', ''x''] = ''bkt/x''" by code_simp
  then have "begins (path_join [''bkt'', ''x'']) example_sfx example_world" using example_begins by simp
  from http_put_get [OF example_puts r s example_sfx_ok example_put_name(3) this example_plain example_get_found,
      of "w'\<lparr>faults := []\<rparr>" example_context]
  show ?thesis using r(1) by auto
qed

section \<open>User metadata\<close>

lemma decode_slots_stops: "decode_slots b l pv q ss x = Inl e \<Longrightarrow> e = Panic"
proof (induction ss arbitrary: x)
  case (Cons s ss)
  obtain i errs where x: "x = (i, errs)" by fastforce
  show ?case
    using Cons decode_slot_reads [of b l pv q s i errs] unfolding x
    by (auto split: if_splits sum.splits)
qed simp

text \<open>A handler with a slot for the metadata panics at the bare name of its headers.\<close>

lemma bare_meta_panics:
  assumes "Meta_slot f k \<in> set slots" "header_Values (rq_headers q) k \<noteq> []"
  shows "handle b l rid slots action answer pv q w = (Inl Panic, w)"
proof -
  obtain vs where "map_of (rq_headers q) (CanonicalHeaderKey k) = Some vs"
    using assms(2) by (auto simp: header_Values_def split: option.splits)
  then have "list_ex (\<lambda>(k', _). has_prefix k' (CanonicalHeaderKey k)) (rq_headers q)"
    by (force simp: list_ex_iff has_prefix_def dest: map_of_SomeD)
  then have "slot_panics q (Meta_slot f k)" using assms(2) by simp
  then obtain e where e: "decode_slots b l pv q slots ([], []) = Inl e"
    using decode_slots_ends [of b l pv q slots "[]" "[]"] assms(1) by (metis sum.exhaust_sel)
  then show ?thesis using decode_slots_stops [OF e] by (simp add: handle_def seqE_def liftE_def)
qed

lemma handlers_with_metadata:
  assumes "header_Values (rq_headers q) ''x-amz-meta-'' \<noteq> []"
  shows "h_PutObject b l cx pv q w = (Inl Panic, w)" "h_CopyObject b l cx pv q w = (Inl Panic, w)"
    "h_CreateMultipartUpload b l cx pv q w = (Inl Panic, w)"
  unfolding h_PutObject_def h_CopyObject_def h_CreateMultipartUpload_def
  by (rule bare_meta_panics [OF _ assms, of "''Metadata''"];
      simp add: slots_PutObject_def slots_CopyObject_def slots_CreateMultipartUpload_def)+

text \<open>
  Claim C34.  User metadata never arrives.  A request with a header of the bare name x-amz-meta- ends PutObject,
  CopyObject and CreateMultipartUpload in a panic.  And whatever headers x-amz-meta-name a PUT has that is
  answered with a success, no metadata is stored: a GetObject of the key, when no metafile of an earlier
  object lay beside it, delivers none.
\<close>

theorem user_metadata_lost:
  assumes "puts_object b q bucket key" "dispatch b l cx q w = (Inr r, w')" "rp_status r < 300"
    "cx_suffix cx = Scratch_marker h" "marker_ok (Scratch_marker h)" "good_key key"
    "begins (path_join [bucket, key]) (Scratch_marker h) w"
    "node_at (disk w) (meta_path (path_join [bucket, key])) = None" "calm {meta_path (path_join [bucket, key])} (waits w)"
    "disk v = disk w'" "faults v = []" "header_Values (rq_headers p) ''x-amz-meta-'' \<noteq> []"
  shows "h_PutObject b l cx pv p u = (Inl Panic, u) \<and> h_CopyObject b l cx pv p u = (Inl Panic, u)
    \<and> h_CreateMultipartUpload b l cx pv p u = (Inl Panic, u)
    \<and> (\<exists>g. GetObject b sfx (plain_get bucket key) v = (Inr g, v) \<and> go_Metadata g = None)"
proof -
  obtain i out where i: "PutObject b (Scratch_marker h) (rq_message q) i w = (Inr out, w')"
    "pi_Bucket i = Some bucket" "pi_Key i = Some key" "pi_Metadata i = None"
    using put_answered [OF assms(1-3)] assms(4) by auto
  have n: "put_name i = path_join [bucket, key]" using i by (simp add: put_name_def)
  have "no_old_meta (put_name i) i w" using assms(8,9) by (simp add: no_old_meta_def n)
  then show ?thesis
    using put_get_arrives [OF i(1) assms(5) i(2,3) assms(6) assms(7) [folded n] assms(10,11)] i(4)
      handlers_with_metadata [OF assms(12)] by fastforce
qed

text \<open>A PUT with metadata, and one with the bare name.\<close>

definition example_meta_put :: request where
  "example_meta_put = with_headers (\<lambda>_. [(''X-Amz-Meta-Colour'', [''blue''])]) example_put_request"

definition example_bare_put :: request where
  "example_bare_put = with_headers (\<lambda>_. [(''X-Amz-Meta-'', [''blue''])]) example_put_request"

lemma example_meta_puts: "puts_object example_bbs example_meta_put ''bkt'' ''x''"
  unfolding puts_object_def by code_simp

text \<open>Headers that no slot reads do not count; the one here differs from all that are read in its length.\<close>

lemma canonical_length: "length (CanonicalHeaderKey k) = length k"
proof -
  have "length (canonical_chars u s) = length s" for u s
    by (induction u s rule: canonical_chars.induct) (simp_all add: Let_def)
  then show ?thesis by (simp add: CanonicalHeaderKey_def canonical_key_def)
qed

lemma other_length: "length k \<noteq> length c \<Longrightarrow> header_Values [(c, vs)] k = []"
  using canonical_length [of k] by (auto simp: header_Values_def)

lemma no_header_read:
  assumes "list_all (\<lambda>s. case s of Header_slot f k kind \<Rightarrow> header_Values (rq_headers q) k = []
      | Enums_slot f k g \<Rightarrow> header_Values (rq_headers q) k = []
      | Meta_slot f k \<Rightarrow> header_Values (rq_headers q) k = []
      | Payload_slot f g \<Rightarrow> False | _ \<Rightarrow> True) ss"
    "\<And>k. header_Values (rq_headers p) k = []" "rq_RawQuery q = rq_RawQuery p"
    "rq_ContentLength (rq_message q) = rq_ContentLength (rq_message p)"
  shows "decode_slots b l pv q ss x = decode_slots b l pv p ss x"
  using assms(1)
proof (induction ss arbitrary: x)
  case (Cons s ss)
  obtain i errs where x: "x = (i, errs)" by fastforce
  have "query_Has q = query_Has p" "query_Get q = query_Get p"
    using assms(3) by (simp_all add: fun_eq_iff query_Has_def query_Get_def url_Query_def)
  then have "decode_slot b l pv q s x = decode_slot b l pv p s x"
    using Cons.prems assms(2,4) by (cases s) (simp_all add: x)
  then show ?case using Cons by (simp split: sum.split)
qed simp

lemma example_meta_decoded:
  "decode_slots example_bbs example_library [(''bucket'', ''bkt''), (''key'', ''x'')] example_meta_put slots_PutObject
     ([], []) = ok (example_put_slots, [])"
proof -
  have "list_all (\<lambda>s. case s of Header_slot f k kind \<Rightarrow> header_Values (rq_headers example_meta_put) k = []
      | Enums_slot f k g \<Rightarrow> header_Values (rq_headers example_meta_put) k = []
      | Meta_slot f k \<Rightarrow> header_Values (rq_headers example_meta_put) k = []
      | Payload_slot f g \<Rightarrow> False | _ \<Rightarrow> True) slots_PutObject"
    by (simp add: slots_PutObject_def other_length example_meta_put_def with_headers_def)
  then have "decode_slots example_bbs example_library pv example_meta_put slots_PutObject x
      = decode_slots example_bbs example_library pv example_put_request slots_PutObject x" for pv x
    by (rule no_header_read) (simp_all add: example_meta_put_def with_headers_def example_put_slots header_Values_def)
  then show ?thesis using example_put_decoded by simp
qed

lemma example_meta_runs:
  "\<exists>out w'. PutObject example_bbs example_sfx (rq_message example_meta_put) (put_input_of example_put_slots) example_world = (Inr out, w')"
proof -
  have "case fst (PutObject example_bbs example_sfx (rq_message example_meta_put) (put_input_of example_put_slots) example_world) of
    Inr out \<Rightarrow> True | Inl _ \<Rightarrow> False" by code_simp
  then show ?thesis
    by (cases "PutObject example_bbs example_sfx (rq_message example_meta_put) (put_input_of example_put_slots) example_world")
      (auto split: sum.splits)
qed

lemma example_meta_dispatch:
  "\<exists>r w'. example_dispatch example_meta_put example_world = (Inr r, w') \<and> rp_status r < 300"
proof -
  obtain out w' where "PutObject example_bbs (cx_suffix example_context) (rq_message example_meta_put)
      (put_input_of example_put_slots) example_world = (Inr out, w')"
    using example_meta_runs by (auto simp: example_context_def)
  then show ?thesis
    unfolding dispatch_put [OF example_meta_puts] h_PutObject_def
    by (simp add: handle_def stepping liftE_def example_meta_decoded try_elseE_def tryE_def answer_status_def)
qed

theorem user_metadata_lost_witness:
  "header_Get (rq_headers example_meta_put) ''x-amz-meta-colour'' = ''blue''
   \<and> (\<exists>r w' g. example_dispatch example_meta_put example_world = (Inr r, w') \<and> rp_status r < 300
     \<and> GetObject example_bbs No_marker (plain_get ''bkt'' ''x'') (w'\<lparr>faults := []\<rparr>) = (Inr g, w'\<lparr>faults := []\<rparr>)
     \<and> go_Metadata g = None)
   \<and> h_PutObject example_bbs example_library example_context [] example_bare_put example_world = (Inl Panic, example_world)"
proof (intro conjI)
  show "header_Get (rq_headers example_meta_put) ''x-amz-meta-colour'' = ''blue''" by code_simp
  obtain r w' where r: "example_dispatch example_meta_put example_world = (Inr r, w')" "rp_status r < 300"
    using example_meta_dispatch by blast
  have s: "cx_suffix example_context = example_sfx" by (simp add: example_context_def)
  have p: "path_join [''bkt'', ''x''] = ''bkt/x''" by code_simp
  have bg: "begins (path_join [''bkt'', ''x'']) example_sfx example_world" using example_begins p by simp
  have m: "node_at (disk example_world) (meta_path (path_join [''bkt'', ''x''])) = None" unfolding p by code_simp
  have c: "calm {meta_path (path_join [''bkt'', ''x''])} (waits example_world)" by (simp add: example_world_def)
  have bare: "header_Values (rq_headers example_bare_put) ''x-amz-meta-'' \<noteq> []" by code_simp
  note u = user_metadata_lost [where v = "w'\<lparr>faults := []\<rparr>" and pv = "[]" and u = example_world and sfx = No_marker,
      OF example_meta_puts r s example_sfx_ok example_put_name(3) bg m c _ _ bare]
  show "\<exists>r w' g. example_dispatch example_meta_put example_world = (Inr r, w') \<and> rp_status r < 300
     \<and> GetObject example_bbs No_marker (plain_get ''bkt'' ''x'') (w'\<lparr>faults := []\<rparr>) = (Inr g, w'\<lparr>faults := []\<rparr>)
     \<and> go_Metadata g = None" using u r by auto
  show "h_PutObject example_bbs example_library example_context [] example_bare_put example_world = (Inl Panic, example_world)"
    using u by simp
qed

section \<open>Tags\<close>

lemma tag_round_trip:
  "\<exists>k. encode_element ''Tag'' (tag_value_of t) = [k] \<and> named ''Tag'' k \<and> tag_of k = t"
  by (cases t) (auto simp: tag_value_of_def tag_of_def slot_of_def string_slot_def sons_def text_of_def split: option.split)

lemma tags_round_trip:
  "map tag_of (filter (named ''Tag'') (concat (map (\<lambda>t. encode_element ''Tag'' (tag_value_of t)) ts))) = ts"
proof (induction ts)
  case (Cons t ts)
  then show ?case using tag_round_trip [of t] by (auto simp del: named.simps)
qed simp

text \<open>
  Claim C22.  The document GetObjectTagging answers with, given back as the body of a
  PutObjectTagging, reads to the same tags, in their order, also when there are none or a tag has no key
  or no value.
\<close>

theorem tags_document_roundtrip:
  "import_Tagging (marshal ''Tagging'' tags_GetObjectTagging (list_slot ''TagSet'' tag_value_of ts)) = Some (Tags_payload ts)"
  by (simp add: import_Tagging_def marshal_def tags_GetObjectTagging_def list_slot_def encode_slot_def slot_set_def
      sons_def tags_round_trip comp_def)

end
