(* ===== verification/Server.thy ===== *)
theory Server
  imports Exchange
begin

text \<open>
  The server around the dispatcher, from v1/server/server.go and hodgepodge.go: the authorization of
  a request, its id and its scratch suffix, and the path without trailing slashes.
\<close>

section \<open>Ids and suffixes\<close>

text \<open>
  The state that requests share beside the files and the monitor: the last request id, an uint64,
  and the suffixes in use with the id each is for.
\<close>

record server_state =
  rid_past :: int
  suffixes :: "(string \<times> int) list"

definition server_start :: server_state where
  "server_start = \<lparr>rid_past = 0, suffixes = []\<rparr>"

text \<open>The time is given, in microseconds.\<close>

definition make_request_id :: "int \<Rightarrow> server_state \<Rightarrow> int \<times> server_state" where
  "make_request_id t st =
     (if rid_past st < t then (t, st\<lparr>rid_past := t\<rparr>)
      else let t1 = (rid_past st + 1) mod 2 ^ 64 in (t1, st\<lparr>rid_past := t1\<rparr>))"

text \<open>fmt.Sprintf of a number in hexadecimal, filled with zeros to a width.\<close>

definition padded_hex :: "nat \<Rightarrow> int \<Rightarrow> string" where
  "padded_hex n r = (let s = print_nat 16 (nat r) in replicate (n - length s) (CHR ''0'') @ s)"

text \<open>
  make_scratch_suffix with the numbers rand.Int63 gives, by their position: after ten that are in
  use the server stops.
\<close>

fun suffix_loop :: "nat \<Rightarrow> int \<Rightarrow> (nat \<Rightarrow> int) \<Rightarrow> nat \<Rightarrow> server_state \<Rightarrow> (string \<times> server_state) result" where
  "suffix_loop 0 rid rand loops st = Inl Fatal"
| "suffix_loop (Suc n) rid rand loops st =
     (let s = CHR ''@'' # take 6 (padded_hex 6 (rand loops)) in
      if map_of (suffixes st) s = None then ok (s, st\<lparr>suffixes := (s, rid) # suffixes st\<rparr>)
      else suffix_loop n rid rand (loops + 1) st)"

definition make_scratch_suffix ::
  "int \<Rightarrow> (nat \<Rightarrow> int) \<Rightarrow> server_state \<Rightarrow> (string \<times> server_state) result" where
  "make_scratch_suffix rid rand st = suffix_loop 10 rid rand 0 st"

definition discharge_scratch_suffix :: "int \<Rightarrow> server_state \<Rightarrow> server_state" where
  "discharge_scratch_suffix rid st = st\<lparr>suffixes := filter (\<lambda>(k, v). v \<noteq> rid) (suffixes st)\<rparr>"

section \<open>A request\<close>

text \<open>What a request brings with it beside its text: the time, the random numbers and the upload id.\<close>

record server_call =
  sc_now :: time
  sc_rand :: "nat \<Rightarrow> int"
  sc_uploadid :: string

definition attest_authorization ::
  "bbs \<Rightarrow> library \<Rightarrow> keypair \<Rightarrow> time \<Rightarrow> request \<Rightarrow> (string \<times> sign_error option)" where
  "attest_authorization b l kp t q =
     Check_credential (sign_http l) t q kp (int64 (Sign_valid_window (config b) * 1000000000))"

definition unauthorized :: reply where
  "unauthorized = error_reply 401 ''Bad authorization'' []"

text \<open>The user of the access log.\<close>

definition access_user :: "request \<Rightarrow> string \<Rightarrow> string" where
  "access_user q auth1 =
     (let auth2 = header_Get (rq_headers q) ''Lens3-User'' in take 16 (if auth2 = [] then auth1 else auth2))"

definition trim_right_slashes :: "string \<Rightarrow> string" where
  "trim_right_slashes s = rev (dropWhile (\<lambda>c. c = slash) (rev s))"

definition drop_trailing_slashes :: "bbs \<Rightarrow> request \<Rightarrow> request" where
  "drop_trailing_slashes b q =
     (if Keep_trailing_slash (config b) then q
      else if rq_Path q \<noteq> ''/'' \<and> has_suffix (rq_Path q) ''/''
      then q\<lparr>rq_Path := trim_right_slashes (rq_Path q)\<rparr>
      else q)"

text \<open>
  prior_handler.ServeHTTP.  The suffix is given back when the handler returns or panics; when the
  server stops nothing is.
\<close>

definition ServeHTTP ::
  "bbs \<Rightarrow> library \<Rightarrow> keypair \<Rightarrow> server_call \<Rightarrow> request \<Rightarrow> server_state \<Rightarrow> world
   \<Rightarrow> reply result \<times> server_state \<times> world" where
  "ServeHTTP b l kp call q st w =
     (let (key, reason) = attest_authorization b l kp (sc_now call) q in
      if reason \<noteq> None then (ok unauthorized, st, w)
      else let (rid, st1) = make_request_id (sc_now call div 1000 mod 2 ^ 64) st in
        case make_scratch_suffix rid (sc_rand call) st1 of
          Inl e \<Rightarrow> (Inl e, st1, w)
        | Inr (suff, st2) \<Rightarrow>
            (let (r, w1) = dispatch b l \<lparr>cx_rid = padded_hex 16 rid, cx_suffix = Scratch_marker (tl suff),
                     cx_uploadid = sc_uploadid call\<rparr> (drop_trailing_slashes b q) w
             in (r, if r = Inl Fatal then st2 else discharge_scratch_suffix rid st2, w1)))"

section \<open>Requests at the same time\<close>

text \<open>
  The requests that are being served, each with its id and, later, its suffix.  They take their
  ids and suffixes, and give them back, in any order.  The ids are microseconds of an uint64, which
  do not come near its end.
\<close>

type_synonym live = "(int \<times> string option) list"

inductive request_step :: "server_state \<times> live \<Rightarrow> server_state \<times> live \<Rightarrow> bool" where
  Identify: "make_request_id t st = (rid, st1) \<Longrightarrow> 0 \<le> t \<Longrightarrow> t < 2 ^ 64 \<Longrightarrow> rid_past st < 2 ^ 64 - 1 \<Longrightarrow>
    request_step (st, xs) (st1, (rid, None) # xs)"
| Suffix: "(rid, None) \<in> set xs \<Longrightarrow> make_scratch_suffix rid rand st = ok (s, st1) \<Longrightarrow>
    request_step (st, xs) (st1, (rid, Some s) # removeAll (rid, None) xs)"
| Leave: "(rid, Some s) \<in> set xs \<Longrightarrow>
    request_step (st, xs) (discharge_scratch_suffix rid st, removeAll (rid, Some s) xs)"

inductive_cases request_stepE: "request_step (st, xs) y"

definition suffix_form :: "string \<Rightarrow> bool" where
  "suffix_form s \<longleftrightarrow> s \<noteq> [] \<and> hd s = CHR ''@'' \<and> marker_ok (Scratch_marker (tl s))"


lemma print_nat_hex: "c \<in> set (print_nat 16 n) \<Longrightarrow> is_hex c"
  using print_nat_chars [of 16 c n] by (auto simp: is_hex_def is_digit_def of_char_digit_char split: if_splits)

lemma suffix_form_new: "suffix_form (CHR ''@'' # take 6 (padded_hex 6 r))"
proof -
  have z: "is_hex (CHR ''0'')" by code_simp
  have "list_all is_hex (padded_hex 6 r)"
    using print_nat_hex z by (auto simp: padded_hex_def Let_def list_all_iff set_replicate_conv_if)
  then have "list_all is_hex (take 6 (padded_hex 6 r))" by (auto simp: list_all_iff dest: in_set_takeD)
  moreover have "6 \<le> length (padded_hex 6 r)" by (simp add: padded_hex_def Let_def)
  ultimately show ?thesis by (simp add: suffix_form_def)
qed

lemma suffix_loop_ok:
  "suffix_loop n rid rand loops st = ok (s, st1) \<Longrightarrow>
     s \<notin> fst ` set (suffixes st) \<and> suffix_form s \<and> st1 = st\<lparr>suffixes := (s, rid) # suffixes st\<rparr>"
  by (induction n arbitrary: loops)
    (auto simp: Let_def map_of_eq_None_iff suffix_form_new split: if_splits)







section \<open>Authorization\<close>

text \<open>A signed upload, and its arrival a second and a half later.\<close>

definition example_hashed_put :: request where
  "example_hashed_put = with_headers (\<lambda>_. [(''X-Amz-Content-Sha256'', [''UNSIGNED-PAYLOAD''])]) example_put_request"

definition example_signed_put :: request where
  "example_signed_put =
     the (Sign_by_credential example_sign 1369353600000000000 example_hashed_put ''h'' (''key'', ''pw''))"

definition example_call :: server_call where
  "example_call = \<lparr>sc_now = 1369353601500000000, sc_rand = (\<lambda>_. 0), sc_uploadid = ''1''\<rparr>"

lemma example_signed_put_is:
  "Sign_by_credential example_sign 1369353600000000000 example_hashed_put ''h'' (''key'', ''pw'')
   = Some (example_put_request\<lparr>rq_Host := ''h'', rq_message := rq_message example_put_request\<lparr>rq_Header :=
       [(''Authorization'', [''AWS4-HMAC-SHA256 Credential=key/20130524/us-east-1/s3/aws4_request, '' @
           ''SignedHeaders=Host;X-Amz-Content-Sha256;X-Amz-Date, Signature=26'']),
        (''X-Amz-Date'', [''20130524T000000Z'']), (''X-Amz-Content-Sha256'', [''UNSIGNED-PAYLOAD''])]\<rparr>\<rparr>)"
  by code_simp

lemma example_attested:
  "attest_authorization example_bbs example_library (''key'', ''pw'') (sc_now example_call) example_signed_put = (''key'', None)"
proof -
  have w: "duration_Abs (time_Sub (sc_now example_call) (seconds 1369353600000000000 * 1000000000))
      \<le> int64 (Sign_valid_window (config example_bbs) * 1000000000)"
    by (simp add: seconds_def time_Sub_def duration_Abs_def example_call_def example_bbs_def default_config_def int64_def)
  have h: "header_wf (rq_headers example_hashed_put)"
    "map_of (rq_headers example_hashed_put) ''X-Amz-Content-Sha256'' \<noteq> None" by code_simp+
  have "Sign_by_credential example_sign 1369353600000000000 example_hashed_put ''h'' (''key'', ''pw'') = Some example_signed_put"
    by (simp add: example_signed_put_def example_signed_put_is)
  from signed_decided [OF example_sign_ok h(1) example_get_wf(3) _ example_date_ok this w] h(2) show ?thesis
    by (simp add: attest_authorization_def example_library_def)
qed

text \<open>
  Claim C4.  Only a request with a valid signature has an effect: if the answer is anything but
  401, or a file, the state of the server or anything else has changed, the request has an Authorization
  with the key of the server, a date within the window, and the signature that the signer makes, with the
  secret of the server, of the request cut to its signed headers.
\<close>

theorem only_signed_requests_act:
  assumes "ServeHTTP b l (access, secret) call q st w = (r, st', w')" "(r, st', w') \<noteq> (ok unauthorized, st, w)"
  shows "\<exists>auth date h forged.
    Scan_aws_authorization (header_Get (rq_headers q) ''Authorization'') = Some auth
    \<and> auth_form auth \<and> Credential auth ! 0 = access
    \<and> parse_x_amz_date (header_Get (rq_headers q) ''X-Amz-Date'') = Some date
    \<and> duration_Abs (time_Sub (sc_now call) date) \<le> int64 (Sign_valid_window (config b) * 1000000000)
    \<and> sign_http l (access, secret) (signed_copy auth q) (payload_hash (signed_copy auth q)) ''s3''
         (Credential auth ! 2) date = Some h
    \<and> Scan_aws_authorization (header_Get h ''Authorization'') = Some forged
    \<and> Signature forged = Signature auth"
proof -
  have "snd (attest_authorization b l (access, secret) (sc_now call) q) = None"
    using assms by (auto simp: ServeHTTP_def Let_def split: prod.splits if_splits)
  then have "\<exists>key. Check_credential (sign_http l) (sc_now call) q (access, secret)
      (int64 (Sign_valid_window (config b) * 1000000000)) = (key, None)"
    by (metis attest_authorization_def prod.collapse)
  then show ?thesis unfolding check_credential_accepts by blast
qed

lemma serve_id:
  assumes "ServeHTTP b l kp call q st w = (r, st', w')" "attest_authorization b l kp (sc_now call) q = (key, None)"
  shows "rid_past st' = fst (make_request_id (sc_now call div 1000 mod 2 ^ 64) st)"
proof -
  obtain rid st1 where m: "make_request_id (sc_now call div 1000 mod 2 ^ 64) st = (rid, st1)" by fastforce
  then have "rid_past st1 = rid" by (auto simp: make_request_id_def Let_def split: if_splits)
  then show ?thesis
    using assms m suffix_loop_ok [of 10 rid "sc_rand call" 0 st1]
    by (auto simp: ServeHTTP_def make_scratch_suffix_def discharge_scratch_suffix_def Let_def
        split: prod.splits sum.splits if_splits)
qed

theorem only_signed_requests_act_witness:
  "\<exists>r st' w' auth. ServeHTTP example_bbs example_library (''key'', ''pw'') example_call example_signed_put server_start example_world
       = (r, st', w') \<and> st' \<noteq> server_start
     \<and> Scan_aws_authorization (header_Get (rq_headers example_signed_put) ''Authorization'') = Some auth
     \<and> Credential auth ! 0 = ''key''"
proof -
  obtain r st' w' where s: "ServeHTTP example_bbs example_library (''key'', ''pw'') example_call example_signed_put server_start
      example_world = (r, st', w')" by (metis prod_cases3)
  have "st' \<noteq> server_start"
    using serve_id [OF s example_attested] by (auto simp: make_request_id_def server_start_def example_call_def)
  then show ?thesis using only_signed_requests_act [OF s] s by auto
qed

lemma with_headers_slots [simp]:
  "rq_Method (with_headers f q) = rq_Method q" "rq_Path (with_headers f q) = rq_Path q"
  "rq_RawPath (with_headers f q) = rq_RawPath q" "rq_RawQuery (with_headers f q) = rq_RawQuery q"
  by (simp_all add: with_headers_def)

lemma with_headers_target:
  "find_handler c (with_headers f q) = find_handler c q" "query_Has (with_headers f q) k = query_Has q k"
proof -
  have "EscapedPath (with_headers f q) = EscapedPath q" by (simp add: EscapedPath_def)
  then show "find_handler c (with_headers f q) = find_handler c q"
    by (simp only: find_handler_def with_headers_slots)
qed (simp add: query_Has_def url_Query_def)

text \<open>
  Claim C17.  Headers that are not signed count: a PUT with a valid signature, to which somebody on the way
  adds an x-amz-copy-source that was not signed, passes with the same key and is carried out as a
  CopyObject from that source.
\<close>

theorem unsigned_header_makes_copy:
  assumes "attest_authorization b l kp t q = (key, None)"
    "find_handler (config b) q = Found Object_put pv" "\<not> query_Has q ''partNumber''" "\<not> query_Has q ''tagging''"
    "Scan_aws_authorization (header_Get (rq_headers q) ''Authorization'') = Some auth"
    "''X-Amz-Copy-Source'' \<notin> set (SignedHeaders auth)"
  shows "attest_authorization b l kp t (with_headers (header_Add ''x-amz-copy-source'' source) q) = (key, None)
    \<and> dispatch b l cx (with_headers (header_Add ''x-amz-copy-source'' source) q)
        = h_CopyObject b l cx pv (with_headers (header_Add ''x-amz-copy-source'' source) q)"
proof -
  let ?q = "with_headers (header_Add ''x-amz-copy-source'' source) q"
  have k: "CanonicalHeaderKey ''x-amz-copy-source'' = ''X-Amz-Copy-Source''"
    "CanonicalHeaderKey ''x-amz-copy-source'' \<notin> {CanonicalHeaderKey ''Authorization'', CanonicalHeaderKey ''X-Amz-Date'',
       CanonicalHeaderKey ''X-Forwarded-Host''}" by code_simp+
  have "attest_authorization b l kp t ?q = (key, None)"
    using Check_credential_unsigned [OF assms(5) _ k(2)] assms(1,6) k(1) by (simp add: attest_authorization_def)
  moreover have f: "find_handler (config b) ?q = Found Object_put pv"
    using assms(2) by (simp add: with_headers_target)
  have "has_header ?q ''x-amz-copy-source''"
    by (simp add: has_header_def with_headers_def header_Values_Add)
  then have "choose_handler Object_put ?q = Some h_CopyObject"
    using assms(3,4) by (simp add: choose_handler_def with_headers_target)
  then have "dispatch b l cx ?q = h_CopyObject b l cx pv ?q" using f by (intro dispatch_found) auto
  ultimately show ?thesis by simp
qed


theorem unsigned_header_makes_copy_witness:
  "\<exists>pv. find_handler (config example_bbs) example_signed_put = Found Object_put pv
     \<and> attest_authorization example_bbs example_library (''key'', ''pw'') (sc_now example_call)
         (with_headers (header_Add ''x-amz-copy-source'' ''other/secret'') example_signed_put) = (''key'', None)
     \<and> dispatch example_bbs example_library example_context
           (with_headers (header_Add ''x-amz-copy-source'' ''other/secret'') example_signed_put)
         = h_CopyObject example_bbs example_library example_context pv
             (with_headers (header_Add ''x-amz-copy-source'' ''other/secret'') example_signed_put)"
proof -
  note signed = example_signed_put_def [unfolded example_signed_put_is option.sel]
  have f: "find_handler (config example_bbs) example_signed_put = Found Object_put [(''bucket'', ''bkt''), (''key'', ''x'')]"
    unfolding signed by code_simp
  have n: "\<not> query_Has example_signed_put ''partNumber''" "\<not> query_Has example_signed_put ''tagging''"
    unfolding signed by code_simp+
  have "case Scan_aws_authorization (header_Get (rq_headers example_signed_put) ''Authorization'') of
      None \<Rightarrow> False | Some a \<Rightarrow> ''X-Amz-Copy-Source'' \<notin> set (SignedHeaders a)" unfolding signed by code_simp
  then obtain a where a: "Scan_aws_authorization (header_Get (rq_headers example_signed_put) ''Authorization'') = Some a"
    "''X-Amz-Copy-Source'' \<notin> set (SignedHeaders a)" by (auto split: option.splits)
  from unsigned_header_makes_copy [OF example_attested f n a] f show ?thesis by blast
qed

end
