(* ===== verification/Startup.thy ===== *)
theory Startup
  imports Xml Signing
begin

unbundle bit_operations_syntax

text \<open>
  The start of the server: the command line of v1/cmd/s3-baby-server/main.go, with the part of
  Go's package flag it uses, and what Start_server of v1/server/server.go checks and sets before
  it serves.  What is printed and logged is left out.
\<close>

section \<open>Package flag\<close>

text \<open>
  strconv.ParseInt with 0 for the base: the base is that of the prefix, and single underscores may
  stand behind the prefix and between digits.
\<close>

definition base_of_letter :: "char \<Rightarrow> nat option" where
  "base_of_letter c =
     (if c \<in> set ''bB'' then Some 2 else if c \<in> set ''oO'' then Some 8
      else if c \<in> set ''xX'' then Some 16 else None)"

definition split_base :: "string \<Rightarrow> nat \<times> string" where
  "split_base s =
     (if s = [] \<or> hd s \<noteq> CHR ''0'' then (10, s)
      else if length s < 3 then (8, tl s)
      else case base_of_letter (s ! 1) of Some n \<Rightarrow> (n, drop 2 s) | None \<Rightarrow> (8, tl s))"

fun underscores_ok :: "nat \<Rightarrow> char \<Rightarrow> string \<Rightarrow> bool" where
  "underscores_ok base saw [] \<longleftrightarrow> saw \<noteq> CHR ''_''"
| "underscores_ok base saw (c # cs) \<longleftrightarrow>
     (if (case digit_val c of None \<Rightarrow> False | Some d \<Rightarrow> d < base) then underscores_ok base (CHR ''0'') cs
      else if c = CHR ''_'' then saw = CHR ''0'' \<and> underscores_ok base c cs
      else saw \<noteq> CHR ''_'' \<and> underscores_ok base (CHR ''!'') cs)"

definition underscore_OK :: "string \<Rightarrow> bool" where
  "underscore_OK s =
     (if 2 \<le> length s \<and> hd s = CHR ''0'' \<and> base_of_letter (s ! 1) \<noteq> None
      then underscores_ok (if base_of_letter (s ! 1) = Some 16 then 16 else 10) (CHR ''0'') (drop 2 s)
      else underscores_ok 10 (CHR ''^'') s)"

definition parse_int_any_base :: "string \<Rightarrow> int option" where
  "parse_int_any_base s =
     (let neg = has_prefix s ''-''; body = (if neg \<or> has_prefix s ''+'' then tl s else s);
          (base, ds) = split_base body in
      if body = [] \<or> (CHR ''_'' \<in> set body \<and> \<not> underscore_OK body) then None
      else case digits_val base 0 (filter (\<lambda>c. c \<noteq> CHR ''_'') ds) of
             None \<Rightarrow> None
           | Some n \<Rightarrow>
               if neg then (if n \<le> 2 ^ 63 then Some (- int n) else None)
               else if n < 2 ^ 63 then Some (int n) else None)"

datatype flag_kind = F_bool | F_int | F_string

datatype flag_value = FV_bool bool | FV_int int | FV_string string

type_synonym flag_values = "(string \<times> flag_value) list"

definition flag_Set :: "flag_kind \<Rightarrow> string \<Rightarrow> flag_value option" where
  "flag_Set kind v =
     (case kind of
        F_bool \<Rightarrow> map_option FV_bool (parse_bool v)
      | F_int \<Rightarrow> map_option FV_int (parse_int_any_base v)
      | F_string \<Rightarrow> Some (FV_string v))"

text \<open>
  FlagSet.parseOne and the loop of FlagSet.Parse with ExitOnError: the flags that are set, the later
  ones first, and the arguments that remain; or the process exits, with 0 for -h, which is not
  defined, and with 2 for an error.
\<close>

datatype parsed = Parse_exit int | Parsed flag_values "string list"

datatype one_flag = One_exit int | One_stop "string list" | One_flag string flag_value "string list"

definition flag_value_of :: "flag_kind \<Rightarrow> string \<Rightarrow> string option \<Rightarrow> string list \<Rightarrow> one_flag" where
  "flag_value_of kind key given args =
     (let put = (\<lambda>v rest. case flag_Set kind v of None \<Rightarrow> One_exit 2 | Some x \<Rightarrow> One_flag key x rest) in
      case given of
        Some v \<Rightarrow> put v args
      | None \<Rightarrow>
          if kind = F_bool then One_flag key (FV_bool True) args
          else if args = [] then One_exit 2 else put (hd args) (tl args))"

definition flag_parseOne :: "(string \<times> flag_kind) list \<Rightarrow> string list \<Rightarrow> one_flag" where
  "flag_parseOne kinds args =
     (if args = [] then One_stop []
      else let s = hd args in
        if length s < 2 \<or> hd s \<noteq> CHR ''-'' then One_stop args
        else if s = ''--'' then One_stop (tl args)
        else let name = drop (if s ! 1 = CHR ''-'' then 2 else 1) s in
          if name = [] \<or> hd name = CHR ''-'' \<or> hd name = CHR ''='' then One_exit 2
          else let (key, given) =
              (case cut_at (CHR ''='') name of None \<Rightarrow> (name, None) | Some (k, v) \<Rightarrow> (k, Some v)) in
            (case map_of kinds key of
               None \<Rightarrow> One_exit (if key = ''help'' \<or> key = ''h'' then 0 else 2)
             | Some kind \<Rightarrow> flag_value_of kind key given (tl args)))"

lemma flag_value_of_shorter: "flag_value_of kind key given args = One_flag k x rest \<Longrightarrow> length rest \<le> length args"
  by (auto simp: flag_value_of_def Let_def split: option.splits if_splits)

lemma flag_parseOne_shorter: "flag_parseOne kinds args = One_flag k x rest \<Longrightarrow> length rest < length args"
  using flag_value_of_shorter [of _ _ _ "tl args" k x rest]
  by (cases args) (auto simp: flag_parseOne_def Let_def le_imp_less_Suc split: option.splits if_splits prod.splits)

function flag_Parse :: "(string \<times> flag_kind) list \<Rightarrow> string list \<Rightarrow> flag_values \<Rightarrow> parsed" where
  "flag_Parse kinds args vs =
     (case flag_parseOne kinds args of
        One_exit n \<Rightarrow> Parse_exit n
      | One_stop rest \<Rightarrow> Parsed vs rest
      | One_flag k x rest \<Rightarrow> flag_Parse kinds rest ((k, x) # vs))"
  by auto
termination by (relation "measure (\<lambda>(kinds, args, vs). length args)") (auto dest: flag_parseOne_shorter)

declare flag_Parse.simps [simp del]

section \<open>The command line\<close>

definition options :: "(string \<times> flag_kind) list" where
  "options =
     [(''help'', F_bool), (''version'', F_bool), (''cred'', F_string), (''https-crt'', F_string),
      (''https-key'', F_string), (''log'', F_string), (''log-access'', F_bool), (''conf'', F_string),
      (''prof'', F_int)]"

definition flag_text :: "flag_values \<Rightarrow> string \<Rightarrow> string" where
  "flag_text vs k = (case map_of vs k of Some (FV_string s) \<Rightarrow> s | _ \<Rightarrow> [])"

definition flag_bool :: "flag_values \<Rightarrow> string \<Rightarrow> bool" where
  "flag_bool vs k = (case map_of vs k of Some (FV_bool x) \<Rightarrow> x | _ \<Rightarrow> False)"

definition flag_int :: "flag_values \<Rightarrow> string \<Rightarrow> int" where
  "flag_int vs k = (case map_of vs k of Some (FV_int n) \<Rightarrow> n | _ \<Rightarrow> 0)"

text \<open>The arguments of Start_server.\<close>

record start_arguments =
  sa_dump_conf :: bool
  sa_cred :: keypair
  sa_cert :: "string \<times> string"
  sa_pool :: string
  sa_addr :: string
  sa_conf :: string
  sa_logs :: string
  sa_loga :: bool
  sa_prof :: int

datatype launch = Exit int | Start start_arguments

definition take_credentials :: "string \<Rightarrow> string \<Rightarrow> string \<Rightarrow> keypair option" where
  "take_credentials cred_pair env flag_cred =
     (let cred_pair1 = (if length cred_pair = 0 then env else cred_pair);
          cred_pair2 = (if length cred_pair1 = 0 then flag_cred else cred_pair1) in
      if length cred_pair2 = 0 then None
      else case cut_at (CHR '','') cred_pair2 of
        None \<Rightarrow> None
      | Some (access, secret) \<Rightarrow> if length access = 0 \<or> length secret = 0 then None else Some (access, secret))"

text \<open>filepath.Abs, with the working directory if it can be read.\<close>

definition filepath_Abs :: "string option \<Rightarrow> string \<Rightarrow> string option" where
  "filepath_Abs wd p =
     (if has_prefix p ''/'' then Some (path_clean p) else map_option (\<lambda>d. path_join [d, p]) wd)"

definition take_certificate :: "string option \<Rightarrow> string \<Rightarrow> string \<Rightarrow> (string \<times> string) option" where
  "take_certificate wd crt key =
     (if crt \<noteq> [] \<or> key \<noteq> []
      then if length crt = 0 \<or> length key = 0 then None
           else case (filepath_Abs wd crt, filepath_Abs wd key) of
              (Some crt2, Some key2) \<Rightarrow> Some (crt2, key2)
            | _ \<Rightarrow> None
      else Some ([], []))"

text \<open>What is done when the command has been read: its options and the pairs.\<close>

definition main_options ::
  "string option \<Rightarrow> string \<Rightarrow> bool \<Rightarrow> string \<Rightarrow> string \<Rightarrow> string \<Rightarrow> string list \<Rightarrow> launch" where
  "main_options wd env dump_conf cred_pair addr pool args_optional =
     (case flag_Parse options args_optional [] of
        Parse_exit n \<Rightarrow> Exit n
      | Parsed vs rest \<Rightarrow>
          if flag_bool vs ''help'' then Exit 2
          else if flag_bool vs ''version'' then Exit 0
          else if length rest \<noteq> 0 then Exit 2
          else (case take_credentials cred_pair env (flag_text vs ''cred'') of
            None \<Rightarrow> Exit 2
          | Some cred \<Rightarrow>
              (case take_certificate wd (flag_text vs ''https-crt'') (flag_text vs ''https-key'') of
                 None \<Rightarrow> Exit 2
               | Some cert \<Rightarrow>
                   Start \<lparr>sa_dump_conf = dump_conf, sa_cred = cred, sa_cert = cert, sa_pool = pool, sa_addr = addr,
                     sa_conf = flag_text vs ''conf'', sa_logs = flag_text vs ''log'',
                     sa_loga = flag_bool vs ''log-access'', sa_prof = flag_int vs ''prof''\<rparr>)))"

text \<open>The working directory, the variable S3BBS_CRED of the environment, and os.Args.\<close>

definition main :: "string option \<Rightarrow> string \<Rightarrow> string list \<Rightarrow> launch" where
  "main wd env args =
     (if length args \<le> 1 then Exit 2
      else if args ! 1 = ''serve''
      then if length args < 4 then Exit 2
           else main_options wd env False [] (args ! 2) (args ! 3) (drop 4 args)
      else if args ! 1 = ''dump-conf''
      then main_options wd env True ''--,--'' ''--'' ''--'' (drop 2 args)
      else if args ! 1 = ''version'' then Exit 0
      else Exit 2)"

section \<open>Start_server\<close>

text \<open>The levels of package slog, and the one more verbose than Debug.\<close>

definition LevelTrace :: int where "LevelTrace = - 8"

definition log_level :: "string \<Rightarrow> int option" where
  "log_level logs =
     (if logs = ''trace'' then Some LevelTrace
      else if logs = ''debug'' then Some (- 4)
      else if logs = ''info'' then Some 0
      else if logs = ''warn'' then Some 4
      else if logs = [] then Some 0
      else None)"

text \<open>
  What the start meets: the configuration a file of JSON makes of the default one, the mode bits
  of a directory, whether the working directory can be changed to it, whether .s3bbs/log is there
  (None for another error), whether the log in it can be opened, whether the address is free.
\<close>

record surroundings =
  sr_conf :: "string \<Rightarrow> bbs_configuration \<Rightarrow> bbs_configuration option"
  sr_mode :: "string \<Rightarrow> nat option"
  sr_chdir :: "string \<Rightarrow> bool"
  sr_log_dir :: "bool option"
  sr_open_log :: bool
  sr_listen :: "string \<Rightarrow> bool"

datatype log_sink = Log_stdout | Log_file string

definition permission_of_all :: "nat \<Rightarrow> nat" where
  "permission_of_all perm = (perm AND 7) OR (drop_bit 3 perm AND 7) OR (drop_bit 6 perm AND 7)"

definition take_configuration :: "surroundings \<Rightarrow> string \<Rightarrow> bbs_configuration option" where
  "take_configuration sr conf =
     (if conf \<noteq> [] then sr_conf sr (path_clean conf) default_config else Some default_config)"

definition enter_pool :: "surroundings \<Rightarrow> string \<Rightarrow> bool" where
  "enter_pool sr pool_directory =
     (let wdpath = path_clean pool_directory in
      case sr_mode sr wdpath of
        None \<Rightarrow> False
      | Some mode \<Rightarrow> permission_of_all (mode mod 512) = 7 \<and> sr_chdir sr wdpath)"

text \<open>The writers of the access log, in their order; none when it is off.\<close>

definition access_log_sinks :: "surroundings \<Rightarrow> bool \<Rightarrow> log_sink list option" where
  "access_log_sinks sr loga =
     (let log1 = (if loga then [Log_stdout] else []) in
      case sr_log_dir sr of
        None \<Rightarrow> None
      | Some False \<Rightarrow> Some log1
      | Some True \<Rightarrow>
          if sr_open_log sr then Some (log1 @ [Log_file (path_join [''.'', ''.s3bbs'', ''log'', ''access-log''])])
          else None)"

record running =
  rn_cred :: keypair
  rn_cert :: "string \<times> string"
  rn_config :: bbs_configuration
  rn_pool :: string
  rn_level :: int
  rn_sinks :: "log_sink list"
  rn_xml_limit :: int
  rn_proto :: string
  rn_prof :: int

datatype started = Stopped int | Running running

definition Start_server :: "surroundings \<Rightarrow> start_arguments \<Rightarrow> started" where
  "Start_server sr a =
     (case log_level (sa_logs a) of
        None \<Rightarrow> Stopped 2
      | Some level \<Rightarrow>
          (case take_configuration sr (sa_conf a) of
             None \<Rightarrow> Stopped 2
           | Some cfg \<Rightarrow>
               if sa_dump_conf a then Stopped 0
               else if \<not> enter_pool sr (sa_pool a) then Stopped 2
               else (case access_log_sinks sr (sa_loga a) of
                 None \<Rightarrow> Stopped 2
               | Some sinks \<Rightarrow>
                   if \<not> sr_listen sr (sa_addr a) then Stopped 2
                   else Running \<lparr>rn_cred = sa_cred a, rn_cert = sa_cert a, rn_config = cfg, rn_pool = sa_pool a,
                     rn_level = level, rn_sinks = sinks, rn_xml_limit = byte_size (Xml_parameter_size_limit cfg),
                     rn_proto = (if fst (sa_cert a) \<noteq> [] then ''https'' else ''http''), rn_prof = sa_prof a\<rparr>)))"

text \<open>The process: the command line, and the server if it gets there.\<close>

definition run_main :: "string option \<Rightarrow> string \<Rightarrow> surroundings \<Rightarrow> string list \<Rightarrow> started" where
  "run_main wd env sr args = (case main wd env args of Exit n \<Rightarrow> Stopped n | Start a \<Rightarrow> Start_server sr a)"

section \<open>What a server that runs has\<close>

lemma take_credentials_good:
  assumes "take_credentials c env f = Some (access, secret)"
  shows "access \<noteq> [] \<and> secret \<noteq> [] \<and> CHR '','' \<notin> set access
    \<and> access @ CHR '','' # secret = (if c \<noteq> [] then c else if env \<noteq> [] then env else f)"
  using assms cut_at_Some
  by (fastforce simp: take_credentials_def Let_def split: option.splits if_splits prod.splits)

lemma take_certificate_both:
  assumes "take_certificate wd crt key = Some (c, k)"
  shows "crt = [] \<and> key = [] \<and> c = [] \<and> k = [] \<or>
    crt \<noteq> [] \<and> key \<noteq> [] \<and> filepath_Abs wd crt = Some c \<and> filepath_Abs wd key = Some k"
  using assms by (auto simp: take_certificate_def split: option.splits if_splits)

lemma main_options_starts:
  assumes "main_options wd env dump c addr pool args = Start a"
  shows "\<exists>vs. flag_Parse options args [] = Parsed vs []
    \<and> take_credentials c env (flag_text vs ''cred'') = Some (sa_cred a)
    \<and> take_certificate wd (flag_text vs ''https-crt'') (flag_text vs ''https-key'') = Some (sa_cert a)
    \<and> sa_dump_conf a = dump \<and> sa_pool a = pool \<and> sa_addr a = addr \<and> sa_conf a = flag_text vs ''conf''
    \<and> sa_logs a = flag_text vs ''log''"
  using assms by (auto simp: main_options_def split: parsed.splits option.splits if_splits)

text \<open>
  A server that runs was started by the command serve, with the pool it names, has a key and a secret
  that are not empty, and both files of a certificate or none; somebody may read, write and search
  the pool, but it need not be the user of the server.
\<close>

lemma run_main_running:
  assumes "run_main wd env sr args = Running s"
  shows "fst (rn_cred s) \<noteq> [] \<and> snd (rn_cred s) \<noteq> [] \<and> CHR '','' \<notin> set (fst (rn_cred s))"
    and "4 \<le> length args \<and> args ! 1 = ''serve'' \<and> rn_pool s = args ! 3"
    and "\<exists>mode. sr_mode sr (path_clean (rn_pool s)) = Some mode \<and> permission_of_all (mode mod 512) = 7"
proof -
  obtain a where a: "main wd env args = Start a" "Start_server sr a = Running s"
    using assms by (auto simp: run_main_def split: launch.splits)
  have s: "\<not> sa_dump_conf a" "rn_cred s = sa_cred a" "rn_pool s = sa_pool a" "enter_pool sr (sa_pool a)"
    using a(2) by (auto simp: Start_server_def split: option.splits if_splits)
  have n: "main_options wd env True c addr pool rest \<noteq> Start a" for c addr pool rest
    using main_options_starts [of wd env True c addr pool rest a] s(1) by blast
  have m: "4 \<le> length args" "args ! 1 = ''serve''"
    "main_options wd env False [] (args ! 2) (args ! 3) (drop 4 args) = Start a"
    using a(1) n by (auto simp: main_def split: if_splits)
  note o = main_options_starts [OF m(3)]
  show "fst (rn_cred s) \<noteq> [] \<and> snd (rn_cred s) \<noteq> [] \<and> CHR '','' \<notin> set (fst (rn_cred s))"
    using o s(2) take_credentials_good by (metis prod.collapse)
  show "4 \<le> length args \<and> args ! 1 = ''serve'' \<and> rn_pool s = args ! 3" using m o s(3) by auto
  show "\<exists>mode. sr_mode sr (path_clean (rn_pool s)) = Some mode \<and> permission_of_all (mode mod 512) = 7"
    using s(3,4) by (auto simp: enter_pool_def Let_def split: option.splits)
qed

lemma permission_of_all_bits:
  "permission_of_all perm = 7 \<longleftrightarrow> (\<forall>i < 3. bit perm i \<or> bit perm (i + 3) \<or> bit perm (i + 6))"
proof -
  have b: "bit (permission_of_all perm) i \<longleftrightarrow> i < 3 \<and> (bit perm i \<or> bit perm (i + 3) \<or> bit perm (i + 6))" for i
  proof -
    have "bit (7 :: nat) i \<longleftrightarrow> i < 3" using bit_mask_iff [of 3 i, where ?'a = nat] by (simp add: mask_eq_exp_minus_1)
    then show ?thesis by (auto simp: permission_of_all_def bit_simps add.commute)
  qed
  have "permission_of_all perm = 7 \<longleftrightarrow> (\<forall>i. bit (permission_of_all perm) i = bit (7 :: nat) i)"
    by (simp add: bit_eq_iff)
  then show ?thesis
    using bit_mask_iff [of 3 _, where ?'a = nat] by (auto simp: b mask_eq_exp_minus_1)
qed

text \<open>The process ends with 0 or 2.\<close>

lemma flag_parseOne_exit: "flag_parseOne kinds args = One_exit n \<Longrightarrow> n = 0 \<or> n = 2"
  by (auto simp: flag_parseOne_def flag_value_of_def Let_def split: option.splits if_splits prod.splits)

lemma flag_Parse_exit: "flag_Parse kinds args vs = Parse_exit n \<Longrightarrow> n = 0 \<or> n = 2"
proof (induction kinds args vs rule: flag_Parse.induct)
  case (1 kinds args vs)
  then show ?case using flag_parseOne_exit [of kinds args]
    by (cases "flag_parseOne kinds args") (auto simp: flag_Parse.simps [of kinds args])
qed

lemma run_main_exit: "run_main wd env sr args = Stopped n \<Longrightarrow> n = 0 \<or> n = 2"
proof -
  assume a: "run_main wd env sr args = Stopped n"
  have "main_options wd env dump c addr pool rest = Exit n \<Longrightarrow> n = 0 \<or> n = 2" for dump c addr pool rest
    using flag_Parse_exit by (auto simp: main_options_def split: if_splits option.splits parsed.splits)
  moreover have "Start_server sr x = Stopped n \<Longrightarrow> n = 0 \<or> n = 2" for x
    by (auto simp: Start_server_def split: if_splits option.splits)
  ultimately show ?thesis using a by (auto simp: run_main_def main_def split: launch.splits if_splits)
qed

text \<open>Options written with an equals sign are read back, whatever their values.\<close>

definition option_text :: "string \<times> string \<Rightarrow> string" where
  "option_text x = ''-'' @ fst x @ ''='' @ snd x"

lemma flag_Parse_print:
  assumes "\<forall>(k, v) \<in> set xs. map_of kinds k = Some F_string \<and> k \<noteq> [] \<and> hd k \<noteq> CHR ''-'' \<and> CHR ''='' \<notin> set k"
  shows "flag_Parse kinds (map option_text xs) vs = Parsed (rev (map (\<lambda>(k, v). (k, FV_string v)) xs) @ vs) []"
  using assms
proof (induction xs arbitrary: vs)
  case (Cons x xs)
  obtain k v where x: "x = (k, v)" by fastforce
  obtain c cs where k: "k = c # cs" using Cons.prems x by (cases k) auto
  have c: "cut_at (CHR ''='') (k @ CHR ''='' # v) = Some (k, v)" using Cons.prems x cut_at_append by auto
  have "c \<noteq> CHR ''-''" "c \<noteq> CHR ''=''" using Cons.prems x k by auto
  then have "flag_parseOne kinds (map option_text (x # xs)) = One_flag k (FV_string v) (map option_text xs)"
    using Cons.prems x k c by (simp add: flag_parseOne_def flag_value_of_def option_text_def flag_Set_def)
  then show ?case using Cons x by (simp add: flag_Parse.simps [of kinds "option_text (k, v) # map option_text xs"])
qed (simp add: flag_Parse.simps flag_parseOne_def)

lemma parse_int_prefixed: "parse_int_any_base ''0x1_0'' = Some 16" "parse_int_any_base ''1__0'' = None"
  by (simp_all add: parse_int_any_base_def has_prefix_def split_base_def base_of_letter_def underscore_OK_def
      digit_val_def)

text \<open>The variable S3BBS_CRED has precedence over the option.\<close>

lemma credentials_of_environment:
  "main wd ''key,pw''
     [''s3-baby-server'', ''serve'', ''127.0.0.1:9000'', ''pool/'', ''-cred'', ''x,y'', ''--log=debug'', ''-log-access'']
   = Start \<lparr>sa_dump_conf = False, sa_cred = (''key'', ''pw''), sa_cert = ([], []), sa_pool = ''pool/'',
       sa_addr = ''127.0.0.1:9000'', sa_conf = [], sa_logs = ''debug'', sa_loga = True, sa_prof = 0\<rparr>"
  by code_simp

end
