(* ===== verification/Spec2Isabelle.thy ===== *)
theory Spec2Isabelle
  imports Naming Errors Scanner Conditions Parameters Chunked Checksum Object_paths Put_object Round_trip Quiet Monitor Deleting Tagging Buckets Listing Lists Multipart
    Copy_object Parts Uploads Conditional Http Signing Xml Slots Decoding Handlers Dispatch Routing Exchange Server Startup
begin

text \<open>
  A verification library for S3 Baby-server, an object server with the interface of AWS S3
  over a plain directory tree (Go, v1/server and pkg under src/).

  The program.  A request is authenticated (server.go, pkg/awss3aide), given an id and a scratch
  suffix (hodgepodge.go), dispatched by method, path and query (dispatcher.go), decoded into the
  input record of an action (handler.go), run by the action (api-action.go) and answered with
  headers and XML (handler.go, marshaler.go).  The actions use the file-system operations
  (fs-operation.go), the uploading and copying of data (copying.go, chunked-reader.go,
  range-reader.go, checksum.go), the listers (listing.go) and the monitor (monitor.go), which
  serializes the accesses to one object.  All state is in the pool directory: a bucket is a
  directory, an object a file, its metainfo a hidden file beside it, a multipart upload a hidden
  directory, and an upload in progress a hidden scratch file; beside them there are the queues of
  the monitor and the ids and suffixes in use.

  How a call is modelled.  A call is a function from the world to a result and the world after
  it (Os: type act).  A result is a value, an error record, a Go panic, or the end of the server
  by log.Fatal.  The world holds the file system, the faults the coming system calls meet, what
  other requests do while this one waits for the monitor, the regions held, the open files and
  the header of the request.  The record bbs holds the configuration and what the server is
  given by other code: digests, the text of a metafile in JSON, the authorities net/url
  accepts, the order in which a map is visited.  The record library (Decoding) holds the parser
  of XML text, the texts of errors, the signer of the AWS SDK, the creation time of a file and
  the address of the site.  The theorems hold for all values of these; the signer has a named
  hypothesis where a theorem needs one (signer_ok: what SignHTTP does with the headers, and that it signs the
  same again the same way), with an instance that has it.

  The theories, in the order of their dependence:
    Prelude: Go's byte strings, the functions of strings and strconv the code uses.
    Naming: the rules for bucket and object names (aws-s3-rule.go) and all constructions of
      paths (fs-operation.go); distinct objects and markers have distinct paths.
    Errors: the error table (aws-s3-error.go), the mapping of OS errors and error responses.
    Scanner: Range and entity tags (pkg/httpaide/scanner.go), with a round trip.
    Types, Gotime, Url: configuration and data records, time and net/url as far as used.
    Conditions, Parameters: the parameters of requests (hodgepodge.go): ranges, conditional
      headers against RFC 7232, with the cases where they depart from it, options, tags, part numbers, copy sources.
    Os, Frame, Reach, Fs_operation, Fs_frame, No_fault, Success: the file system with hard
      links and symbolic links, the operations on it, what they leave alone (frames, with the
      locale kept and its interpretations), what they have done when they succeed, and the ETag of
      an object at rest (object_etag).
    Chunked: the aws-chunked and HTTP chunked readers; the round trip of a stream that arrives in one
      piece (one whose line break is cut in two is refused), and termination however it is cut.
    Checksum, Copying, Copy_frame: checksums, scratch files, build_object with the region.
    Setup, Setup_ok, Object_paths: the checks every action begins with.
    Put_object, Get_object, Round_trip, Conditional, Deleting, Tagging, Buckets, Copy_object,
      Multipart, Parts, Uploads: the actions of api-action.go and deleting.go, what each has
      stored when it succeeds, what it leaves alone, and what it leaves when it fails.
    Listing, Lists: the listers (listing.go) and the list actions; the pages of a listing
      against the listing as a whole.
    Monitor: the queues, the guard loop and the tasks as one transition system; exclusion,
      order, wake-ups.
    Http: headers, requests and queries as net/http gives them.
    Signing: aws-s3-signing.go, the scanner of an Authorization header, the check of a
      credential and the signing of a request, which passes the check when it has the hash of its payload.
    Xml, Slots, Decoding, Handlers: the handlers.  A document is a tree; Xml reads the inputs
      from one (import_ functions of marshaler.go) and Decoding prints one from the outputs
      (marshal).  handler.go is generated code that repeats a few statements once for each slot
      of an input or output; Slots lists the slots of all actions and the enumerations, as they
      stand in the source, and Decoding has the meaning of the statements.  Handlers has a
      function h_X for each handler of the same name.  The values that reach an action have
      their types, and a parameter that does not read is refused before the action.
    Dispatch, Routing: the patterns of dispatcher.go, the way ServeMux of net/http finds a
      pattern (the tree of patterns, the unescaping of segments, the redirects to a clean path,
      405), and the choice of the handler; the names given to the handler make up the path.
    Exchange: answers with a success, and the round trip from the request of a PUT to the
      answer of a GET.
    Server: make_request_id, the scratch suffixes, the authorization and ServeHTTP, with the
      step relation request_step for requests served at the same time.
    Startup: the command line of main.go, read as package flag does, and the checks of
      Start_server; a server that runs has a key and a secret.
    Evaluation: code equations with which the witnesses are run.

  Bounds and fuel.  Strings are lists of bytes.  Integers of Go are ints, with int64 or a
  remainder where the code can wrap around; ids are microseconds in an uint64.  The loop that
  draws a scratch suffix has the ten tries of the source.  The recursion of
  check_directory_empty and of fs.WalkDir has fuel, one more than the depth of the tree
  (tree_depth), since every call descends by a component; for the first check_bucket_terminates
  shows that it is enough, for the second the theorems on the listers rest on it.  A reader that never ends is ruled out by a
  bound on its calls (chunked_read_terminates).

  Not modelled.  The shutdown of the server, the profiler and the statistics of memory: the
  end of the process and what only its maintainers see.  The timeouts of http.Server.  The
  decoding of the file of configuration from JSON, which is a parameter of the start.  The text
  of the usage, of the access log and of other log output, and the
  dump of headers for debugging.  The text of XML and its indentation: the documents are
  trees, and the parser is a parameter.  The casts of a file status to the structures of one
  operating system (sys_*.go).  pkg/quotedstring, which the server does not import, the Scheme
  program that generates the stubs, and the tests.  Of an answer that cannot be written to its
  client only the log would tell.
\<close>

end
